(* ===== verification/Prelude.thy ===== *)
theory Prelude
  imports Main "HOL-Library.Code_Target_Nat" "HOL-Library.List_Lexorder" "HOL-Library.Char_ord"
begin

text \<open>
  Shared vocabulary of the development: the exceptions the code raises, the result type
  of a call that may raise, the collections of simplification rules the component
  theories add to, and a few facts on lists and association lists that several of them use.
\<close>

named_theorems dict_simps \<open>rules that read a key of an updated dictionary\<close>
named_theorems text_simps \<open>rules on the string functions\<close>
named_theorems flow_simps \<open>unfolding rules of straight-line handlers\<close>

section \<open>Exceptions and results\<close>

text \<open>
  An exception is a value. The constructors are the exception classes the modelled code
  raises or catches by name; \<open>HTTPException\<close> carries the status code and the detail.
\<close>

datatype py_exc =
    ValueError string
  | KeyError string
  | TypeError string
  | AttributeError string
  | OverflowError string
  | HTTPException int string
  | OtherError string

type_synonym 'a result = "py_exc + 'a"

definition res_bind :: "'a result \<Rightarrow> ('a \<Rightarrow> 'b result) \<Rightarrow> 'b result" where
  "res_bind r f = (case r of Inl e \<Rightarrow> Inl e | Inr x \<Rightarrow> f x)"

lemma res_bind_simps [simp]:
  "res_bind (Inl e) f = Inl e"
  "res_bind (Inr x) f = f x"
  by (simp_all add: res_bind_def)

lemma res_bind_Inr: "res_bind r f = Inr y \<longleftrightarrow> (\<exists>x. r = Inr x \<and> f x = Inr y)"
  by (cases r) auto

lemma res_bind_Inl: "res_bind r f = Inl e \<longleftrightarrow> (r = Inl e \<or> (\<exists>x. r = Inr x \<and> f x = Inl e))"
  by (cases r) auto

text \<open>The class name Python prints with \<open>type(exc).__name__\<close>.\<close>

fun exc_name :: "py_exc \<Rightarrow> string" where
  "exc_name (ValueError _) = ''ValueError''"
| "exc_name (KeyError _) = ''KeyError''"
| "exc_name (TypeError _) = ''TypeError''"
| "exc_name (AttributeError _) = ''AttributeError''"
| "exc_name (OverflowError _) = ''OverflowError''"
| "exc_name (HTTPException _ _) = ''HTTPException''"
| "exc_name (OtherError s) = s"

text \<open>A loop that applies a fallible body to each item and keeps the results.\<close>

fun res_map :: "('a \<Rightarrow> 'b result) \<Rightarrow> 'a list \<Rightarrow> 'b list result" where
  "res_map f [] = Inr []"
| "res_map f (x # xs) =
     (case f x of
        Inl e \<Rightarrow> Inl e
      | Inr y \<Rightarrow> (case res_map f xs of Inl e \<Rightarrow> Inl e | Inr ys \<Rightarrow> Inr (y # ys)))"

lemma res_map_Inr: "res_map f xs = Inr ys \<longleftrightarrow> list_all2 (\<lambda>x y. f x = Inr y) xs ys"
proof (induction xs arbitrary: ys)
  case Nil
  then show ?case by auto
next
  case (Cons x xs)
  then show ?case
    by (cases ys) (auto simp: Cons.IH [symmetric] split: sum.splits)
qed

lemma res_map_length: "res_map f xs = Inr ys \<Longrightarrow> length ys = length xs"
  by (auto simp: res_map_Inr dest: list_all2_lengthD)

lemma res_map_set: "res_map f xs = Inr ys \<Longrightarrow> y \<in> set ys \<Longrightarrow> \<exists>x \<in> set xs. f x = Inr y"
  by (induction xs arbitrary: ys) (auto split: sum.splits)

section \<open>Dictionaries\<close>

text \<open>
  A Python dict is an association list in insertion order. \<open>dput\<close> replaces the value of
  an existing key in place and appends a new key at the end, as \<open>d[k] = v\<close> does;
  \<open>map_of\<close> is \<open>d.get(k)\<close>, and \<open>ddel\<close> is \<open>d.pop(k, None)\<close>.
\<close>

fun dput :: "'k \<Rightarrow> 'v \<Rightarrow> ('k \<times> 'v) list \<Rightarrow> ('k \<times> 'v) list" where
  "dput k v [] = [(k, v)]"
| "dput k v ((k', v') # d) = (if k' = k then (k, v) # d else (k', v') # dput k v d)"

definition ddel :: "'k \<Rightarrow> ('k \<times> 'v) list \<Rightarrow> ('k \<times> 'v) list" where
  "ddel k d = filter (\<lambda>kv. fst kv \<noteq> k) d"

definition dupdate :: "('k \<times> 'v) list \<Rightarrow> ('k \<times> 'v) list \<Rightarrow> ('k \<times> 'v) list" where
  "dupdate d e = fold (\<lambda>kv a. dput (fst kv) (snd kv) a) e d"

definition dget_default :: "('k \<times> 'v) list \<Rightarrow> 'k \<Rightarrow> 'v \<Rightarrow> 'v" where
  "dget_default d k v = (case map_of d k of None \<Rightarrow> v | Some x \<Rightarrow> x)"

lemma map_of_dput [simp, dict_simps]:
  "map_of (dput k v d) k' = (if k' = k then Some v else map_of d k')"
  by (induction k v d rule: dput.induct) auto

lemma map_of_ddel [simp, dict_simps]:
  "map_of (ddel k d) k' = (if k' = k then None else map_of d k')"
  by (induction d) (auto simp: ddel_def)

lemma keys_dput [simp]: "fst ` set (dput k v d) = insert k (fst ` set d)"
  by (induction k v d rule: dput.induct) auto

lemma distinct_dput [simp]: "distinct (map fst d) \<Longrightarrow> distinct (map fst (dput k v d))"
proof (induction k v d rule: dput.induct)
  case (1 k v)
  then show ?case by simp
next
  case (2 k v k' v' d)
  have "set (map fst (dput k v d)) = insert k (set (map fst d))"
    using keys_dput [of k v d] by simp
  with 2 show ?case by auto
qed

lemma distinct_ddel [simp]: "distinct (map fst d) \<Longrightarrow> distinct (map fst (ddel k d))"
  by (induction d) (auto simp: ddel_def)

lemma dput_ne_Nil [simp]: "dput k v d \<noteq> []"
  by (induction k v d rule: dput.induct) auto

lemma dupdate_Nil [simp]: "dupdate d [] = d"
  by (simp add: dupdate_def)

lemma dupdate_Cons [simp]: "dupdate d ((k, v) # e) = dupdate (dput k v d) e"
  by (simp add: dupdate_def)

lemma map_of_dupdate:
  "distinct (map fst e) \<Longrightarrow>
   map_of (dupdate d e) k = (case map_of e k of None \<Rightarrow> map_of d k | Some v \<Rightarrow> Some v)"
proof (induction e arbitrary: d)
  case Nil
  then show ?case by simp
next
  case (Cons kv e)
  obtain k0 v0 where [simp]: "kv = (k0, v0)" by (cases kv)
  from Cons show ?case
    by (auto split: option.splits simp: map_of_eq_None_iff image_iff)
qed

section \<open>Lists\<close>

text \<open>First occurrences, in order: the list a \<open>dict.fromkeys\<close> keeps.\<close>

fun dedup_from :: "'a list \<Rightarrow> 'a list \<Rightarrow> 'a list" where
  "dedup_from seen [] = []"
| "dedup_from seen (x # xs) =
     (if x \<in> set seen then dedup_from seen xs else x # dedup_from (x # seen) xs)"

definition dedup :: "'a list \<Rightarrow> 'a list" where
  "dedup xs = dedup_from [] xs"

lemma set_dedup_from: "set (dedup_from seen xs) = set xs - set seen"
  by (induction seen xs rule: dedup_from.induct) auto

lemma set_dedup [simp]: "set (dedup xs) = set xs"
  by (simp add: dedup_def set_dedup_from)

lemma distinct_dedup_from: "distinct (dedup_from seen xs)"
  by (induction seen xs rule: dedup_from.induct) (auto simp: set_dedup_from)

lemma distinct_dedup [simp]: "distinct (dedup xs)"
  by (simp add: dedup_def distinct_dedup_from)

lemma length_dedup_from: "length (dedup_from seen xs) \<le> length xs"
  by (induction seen xs rule: dedup_from.induct) (auto simp: le_SucI)

text \<open>The first item that a partial function accepts: a \<open>for\<close> loop with an early \<open>return\<close>.\<close>

fun first_some :: "('a \<Rightarrow> 'b option) \<Rightarrow> 'a list \<Rightarrow> 'b option" where
  "first_some f [] = None"
| "first_some f (x # xs) = (case f x of Some y \<Rightarrow> Some y | None \<Rightarrow> first_some f xs)"

lemma first_some_None: "first_some f xs = None \<longleftrightarrow> (\<forall>x \<in> set xs. f x = None)"
  by (induction xs) (auto split: option.splits)

lemma first_some_Some:
  "first_some f xs = Some y \<longleftrightarrow>
   (\<exists>us x vs. xs = us @ x # vs \<and> f x = Some y \<and> (\<forall>u \<in> set us. f u = None))"
proof (induction xs)
  case Nil
  then show ?case by simp
next
  case (Cons a xs)
  show ?case
  proof (cases "f a")
    case None
    have "(\<exists>us x vs. a # xs = us @ x # vs \<and> f x = Some y \<and> (\<forall>u \<in> set us. f u = None))
        \<longleftrightarrow> (\<exists>us x vs. xs = us @ x # vs \<and> f x = Some y \<and> (\<forall>u \<in> set us. f u = None))"
      (is "?L \<longleftrightarrow> ?R")
    proof
      assume ?L
      then obtain us x vs where e: "a # xs = us @ x # vs" "f x = Some y" "\<forall>u \<in> set us. f u = None"
        by blast
      with None have "us \<noteq> []" by (cases us) auto
      with e show ?R by (cases us) auto
    next
      assume ?R
      then obtain us x vs where "xs = us @ x # vs" "f x = Some y" "\<forall>u \<in> set us. f u = None"
        by blast
      with None show ?L by (intro exI [of _ "a # us"] exI [of _ x] exI [of _ vs]) auto
    qed
    with None Cons.IH show ?thesis by simp
  next
    case (Some z)
    then show ?thesis by (auto simp: Cons_eq_append_conv) (metis append_Nil empty_iff empty_set)
  qed
qed

end
