(* ===== verification/Py_Text.thy ===== *)
theory Py_Text
  imports Prelude
begin

text \<open>
  The string operations of Python that the program uses. A \<open>str\<close> is a list of
  characters, and a \<open>char\<close> stands for one of the code points 0 to 255, so the length of
  a string, its slices and its searches count what Python counts. On this alphabet
  whitespace, case folding and accent stripping are the ones of Python; text with code
  points above 255 is outside the model.
\<close>

section \<open>Characters\<close>

text \<open>\<open>str.isspace\<close> on one character.\<close>

definition py_isspace :: "char \<Rightarrow> bool" where
  "py_isspace c = (let n = (of_char c :: nat) in
     (9 \<le> n \<and> n \<le> 13) \<or> (28 \<le> n \<and> n \<le> 32) \<or> n = 133 \<or> n = 160)"

text \<open>\<open>str.lower\<close> and \<open>str.upper\<close> on one character (ASCII and the Latin-1 letters).\<close>

definition lower_char :: "char \<Rightarrow> char" where
  "lower_char c = (let n = (of_char c :: nat) in
     if (65 \<le> n \<and> n \<le> 90) \<or> (192 \<le> n \<and> n \<le> 222 \<and> n \<noteq> 215) then char_of (n + 32) else c)"

definition is_digit :: "char \<Rightarrow> bool" where
  "is_digit c = (let n = (of_char c :: nat) in 48 \<le> n \<and> n \<le> 57)"

definition is_az :: "char \<Rightarrow> bool" where
  "is_az c = (let n = (of_char c :: nat) in 97 \<le> n \<and> n \<le> 122)"

definition is_AZ :: "char \<Rightarrow> bool" where
  "is_AZ c = (let n = (of_char c :: nat) in 65 \<le> n \<and> n \<le> 90)"

text \<open>\<open>\\w\<close> of a regular expression on text.\<close>

definition is_word_char :: "char \<Rightarrow> bool" where
  "is_word_char c = (let n = (of_char c :: nat) in
     is_digit c \<or> is_az c \<or> is_AZ c \<or> n = 95 \<or> n \<in> {170, 178, 179, 181, 185, 186, 188, 189, 190} \<or>
     (192 \<le> n \<and> n \<noteq> 215 \<and> n \<noteq> 247))"

definition digit_val :: "char \<Rightarrow> nat" where
  "digit_val c = of_char c - 48"

section \<open>Strings\<close>

definition py_lower :: "string \<Rightarrow> string" where
  "py_lower s = map lower_char s"

definition py_lstrip :: "string \<Rightarrow> string" where
  "py_lstrip s = dropWhile py_isspace s"

definition py_rstrip :: "string \<Rightarrow> string" where
  "py_rstrip s = rev (dropWhile py_isspace (rev s))"

definition py_strip :: "string \<Rightarrow> string" where
  "py_strip s = py_rstrip (py_lstrip s)"

definition py_startswith :: "string \<Rightarrow> string \<Rightarrow> bool" where
  "py_startswith s p = (take (length p) s = p)"

definition py_endswith :: "string \<Rightarrow> string \<Rightarrow> bool" where
  "py_endswith s p = (length p \<le> length s \<and> drop (length s - length p) s = p)"

text \<open>\<open>s.find(sub)\<close> with \<open>None\<close> for \<open>-1\<close>, and \<open>sub in s\<close>.\<close>

fun py_find :: "string \<Rightarrow> string \<Rightarrow> nat option" where
  "py_find [] sub = (if sub = [] then Some 0 else None)"
| "py_find (c # s) sub =
     (if py_startswith (c # s) sub then Some 0 else map_option Suc (py_find s sub))"

definition py_contains :: "string \<Rightarrow> string \<Rightarrow> bool" where
  "py_contains sub s = (py_find s sub \<noteq> None)"

text \<open>\<open>s.split(sep, 1)\<close> for a separator of one character.\<close>

fun split_first :: "char \<Rightarrow> string \<Rightarrow> string \<times> string option" where
  "split_first sep [] = ([], None)"
| "split_first sep (c # s) =
     (if c = sep then ([], Some s) else (case split_first sep s of (a, b) \<Rightarrow> (c # a, b)))"

text \<open>\<open>s.split(sep)\<close> for a separator of one character, and \<open>sep.join(parts)\<close>.\<close>

fun split_all :: "char \<Rightarrow> string \<Rightarrow> string list" where
  "split_all sep [] = [[]]"
| "split_all sep (c # s) =
     (if c = sep then [] # split_all sep s
      else (case split_all sep s of [] \<Rightarrow> [[c]] | p # ps \<Rightarrow> (c # p) # ps))"

fun py_join :: "string \<Rightarrow> string list \<Rightarrow> string" where
  "py_join sep [] = []"
| "py_join sep [x] = x"
| "py_join sep (x # y # ys) = x @ sep @ py_join sep (y # ys)"

text \<open>\<open>s.split()\<close>: the maximal runs of characters that are not whitespace.\<close>

fun split_ws_acc :: "string \<Rightarrow> string \<Rightarrow> string list" where
  "split_ws_acc acc [] = (if acc = [] then [] else [rev acc])"
| "split_ws_acc acc (c # s) =
     (if py_isspace c then (if acc = [] then split_ws_acc [] s else rev acc # split_ws_acc [] s)
      else split_ws_acc (c # acc) s)"

definition py_split_ws :: "string \<Rightarrow> string list" where
  "py_split_ws s = split_ws_acc [] s"

text \<open>\<open>s.replace(a, b)\<close> for one character \<open>a\<close>.\<close>

definition replace_char :: "char \<Rightarrow> string \<Rightarrow> string \<Rightarrow> string" where
  "replace_char a b s = concat (map (\<lambda>c. if c = a then b else [c]) s)"

text \<open>Decimal digits of a number, as \<open>str(n)\<close> prints them, and \<open>int(text)\<close> on digits.\<close>

fun nat_digits :: "nat \<Rightarrow> string" where
  "nat_digits n = (if n < 10 then [char_of (48 + n)] else nat_digits (n div 10) @ [char_of (48 + n mod 10)])"

declare nat_digits.simps [simp del]

definition int_str :: "int \<Rightarrow> string" where
  "int_str i = (if i < 0 then ''-'' @ nat_digits (nat (- i)) else nat_digits (nat i))"

definition digits_val :: "string \<Rightarrow> nat" where
  "digits_val s = foldl (\<lambda>a c. 10 * a + digit_val c) 0 s"

text \<open>
  \<open>int(text)\<close> on a string: surrounding whitespace, an optional sign, and digits that may
  be separated by single underscores; everything else raises \<open>ValueError\<close>.
\<close>

fun int_digits :: "bool \<Rightarrow> string \<Rightarrow> string option" where
  "int_digits seen [] = (if seen then Some [] else None)"
| "int_digits seen (c # s) =
     (if is_digit c then map_option (\<lambda>r. c # r) (int_digits True s)
      else if c = CHR ''_'' \<and> seen then int_digits False s
      else None)"

definition int_of_text :: "string \<Rightarrow> int option" where
  "int_of_text t = (let s = py_strip t in
     case s of
       [] \<Rightarrow> None
     | c # r \<Rightarrow>
         if c = CHR ''-'' then map_option (\<lambda>d. - int (digits_val d)) (int_digits False r)
         else if c = CHR ''+'' then map_option (\<lambda>d. int (digits_val d)) (int_digits False r)
         else map_option (\<lambda>d. int (digits_val d)) (int_digits False s))"

section \<open>Laws\<close>

lemma py_lstrip_idem [simp, text_simps]: "py_lstrip (py_lstrip s) = py_lstrip s"
  by (simp add: py_lstrip_def)

lemma py_strip_Nil [simp, text_simps]: "py_strip [] = []"
  by (simp add: py_strip_def py_rstrip_def py_lstrip_def)

lemma dropWhile_rev_hd: "s \<noteq> [] \<Longrightarrow> \<not> P (hd s) \<Longrightarrow> \<not> P (hd (rev (dropWhile P (rev s))))"
proof -
  assume a: "s \<noteq> []" "\<not> P (hd s)"
  then obtain c r where s: "s = c # r" "\<not> P c" by (cases s) auto
  have "dropWhile P (rev r @ [c]) = dropWhile P (rev r) @ [c]"
    using s(2) by (simp add: dropWhile_append3)
  with s show ?thesis by simp
qed

lemma py_strip_idem [simp, text_simps]: "py_strip (py_strip s) = py_strip s"
proof (cases "py_lstrip s")
  case Nil
  then have "py_strip s = []" by (simp add: py_strip_def py_rstrip_def)
  then show ?thesis by simp
next
  case (Cons c r)
  then have nc: "\<not> py_isspace c"
    unfolding py_lstrip_def by (metis hd_dropWhile list.distinct(1) list.sel(1))
  let ?t = "rev (dropWhile py_isspace (rev (c # r)))"
  have e: "dropWhile py_isspace (rev (c # r)) = dropWhile py_isspace (rev r) @ [c]"
    using nc by (simp add: dropWhile_append3)
  then have t: "?t = c # rev (dropWhile py_isspace (rev r))" by simp
  have "dropWhile py_isspace ?t = ?t" using nc by (simp only: t) simp
  moreover have "dropWhile py_isspace (rev ?t) = rev ?t" by simp
  ultimately show ?thesis
    using Cons by (simp add: py_strip_def py_rstrip_def py_lstrip_def)
qed

lemma py_startswith_append [simp, text_simps]: "py_startswith (p @ s) p"
  by (simp add: py_startswith_def)

lemma py_startswith_iff: "py_startswith s p \<longleftrightarrow> (\<exists>t. s = p @ t)"
  unfolding py_startswith_def by (metis append_take_drop_id append_eq_conv_conj)

lemma py_endswith_iff: "py_endswith s p \<longleftrightarrow> (\<exists>t. s = t @ p)"
proof
  assume "py_endswith s p"
  then show "\<exists>t. s = t @ p"
    unfolding py_endswith_def by (metis append_take_drop_id)
next
  assume "\<exists>t. s = t @ p"
  then show "py_endswith s p" by (auto simp: py_endswith_def)
qed

lemma py_find_Some: "py_find s sub = Some i \<Longrightarrow> \<exists>a b. s = a @ sub @ b \<and> length a = i"
proof (induction s sub arbitrary: i rule: py_find.induct)
  case (1 sub)
  then show ?case by (auto split: if_splits)
next
  case (2 c s sub)
  show ?case
  proof (cases "py_startswith (c # s) sub")
    case True
    with 2 show ?thesis by (auto simp: py_startswith_iff)
  next
    case False
    with 2 obtain j where "py_find s sub = Some j" "i = Suc j" by auto
    with 2 False obtain a b where "s = a @ sub @ b" "length a = j" by blast
    with \<open>i = Suc j\<close> show ?thesis
      by (intro exI [of _ "c # a"] exI [of _ b]) auto
  qed
qed

lemma py_find_None_append: "py_find (a @ sub @ b) sub \<noteq> None"
proof (induction a)
  case Nil
  have "py_startswith (sub @ b) sub" by simp
  then show ?case by (cases "sub @ b") auto
next
  case (Cons c a)
  then show ?case by (cases "py_startswith ((c # a) @ sub @ b) sub") simp_all
qed

lemma py_contains_iff: "py_contains sub s \<longleftrightarrow> (\<exists>a b. s = a @ sub @ b)"
  unfolding py_contains_def using py_find_Some py_find_None_append by blast

lemma split_first_Some: "split_first sep s = (a, Some b) \<Longrightarrow> s = a @ sep # b \<and> sep \<notin> set a"
proof (induction s arbitrary: a)
  case Nil
  then show ?case by simp
next
  case (Cons c s)
  obtain a' b' where r: "split_first sep s = (a', b')" by (cases "split_first sep s")
  show ?case
  proof (cases "c = sep")
    case True
    with Cons.prems show ?thesis by auto
  next
    case False
    with Cons.prems r have "a = c # a'" "b' = Some b" by auto
    with Cons.IH [of a'] r False show ?thesis by auto
  qed
qed

lemma split_first_None: "split_first sep s = (a, None) \<Longrightarrow> a = s \<and> sep \<notin> set s"
proof (induction s arbitrary: a)
  case Nil
  then show ?case by simp
next
  case (Cons c s)
  obtain a' b' where r: "split_first sep s = (a', b')" by (cases "split_first sep s")
  show ?case
  proof (cases "c = sep")
    case True
    with Cons.prems show ?thesis by auto
  next
    case False
    with Cons.prems r have "a = c # a'" "b' = None" by auto
    with Cons.IH [of a'] r False show ?thesis by auto
  qed
qed

lemma split_first_append:
  "sep \<notin> set a \<Longrightarrow> split_first sep (a @ sep # b) = (a, Some b)"
  by (induction a) auto

lemma split_all_ne [simp]: "split_all sep s \<noteq> []"
  by (induction sep s rule: split_all.induct) (auto split: list.splits)

lemma join_split_all: "py_join [sep] (split_all sep s) = s"
proof (induction sep s rule: split_all.induct)
  case (1 sep)
  then show ?case by simp
next
  case (2 sep c s)
  obtain p ps where p: "split_all sep s = p # ps" by (cases "split_all sep s") auto
  with 2 show ?case by (cases ps) auto
qed

lemma py_strip_sub: "set (py_strip s) \<subseteq> set s"
proof -
  have "set (py_strip s) \<subseteq> set (py_lstrip s)"
    unfolding py_strip_def py_rstrip_def by (auto dest: set_dropWhileD)
  also have "\<dots> \<subseteq> set s" unfolding py_lstrip_def by (auto dest: set_dropWhileD)
  finally show ?thesis .
qed

lemma py_strip_id:
  "s \<noteq> [] \<Longrightarrow> \<not> py_isspace (hd s) \<Longrightarrow> \<not> py_isspace (last s) \<Longrightarrow> py_strip s = s"
proof -
  assume a: "s \<noteq> []" "\<not> py_isspace (hd s)" "\<not> py_isspace (last s)"
  then have l: "py_lstrip s = s" unfolding py_lstrip_def by (cases s) auto
  have "dropWhile py_isspace (rev s) = rev s"
    using a by (cases s rule: rev_cases) auto
  with l show ?thesis by (simp add: py_strip_def py_rstrip_def)
qed

end
