(* ===== verification/Py_Value.thy ===== *)
theory Py_Value
  imports Py_Text Complex_Main
begin

text \<open>
  Python values as the program handles them: what \<open>json.loads\<close> returns and what a
  request body, a tool result or a chat message metadata holds. A \<open>float\<close> is known by its
  \<open>repr\<close>, which determines it; a dict is an association list in insertion order with
  string keys, as JSON has them.
\<close>

datatype py =
    PNone
  | PBool bool
  | PInt int
  | PFloat string
  | PStr string
  | PList "py list"
  | PDict "(string \<times> py) list"

type_synonym pydict = "(string \<times> py) list"

section \<open>Type tests and truth\<close>

fun is_dict :: "py \<Rightarrow> bool" where
  "is_dict (PDict _) = True"
| "is_dict _ = False"

fun is_list :: "py \<Rightarrow> bool" where
  "is_list (PList _) = True"
| "is_list _ = False"

fun is_str :: "py \<Rightarrow> bool" where
  "is_str (PStr _) = True"
| "is_str _ = False"

text \<open>\<open>x if isinstance(x, dict) else {}\<close>, and the same for lists.\<close>

fun dict_or_empty :: "py \<Rightarrow> pydict" where
  "dict_or_empty (PDict d) = d"
| "dict_or_empty _ = []"

fun list_or_empty :: "py \<Rightarrow> py list" where
  "list_or_empty (PList xs) = xs"
| "list_or_empty _ = []"

text \<open>\<open>bool(x)\<close>: a float is false when it is a zero.\<close>

fun truthy :: "py \<Rightarrow> bool" where
  "truthy PNone = False"
| "truthy (PBool b) = b"
| "truthy (PInt i) = (i \<noteq> 0)"
| "truthy (PFloat r) = (r \<noteq> ''0.0'' \<and> r \<noteq> ''-0.0'')"
| "truthy (PStr s) = (s \<noteq> [])"
| "truthy (PList xs) = (xs \<noteq> [])"
| "truthy (PDict d) = (d \<noteq> [])"

text \<open>\<open>a or b\<close> on values.\<close>

definition por :: "py \<Rightarrow> py \<Rightarrow> py" where
  "por a b = (if truthy a then a else b)"

text \<open>\<open>d.get(k)\<close> and \<open>d.get(k, default)\<close>.\<close>

definition pget :: "pydict \<Rightarrow> string \<Rightarrow> py" where
  "pget d k = dget_default d k PNone"

definition has_key :: "string \<Rightarrow> pydict \<Rightarrow> bool" where
  "has_key k d = (map_of d k \<noteq> None)"

section \<open>\<open>str\<close> and \<open>repr\<close>\<close>

definition hex_digit :: "nat \<Rightarrow> char" where
  "hex_digit n = (if n < 10 then char_of (48 + n) else char_of (87 + n))"

text \<open>
  \<open>repr\<close> of a string: single quotes unless the text has a single quote and no double one;
  backslash, the quote in use, newline, carriage return, tab and the unprintable
  characters are escaped.
\<close>

definition repr_char :: "char \<Rightarrow> char \<Rightarrow> string" where
  "repr_char q c = (let n = (of_char c :: nat) in
     if c = q \<or> n = 92 then [char_of (92 :: nat), c]
     else if n = 10 then [char_of (92 :: nat), CHR ''n'']
     else if n = 13 then [char_of (92 :: nat), CHR ''r'']
     else if n = 9 then [char_of (92 :: nat), CHR ''t'']
     else if n < 32 \<or> (127 \<le> n \<and> n \<le> 160) \<or> n = 173
       then [char_of (92 :: nat), CHR ''x'', hex_digit (n div 16), hex_digit (n mod 16)]
     else [c])"

definition repr_str :: "string \<Rightarrow> string" where
  "repr_str s =
     (let sq = char_of (39 :: nat); dq = char_of (34 :: nat);
          q = (if sq \<in> set s \<and> dq \<notin> set s then dq else sq)
      in [q] @ concat (map (repr_char q) s) @ [q])"

fun py_repr :: "py \<Rightarrow> string" and repr_items :: "py list \<Rightarrow> string list"
  and repr_pairs :: "(string \<times> py) list \<Rightarrow> string list" where
  "py_repr PNone = ''None''"
| "py_repr (PBool b) = (if b then ''True'' else ''False'')"
| "py_repr (PInt i) = int_str i"
| "py_repr (PFloat r) = r"
| "py_repr (PStr s) = repr_str s"
| "py_repr (PList xs) = ''['' @ py_join '', '' (repr_items xs) @ '']''"
| "py_repr (PDict d) = ''{'' @ py_join '', '' (repr_pairs d) @ ''}''"
| "repr_items [] = []"
| "repr_items (x # xs) = py_repr x # repr_items xs"
| "repr_pairs [] = []"
| "repr_pairs ((k, v) # d) = (repr_str k @ '': '' @ py_repr v) # repr_pairs d"

fun py_str :: "py \<Rightarrow> string" where
  "py_str (PStr s) = s"
| "py_str v = py_repr v"

text \<open>\<open>str(x or "")\<close> and \<open>str(x or "").strip()\<close>, the two idioms the code reads text with.\<close>

definition str_or :: "py \<Rightarrow> string" where
  "str_or v = (if truthy v then py_str v else [])"

definition text_of :: "py \<Rightarrow> string" where
  "text_of v = py_strip (str_or v)"

text \<open>\<open>safe_text\<close> of \<open>app/utils/text.py\<close> (and of \<open>app/presentation/cards.py\<close>).\<close>

definition safe_text :: "py \<Rightarrow> string" where
  "safe_text v = (case v of PNone \<Rightarrow> [] | _ \<Rightarrow> py_strip (py_str v))"

text \<open>
  Iterating over a value: a list gives its items, a dict its keys, a string its characters;
  a number, a boolean or \<open>None\<close> raises \<open>TypeError\<close>.
\<close>

fun py_iter :: "py \<Rightarrow> py list result" where
  "py_iter (PList xs) = Inr xs"
| "py_iter (PDict d) = Inr (map (\<lambda>kv. PStr (fst kv)) d)"
| "py_iter (PStr s) = Inr (map (\<lambda>c. PStr [c]) s)"
| "py_iter _ = Inl (TypeError ''not iterable'')"

definition dicts_of :: "py list \<Rightarrow> pydict list" where
  "dicts_of xs = map dict_or_empty (filter is_dict xs)"

section \<open>Floating point numbers\<close>

text \<open>
  The value of a \<open>float\<close> or a \<open>Decimal\<close>: a rational, an infinity or not a number.
  Rounding is not modelled: a finite value is the exact rational its text denotes.
\<close>

datatype num = Fin rat | PosInf | NegInf | NaN

fun num_neg :: "num \<Rightarrow> num" where
  "num_neg (Fin q) = Fin (- q)"
| "num_neg PosInf = NegInf"
| "num_neg NegInf = PosInf"
| "num_neg NaN = NaN"

text \<open>\<open>a < b\<close>: false as soon as one of them is not a number.\<close>

fun num_less :: "num \<Rightarrow> num \<Rightarrow> bool" where
  "num_less (Fin a) (Fin b) = (a < b)"
| "num_less (Fin _) PosInf = True"
| "num_less NegInf (Fin _) = True"
| "num_less NegInf PosInf = True"
| "num_less _ _ = False"

text \<open>\<open>max(a, b)\<close> and \<open>min(a, b)\<close> keep the first argument unless the second is strictly better.\<close>

definition num_max :: "num \<Rightarrow> num \<Rightarrow> num" where
  "num_max a b = (if num_less a b then b else a)"

definition num_min :: "num \<Rightarrow> num \<Rightarrow> num" where
  "num_min a b = (if num_less b a then b else a)"

definition pow10 :: "int \<Rightarrow> rat" where
  "pow10 e = (if 0 \<le> e then 10 ^ nat e else 1 / 10 ^ nat (- e))"

text \<open>
  The number grammar of \<open>float(text)\<close>: a mantissa \<open>digits[.digits]\<close> or \<open>.digits\<close>, then an
  optional exponent; \<open>inf\<close>, \<open>infinity\<close> and \<open>nan\<close> in any case; an optional sign in front.
  Digits may be grouped with single underscores.
\<close>

fun span_digits :: "string \<Rightarrow> string \<times> string" where
  "span_digits [] = ([], [])"
| "span_digits (c # s) =
     (if is_digit c then (case span_digits s of (a, b) \<Rightarrow> (c # a, b))
      else if c = CHR ''_'' \<and> s \<noteq> [] \<and> is_digit (hd s) then span_digits s
      else ([], c # s))"

text \<open>A group starts with a digit: a leading underscore is not one.\<close>

definition take_digits :: "string \<Rightarrow> string \<times> string" where
  "take_digits s = (if s \<noteq> [] \<and> is_digit (hd s) then span_digits s else ([], s))"

definition parse_exponent :: "string \<Rightarrow> int option" where
  "parse_exponent s = (case s of
     [] \<Rightarrow> Some 0
   | c # r \<Rightarrow> if c = CHR ''e'' then
       (let neg = (r \<noteq> [] \<and> hd r = CHR ''-'');
            r' = (if r \<noteq> [] \<and> (hd r = CHR ''-'' \<or> hd r = CHR ''+'') then tl r else r)
        in case take_digits r' of (d, rest) \<Rightarrow>
             if d = [] \<or> rest \<noteq> [] then None
             else Some (if neg then - int (digits_val d) else int (digits_val d)))
     else None)"

definition parse_unsigned :: "string \<Rightarrow> num option" where
  "parse_unsigned s =
     (if s = ''inf'' \<or> s = ''infinity'' then Some PosInf
      else if s = ''nan'' then Some NaN
      else case take_digits s of (ip, r) \<Rightarrow>
        (case (if r \<noteq> [] \<and> hd r = CHR ''.'' then take_digits (tl r) else ([], r)) of (fp, r2) \<Rightarrow>
           if ip = [] \<and> fp = [] then None
           else map_option (\<lambda>e. Fin (of_nat (digits_val (ip @ fp)) * pow10 (e - int (length fp))))
                  (parse_exponent r2)))"

definition parse_num :: "string \<Rightarrow> num option" where
  "parse_num t = (let s = py_lower (py_strip t) in
     case s of
       [] \<Rightarrow> None
     | c # r \<Rightarrow> if c = CHR ''-'' then map_option num_neg (parse_unsigned r)
                else if c = CHR ''+'' then parse_unsigned r
                else parse_unsigned s)"

text \<open>\<open>float(x)\<close>.\<close>

fun py_float :: "py \<Rightarrow> num result" where
  "py_float (PInt i) = Inr (Fin (of_int i))"
| "py_float (PBool b) = Inr (Fin (if b then 1 else 0))"
| "py_float (PFloat r) = (case parse_num r of Some v \<Rightarrow> Inr v | None \<Rightarrow> Inr NaN)"
| "py_float (PStr s) = (case parse_num s of Some v \<Rightarrow> Inr v
     | None \<Rightarrow> Inl (ValueError ''could not convert string to float''))"
| "py_float _ = Inl (TypeError ''float() argument must be a string or a real number'')"

text \<open>\<open>int(x)\<close>: truncation towards zero on floats; a non-finite float raises.\<close>

fun num_trunc :: "num \<Rightarrow> int result" where
  "num_trunc (Fin q) = Inr (if 0 \<le> q then \<lfloor>q\<rfloor> else \<lceil>q\<rceil>)"
| "num_trunc NaN = Inl (ValueError ''cannot convert float NaN to integer'')"
| "num_trunc _ = Inl (OverflowError ''cannot convert float infinity to integer'')"

fun py_int :: "py \<Rightarrow> int result" where
  "py_int (PInt i) = Inr i"
| "py_int (PBool b) = Inr (if b then 1 else 0)"
| "py_int (PFloat r) = (case parse_num r of Some v \<Rightarrow> num_trunc v
     | None \<Rightarrow> Inl (ValueError ''cannot convert float NaN to integer''))"
| "py_int (PStr s) = (case int_of_text s of Some i \<Rightarrow> Inr i
     | None \<Rightarrow> Inl (ValueError ''invalid literal for int()''))"
| "py_int _ = Inl (TypeError ''int() argument must be a string or a real number'')"

section \<open>Laws\<close>

lemma pget_dput [simp, dict_simps]: "pget (dput k v d) k' = (if k' = k then v else pget d k')"
  by (simp add: pget_def dget_default_def)

lemma pget_ddel [simp, dict_simps]: "pget (ddel k d) k' = (if k' = k then PNone else pget d k')"
  by (simp add: pget_def dget_default_def)

lemma has_key_dput [simp, dict_simps]: "has_key k' (dput k v d) = (k' = k \<or> has_key k' d)"
  by (simp add: has_key_def)

lemma pget_Nil [simp, dict_simps]: "pget [] k = PNone"
  by (simp add: pget_def dget_default_def)

lemma pget_Cons [dict_simps]: "pget ((k', v) # d) k = (if k = k' then v else pget d k)"
  by (simp add: pget_def dget_default_def)

lemma is_dict_iff: "is_dict v \<longleftrightarrow> (\<exists>d. v = PDict d)"
  by (cases v) auto

lemma set_dicts_of [simp]: "d \<in> set (dicts_of xs) \<longleftrightarrow> PDict d \<in> set xs"
proof
  assume "d \<in> set (dicts_of xs)"
  then show "PDict d \<in> set xs" by (auto simp: dicts_of_def is_dict_iff)
next
  assume "PDict d \<in> set xs"
  then have "PDict d \<in> set (filter is_dict xs)" by simp
  then have "dict_or_empty (PDict d) \<in> set (dicts_of xs)" unfolding dicts_of_def set_map by (rule imageI)
  then show "d \<in> set (dicts_of xs)" by simp
qed

lemma text_of_PStr [simp, text_simps]: "text_of (PStr s) = py_strip s"
  by (cases s) (simp_all add: text_of_def str_or_def)

lemma text_of_PNone [simp, text_simps]: "text_of PNone = []"
  by (simp add: text_of_def str_or_def)

lemma text_of_strip [simp, text_simps]: "py_strip (text_of v) = text_of v"
  by (simp add: text_of_def)

lemma safe_text_strip [simp, text_simps]: "py_strip (safe_text v) = safe_text v"
  by (simp add: safe_text_def split: py.split)

lemma safe_text_PStr [simp, text_simps]: "safe_text (PStr s) = py_strip s"
  by (simp add: safe_text_def)

lemma safe_text_PNone [simp, text_simps]: "safe_text PNone = []"
  by (simp add: safe_text_def)

lemma truthy_por: "truthy (por a b) \<longleftrightarrow> truthy a \<or> truthy b"
  by (simp add: por_def)

text \<open>
  \<open>min(max(x, lo), hi)\<close> lands between its bounds for every number but NaN, which the two
  comparisons let through.
\<close>

lemma num_clamp:
  "lo \<le> hi \<Longrightarrow> num_min (num_max x (Fin lo)) (Fin hi) = NaN \<and> x = NaN \<or>
    (\<exists>q. num_min (num_max x (Fin lo)) (Fin hi) = Fin q \<and> lo \<le> q \<and> q \<le> hi)"
  by (cases x) (auto simp: num_min_def num_max_def)

end
