(* ===== verification/Tool_Contracts.thy ===== *)
theory Tool_Contracts
  imports Py_Value
begin

text \<open>
  The data shapes of the tool layer (\<open>app/tools/contracts.py\<close>): annotations, tool
  specifications, capabilities, the manifest a CRM publishes and the result of a tool
  call, each with the parser that reads it from the wire.
\<close>

section \<open>Annotations\<close>

record annotations =
  read_only :: bool
  destructive :: bool
  idempotent :: bool
  requires_confirmation :: bool
  capability :: string
  timeout_seconds :: num

definition needs_confirmation :: "annotations \<Rightarrow> bool" where
  "needs_confirmation a = (\<not> read_only a)"

text \<open>
  \<open>ToolAnnotations.from_manifest\<close>. The only step that can raise is \<open>float(...)\<close> on a
  \<open>timeoutSeconds\<close> that is not a number.
\<close>

definition annotations_from_manifest :: "py \<Rightarrow> annotations result" where
  "annotations_from_manifest v = (let raw = dict_or_empty v;
      ro = truthy (pget raw ''readOnlyHint'')
    in res_bind (py_float (por (pget raw ''timeoutSeconds'') (PInt (if ro then 15 else 30))))
      (\<lambda>t. Inr \<lparr>read_only = ro,
               destructive = truthy (pget raw ''destructiveHint''),
               idempotent = truthy (pget raw ''idempotentHint''),
               requires_confirmation = truthy (pget raw ''requiresConfirmation''),
               capability = py_str (por (pget raw ''capability'') (PStr ''crm'')),
               timeout_seconds = t\<rparr>))"

section \<open>Tool specifications\<close>

datatype tool_source = CrmSource | GatewaySource

record tool_spec =
  ts_name :: string
  ts_description :: string
  ts_schema :: pydict
  ts_annotations :: annotations
  ts_source :: tool_source
  ts_version :: string
  ts_title :: string

definition spec_from_manifest :: "pydict \<Rightarrow> tool_spec result" where
  "spec_from_manifest raw = (case pget raw ''inputSchema'' of
     PDict schema \<Rightarrow>
       if pget schema ''type'' \<noteq> PStr ''object''
       then Inl (ValueError ''inputSchema must be an object schema'')
       else if \<not> has_key ''name'' raw then Inl (KeyError ''name'')
       else res_bind (annotations_from_manifest (pget raw ''annotations''))
         (\<lambda>a. Inr \<lparr>ts_name = py_str (pget raw ''name''),
                        ts_description = str_or (pget raw ''description''),
                        ts_schema = schema,
                        ts_annotations = a,
                        ts_source = CrmSource,
                        ts_version = py_str (por (pget raw ''version'') (PStr ''0.0.0'')),
                        ts_title = str_or (pget raw ''title'')\<rparr>)
   | _ \<Rightarrow> Inl (ValueError ''inputSchema must be an object schema''))"

section \<open>Capabilities and the manifest\<close>

record capability_spec =
  cs_id :: string
  cs_title :: string
  cs_prompt :: string
  cs_default_on :: bool

definition capability_from_manifest :: "pydict \<Rightarrow> capability_spec" where
  "capability_from_manifest c =
     \<lparr>cs_id = py_str (pget c ''id''), cs_title = str_or (pget c ''title''),
      cs_prompt = str_or (pget c ''prompt''),
      cs_default_on = truthy (dget_default c ''default_on'' (PBool True))\<rparr>"

record manifest =
  mf_protocol :: string
  mf_hash :: string
  mf_tools :: "tool_spec list"
  mf_capabilities :: "capability_spec list"
  mf_stale :: bool

definition tools_protocol :: string where
  "tools_protocol = ''coripo-tools/1''"

text \<open>\<open>raw.get(key) or []\<close>, iterated, keeping the dicts with a truthy \<open>key2\<close>.\<close>

definition dict_items_with :: "string \<Rightarrow> py \<Rightarrow> pydict list result" where
  "dict_items_with k v = (if truthy v
     then res_bind (py_iter v)
       (\<lambda>xs. Inr (filter (\<lambda>d. truthy (pget d k)) (dicts_of xs)))
     else Inr [])"

definition parse_manifest :: "py \<Rightarrow> manifest result" where
  "parse_manifest v = (case v of
     PDict raw \<Rightarrow>
       let protocol = str_or (pget raw ''protocol'') in
       if protocol \<noteq> tools_protocol then Inl (ValueError ''unsupported tool protocol'')
       else res_bind (dict_items_with ''name'' (pget raw ''tools'')) (\<lambda>items.
            res_bind (res_map spec_from_manifest items) (\<lambda>tools.
            res_bind (dict_items_with ''id'' (pget raw ''capabilities'')) (\<lambda>caps.
              Inr \<lparr>mf_protocol = protocol, mf_hash = str_or (pget raw ''manifest_hash''),
                   mf_tools = tools, mf_capabilities = map capability_from_manifest caps,
                   mf_stale = False\<rparr>)))
   | _ \<Rightarrow> Inl (AttributeError ''get''))"

section \<open>Tool call results\<close>

record tool_result =
  tr_text :: string
  tr_structured :: pydict
  tr_is_error :: bool
  tr_meta :: pydict

definition error_code :: "tool_result \<Rightarrow> string option" where
  "error_code r = (if \<not> tr_is_error r then None
     else Some (py_str (por (pget (dict_or_empty (pget (tr_structured r) ''error'')) ''code'')
                            (PStr ''internal''))))"

definition confirmation :: "tool_result \<Rightarrow> pydict option" where
  "confirmation r = (case pget (tr_meta r) ''confirmation'' of
     PDict d \<Rightarrow> if truthy (pget d ''required'') then Some d else None
   | _ \<Rightarrow> None)"

definition result_from_wire :: "py \<Rightarrow> tool_result result" where
  "result_from_wire v = (case v of
     PDict raw \<Rightarrow>
       res_bind (if truthy (pget raw ''content'') then py_iter (pget raw ''content'') else Inr [])
         (\<lambda>content.
            let texts = map (\<lambda>c. str_or (pget c ''text''))
                          (filter (\<lambda>c. pget c ''type'' = PStr ''text'') (dicts_of content))
            in Inr \<lparr>tr_text = py_join [CHR 0x0A] texts,
                    tr_structured = dict_or_empty (pget raw ''structuredContent''),
                    tr_is_error = truthy (pget raw ''isError''),
                    tr_meta = dict_or_empty (pget raw ''meta'')\<rparr>)
   | _ \<Rightarrow> Inl (AttributeError ''get''))"

text \<open>\<open>ToolCallResult.error(code, message, details)\<close>; \<open>details or []\<close> is what it stores.\<close>

definition result_error :: "string \<Rightarrow> string \<Rightarrow> py \<Rightarrow> tool_result" where
  "result_error code message details =
     \<lparr>tr_text = message,
      tr_structured = [(''status'', PStr ''error''),
        (''error'', PDict [(''code'', PStr code), (''message'', PStr message),
                           (''details'', por details (PList []))])],
      tr_is_error = True, tr_meta = []\<rparr>"

section \<open>Laws\<close>

lemma error_code_result_error [simp]:
  "code \<noteq> [] \<Longrightarrow> error_code (result_error code msg d) = Some code"
  by (simp add: error_code_def result_error_def por_def pget_Cons)

lemma error_code_None [simp]: "error_code r = None \<longleftrightarrow> \<not> tr_is_error r"
  by (simp add: error_code_def)

lemma confirmation_result_error [simp]: "confirmation (result_error code msg d) = None"
  by (simp add: confirmation_def result_error_def)

lemma annotations_read_only:
  "annotations_from_manifest v = Inr a \<Longrightarrow>
   read_only a \<longleftrightarrow> truthy (pget (dict_or_empty v) ''readOnlyHint'')"
  by (auto simp: annotations_from_manifest_def Let_def res_bind_Inr)

lemma spec_from_manifest_source: "spec_from_manifest raw = Inr s \<Longrightarrow> ts_source s = CrmSource"
  by (auto simp: spec_from_manifest_def res_bind_Inr split: py.splits if_splits)

lemma dict_items_with_truthy:
  "dict_items_with k v = Inr ds \<Longrightarrow> d \<in> set ds \<Longrightarrow> truthy (pget d k)"
  by (auto simp: dict_items_with_def res_bind_Inr split: if_splits)

lemma parse_manifest_dict: "parse_manifest v = Inr m \<Longrightarrow> \<exists>raw. v = PDict raw"
  by (cases v) (auto simp: parse_manifest_def)

lemma parse_manifest_fields:
  assumes "parse_manifest (PDict raw) = Inr m"
  shows "mf_protocol m = tools_protocol" "mf_hash m = str_or (pget raw ''manifest_hash'')"
    "\<not> mf_stale m"
    "\<exists>items. dict_items_with ''name'' (pget raw ''tools'') = Inr items \<and>
             res_map spec_from_manifest items = Inr (mf_tools m)"
  using assms by (auto simp: parse_manifest_def Let_def res_bind_Inr split: if_splits)

text \<open>A tool that the manifest does not declare read-only is gated by a confirmation.\<close>

lemma manifest_tool_gated:
  assumes "parse_manifest (PDict raw) = Inr m" and "s \<in> set (mf_tools m)"
  shows "\<exists>t. truthy (pget t ''name'') \<and> spec_from_manifest t = Inr s \<and>
    (needs_confirmation (ts_annotations s) \<longleftrightarrow>
       \<not> truthy (pget (dict_or_empty (pget t ''annotations'')) ''readOnlyHint''))"
proof -
  from parse_manifest_fields(4) [OF assms(1)] obtain items
    where it: "dict_items_with ''name'' (pget raw ''tools'') = Inr items"
      and m: "res_map spec_from_manifest items = Inr (mf_tools m)" by blast
  from res_map_set [OF m assms(2)] obtain t
    where t: "t \<in> set items" "spec_from_manifest t = Inr s" by blast
  then have "annotations_from_manifest (pget t ''annotations'') = Inr (ts_annotations s)"
    by (auto simp: spec_from_manifest_def res_bind_Inr split: py.splits if_splits)
  from annotations_read_only [OF this] dict_items_with_truthy [OF it t(1)] t(2)
  show ?thesis by (auto simp: needs_confirmation_def)
qed

section \<open>A small manifest\<close>

text \<open>One reading tool and one writing tool, used by the closed instances of the theorems.\<close>

definition demo_manifest :: pydict where
  "demo_manifest =
     [(''protocol'', PStr ''coripo-tools/1''),
      (''manifest_hash'', PStr ''h1''),
      (''tools'', PList
        [PDict [(''name'', PStr ''crm_query_tool''), (''inputSchema'', PDict [(''type'', PStr ''object'')]),
                (''annotations'', PDict [(''readOnlyHint'', PBool True)])],
         PDict [(''name'', PStr ''crm_action_tool''), (''inputSchema'', PDict [(''type'', PStr ''object'')])]])]"

definition demo_annotations :: "bool \<Rightarrow> annotations" where
  "demo_annotations ro = \<lparr>read_only = ro, destructive = False, idempotent = False,
     requires_confirmation = False, capability = ''crm'',
     timeout_seconds = Fin (if ro then 15 else 30)\<rparr>"

definition demo_tool :: "string \<Rightarrow> bool \<Rightarrow> tool_spec" where
  "demo_tool nm ro = \<lparr>ts_name = nm, ts_description = [], ts_schema = [(''type'', PStr ''object'')],
     ts_annotations = demo_annotations ro, ts_source = CrmSource, ts_version = ''0.0.0'', ts_title = []\<rparr>"

definition demo_parsed :: manifest where
  "demo_parsed = \<lparr>mf_protocol = ''coripo-tools/1'', mf_hash = ''h1'',
     mf_tools = [demo_tool ''crm_query_tool'' True, demo_tool ''crm_action_tool'' False],
     mf_capabilities = [], mf_stale = False\<rparr>"

lemma demo_parse: "parse_manifest (PDict demo_manifest) = Inr demo_parsed"
  by code_simp

end
