(* ===== verification/Text_Utils.thy ===== *)
theory Text_Utils
  imports Py_Value
begin

text \<open>
  The shared text helpers (\<open>app/utils/text.py\<close>), the module aliases
  (\<open>app/utils/modules.py\<close>) and the id check (\<open>app/utils/crm_id.py\<close>). Each regular
  expression is the recogniser that its pattern denotes, tried at every position from the
  left, as \<open>re\<close> tries them.
\<close>

abbreviation nl :: string where "nl \<equiv> [CHR 0x0A]"

section \<open>Name normalisation\<close>

text \<open>
  NFD decomposition without the combining marks, on the letters of the model's alphabet:
  the accented Latin-1 letters become their base letter, every other character stays.
\<close>

definition base_letters :: "(nat \<times> char) list" where
  "base_letters =
     [(224, CHR ''a''), (225, CHR ''a''), (226, CHR ''a''), (227, CHR ''a''), (228, CHR ''a''), (229, CHR ''a''),
      (231, CHR ''c''), (232, CHR ''e''), (233, CHR ''e''), (234, CHR ''e''), (235, CHR ''e''),
      (236, CHR ''i''), (237, CHR ''i''), (238, CHR ''i''), (239, CHR ''i''), (241, CHR ''n''),
      (242, CHR ''o''), (243, CHR ''o''), (244, CHR ''o''), (245, CHR ''o''), (246, CHR ''o''),
      (249, CHR ''u''), (250, CHR ''u''), (251, CHR ''u''), (252, CHR ''u''),
      (253, CHR ''y''), (255, CHR ''y'')]"

definition unaccent_char :: "char \<Rightarrow> char" where
  "unaccent_char c = (case map_of base_letters (of_char c) of Some b \<Rightarrow> b | None \<Rightarrow> c)"

definition is_alnum_az :: "char \<Rightarrow> bool" where
  "is_alnum_az c = (is_az c \<or> is_digit c)"

text \<open>\<open>re.sub(r"[^a-z0-9]+", " ", s)\<close>: each maximal run of other characters is one blank.\<close>

fun collapse_other :: "bool \<Rightarrow> string \<Rightarrow> string" where
  "collapse_other in_run [] = []"
| "collapse_other in_run (c # s) =
     (if is_alnum_az c then c # collapse_other False s
      else if in_run then collapse_other True s
      else CHR '' '' # collapse_other True s)"

definition normalize_text :: "string \<Rightarrow> string" where
  "normalize_text v = py_strip (collapse_other False (map unaccent_char (py_lower (py_strip v))))"

section \<open>Tags\<close>

text \<open>\<open><think>.*?</think>\<close>, any case, over newlines: the shortest match is removed, repeatedly.\<close>

definition ci_startswith :: "string \<Rightarrow> string \<Rightarrow> bool" where
  "ci_startswith s p = py_startswith (py_lower s) p"

fun after_tag :: "string \<Rightarrow> string \<Rightarrow> string option" where
  "after_tag tag [] = (if tag = [] then Some [] else None)"
| "after_tag tag (c # s) =
     (if ci_startswith (c # s) tag then Some (drop (length tag) (c # s)) else after_tag tag s)"

lemma length_after_tag: "after_tag tag s = Some r \<Longrightarrow> length r \<le> length s"
  by (induction tag s rule: after_tag.induct) (auto split: if_splits)

definition think_open :: string where "think_open = ''<think>''"
definition think_close :: string where "think_close = ''</think>''"

function remove_think :: "string \<Rightarrow> string" where
  "remove_think [] = []"
| "remove_think (c # s) =
     (if ci_startswith (c # s) think_open then
        (case after_tag think_close (drop (length think_open) (c # s)) of
           Some r \<Rightarrow> remove_think r
         | None \<Rightarrow> c # remove_think s)
      else c # remove_think s)"
  by pat_completeness auto
termination
  by (relation "measure length") (auto simp: think_open_def dest!: length_after_tag)

definition strip_think_tags :: "py \<Rightarrow> string" where
  "strip_think_tags v = py_strip (remove_think (str_or v))"

text \<open>\<open></?answer>\<close>, any case.\<close>

function remove_answer :: "string \<Rightarrow> string" where
  "remove_answer [] = []"
| "remove_answer (c # s) =
     (if ci_startswith (c # s) ''<answer>'' then remove_answer (drop 8 (c # s))
      else if ci_startswith (c # s) ''</answer>'' then remove_answer (drop 9 (c # s))
      else c # remove_answer s)"
  by pat_completeness auto
termination
  by (relation "measure length") auto

definition strip_answer_tags :: "py \<Rightarrow> string" where
  "strip_answer_tags v = py_strip (remove_answer (str_or v))"

section \<open>European dates\<close>

text \<open>
  \<open>ISO_DATE_RE\<close>: a date \<open>dddd-dd-dd\<close> that no digit precedes, then greedily a time
  \<open>[ T]dd:dd\<close> with optional seconds, and no digit after the match. The optional parts are
  given up, innermost first, when the digit check after them fails.
\<close>

definition digits_at :: "nat \<Rightarrow> string \<Rightarrow> (string \<times> string) option" where
  "digits_at n s = (if n \<le> length s \<and> list_all is_digit (take n s)
     then Some (take n s, drop n s) else None)"

definition char_at :: "char list \<Rightarrow> string \<Rightarrow> string option" where
  "char_at cs s = (case s of [] \<Rightarrow> None | c # r \<Rightarrow> if c \<in> set cs then Some r else None)"

definition no_digit_next :: "string \<Rightarrow> bool" where
  "no_digit_next s = (s = [] \<or> \<not> is_digit (hd s))"

definition iso_date_part :: "string \<Rightarrow> (string \<times> string \<times> string \<times> string) option" where
  "iso_date_part s =
     Option.bind (digits_at 4 s) (\<lambda>(y, s1). Option.bind (char_at ''-'' s1) (\<lambda>s2.
     Option.bind (digits_at 2 s2) (\<lambda>(m, s3). Option.bind (char_at ''-'' s3) (\<lambda>s4.
     Option.bind (digits_at 2 s4) (\<lambda>(d, s5). Some (y, m, d, s5))))))"

definition iso_time_part :: "string \<Rightarrow> (string \<times> string \<times> string) option" where
  "iso_time_part s =
     Option.bind (char_at '' T'' s) (\<lambda>s1. Option.bind (digits_at 2 s1) (\<lambda>(h, s2).
     Option.bind (char_at '':'' s2) (\<lambda>s3. Option.bind (digits_at 2 s3) (\<lambda>(mi, s4). Some (h, mi, s4)))))"

definition iso_sec_part :: "string \<Rightarrow> (string \<times> string) option" where
  "iso_sec_part s = Option.bind (char_at '':'' s) (\<lambda>s1. digits_at 2 s1)"

record iso_match =
  im_year :: string
  im_month :: string
  im_day :: string
  im_time :: "(string \<times> string) option"
  im_sec :: "string option"
  im_rest :: string

definition iso_match_at :: "string \<Rightarrow> iso_match option" where
  "iso_match_at s = (case iso_date_part s of
     None \<Rightarrow> None
   | Some (y, m, d, r) \<Rightarrow>
       (let cand = (\<lambda>t sec rest. if no_digit_next rest
              then Some \<lparr>im_year = y, im_month = m, im_day = d, im_time = t, im_sec = sec, im_rest = rest\<rparr>
              else None);
            date_only = cand None None r
        in case iso_time_part r of
             None \<Rightarrow> date_only
           | Some (h, mi, r2) \<Rightarrow>
               (let with_time = (case cand (Some (h, mi)) None r2 of None \<Rightarrow> date_only | x \<Rightarrow> x)
                in case iso_sec_part r2 of
                     None \<Rightarrow> with_time
                   | Some (sec, r3) \<Rightarrow>
                       (case cand (Some (h, mi)) (Some sec) r3 of None \<Rightarrow> with_time | x \<Rightarrow> x))))"

definition iso_format :: "iso_match \<Rightarrow> string" where
  "iso_format m = nat_digits (digits_val (im_day m)) @ ''.'' @ nat_digits (digits_val (im_month m)) @ ''.'' @ im_year m @
     (case im_time m of
        None \<Rightarrow> []
      | Some (h, mi) \<Rightarrow> '' '' @ h @ '':'' @ mi @
          (case im_sec m of None \<Rightarrow> [] | Some sec \<Rightarrow> if sec = ''00'' then [] else '':'' @ sec))"

lemma digits_at_length: "digits_at n s = Some (a, r) \<Longrightarrow> length r = length s - n \<and> n \<le> length s"
  by (auto simp: digits_at_def split: if_splits)

lemma char_at_length: "char_at cs s = Some r \<Longrightarrow> length r < length s"
  by (auto simp: char_at_def split: list.splits if_splits)

lemma iso_match_at_length: "iso_match_at s = Some m \<Longrightarrow> length (im_rest m) < length s"
proof -
  assume a: "iso_match_at s = Some m"
  then obtain y mo d r where d: "iso_date_part s = Some (y, mo, d, r)"
    by (auto simp: iso_match_at_def split: option.splits)
  then have r: "length r < length s"
    by (auto simp: iso_date_part_def bind_eq_Some_conv dest!: digits_at_length char_at_length)
  have t: "length r2 < length r" if "iso_time_part r = Some (h, mi, r2)" for h mi r2
    using that by (auto simp: iso_time_part_def bind_eq_Some_conv dest!: digits_at_length char_at_length)
  have s: "length r3 < length r2" if "iso_sec_part r2 = Some (sec, r3)" for r2 sec r3
    using that by (auto simp: iso_sec_part_def bind_eq_Some_conv dest!: digits_at_length char_at_length)
  from a d r show ?thesis
    by (auto simp: iso_match_at_def Let_def split: option.splits if_splits prod.splits
        dest!: t s)
qed

text \<open>The scan keeps the character before the position for the \<open>(?<!\\d)\<close> check.\<close>

function european_dates :: "bool \<Rightarrow> string \<Rightarrow> string" where
  "european_dates after_digit [] = []"
| "european_dates after_digit (c # s) =
     (case (if after_digit then None else iso_match_at (c # s)) of
        Some m \<Rightarrow> iso_format m @ european_dates True (im_rest m)
      | None \<Rightarrow> c # european_dates (is_digit c) s)"
  by pat_completeness auto
termination
  by (relation "measure (\<lambda>(_, s). length s)") (auto dest!: iso_match_at_length split: if_splits)

definition format_european_dates :: "py \<Rightarrow> string" where
  "format_european_dates v = european_dates False (str_or v)"

section \<open>Module names\<close>

definition module_aliases :: "(string \<times> string) list" where
  "module_aliases =
     [(''account'', ''Accounts''), (''accounts'', ''Accounts''),
      (''call'', ''Calls''), (''calls'', ''Calls''),
      (''case'', ''Cases''), (''cases'', ''Cases''),
      (''contact'', ''Contacts''), (''contacts'', ''Contacts''),
      (''lead'', ''Leads''), (''leads'', ''Leads''),
      (''meeting'', ''Meetings''), (''meetings'', ''Meetings''),
      (''note'', ''Notes''), (''notes'', ''Notes''),
      (''opportunity'', ''Opportunities''), (''opportunities'', ''Opportunities''),
      (''opportunites'', ''Opportunities''),
      (''quote'', ''Quotes''), (''quotes'', ''Quotes''),
      (''task'', ''Tasks''), (''tasks'', ''Tasks''),
      (''user'', ''Users''), (''users'', ''Users''),
      (''acm_invoices'', ''acm_invoices''),
      (''order'', ''acm_orders''), (''orders'', ''acm_orders''), (''acm_orders'', ''acm_orders''),
      (''order_line'', ''acm_orders_lines''), (''order_lines'', ''acm_orders_lines''),
      (''acm_orders_lines'', ''acm_orders_lines''),
      (''quote_line'', ''Products''), (''quote_lines'', ''Products''),
      (''product'', ''ProductTemplates''), (''products'', ''ProductTemplates''),
      (''producttemplate'', ''ProductTemplates''), (''producttemplates'', ''ProductTemplates''),
      (''product_template'', ''ProductTemplates''), (''product_templates'', ''ProductTemplates'')]"

definition canonical_module_name :: "string \<Rightarrow> string" where
  "canonical_module_name v = (let t = py_strip v in
     if t = [] then [] else dget_default module_aliases (py_lower t) t)"

section \<open>Record ids\<close>

definition is_hex :: "char \<Rightarrow> bool" where
  "is_hex c = (let n = (of_char c :: nat) in is_digit c \<or> (97 \<le> n \<and> n \<le> 102) \<or> (65 \<le> n \<and> n \<le> 70))"

fun hex_groups :: "nat list \<Rightarrow> string \<Rightarrow> bool" where
  "hex_groups [] s = (s = [])"
| "hex_groups [n] s = (length s = n \<and> list_all is_hex s)"
| "hex_groups (n # ns) s =
     (n < length s \<and> list_all is_hex (take n s) \<and> s ! n = CHR ''-'' \<and> hex_groups ns (drop (Suc n) s))"

definition is_valid_crm_id :: "string \<Rightarrow> bool" where
  "is_valid_crm_id v = (let t = py_strip v in hex_groups [32] t \<or> hex_groups [8, 4, 4, 4, 12] t)"

section \<open>Lemmas\<close>

lemma canonical_empty [simp]: "canonical_module_name [] = []"
  by (simp add: canonical_module_name_def py_strip_def py_lstrip_def py_rstrip_def)

lemma canonical_strip [simp]: "canonical_module_name (py_strip s) = canonical_module_name s"
  by (simp add: canonical_module_name_def)

lemma hex_groups_chars: "hex_groups ns s \<Longrightarrow> list_all (\<lambda>c. is_hex c \<or> c = CHR ''-'') s"
proof (induction ns s rule: hex_groups.induct)
  case (3 n m ns s)
  then have "n < length s" by simp
  then have "s = take n s @ s ! n # drop (Suc n) s" by (rule id_take_nth_drop)
  moreover have "list_all (\<lambda>c. is_hex c \<or> c = CHR ''-'') (take n s @ s ! n # drop (Suc n) s)"
    using 3 by (auto simp: list_all_iff)
  ultimately show ?case by metis
qed (auto simp: list_all_iff)

text \<open>A valid id has no character that could leave a URL path segment or a filter value.\<close>

lemma valid_crm_id_chars:
  "is_valid_crm_id v \<Longrightarrow> py_strip v \<noteq> [] \<and> (\<forall>c \<in> set (py_strip v). is_hex c \<or> c = CHR ''-'')"
proof -
  assume "is_valid_crm_id v"
  then have "hex_groups [32] (py_strip v) \<or> hex_groups [8, 4, 4, 4, 12] (py_strip v)"
    and "py_strip v \<noteq> []"
    by (auto simp: is_valid_crm_id_def Let_def)
  then obtain ns where "hex_groups ns (py_strip v)" "py_strip v \<noteq> []" by blast
  with hex_groups_chars [of ns "py_strip v"] show ?thesis by (auto simp: list_all_iff)
qed

section \<open>Properties\<close>

text \<open>
  The alias table is not idempotent. \<open>quote_line\<close> means the quote-line module
  \<open>Products\<close>, but the exact name \<open>Products\<close> is itself looked up case-insensitively and
  becomes the catalog module \<open>ProductTemplates\<close>: the quote-line module is not reachable by
  its exact name. Every other canonical name of the table is a fixed point.
\<close>

theorem canonical_products_unreachable:
  "canonical_module_name ''quote_line'' = ''Products''
   \<and> canonical_module_name ''Products'' = ''ProductTemplates''
   \<and> list_all (\<lambda>(a, m). m = ''Products'' \<or> canonical_module_name m = m) module_aliases"
  by code_simp

end
