(* ===== verification/Form_Fields.thy ===== *)
theory Form_Fields
  imports Text_Utils
begin

text \<open>
  Values proposed for an open CRM form: the checks of \<open>app/engine/extraction.py\<close> that keep
  only real fields of the module's schema, the line rows and their catalog products, and the
  wire shape of a form patch (\<open>app/domain/form_patch.py\<close>). What the CRM sends as schema is
  untrusted JSON, so every loop over it may raise \<open>TypeError\<close>.
\<close>

text \<open>\<open>for x in (v or [])\<close>, keeping the dicts.\<close>

definition iter_or_empty :: "py \<Rightarrow> py list result" where
  "iter_or_empty v = (if truthy v then py_iter v else Inr [])"

definition iter_dicts :: "py \<Rightarrow> pydict list result" where
  "iter_dicts v = res_bind (iter_or_empty v) (\<lambda>xs. Inr (dicts_of xs))"

section \<open>The fields of a schema\<close>

definition schema_fields :: "pydict \<Rightarrow> pydict list result" where
  "schema_fields schema =
     res_bind (iter_dicts (pget schema ''sections'')) (\<lambda>sections.
     res_bind (res_map (\<lambda>s. iter_dicts (pget s ''fields'')) sections) (\<lambda>fs. Inr (concat fs)))"

definition field_type_map :: "pydict \<Rightarrow> (string \<times> string) list result" where
  "field_type_map schema = res_bind (schema_fields schema) (\<lambda>fs. Inr
     (fold (\<lambda>f types. if truthy (pget f ''name'') \<and> truthy (pget f ''type'')
              then dput (py_str (pget f ''name'')) (py_str (pget f ''type'')) types else types) fs []))"

text \<open>The first \<open>line_items\<close> field; the loops stop there.\<close>

definition is_line_field :: "pydict \<Rightarrow> bool" where
  "is_line_field f = (pget f ''type'' = PStr ''line_items'')"

fun find_line_field :: "pydict list \<Rightarrow> pydict option result" where
  "find_line_field [] = Inr None"
| "find_line_field (s # ss) = res_bind (iter_dicts (pget s ''fields''))
     (\<lambda>fs. case find is_line_field fs of Some f \<Rightarrow> Inr (Some f) | None \<Rightarrow> find_line_field ss)"

definition line_field_from_schema :: "pydict \<Rightarrow> pydict option result" where
  "line_field_from_schema schema =
     res_bind (iter_dicts (pget schema ''sections'')) find_line_field"

definition line_module :: "py \<Rightarrow> py result" where
  "line_module schema = (case schema of
     PDict d \<Rightarrow> res_bind (line_field_from_schema d)
       (\<lambda>f. Inr (case f of Some f \<Rightarrow> pget f ''line_module'' | None \<Rightarrow> PNone))
   | _ \<Rightarrow> Inr PNone)"

section \<open>Coercion of one value\<close>

definition is_relate :: "string \<Rightarrow> bool" where
  "is_relate ft = (ft \<in> set [''relate'', ''polymorphic_relate''])"

text \<open>\<open>PNone\<close> says that the value is dropped.\<close>

definition coerce_field_value :: "string \<Rightarrow> py \<Rightarrow> py" where
  "coerce_field_value ft v =
     (if is_relate ft then
        (case v of
           PDict d \<Rightarrow>
             if \<not> truthy (pget d ''name'') then PNone
             else PDict ([(''name'', PStr (py_str (pget d ''name'')))]
               @ (if truthy (pget d ''id'') then [(''id'', PStr (py_str (pget d ''id'')))] else [])
               @ (if ft = ''polymorphic_relate'' \<and> truthy (pget d ''module'')
                  then [(''module'', PStr (py_str (pget d ''module'')))] else []))
         | _ \<Rightarrow> PNone)
      else if is_dict v \<or> is_list v then PNone else v)"

section \<open>Validated fields\<close>

text \<open>The loop shared by the field check and the line rows: known keys, coerced, non-null.\<close>

fun keep_known :: "(string \<times> string) list \<Rightarrow> pydict \<Rightarrow> pydict \<Rightarrow> pydict" where
  "keep_known types [] acc = acc"
| "keep_known types ((k, v) # d) acc = (case map_of types k of
       None \<Rightarrow> keep_known types d acc
     | Some ft \<Rightarrow> (let c = coerce_field_value ft v in
         if c = PNone then keep_known types d acc else keep_known types d (dput k c acc)))"

definition validate_fields :: "py \<Rightarrow> pydict \<Rightarrow> pydict result" where
  "validate_fields raw schema = (case raw of
     PDict d \<Rightarrow> res_bind (field_type_map schema) (\<lambda>types. Inr (keep_known types d []))
   | _ \<Rightarrow> Inr [])"

section \<open>Line rows\<close>

definition editable_columns :: "pydict \<Rightarrow> (string \<times> string) list result" where
  "editable_columns lf = res_bind (iter_dicts (pget lf ''line_fields'')) (\<lambda>fs. Inr
     (fold (\<lambda>f cols. if truthy (pget f ''name'') \<and> truthy (pget f ''editable'')
              then dput (py_str (pget f ''name'')) (py_str (por (pget f ''type'') (PStr ''text''))) cols
              else cols) fs []))"

definition row_has_identity :: "pydict \<Rightarrow> bool" where
  "row_has_identity row = (truthy (pget row ''name'') \<or> truthy (pget row ''product_template_id''))"

definition dropped_row :: "nat \<Rightarrow> string \<Rightarrow> pydict" where
  "dropped_row i reason = [(''row'', PInt (int i)), (''reason'', PStr reason)]"

fun line_rows_loop ::
  "(string \<times> string) list \<Rightarrow> nat \<Rightarrow> py list \<Rightarrow> pydict list \<times> pydict list" where
  "line_rows_loop cols i [] = ([], [])"
| "line_rows_loop cols i (raw # raws) = (case line_rows_loop cols (Suc i) raws of (rows, dropped) \<Rightarrow>
     (case raw of
        PDict d \<Rightarrow> (let row = keep_known cols d [] in
          if row_has_identity row then (row # rows, dropped)
          else (rows, dropped_row i ''missing name or product_template_id'' # dropped))
      | _ \<Rightarrow> (rows, dropped_row i ''row is not an object'' # dropped)))"

definition validate_line_rows :: "py \<Rightarrow> pydict option \<Rightarrow> (pydict list \<times> pydict list) result" where
  "validate_line_rows raw_rows line_field = (case (line_field, raw_rows) of
     (Some lf, PList raws) \<Rightarrow>
       if lf = [] then Inr ([], [])
       else res_bind (editable_columns lf) (\<lambda>cols. Inr (line_rows_loop cols 0 raws))
   | _ \<Rightarrow> Inr ([], []))"

section \<open>Catalog products of the rows\<close>

definition matches_query :: "string \<Rightarrow> pydict \<Rightarrow> bool" where
  "matches_query q r = (q \<noteq> [] \<and> (q = normalize_text (str_or (pget r ''name''))
     \<or> q = normalize_text (str_or (pget r ''mft_part_num''))))"

definition pick_product :: "string \<Rightarrow> py list \<Rightarrow> pydict option" where
  "pick_product query xs =
     (let results = filter (\<lambda>r. truthy (pget r ''id'')) (dicts_of xs);
          q = normalize_text query;
          exact = filter (matches_query q) results
      in if length exact = 1 then Some (hd exact)
         else if exact = [] \<and> length results = 1 then Some (hd results)
         else None)"

definition already_linked :: "pydict \<Rightarrow> bool" where
  "already_linked row = (case pget row ''product_template_id'' of
     PDict t \<Rightarrow> truthy (pget t ''id'') | _ \<Rightarrow> False)"

definition row_query :: "pydict \<Rightarrow> string" where
  "row_query row = (let hint = (case pget row ''product_template_id'' of
       PDict t \<Rightarrow> pget t ''name'' | _ \<Rightarrow> PStr [])
     in text_of (por hint (pget row ''name'')))"

definition link_row :: "string \<Rightarrow> pydict \<Rightarrow> pydict \<Rightarrow> pydict" where
  "link_row query m row =
     (let nm = PStr (py_str (por (pget m ''name'') (PStr query)));
          r1 = dput ''product_template_id'' (PDict [(''id'', PStr (py_str (pget m ''id''))), (''name'', nm)]) row
      in if has_key ''name'' r1 then r1 else dput ''name'' nm r1)"

text \<open>
  \<open>lookup query\<close> is what the catalog lookup answers, decoded; a failure of the lookup or of the
  decoding is the empty payload, and a lookup that is cancelled (\<open>None\<close>) ends the call.
\<close>

definition payload_results :: "py result \<Rightarrow> py list result" where
  "payload_results r = (case r of
     Inr (PDict d) \<Rightarrow> iter_or_empty (pget d ''results'')
   | _ \<Rightarrow> Inr [])"

definition lookup_results :: "py result option \<Rightarrow> py list result" where
  "lookup_results r = (case r of None \<Rightarrow> Inl (OtherError ''CancelledError'') | Some x \<Rightarrow> payload_results x)"

definition needs_product :: "pydict \<Rightarrow> bool" where
  "needs_product row = (\<not> already_linked row \<and> row_query row \<noteq> [])"

definition linked_row :: "pydict \<Rightarrow> py list \<Rightarrow> pydict \<times> string list" where
  "linked_row row results = (case pick_product (row_query row) results of
     None \<Rightarrow> (row, [row_query row]) | Some m \<Rightarrow> (link_row (row_query row) m row, []))"

fun resolve_product_rows ::
  "(string \<Rightarrow> 'w \<Rightarrow> py result option \<times> 'w) \<Rightarrow> pydict list \<Rightarrow> 'w \<Rightarrow> (pydict list \<times> string list) result \<times> 'w" where
  "resolve_product_rows lookup [] w = (Inr ([], []), w)"
| "resolve_product_rows lookup (row # rows) w =
     (if \<not> needs_product row then
        (case resolve_product_rows lookup rows w of (r, w') \<Rightarrow> (res_bind r (\<lambda>(rs, us). Inr (row # rs, us)), w'))
      else (case lookup (row_query row) w of (reply, w1) \<Rightarrow>
        (case lookup_results reply of
           Inl e \<Rightarrow> (Inl e, w1)
         | Inr results \<Rightarrow>
             (case resolve_product_rows lookup rows w1 of (r, w') \<Rightarrow>
                (res_bind r (\<lambda>(rs, us). case linked_row row results of (row', un) \<Rightarrow> Inr (row' # rs, un @ us)), w')))))"

section \<open>Form patches\<close>

definition dict_items :: "py \<Rightarrow> py list result" where
  "dict_items v = res_bind (iter_dicts v) (\<lambda>ds. Inr (map PDict ds))"

definition max_sources :: nat where "max_sources = 10"

definition build_form_patch ::
  "string \<Rightarrow> string option \<Rightarrow> pydict \<Rightarrow> py \<Rightarrow> py list \<Rightarrow> string \<Rightarrow> pydict \<Rightarrow> py \<Rightarrow> pydict result" where
  "build_form_patch md record_id flds schema sources message lines lm =
     res_bind (dict_items (pget lines ''rows'')) (\<lambda>rows.
     res_bind (dict_items (pget lines ''dropped'')) (\<lambda>dropped.
     res_bind (iter_or_empty (case schema of PDict d \<Rightarrow> pget d ''sections'' | _ \<Rightarrow> PNone)) (\<lambda>sections.
       Inr [(''module'', PStr md),
            (''record'', case record_id of Some r \<Rightarrow> if r = [] then PNone else PStr r | None \<Rightarrow> PNone),
            (''fields'', PDict flds),
            (''lines'', PDict [(''mode'', PStr ''append''), (''line_module'', lm),
                               (''rows'', PList rows), (''dropped'', PList dropped)]),
            (''invitees'', PDict []),
            (''sources'', PList (take max_sources (map (\<lambda>u. PStr (py_str u)) sources))),
            (''message'', PStr message),
            (''schema'', PDict [(''sections'', PList sections)])])))"

section \<open>The form that is open\<close>

definition first_text :: "py list \<Rightarrow> string" where
  "first_text vs = text_of (foldr por vs (PStr []))"

definition open_form_target :: "pydict \<Rightarrow> string option \<times> string option" where
  "open_form_target ctx = (case pget ctx ''form'' of
     PDict form \<Rightarrow>
       if \<not> truthy (pget form ''editable'') then (None, None)
       else (let m = first_text [pget ctx ''record_module'', pget ctx ''module''];
                 r = first_text [pget ctx ''record_id'', pget ctx ''record'']
             in (if m = [] then None else Some m, if r = [] then None else Some r))
   | _ \<Rightarrow> (None, None))"

definition targets_open_form :: "pydict \<Rightarrow> string \<Rightarrow> string \<Rightarrow> pydict \<Rightarrow> bool" where
  "targets_open_form ctx md action data = (case open_form_target ctx of (om, orec) \<Rightarrow>
     (case om of
        None \<Rightarrow> False
      | Some open_module \<Rightarrow>
          if py_lower (canonical_module_name md) \<noteq> py_lower (canonical_module_name open_module)
          then False
          else (let action_norm = py_lower (py_strip action);
                    target_id = first_text [pget data ''id'', pget data ''record_id'', pget data ''recordId'']
                in if action_norm \<in> set [''update'', ''patch''] then target_id = [] \<or> orec = Some target_id
                   else if action_norm = ''create'' then orec = None
                   else False)))"

text \<open>\<open>_unavailable\<close>, and the patch that replaces a write to the open form. The JSON text is its dict.\<close>

definition form_unavailable :: "string \<Rightarrow> py" where
  "form_unavailable md = PDict [(''status'', PStr ''form_unavailable''),
     (''message'', PStr (''Formular modulu '' @ md @ '' neni dostupny pro doplneni.''))]"

definition action_fields :: "pydict \<Rightarrow> pydict" where
  "action_fields data = (case pget data ''fields'' of
     PDict d \<Rightarrow> d
   | _ \<Rightarrow> filter (\<lambda>kv. fst kv \<notin> set [''id'', ''record_id'', ''recordId'', ''relationships'',
                                     ''customData'', ''files'', ''invitees'']) data)"

definition unused_fields :: "pydict \<Rightarrow> pydict \<Rightarrow> string list" where
  "unused_fields flds valid =
     sort (remdups (filter (\<lambda>k. k \<notin> set (map fst valid)) (map fst flds)))"

definition patch_message :: "string list \<Rightarrow> string" where
  "patch_message dropped =
     ''Hodnoty jsou pripravene ve formulari; potvrdte je tlacitkem Pouzit, ulozi se beznym ulozenim zaznamu.''
     @ (if dropped = [] then [] else '' (Nepouzita pole: '' @ py_join '', '' dropped @ ''.)'')"

definition action_as_form_patch ::
  "(string \<Rightarrow> string option \<Rightarrow> py result) \<Rightarrow> string \<Rightarrow> string option \<Rightarrow> pydict \<Rightarrow> py result" where
  "action_as_form_patch ai_schema md record_id data =
     (let flds = action_fields data in
      case ai_schema md record_id of
        Inl _ \<Rightarrow> Inr (form_unavailable md)
      | Inr schema \<Rightarrow>
          res_bind (validate_fields (PDict flds) (dict_or_empty schema)) (\<lambda>valid.
          res_bind (line_module schema) (\<lambda>lm.
            let message = patch_message (unused_fields flds valid) in
            res_bind (build_form_patch md record_id valid schema [] message [] lm) (\<lambda>patch.
              Inr (PDict [(''status'', PStr ''ok''), (''redirected_to_form'', PBool True),
                          (''form_patch'', PDict patch), (''message_to_user'', PStr message)])))))"


section \<open>Lemmas\<close>

lemma keep_known_map:
  "map_of (keep_known types d acc) k = Some v \<Longrightarrow>
   map_of acc k = Some v \<or>
   (\<exists>ft raw. map_of types k = Some ft \<and> (k, raw) \<in> set d \<and> v = coerce_field_value ft raw \<and> v \<noteq> PNone)"
proof (induction types d acc rule: keep_known.induct)
  case (1 types acc)
  then show ?case by simp
next
  case (2 types k' v' d acc)
  show ?case
  proof (cases "map_of types k'")
    case None
    with 2 show ?thesis by fastforce
  next
    case (Some ft)
    let ?c = "coerce_field_value ft v'"
    show ?thesis
    proof (cases "?c = PNone")
      case True
      with Some 2(2) [OF Some refl True] 2(4) show ?thesis by (fastforce simp: Let_def)
    next
      case False
      with Some 2(4) have "map_of (keep_known types d (dput k' ?c acc)) k = Some v"
        by (simp add: Let_def)
      from 2(3) [OF Some refl False this] Some False show ?thesis
        by (cases "k = k'") auto
    qed
  qed
qed

lemma keep_known_distinct:
  "distinct (map fst acc) \<Longrightarrow> distinct (map fst (keep_known types d acc))"
  by (induction types d acc rule: keep_known.induct) (auto simp: Let_def split: option.splits)

lemma keep_known_member:
  assumes "(k, v) \<in> set (keep_known types d [])"
  shows "\<exists>ft raw. map_of types k = Some ft \<and> (k, raw) \<in> set d \<and> v = coerce_field_value ft raw \<and> v \<noteq> PNone"
proof -
  have "distinct (map fst (keep_known types d []))" by (rule keep_known_distinct) simp
  with assms have "map_of (keep_known types d []) k = Some v" by simp
  from keep_known_map [OF this] show ?thesis by simp
qed

lemma coerce_scalar:
  "\<not> is_relate ft \<Longrightarrow> coerce_field_value ft v \<noteq> PNone \<Longrightarrow>
   coerce_field_value ft v = v \<and> \<not> is_dict v \<and> \<not> is_list v"
  by (auto simp: coerce_field_value_def split: if_splits)

lemma coerce_relate:
  "is_relate ft \<Longrightarrow> coerce_field_value ft v \<noteq> PNone \<Longrightarrow>
   \<exists>d r. v = PDict d \<and> coerce_field_value ft v = PDict r \<and> truthy (pget d ''name'')
     \<and> pget r ''name'' = PStr (py_str (pget d ''name''))
     \<and> (has_key ''id'' r \<longleftrightarrow> truthy (pget d ''id''))
     \<and> set (map fst r) \<subseteq> {''name'', ''id'', ''module''}"
  by (cases v) (auto simp: coerce_field_value_def pget_Cons has_key_def split: if_splits)

lemma line_rows_count:
  "line_rows_loop cols i raws = (rows, dropped) \<Longrightarrow> length rows + length dropped = length raws"
  by (induction cols i raws arbitrary: rows dropped rule: line_rows_loop.induct)
    (auto simp: Let_def split: prod.splits py.splits if_splits)

lemma line_rows_kept:
  "line_rows_loop cols i raws = (rows, dropped) \<Longrightarrow> row \<in> set rows \<Longrightarrow>
   row_has_identity row \<and> (\<exists>d. PDict d \<in> set raws \<and> row = keep_known cols d [])"
proof (induction cols i raws arbitrary: rows dropped rule: line_rows_loop.induct)
  case (1 cols i)
  then show ?case by simp
next
  case (2 cols i raw raws)
  obtain rs ds where r: "line_rows_loop cols (Suc i) raws = (rs, ds)" by fastforce
  from 2(2,3) r consider "row \<in> set rs"
    | d where "raw = PDict d" "row = keep_known cols d []" "row_has_identity row"
    by (auto simp: Let_def split: py.splits if_splits)
  then show ?case
  proof cases
    case 1
    from 2(1) [OF r 1] show ?thesis by auto
  next
    case (2 d)
    then show ?thesis by auto
  qed
qed

lemma pick_product_cases:
  assumes "pick_product query xs = Some m"
  shows "PDict m \<in> set xs \<and> truthy (pget m ''id'')"
    and "PDict m' \<in> set xs \<Longrightarrow> truthy (pget m' ''id'') \<Longrightarrow> m' \<noteq> m \<Longrightarrow>
         \<not> matches_query (normalize_text query) m'"
proof -
  define r where "r = filter (\<lambda>r. truthy (pget r ''id'')) (dicts_of xs)"
  define e where "e = filter (matches_query (normalize_text query)) r"
  have d: "x \<in> set r \<longleftrightarrow> PDict x \<in> set xs \<and> truthy (pget x ''id'')" for x
    by (auto simp: r_def)
  have e: "x \<in> set e \<longleftrightarrow> x \<in> set r \<and> matches_query (normalize_text query) x" for x
    by (auto simp: e_def)
  have p: "pick_product query xs = (if length e = 1 then Some (hd e)
      else if e = [] \<and> length r = 1 then Some (hd r) else None)"
    unfolding pick_product_def Let_def r_def e_def ..
  have one: "ys = [hd ys]" if "length ys = 1" for ys :: "pydict list"
    using that by (cases ys) simp_all
  have "e = [m] \<or> (e = [] \<and> r = [m])"
  proof (cases "length e = 1")
    case True
    with p assms have "hd e = m" by simp
    with one [OF True] show ?thesis by simp
  next
    case False
    with p assms have r: "e = []" "length r = 1" "hd r = m" by (simp_all split: if_splits)
    with one [OF r(2)] show ?thesis by simp
  qed
  then have "m \<in> set e \<or> m \<in> set r" and sub: "set e \<subseteq> {m}" by (elim disjE; simp)+
  then have c: "m \<in> set r" "\<And>x. x \<in> set r \<Longrightarrow> x \<noteq> m \<Longrightarrow> x \<notin> set e" using e by blast+
  then show "PDict m \<in> set xs \<and> truthy (pget m ''id'')" using d by blast
  assume "PDict m' \<in> set xs" "truthy (pget m' ''id'')" "m' \<noteq> m"
  with c d e show "\<not> matches_query (normalize_text query) m'" by blast
qed

text \<open>Linking keeps the rows in place, changes none but by the one product its lookup answered clearly.\<close>

definition linked_from :: "(string \<Rightarrow> 'w \<Rightarrow> py result option \<times> 'w) \<Rightarrow> pydict \<Rightarrow> pydict \<Rightarrow> bool" where
  "linked_from lookup row row' = (row' = row \<or> \<not> already_linked row \<and>
     (\<exists>w results m. lookup_results (fst (lookup (row_query row) w)) = Inr results \<and>
        pick_product (row_query row) results = Some m \<and> row' = link_row (row_query row) m row))"

lemma resolve_rows_linked:
  "resolve_product_rows lookup rows w = (Inr (rows', un), w') \<Longrightarrow> list_all2 (linked_from lookup) rows rows'"
proof (induction lookup rows w arbitrary: rows' un w' rule: resolve_product_rows.induct)
  case (1 lookup w)
  then show ?case by simp
next
  case (2 lookup row rows w)
  show ?case
  proof (cases "needs_product row")
    case False
    obtain r w1 where r: "resolve_product_rows lookup rows w = (r, w1)" by fastforce
    with 2(3) False obtain rs us where "r = Inr (rs, us)" "rows' = row # rs" by (auto simp: res_bind_Inr)
    with 2(1) [OF False] r show ?thesis by (simp add: linked_from_def)
  next
    case True
    obtain reply w1 where l: "lookup (row_query row) w = (reply, w1)" by fastforce
    with 2(3) True obtain results where p: "lookup_results reply = Inr results" by (auto split: sum.splits)
    obtain r w2 where r: "resolve_product_rows lookup rows w1 = (r, w2)" by fastforce
    obtain row1 un1 where k: "linked_row row results = (row1, un1)" by fastforce
    from 2(3) True l p r k obtain rs us where rs: "r = Inr (rs, us)" "rows' = row1 # rs" by (auto simp: res_bind_Inr)
    from l p have e: "lookup_results (fst (lookup (row_query row) w)) = Inr results" by simp
    from True k have "linked_from lookup row row1"
    proof (cases "pick_product (row_query row) results")
      case (Some m)
      with k have "row1 = link_row (row_query row) m row" by (simp add: linked_row_def)
      with Some e True show ?thesis unfolding linked_from_def needs_product_def by blast
    qed (simp add: linked_row_def linked_from_def)
    with 2(2) [OF _ l [symmetric] p] True r rs show ?thesis by simp
  qed
qed

lemma resolve_rows_keep:
  assumes "\<And>q w. I w \<Longrightarrow> I (snd (lookup q w))"
  shows "I w \<Longrightarrow> I (snd (resolve_product_rows lookup rows w))"
proof (induction rows arbitrary: w)
  case (Cons row rows)
  obtain reply w1 where l: "lookup (row_query row) w = (reply, w1)" by fastforce
  with assms [OF Cons.prems, of "row_query row"] have "I w1" by simp
  from Cons.IH [OF this] Cons.IH [OF Cons.prems] l \<open>I w1\<close> show ?case by (auto split: prod.splits sum.splits)
qed simp

section \<open>Properties\<close>

text \<open>
  every value that leaves the field check belongs to a field of the schema and has the
  shape of its type: a relate value is a dict with a name (and an id only when the model
  gave one), any other value is a scalar passed on unchanged.
\<close>

theorem form_values_checked:
  assumes "validate_fields raw schema = Inr d" and "(k, v) \<in> set d"
  shows "\<exists>types ft v0. field_type_map schema = Inr types \<and> map_of types k = Some ft
    \<and> (k, v0) \<in> set (dict_or_empty raw) \<and> v \<noteq> PNone
    \<and> (if is_relate ft
       then \<exists>d0 r. v0 = PDict d0 \<and> v = PDict r \<and> pget r ''name'' = PStr (py_str (pget d0 ''name''))
         \<and> (has_key ''id'' r \<longleftrightarrow> truthy (pget d0 ''id''))
       else v = v0 \<and> \<not> is_dict v \<and> \<not> is_list v)"
proof -
  from assms(1,2) obtain d1 types
    where r: "raw = PDict d1" and t: "field_type_map schema = Inr types"
      and d: "d = keep_known types d1 []"
    by (auto simp: validate_fields_def res_bind_Inr split: py.splits)
  from assms(2) d obtain ft v0
    where f: "map_of types k = Some ft" "(k, v0) \<in> set d1" "v = coerce_field_value ft v0" "v \<noteq> PNone"
    using keep_known_member by blast
  show ?thesis
  proof (cases "is_relate ft")
    case True
    with coerce_relate [of ft v0] f r t show ?thesis by fastforce
  next
    case False
    with coerce_scalar [of ft v0] f r t show ?thesis by fastforce
  qed
qed

definition demo_schema :: pydict where
  "demo_schema = [(''sections'', PList [PDict [(''fields'', PList
     [PDict [(''name'', PStr ''description''), (''type'', PStr ''text'')],
      PDict [(''name'', PStr ''account''), (''type'', PStr ''relate'')],
      PDict [(''name'', PStr ''lines''), (''type'', PStr ''line_items''),
             (''line_module'', PStr ''Products''),
             (''line_fields'', PList
                [PDict [(''name'', PStr ''name''), (''editable'', PBool True)],
                 PDict [(''name'', PStr ''total''), (''editable'', PBool False)]])]])]])]"

theorem form_values_checked_witness:
  "\<exists>types ft. field_type_map demo_schema = Inr types \<and> map_of types ''description'' = Some ft"
proof -
  have "validate_fields (PDict [(''description'', PStr ''x''), (''bogus'', PInt 1)]) demo_schema
      = Inr [(''description'', PStr ''x'')]"
    by code_simp
  from form_values_checked [OF this, of "''description''" "PStr ''x''"] show ?thesis by auto
qed

text \<open>
  line rows. Each raw row is either kept or reported as dropped, and a kept row has a
  name or a product and only columns the schema marks as editable.
\<close>

theorem line_rows_accounted:
  assumes "validate_line_rows (PList raws) (Some lf) = Inr (rows, dropped)" and "lf \<noteq> []"
  shows "length rows + length dropped = length raws
    \<and> (\<exists>cols. editable_columns lf = Inr cols \<and>
        (\<forall>row \<in> set rows. row_has_identity row \<and> fst ` set row \<subseteq> dom (map_of cols)))"
proof -
  from assms obtain cols where c: "editable_columns lf = Inr cols"
    and l: "line_rows_loop cols 0 raws = (rows, dropped)"
    by (auto simp: validate_line_rows_def res_bind_Inr)
  have "row_has_identity row \<and> fst ` set row \<subseteq> dom (map_of cols)" if "row \<in> set rows" for row
    using line_rows_kept [OF l that] by (fastforce dest: keep_known_member)
  with c line_rows_count [OF l] show ?thesis by blast
qed

theorem line_rows_accounted_witness:
  "\<exists>lf. line_field_from_schema demo_schema = Inr (Some lf) \<and>
     (\<exists>cols. editable_columns lf = Inr cols \<and> ''name'' \<in> dom (map_of cols))"
proof -
  let ?raws = "[PDict [(''name'', PStr ''Sroub''), (''total'', PInt 9)], PInt 3]"
  define lf where "lf = [(''name'', PStr ''lines''), (''type'', PStr ''line_items''),
             (''line_module'', PStr ''Products''),
             (''line_fields'', PList
                [PDict [(''name'', PStr ''name''), (''editable'', PBool True)],
                 PDict [(''name'', PStr ''total''), (''editable'', PBool False)]])]"
  have f: "line_field_from_schema demo_schema = Inr (Some lf)" unfolding lf_def by code_simp
  have v: "validate_line_rows (PList ?raws) (Some lf)
      = Inr ([[(''name'', PStr ''Sroub'')]], [dropped_row 1 ''row is not an object''])"
    unfolding lf_def by code_simp
  have "lf \<noteq> []" by (simp add: lf_def)
  from line_rows_accounted [OF v this] f show ?thesis by auto
qed

text \<open>
  a product is never guessed. The catalog product a line is linked to has an id, comes
  from the lookup's results, and no other result with an id has the queried name or code.
\<close>

theorem product_link_unambiguous:
  assumes "pick_product query xs = Some m"
  shows "PDict m \<in> set xs \<and> truthy (pget m ''id'') \<and>
    (\<forall>m'. PDict m' \<in> set xs \<and> truthy (pget m' ''id'') \<and> m' \<noteq> m
       \<longrightarrow> \<not> matches_query (normalize_text query) m')"
  using pick_product_cases [OF assms] by blast

theorem product_link_unambiguous_witness:
  "pick_product ''Bolt M4'' [PDict [(''id'', PStr ''1''), (''name'', PStr ''bolt m4'')],
      PDict [(''id'', PStr ''2''), (''name'', PStr ''Bolt M5'')]]
     = Some [(''id'', PStr ''1''), (''name'', PStr ''bolt m4'')] \<and>
   \<not> matches_query (normalize_text ''Bolt M4'') [(''id'', PStr ''2''), (''name'', PStr ''Bolt M5'')]"
proof -
  have p: "pick_product ''Bolt M4'' [PDict [(''id'', PStr ''1''), (''name'', PStr ''bolt m4'')],
      PDict [(''id'', PStr ''2''), (''name'', PStr ''Bolt M5'')]]
     = Some [(''id'', PStr ''1''), (''name'', PStr ''bolt m4'')]"
    by code_simp
  have "\<not> matches_query (normalize_text ''Bolt M4'') m'"
    if "m' = [(''id'', PStr ''2''), (''name'', PStr ''Bolt M5'')]" for m'
    using product_link_unambiguous [OF p] that by (simp add: pget_Cons)
  with p show ?thesis by blast
qed

end
