(* ===== verification/Tool_Args.thy ===== *)
theory Tool_Args
  imports Form_Fields
begin

text \<open>
  Argument coercion and validation before a call leaves the gateway
  (\<open>app/tools/validation.py\<close>). The JSON-Schema validator, the JSON repair library and the
  rounding of decimal text to a binary float are not part of the repository: they are the
  fields of \<open>arg_libs\<close>, an argument of every definition that uses them.
\<close>

record arg_libs =
  lib_json_repair :: "string \<Rightarrow> py result"
  lib_schema_errors :: "pydict \<Rightarrow> pydict \<Rightarrow> (string list \<times> string) list"
  lib_float_repr :: "string \<Rightarrow> string"

section \<open>Types of a schema\<close>

definition schema_types :: "pydict \<Rightarrow> string list" where
  "schema_types schema = (case pget schema ''type'' of
     PList vs \<Rightarrow> map py_str vs
   | v \<Rightarrow> if truthy v then [py_str v] else [])"

definition has_type :: "pydict \<Rightarrow> string \<Rightarrow> bool" where
  "has_type schema t = (t \<in> set (schema_types schema))"

section \<open>Order clauses\<close>

text \<open>
  \<open>_ORDER_SLIP\<close> on a stripped text: an optional minus, a run of field characters, then
  nothing or white space and a direction. The field run is maximal since no white space or
  end can follow a shorter one.
\<close>

definition field_char :: "char \<Rightarrow> bool" where
  "field_char c = (is_az c \<or> is_AZ c \<or> is_digit c \<or> c = CHR ''_'' \<or> c = CHR ''.'')"

definition coerce_order_by :: "string \<Rightarrow> string option" where
  "coerce_order_by text =
     (let desc = (text \<noteq> [] \<and> hd text = CHR ''-'');
          body = (if desc then tl text else text);
          fld = takeWhile field_char body;
          after = dropWhile field_char body;
          dir = py_lower (py_strip after);
          default_dir = (if desc then ''desc'' else ''asc'')
      in if fld = [] then None
         else if after = [] then Some (fld @ '':'' @ default_dir)
         else if py_isspace (hd after) \<and> dir \<in> set [''asc'', ''desc''] then Some (fld @ '':'' @ dir)
         else None)"

section \<open>Coercion\<close>

text \<open>\<open>str.isdigit\<close>: the decimal digits and the superscripts two, three and one.\<close>

definition py_isdigit :: "string \<Rightarrow> bool" where
  "py_isdigit s = (s \<noteq> [] \<and> list_all (\<lambda>c. is_digit c \<or> of_char c \<in> set [178, 179, 185 :: nat]) s)"

definition coerce_value :: "arg_libs \<Rightarrow> py \<Rightarrow> pydict \<Rightarrow> py result" where
  "coerce_value lib v schema = (case v of
     PStr s \<Rightarrow>
       (let text = py_strip s; ty = has_type schema; no_string = (\<not> ty ''string'') in
        if py_contains ''(asc|desc'' (str_or (pget schema ''pattern'')) \<and> CHR '':'' \<notin> set text then
          Inr (case coerce_order_by text of Some t \<Rightarrow> PStr t | None \<Rightarrow> v)
        else if (ty ''array'' \<or> ty ''object'') \<and> no_string \<and> (text = [] \<or> hd text \<in> set ''[{'') then
          (case lib_json_repair lib text of Inr x \<Rightarrow> Inr x | Inl _ \<Rightarrow> Inr v)
        else if ty ''integer'' \<and> no_string \<and> py_isdigit (dropWhile (\<lambda>c. c = CHR ''-'') text) then
          (case int_of_text text of Some i \<Rightarrow> Inr (PInt i)
             | None \<Rightarrow> Inl (ValueError ''invalid literal for int()''))
        else if ty ''number'' \<and> no_string then
          (let t = replace_char (CHR '','') ''.'' text in
           Inr (case parse_num t of Some _ \<Rightarrow> PFloat (lib_float_repr lib t) | None \<Rightarrow> v))
        else if ty ''boolean'' \<and> no_string \<and> py_lower text \<in> set [''true'', ''false''] then
          Inr (PBool (py_lower text = ''true''))
        else Inr v)
   | _ \<Rightarrow> Inr v)"

text \<open>\<open>set(xs)\<close> raises on a list or dict item.\<close>

definition py_set :: "py list \<Rightarrow> py list result" where
  "py_set xs = (if list_ex (\<lambda>x. is_list x \<or> is_dict x) xs then Inl (TypeError ''unhashable type'') else Inr xs)"

definition schema_required :: "pydict \<Rightarrow> py list result" where
  "schema_required schema = res_bind (iter_or_empty (pget schema ''required'')) py_set"

definition coerce_entry ::
  "arg_libs \<Rightarrow> pydict \<Rightarrow> py list \<Rightarrow> string \<times> py \<Rightarrow> (string \<times> py) option result" where
  "coerce_entry lib properties req kv = (case kv of (k, v) \<Rightarrow>
     (case pget properties k of
        PDict prop \<Rightarrow>
          if v = PNone \<and> PStr k \<notin> set req \<and> \<not> has_type prop ''null'' then Inr None
          else res_bind (coerce_value lib v prop) (\<lambda>v'. Inr (Some (k, v')))
      | _ \<Rightarrow> Inr (Some (k, v))))"

definition coerce_arguments :: "arg_libs \<Rightarrow> pydict \<Rightarrow> pydict \<Rightarrow> pydict result" where
  "coerce_arguments lib args schema =
     res_bind (schema_required schema) (\<lambda>req.
     res_bind (res_map (coerce_entry lib (dict_or_empty (pget schema ''properties'')) req) args) (\<lambda>es.
       Inr (map the (filter (\<lambda>e. e \<noteq> None) es))))"

text \<open>An error is the path as a JSON pointer and the problem; errors are sorted by path.\<close>

definition pointer_error :: "string list \<times> string \<Rightarrow> py" where
  "pointer_error e = PDict [(''path'', PStr (''/'' @ py_join ''/'' (fst e))), (''problem'', PStr (snd e))]"

definition validate_arguments :: "arg_libs \<Rightarrow> py \<Rightarrow> pydict \<Rightarrow> (pydict \<times> py list) result" where
  "validate_arguments lib args schema =
     res_bind (coerce_arguments lib (dict_or_empty args) schema) (\<lambda>c.
       Inr (c, map pointer_error (sort_key fst (lib_schema_errors lib schema c))))"

section \<open>Lemmas\<close>

lemma coerce_value_other: "\<not> is_str v \<Longrightarrow> coerce_value lib v schema = Inr v"
  by (cases v) (simp_all add: coerce_value_def)

lemma coerce_arguments_entries:
  assumes "coerce_arguments lib args schema = Inr out" and "(k, v') \<in> set out"
  shows "\<exists>v. (k, v) \<in> set args \<and>
    (v' = v \<or> (\<exists>prop. pget (dict_or_empty (pget schema ''properties'')) k = PDict prop
        \<and> coerce_value lib v prop = Inr v'))"
proof -
  from assms(1) obtain req es where
    es: "res_map (coerce_entry lib (dict_or_empty (pget schema ''properties'')) req) args = Inr es"
    and out: "out = map the (filter (\<lambda>e. e \<noteq> None) es)"
    by (auto simp: coerce_arguments_def res_bind_Inr)
  from out assms(2) have "Some (k, v') \<in> set es" by (auto simp: image_iff)
  from res_map_set [OF es this] obtain kv where kv: "kv \<in> set args"
    "coerce_entry lib (dict_or_empty (pget schema ''properties'')) req kv = Inr (Some (k, v'))" by blast
  obtain k0 v where [simp]: "kv = (k0, v)" by (cases kv)
  from kv show ?thesis
    by (fastforce simp: coerce_entry_def res_bind_Inr split: py.splits if_splits)
qed

section \<open>Properties\<close>

text \<open>
  coercion never invents an argument and never touches a value that is not a text:
  each argument that goes on has the key of a given argument, and its value is the given
  one unless that was a text and the schema describes the key.
\<close>

theorem coercion_only_texts:
  assumes "validate_arguments lib args schema = Inr (out, errs)" and "(k, v') \<in> set out"
  shows "\<exists>v. (k, v) \<in> set (dict_or_empty args) \<and>
    (v' = v \<or> is_str v \<and> is_dict (pget (dict_or_empty (pget schema ''properties'')) k))"
proof -
  from assms(1) have "coerce_arguments lib (dict_or_empty args) schema = Inr out"
    by (auto simp: validate_arguments_def res_bind_Inr)
  from coerce_arguments_entries [OF this assms(2)] obtain v
    where v: "(k, v) \<in> set (dict_or_empty args)" "v' = v \<or>
      (\<exists>prop. pget (dict_or_empty (pget schema ''properties'')) k = PDict prop \<and> coerce_value lib v prop = Inr v')"
    by blast
  then show ?thesis
    by (cases "is_str v") (auto simp: coerce_value_other)
qed

definition demo_libs :: arg_libs where
  "demo_libs = \<lparr>lib_json_repair = (\<lambda>s. Inr (PDict [])), lib_schema_errors = (\<lambda>_ _. []),
     lib_float_repr = (\<lambda>s. s)\<rparr>"

definition demo_int_schema :: pydict where
  "demo_int_schema = [(''type'', PStr ''object''),
     (''properties'', PDict [(''limit'', PDict [(''type'', PStr ''integer'')])])]"

theorem coercion_only_texts_witness:
  "validate_arguments demo_libs (PDict [(''limit'', PStr '' 20 '')]) demo_int_schema
     = Inr ([(''limit'', PInt 20)], []) \<and>
   (\<exists>v. (''limit'', v) \<in> set [(''limit'', PStr '' 20 '')] \<and> is_str v)"
proof -
  have v: "validate_arguments demo_libs (PDict [(''limit'', PStr '' 20 '')]) demo_int_schema
     = Inr ([(''limit'', PInt 20)], [])" by code_simp
  from coercion_only_texts [OF v, of "''limit''" "PInt 20"] v show ?thesis by auto
qed

text \<open>
  An integer argument that is a run of minus signs and digits, or that has a superscript
  digit, is not left to the schema validator: \<open>isdigit\<close> accepts it and \<open>int\<close> raises, so the
  caller gets an exception instead of the JSON-pointer errors.
\<close>

theorem integer_slip_raises:
  "validate_arguments lib (PDict [(''limit'', PStr ''--5'')]) demo_int_schema
     = Inl (ValueError ''invalid literal for int()'')"
proof -
  have "coerce_value lib (PStr ''--5'') [(''type'', PStr ''integer'')]
      = Inl (ValueError ''invalid literal for int()'')"
    by code_simp
  then show ?thesis
    by (simp add: validate_arguments_def coerce_arguments_def schema_required_def iter_or_empty_def
        demo_int_schema_def py_set_def coerce_entry_def pget_Cons)
qed

end
