(* ===== verification/Json.thy ===== *)
theory Json
  imports Py_Value
begin

text \<open>
  The \<open>json\<close> module on the values of the model: \<open>json.dumps\<close> with its two separators and the
  \<open>ensure_ascii\<close> switch, \<open>json.loads\<close>, and the proof that reading what was written gives the
  value back. A float is the decimal text it is written with. The parser takes fuel; the
  length of the text is always enough.
\<close>

section \<open>Writing\<close>

definition json_quote :: char where "json_quote = CHR 0x22"
definition json_bs :: char where "json_bs = CHR 0x5C"

definition json_char :: "bool \<Rightarrow> char \<Rightarrow> string" where
  "json_char ascii c = (let n = (of_char c :: nat) in
     if n = 34 \<or> n = 92 then [json_bs, c]
     else if n = 10 then [json_bs, CHR ''n''] else if n = 13 then [json_bs, CHR ''r'']
     else if n = 9 then [json_bs, CHR ''t''] else if n = 8 then [json_bs, CHR ''b'']
     else if n = 12 then [json_bs, CHR ''f'']
     else if n < 32 \<or> (ascii \<and> n > 126)
       then [json_bs] @ ''u00'' @ [hex_digit (n div 16), hex_digit (n mod 16)]
     else [c])"

definition json_str :: "bool \<Rightarrow> string \<Rightarrow> string" where
  "json_str ascii s = json_quote # concat (map (json_char ascii) s) @ [json_quote]"

record json_style =
  js_ascii :: bool
  js_item_sep :: string
  js_key_sep :: string

definition json_default :: json_style where
  "json_default = \<lparr>js_ascii = True, js_item_sep = '', '', js_key_sep = '': ''\<rparr>"

definition json_readable :: json_style where
  "json_readable = \<lparr>js_ascii = False, js_item_sep = '', '', js_key_sep = '': ''\<rparr>"

definition json_compact :: json_style where
  "json_compact = \<lparr>js_ascii = True, js_item_sep = '','', js_key_sep = '':''\<rparr>"

fun json_text :: "json_style \<Rightarrow> py \<Rightarrow> string" and json_items :: "json_style \<Rightarrow> py list \<Rightarrow> string"
  and json_pairs :: "json_style \<Rightarrow> (string \<times> py) list \<Rightarrow> string" where
  "json_text st PNone = ''null''"
| "json_text st (PBool b) = (if b then ''true'' else ''false'')"
| "json_text st (PInt i) = int_str i"
| "json_text st (PFloat r) = r"
| "json_text st (PStr s) = json_str (js_ascii st) s"
| "json_text st (PList xs) = ''['' @ json_items st xs @ '']''"
| "json_text st (PDict d) = ''{'' @ json_pairs st d @ ''}''"
| "json_items st [] = []"
| "json_items st (x # xs) = json_text st x @ (if xs = [] then [] else js_item_sep st @ json_items st xs)"
| "json_pairs st [] = []"
| "json_pairs st ((k, v) # d) = json_str (js_ascii st) k @ js_key_sep st @ json_text st v @
     (if d = [] then [] else js_item_sep st @ json_pairs st d)"

section \<open>Reading\<close>

definition json_ws :: "char \<Rightarrow> bool" where
  "json_ws c = (c \<in> set [CHR '' '', CHR 0x09, CHR 0x0A, CHR 0x0D])"

definition skip_ws :: "string \<Rightarrow> string" where
  "skip_ws s = dropWhile json_ws s"

definition hex_val :: "char \<Rightarrow> nat option" where
  "hex_val c = (let n = (of_char c :: nat) in
     if 48 \<le> n \<and> n \<le> 57 then Some (n - 48)
     else if 97 \<le> n \<and> n \<le> 102 then Some (n - 87)
     else if 65 \<le> n \<and> n \<le> 70 then Some (n - 55) else None)"

definition simple_escape :: "char \<Rightarrow> char option" where
  "simple_escape c = map_of
     [(json_quote, json_quote), (json_bs, json_bs), (CHR ''/'', CHR ''/''), (CHR ''b'', char_of (8 :: nat)),
      (CHR ''f'', char_of (12 :: nat)), (CHR ''n'', char_of (10 :: nat)), (CHR ''r'', char_of (13 :: nat)),
      (CHR ''t'', char_of (9 :: nat))] c"

text \<open>The body of a string after its opening quote. An escape above 255 is outside the alphabet.\<close>

fun string_body :: "string \<Rightarrow> (string \<times> string) option" where
  "string_body [] = None"
| "string_body [c] = (if c = json_quote then Some ([], []) else None)"
| "string_body (c # e # s) =
     (if c = json_quote then Some ([], e # s)
      else if c = json_bs then
        (if e = CHR ''u'' then
           (case s of
              h1 # h2 # h3 # h4 # r \<Rightarrow>
                (case (hex_val h1, hex_val h2, hex_val h3, hex_val h4) of
                   (Some 0, Some 0, Some a, Some b) \<Rightarrow>
                     map_option (\<lambda>(t, r'). (char_of (16 * a + b) # t, r')) (string_body r)
                 | _ \<Rightarrow> None)
            | _ \<Rightarrow> None)
         else (case simple_escape e of
                 Some x \<Rightarrow> map_option (\<lambda>(t, r'). (x # t, r')) (string_body s)
               | None \<Rightarrow> None))
      else if (of_char c :: nat) < 32 then None
      else map_option (\<lambda>(t, r'). (c # t, r')) (string_body (e # s)))"

text \<open>A number: the longest prefix of number characters, read as an integer or as a float.\<close>

definition num_char :: "char \<Rightarrow> bool" where
  "num_char c = (is_digit c \<or> c \<in> set ''+-.eE'')"

definition int_token :: "string \<Rightarrow> bool" where
  "int_token t = (let d = (if t \<noteq> [] \<and> hd t = CHR ''-'' then tl t else t) in
     d \<noteq> [] \<and> list_all is_digit d \<and> (length d = 1 \<or> hd d \<noteq> CHR ''0''))"

definition exp_token :: "string \<Rightarrow> bool" where
  "exp_token t = (let d = (if t \<noteq> [] \<and> (hd t = CHR ''-'' \<or> hd t = CHR ''+'') then tl t else t) in
     d \<noteq> [] \<and> list_all is_digit d)"

definition is_e :: "char \<Rightarrow> bool" where
  "is_e c = (c = CHR ''e'' \<or> c = CHR ''E'')"

definition float_token :: "string \<Rightarrow> bool" where
  "float_token t =
     (let m = takeWhile (\<lambda>c. \<not> is_e c) t; x = dropWhile (\<lambda>c. \<not> is_e c) t;
          ip = takeWhile (\<lambda>c. c \<noteq> CHR ''.'') m; fr = dropWhile (\<lambda>c. c \<noteq> CHR ''.'') m
      in int_token ip \<and> (fr \<noteq> [] \<or> x \<noteq> [])
         \<and> (fr = [] \<or> (tl fr \<noteq> [] \<and> list_all is_digit (tl fr)))
         \<and> (x = [] \<or> exp_token (tl x)))"

definition int_of_token :: "string \<Rightarrow> int" where
  "int_of_token t = (if t \<noteq> [] \<and> hd t = CHR ''-'' then - int (digits_val (tl t)) else int (digits_val t))"

definition json_number :: "string \<Rightarrow> (py \<times> string) option" where
  "json_number s = (let t = takeWhile num_char s; r = dropWhile num_char s in
     if int_token t then Some (PInt (int_of_token t), r)
     else if float_token t then Some (PFloat t, r) else None)"

definition json_word :: "string \<Rightarrow> (py \<times> string) option" where
  "json_word s = first_some (\<lambda>(w, v). if py_startswith s w then Some (v, drop (length w) s) else None)
     [(''null'', PNone), (''true'', PBool True), (''false'', PBool False), (''NaN'', PFloat ''nan''),
      (''Infinity'', PFloat ''inf''), (''-Infinity'', PFloat ''-inf'')]"

fun json_value :: "nat \<Rightarrow> string \<Rightarrow> (py \<times> string) option"
  and json_list :: "nat \<Rightarrow> string \<Rightarrow> (py list \<times> string) option"
  and json_dict :: "nat \<Rightarrow> string \<Rightarrow> ((string \<times> py) list \<times> string) option" where
  "json_value 0 s = None"
| "json_value (Suc n) s = (case s of
     [] \<Rightarrow> None
   | c # r \<Rightarrow>
       if c = json_quote then map_option (\<lambda>(t, r'). (PStr t, r')) (string_body r)
       else if c = CHR ''['' then
         (case skip_ws r of
            d # r' \<Rightarrow> if d = CHR '']'' then Some (PList [], r')
              else map_option (\<lambda>(xs, r'). (PList xs, r')) (json_list n (d # r'))
          | [] \<Rightarrow> None)
       else if c = CHR ''{'' then
         (case skip_ws r of
            d # r' \<Rightarrow> if d = CHR ''}'' then Some (PDict [], r')
              else map_option (\<lambda>(es, r'). (PDict (dupdate [] es), r')) (json_dict n (d # r'))
          | [] \<Rightarrow> None)
       else (case json_word s of Some x \<Rightarrow> Some x | None \<Rightarrow> json_number s))"
| "json_list 0 s = None"
| "json_list (Suc n) s = (case json_value n (skip_ws s) of
     None \<Rightarrow> None
   | Some (x, r) \<Rightarrow> (case skip_ws r of
       d # r' \<Rightarrow> if d = CHR '']'' then Some ([x], r')
         else if d = CHR '','' then map_option (\<lambda>(xs, r''). (x # xs, r'')) (json_list n r') else None
     | [] \<Rightarrow> None))"
| "json_dict 0 s = None"
| "json_dict (Suc n) s = (case skip_ws s of
     [] \<Rightarrow> None
   | q # r \<Rightarrow> if q \<noteq> json_quote then None else (case string_body r of
       None \<Rightarrow> None
     | Some (k, r1) \<Rightarrow> (case skip_ws r1 of
         [] \<Rightarrow> None
       | c # r2 \<Rightarrow> if c \<noteq> CHR '':'' then None else (case json_value n (skip_ws r2) of
           None \<Rightarrow> None
         | Some (v, r3) \<Rightarrow> (case skip_ws r3 of
             d # r4 \<Rightarrow> if d = CHR ''}'' then Some ([(k, v)], r4)
               else if d = CHR '','' then map_option (\<lambda>(es, r'). ((k, v) # es, r')) (json_dict n r4) else None
           | [] \<Rightarrow> None)))))"

definition json_loads :: "string \<Rightarrow> py result" where
  "json_loads s = (case json_value (Suc (length s)) (skip_ws s) of
     Some (v, r) \<Rightarrow> if skip_ws r = [] then Inr v else Inl (ValueError ''Extra data'')
   | None \<Rightarrow> Inl (ValueError ''Expecting value''))"

section \<open>Strings read back\<close>

lemma hex_val_digit: "n < 16 \<Longrightarrow> hex_val (hex_digit n) = Some n"
  by (auto simp: hex_val_def hex_digit_def Let_def)

lemma quote_codes: "char_of (34 :: nat) = CHR 0x22" "char_of (92 :: nat) = CHR 0x5C"
  by code_simp+

lemma string_body_char:
  "rest \<noteq> [] \<Longrightarrow> string_body (json_char a c @ rest) = map_option (\<lambda>(t, r). (c # t, r)) (string_body rest)"
proof -
  assume ne: "rest \<noteq> []"
  then obtain e s where r: "rest = e # s" by (cases rest) auto
  have lt: "(of_char c :: nat) < 256" by simp
  let ?n = "of_char c :: nat"
  have bk: "char_of ?n = c" by simp
  consider "?n = 34 \<or> ?n = 92" | "?n \<in> {10, 13, 9, 8, 12}"
    | "?n \<notin> {34, 92, 10, 13, 9, 8, 12}" "?n < 32 \<or> (a \<and> ?n > 126)"
    | "?n \<notin> {34, 92, 10, 13, 9, 8, 12}" "\<not> (?n < 32 \<or> (a \<and> ?n > 126))" by blast
  then show ?thesis
  proof cases
    case 1
    then have "c = char_of (34 :: nat) \<or> c = char_of (92 :: nat)" using bk by metis
    then have "c = CHR 0x22 \<or> c = CHR 0x5C" by (simp only: quote_codes)
    then show ?thesis
      by (auto simp: json_char_def r json_quote_def json_bs_def simple_escape_def)
  next
    case 2
    then have "c = char_of (?n :: nat)" by simp
    with 2 show ?thesis
      by (elim insertE; simp add: json_char_def r json_quote_def json_bs_def simple_escape_def)
  next
    case 3
    have "?n < 16 * 16" using lt by simp
    then have "?n div 16 < 16" by (rule less_mult_imp_div_less)
    then have "hex_val (hex_digit (?n div 16)) = Some (?n div 16)"
      and "hex_val (hex_digit (?n mod 16)) = Some (?n mod 16)"
      by (simp_all add: hex_val_digit)
    moreover have "hex_val (CHR ''0'') = Some 0" by (simp add: hex_val_def)
    moreover have "16 * (?n div 16) + ?n mod 16 = ?n" by simp
    ultimately show ?thesis
      using 3 by (simp add: json_char_def r json_quote_def json_bs_def Let_def)
  next
    case 4
    then have "c \<noteq> json_quote" "c \<noteq> json_bs" by (auto simp: json_quote_def json_bs_def)
    moreover have "json_char a c = [c]" using 4 by (auto simp: json_char_def Let_def)
    ultimately show ?thesis using 4 by (simp add: r)
  qed
qed

lemma string_body_str: "string_body (concat (map (json_char a) s) @ json_quote # rest) = Some (s, rest)"
proof (induction s)
  case Nil
  then show ?case by (cases rest) simp_all
next
  case (Cons c s)
  have "string_body (json_char a c @ concat (map (json_char a) s) @ json_quote # rest)
      = map_option (\<lambda>(t, r). (c # t, r)) (string_body (concat (map (json_char a) s) @ json_quote # rest))"
    by (rule string_body_char) simp
  with Cons show ?case by simp
qed


section \<open>Numbers read back\<close>

lemma digit_char: "d < 10 \<Longrightarrow> is_digit (char_of (48 + d :: nat)) \<and> digit_val (char_of (48 + d :: nat)) = d"
  by (simp add: is_digit_def digit_val_def)

lemma nat_digits_digits: "list_all is_digit (nat_digits n)"
proof (induction n rule: nat_digits.induct)
  case (1 n)
  then show ?case
    by (subst nat_digits.simps) (simp add: digit_char)
qed

lemma digits_val_snoc: "digits_val (s @ [c]) = 10 * digits_val s + digit_val c"
  by (simp add: digits_val_def)

lemma digits_val_nat_digits: "digits_val (nat_digits n) = n"
proof (induction n rule: nat_digits.induct)
  case (1 n)
  show ?case
  proof (cases "n < 10")
    case True
    then show ?thesis by (subst nat_digits.simps) (simp add: digits_val_def digit_char)
  next
    case False
    with 1 have "digits_val (nat_digits (n div 10)) = n div 10" by simp
    with False show ?thesis
      by (subst nat_digits.simps) (simp add: digits_val_snoc digit_char)
  qed
qed

lemma nat_digits_lead: "nat_digits n \<noteq> [] \<and> (length (nat_digits n) = 1 \<or> hd (nat_digits n) \<noteq> CHR ''0'')"
proof (induction n rule: nat_digits.induct)
  case (1 n)
  show ?case
  proof (cases "n < 10")
    case True
    then show ?thesis by (subst (1 2 3) nat_digits.simps) simp
  next
    case False
    let ?q = "n div 10"
    have q: "nat_digits n = nat_digits ?q @ [char_of (48 + n mod 10)]"
      using False by (subst nat_digits.simps) simp
    from False 1 have ih: "nat_digits ?q \<noteq> []" "length (nat_digits ?q) = 1 \<or> hd (nat_digits ?q) \<noteq> CHR ''0''"
      by auto
    have "hd (nat_digits ?q) \<noteq> CHR ''0''"
    proof (cases "?q < 10")
      case True
      with False have "0 < ?q" by simp
      from True have "nat_digits ?q = [char_of (48 + ?q)]" by (subst nat_digits.simps) simp
      moreover have "char_of (48 + ?q) \<noteq> (CHR ''0'')"
      proof
        assume "char_of (48 + ?q) = CHR ''0''"
        then have "(of_char (char_of (48 + ?q)) :: nat) = of_char (CHR ''0'')" by simp
        with True \<open>0 < ?q\<close> show False by simp
      qed
      ultimately show ?thesis by simp
    next
      case False
      then have "length (nat_digits ?q) \<noteq> 1"
        by (subst nat_digits.simps) (use ih in \<open>simp add: nat_digits.simps [of "?q div 10"]\<close>)
      with ih show ?thesis by simp
    qed
    with q ih show ?thesis by simp
  qed
qed

lemma is_digit_num [simp]: "is_digit c \<Longrightarrow> num_char c"
  by (simp add: num_char_def)

lemma digit_not: "is_digit c \<Longrightarrow> c \<noteq> CHR ''-'' \<and> c \<noteq> CHR ''+'' \<and> c \<noteq> CHR ''.''"
  by (auto simp: is_digit_def)

lemma int_str_token:
  "int_token (int_str i)" "int_of_token (int_str i) = i" "list_all num_char (int_str i)"
proof -
  have d: "list_all is_digit (nat_digits n)" "nat_digits n \<noteq> []" for n
    using nat_digits_digits nat_digits_lead by auto
  have h: "hd (nat_digits n) \<noteq> CHR ''-''" for n
    using d [of n] digit_not by (cases "nat_digits n") auto
  have nc: "list_all num_char (nat_digits n)" for n
    using d(1) [of n] by (auto simp: list_all_iff)
  show "int_token (int_str i)"
    using d h nat_digits_lead by (auto simp: int_token_def int_str_def Let_def)
  show "int_of_token (int_str i) = i"
    using d h by (auto simp: int_of_token_def int_str_def digits_val_nat_digits)
  show "list_all num_char (int_str i)"
    using nc by (auto simp: int_str_def num_char_def)
qed

definition no_num_next :: "string \<Rightarrow> bool" where
  "no_num_next rest = (rest = [] \<or> \<not> num_char (hd rest))"

lemma take_token: "list_all num_char t \<Longrightarrow> no_num_next rest \<Longrightarrow>
  takeWhile num_char (t @ rest) = t \<and> dropWhile num_char (t @ rest) = rest"
  by (cases rest) (auto simp: no_num_next_def list_all_iff takeWhile_append dropWhile_append)

text \<open>No number token starts with a character of one of the words.\<close>

lemma int_token_ne: "int_token t \<Longrightarrow> t \<noteq> [] \<and> (is_digit (hd t) \<or> hd t = CHR ''-'')
    \<and> (hd t = CHR ''-'' \<longrightarrow> tl t \<noteq> [] \<and> is_digit (hd (tl t)))"
  by (cases t; cases "tl t") (auto simp: int_token_def Let_def split: if_splits)


section \<open>Values read back\<close>

text \<open>The values the round trip is about: float texts of the JSON grammar, distinct keys.\<close>

fun json_wf :: "py \<Rightarrow> bool" and json_wf_list :: "py list \<Rightarrow> bool"
  and json_wf_dict :: "(string \<times> py) list \<Rightarrow> bool" where
  "json_wf (PFloat r) = (float_token r \<and> \<not> int_token r \<and> list_all num_char r)"
| "json_wf (PList xs) = json_wf_list xs"
| "json_wf (PDict d) = (distinct (map fst d) \<and> json_wf_dict d)"
| "json_wf PNone = True"
| "json_wf (PBool b) = True"
| "json_wf (PInt i) = True"
| "json_wf (PStr s) = True"
| "json_wf_list [] = True"
| "json_wf_list (x # xs) = (json_wf x \<and> json_wf_list xs)"
| "json_wf_dict [] = True"
| "json_wf_dict ((k, v) # d) = (json_wf v \<and> json_wf_dict d)"

fun json_need :: "py \<Rightarrow> nat" and need_list :: "py list \<Rightarrow> nat" and need_dict :: "(string \<times> py) list \<Rightarrow> nat" where
  "json_need (PList xs) = Suc (need_list xs)"
| "json_need (PDict d) = Suc (need_dict d)"
| "json_need _ = Suc 0"
| "need_list [] = 0"
| "need_list (x # xs) = Suc (max (json_need x) (need_list xs))"
| "need_dict [] = 0"
| "need_dict ((k, v) # d) = Suc (max (json_need v) (need_dict d))"

definition style_ok :: "json_style \<Rightarrow> bool" where
  "style_ok st = (js_item_sep st \<noteq> [] \<and> hd (js_item_sep st) = CHR '','' \<and> list_all json_ws (tl (js_item_sep st))
     \<and> js_key_sep st \<noteq> [] \<and> hd (js_key_sep st) = CHR '':'' \<and> list_all json_ws (tl (js_key_sep st)))"

lemma json_styles_ok [simp]: "style_ok json_default" "style_ok json_readable" "style_ok json_compact"
  by (simp_all add: style_ok_def json_default_def json_readable_def json_compact_def json_ws_def)

lemma skip_ws_skip: "list_all json_ws w \<Longrightarrow> skip_ws (w @ s) = skip_ws s"
  by (induction w) (auto simp: skip_ws_def)

lemma skip_ws_id: "s \<noteq> [] \<Longrightarrow> \<not> json_ws (hd s) \<Longrightarrow> skip_ws s = s"
  by (cases s) (auto simp: skip_ws_def)

definition starts_value :: "string \<Rightarrow> bool" where
  "starts_value s = (s \<noteq> [] \<and> \<not> json_ws (hd s) \<and> hd s \<noteq> CHR '']'')"

lemma digit_starts: "is_digit c \<Longrightarrow> \<not> json_ws c \<and> c \<noteq> CHR '']'' \<and> c \<noteq> json_quote \<and> c \<noteq> CHR ''['' \<and> c \<noteq> CHR ''{''
    \<and> c \<notin> set ''ntfNI''"
  by (auto simp: is_digit_def json_ws_def json_quote_def)

lemma int_token_starts:
  assumes "int_token t"
  shows "t \<noteq> []" and "(\<exists>d u. t = d # u \<and> is_digit d) \<or> (\<exists>d u. t = CHR ''-'' # d # u \<and> is_digit d)"
proof -
  from int_token_ne [OF assms] show "t \<noteq> []" by simp
  from int_token_ne [OF assms] show "(\<exists>d u. t = d # u \<and> is_digit d) \<or> (\<exists>d u. t = CHR ''-'' # d # u \<and> is_digit d)"
    by (cases t; cases "tl t") auto
qed

lemma float_token_starts:
  assumes "float_token t"
  shows "(\<exists>d u. t = d # u \<and> is_digit d) \<or> (\<exists>d u. t = CHR ''-'' # d # u \<and> is_digit d)"
proof -
  let ?ip = "takeWhile (\<lambda>c. c \<noteq> CHR ''.'') (takeWhile (\<lambda>c. \<not> is_e c) t)"
  have pre: "\<exists>u. t = ?ip @ u" by (metis append_assoc takeWhile_dropWhile_id)
  from assms have "int_token ?ip" by (simp add: float_token_def Let_def)
  from int_token_starts(2) [OF this] pre show ?thesis by (metis append_Cons)
qed

text \<open>A number token is read by \<open>json_number\<close>, never taken for a word, list, dict or string.\<close>

lemma number_value:
  assumes st: "(\<exists>d u. t = d # u \<and> is_digit d) \<or> (\<exists>d u. t = CHR ''-'' # d # u \<and> is_digit d)"
    and num: "list_all num_char t" and nx: "no_num_next rest"
  shows "json_value (Suc n) (t @ rest) =
    (if int_token t then Some (PInt (int_of_token t), rest)
     else if float_token t then Some (PFloat t, rest) else None)"
proof -
  have w: "json_word (t @ rest) = None"
    using st digit_starts by (auto simp: json_word_def py_startswith_def is_digit_def)
  have nm: "json_number (t @ rest) = (if int_token t then Some (PInt (int_of_token t), rest)
     else if float_token t then Some (PFloat t, rest) else None)"
    using take_token [OF num nx] by (simp add: json_number_def Let_def)
  from st obtain c r where cr: "t = c # r" "is_digit c \<or> c = CHR ''-''" by auto
  then have ne: "c \<noteq> json_quote \<and> c \<noteq> CHR ''['' \<and> c \<noteq> CHR ''{''"
    by (auto simp: is_digit_def json_quote_def)
  with cr w nm show ?thesis by simp
qed

lemma text_starts: "json_wf v \<Longrightarrow> starts_value (json_text st v)"
proof (cases v)
  case (PInt i)
  then show ?thesis using int_token_starts [OF int_str_token(1) [of i]] digit_starts
    by (auto simp: starts_value_def json_ws_def)
next
  case (PFloat r)
  moreover assume "json_wf v"
  ultimately show ?thesis using float_token_starts [of r] digit_starts
    by (auto simp: starts_value_def json_ws_def)
qed (auto simp: starts_value_def json_ws_def json_str_def json_quote_def)

lemma text_append: "json_wf v \<Longrightarrow> skip_ws (json_text st v @ s) = json_text st v @ s \<and>
   json_text st v @ s \<noteq> [] \<and> hd (json_text st v @ s) \<noteq> CHR '']''"
  using text_starts [of v st] by (auto simp: starts_value_def intro!: skip_ws_id)

lemma str_value: "json_value (Suc n) (json_str a s @ rest) = Some (PStr s, rest)"
  by (simp add: json_str_def string_body_str)

lemma word_value:
  "json_value (Suc n) (''null'' @ rest) = Some (PNone, rest)"
  "json_value (Suc n) (''true'' @ rest) = Some (PBool True, rest)"
  "json_value (Suc n) (''false'' @ rest) = Some (PBool False, rest)"
  by (simp_all add: json_word_def py_startswith_def json_quote_def)

lemma list_value:
  assumes "xs \<noteq> [] \<Longrightarrow> json_list n (json_items st xs @ CHR '']'' # rest) = Some (xs, rest)" and "json_wf_list xs"
  shows "json_value (Suc n) (json_text st (PList xs) @ rest) = Some (PList xs, rest)"
proof (cases xs)
  case Nil
  then show ?thesis by (simp add: json_quote_def skip_ws_def json_ws_def)
next
  case (Cons x ys)
  let ?t = "json_items st xs @ CHR '']'' # rest"
  have t: "skip_ws ?t = ?t \<and> ?t \<noteq> [] \<and> hd ?t \<noteq> CHR '']''"
    using assms(2) Cons text_append [of x st "(if ys = [] then [] else js_item_sep st @ json_items st ys) @ CHR '']'' # rest"]
    by simp
  then obtain d r where d: "?t = d # r" by (cases ?t) auto
  with t have s: "skip_ws ?t = d # r" "d \<noteq> CHR '']''" by auto
  have l: "json_list n (d # r) = Some (xs, rest)" using assms(1) Cons d by simp
  have "json_value (Suc n) (CHR ''['' # ?t) = Some (PList xs, rest)"
    using s l by (simp add: json_quote_def)
  then show ?thesis by simp
qed

lemma dupdate_distinct: "distinct (map fst d) \<Longrightarrow> fst ` set e \<inter> fst ` set d = {} \<Longrightarrow> dupdate e d = e @ d"
proof (induction d arbitrary: e)
  case Nil
  then show ?case by simp
next
  case (Cons kv d)
  obtain k v where [simp]: "kv = (k, v)" by (cases kv)
  have app: "k \<notin> fst ` set e \<Longrightarrow> dput k v e = e @ [(k, v)]" for e :: "(_ \<times> _) list"
    by (induction e) auto
  from Cons.prems have "dput k v e = e @ [(k, v)]" by (intro app) auto
  with Cons.IH [of "e @ [(k, v)]"] Cons.prems show ?case by auto
qed

lemma dict_value:
  assumes "d \<noteq> [] \<Longrightarrow> json_dict n (json_pairs st d @ CHR ''}'' # rest) = Some (d, rest)" and "distinct (map fst d)"
  shows "json_value (Suc n) (json_text st (PDict d) @ rest) = Some (PDict d, rest)"
proof (cases d)
  case Nil
  then show ?thesis by (simp add: json_quote_def skip_ws_def json_ws_def)
next
  case (Cons kv e)
  let ?t = "json_pairs st d @ CHR ''}'' # rest"
  obtain r where d: "?t = json_quote # r" using Cons by (cases kv) (simp add: json_str_def)
  then have s: "skip_ws ?t = json_quote # r" by (simp add: skip_ws_def json_ws_def json_quote_def)
  have l: "json_dict n (json_quote # r) = Some (d, rest)" using assms(1) Cons d by simp
  have "json_value (Suc n) (CHR ''{'' # ?t) = Some (PDict d, rest)"
    using s l dupdate_distinct [OF assms(2), of "[]"] by (simp add: json_quote_def)
  then show ?thesis by simp
qed

lemma sep_split:
  assumes "style_ok st"
  obtains w u where "js_item_sep st = CHR '','' # w" "list_all json_ws w"
    "js_key_sep st = CHR '':'' # u" "list_all json_ws u"
  using assms by (cases "js_item_sep st"; cases "js_key_sep st") (auto simp: style_ok_def)

lemma no_num_sep: "no_num_next (CHR '']'' # s)" "no_num_next (CHR ''}'' # s)" "no_num_next (CHR '','' # s)"
  by (simp_all add: no_num_next_def num_char_def is_digit_def)

lemma skip_punct: "skip_ws (CHR '']'' # s) = CHR '']'' # s" "skip_ws (CHR ''}'' # s) = CHR ''}'' # s"
  "skip_ws (CHR '','' # s) = CHR '','' # s" "skip_ws (CHR '':'' # s) = CHR '':'' # s"
  "skip_ws (json_str a k @ s) = json_str a k @ s"
  by (simp_all add: skip_ws_def json_ws_def json_str_def json_quote_def)

lemma json_read_back:
  assumes "style_ok st"
  shows "json_wf v \<Longrightarrow> no_num_next rest \<Longrightarrow> json_need v \<le> n \<Longrightarrow>
      json_value n (json_text st v @ rest) = Some (v, rest)"
    and "xs \<noteq> [] \<Longrightarrow> json_wf_list xs \<Longrightarrow> list_all json_ws w0 \<Longrightarrow> need_list xs \<le> n \<Longrightarrow>
      json_list n (w0 @ json_items st xs @ CHR '']'' # rest) = Some (xs, rest)"
    and "d \<noteq> [] \<Longrightarrow> json_wf_dict d \<Longrightarrow> list_all json_ws w0 \<Longrightarrow> need_dict d \<le> n \<Longrightarrow>
      json_dict n (w0 @ json_pairs st d @ CHR ''}'' # rest) = Some (d, rest)"
proof (induction v and xs and d arbitrary: n rest and n rest w0 and n rest w0
    rule: json_wf_json_wf_list_json_wf_dict.induct)
  case (1 r)
  then obtain m where "n = Suc m" by (cases n) auto
  with 1 number_value [OF float_token_starts] show ?case by simp
next
  case (2 xs)
  then obtain m where m: "n = Suc m" "need_list xs \<le> m" by (cases n) auto
  from 2 m show ?case unfolding m(1) by (intro list_value) (use 2(1) [where ?w0.0 = "[]"] in simp_all)
next
  case (3 d)
  then obtain m where m: "n = Suc m" "need_dict d \<le> m" by (cases n) auto
  from 3 m show ?case unfolding m(1) by (intro dict_value) (use 3(1) [where ?w0.0 = "[]"] in simp_all)
next
  case 4
  then obtain m where "n = Suc m" by (cases n) auto
  then show ?case by (simp only: json_text.simps word_value)
next
  case (5 b)
  then obtain m where "n = Suc m" by (cases n) auto
  then show ?case by (cases b) (simp_all only: json_text.simps if_True if_False word_value)
next
  case (6 i)
  then obtain m where "n = Suc m" by (cases n) auto
  with 6 number_value [OF int_token_starts(2) [OF int_str_token(1)] int_str_token(3), of rest m i]
  show ?case by (simp add: int_str_token)
next
  case (7 s)
  then obtain m where "n = Suc m" by (cases n) auto
  then show ?case by (simp only: json_text.simps str_value)
next
  case 8
  then show ?case by simp
next
  case (9 x xs)
  from 9(6) obtain m where m: "n = Suc m" "json_need x \<le> m" "need_list xs \<le> m" by (cases n) auto
  obtain w u where w: "js_item_sep st = CHR '','' # w" "list_all json_ws w" by (rule sep_split [OF assms])
  let ?tail = "(if xs = [] then [] else js_item_sep st @ json_items st xs) @ CHR '']'' # rest"
  have nt: "no_num_next ?tail" using w no_num_sep by simp
  have sk: "skip_ws (w0 @ json_text st x @ ?tail) = json_text st x @ ?tail"
    using 9(4,5) text_append [of x st ?tail] by (simp add: skip_ws_skip)
  have x: "json_value m (json_text st x @ ?tail) = Some (x, ?tail)"
    using 9(1) [OF _ nt m(2)] 9(4) by simp
  have "json_list n (w0 @ json_text st x @ ?tail) = Some (x # xs, rest)"
  proof (cases xs)
    case Nil
    with sk x m(1) show ?thesis by (simp add: skip_punct)
  next
    case (Cons y ys)
    then have "json_list m (w @ json_items st xs @ CHR '']'' # rest) = Some (xs, rest)"
      using 9(2) [OF _ _ w(2) m(3)] 9(4) by simp
    with Cons sk x m(1) w(1) show ?thesis by (simp add: skip_punct)
  qed
  then show ?case by simp
next
  case 10
  then show ?case by simp
next
  case (11 k v d)
  from 11(6) obtain m where m: "n = Suc m" "json_need v \<le> m" "need_dict d \<le> m" by (cases n) auto
  obtain w u where w: "js_item_sep st = CHR '','' # w" "list_all json_ws w"
    "js_key_sep st = CHR '':'' # u" "list_all json_ws u" by (rule sep_split [OF assms])
  let ?tail = "(if d = [] then [] else js_item_sep st @ json_pairs st d) @ CHR ''}'' # rest"
  let ?val = "CHR '':'' # u @ json_text st v @ ?tail"
  have nt: "no_num_next ?tail" using w no_num_sep by simp
  have sk: "skip_ws (w0 @ json_str (js_ascii st) k @ ?val) = json_str (js_ascii st) k @ ?val"
    using 11(5) by (simp add: skip_ws_skip skip_punct)
  have sv: "skip_ws (u @ json_text st v @ ?tail) = json_text st v @ ?tail"
    using 11(4) w(4) text_append [of v st ?tail] by (simp add: skip_ws_skip)
  have x: "json_value m (json_text st v @ ?tail) = Some (v, ?tail)"
    using 11(1) [OF _ nt m(2)] 11(4) by simp
  have b: "string_body (concat (map (json_char (js_ascii st)) k) @ json_quote # ?val) = Some (k, ?val)"
    by (rule string_body_str)
  have "json_dict n (w0 @ json_str (js_ascii st) k @ ?val) = Some ((k, v) # d, rest)"
  proof (cases d)
    case Nil
    with sk sv x m(1) b show ?thesis by (simp add: json_str_def skip_punct)
  next
    case (Cons e es)
    then have "json_dict m (w @ json_pairs st d @ CHR ''}'' # rest) = Some (d, rest)"
      using 11(2) [OF _ _ w(2) m(3)] 11(4) by simp
    with Cons sk sv x m(1) b w(1) show ?thesis by (simp add: json_str_def skip_punct)
  qed
  then show ?case using w(3) by simp
qed


text \<open>The length of the text bounds the fuel a value needs.\<close>

lemma need_length:
  shows "json_wf v \<Longrightarrow> json_need v \<le> length (json_text st v) \<and> 1 \<le> length (json_text st v)"
    and "json_wf_list xs \<Longrightarrow> need_list xs \<le> Suc (length (json_items st xs))"
    and "json_wf_dict d \<Longrightarrow> need_dict d \<le> Suc (length (json_pairs st d))"
proof (induction v and xs and d rule: json_wf_json_wf_list_json_wf_dict.induct)
  case (1 r)
  then show ?case using float_token_starts [of r] by auto
next
  case (6 i)
  then show ?case using int_token_starts(1) [OF int_str_token(1) [of i]] by (cases "int_str i") auto
next
  case (9 x xs)
  then show ?case by (cases xs) auto
next
  case (11 k v d)
  then show ?case by (cases d) auto
qed (auto simp: json_str_def)

lemma json_roundtrip:
  assumes "json_wf v" and "style_ok st"
  shows "json_loads (json_text st v) = Inr v"
proof -
  have "json_need v \<le> Suc (length (json_text st v))" using need_length(1) [OF assms(1), of st] by simp
  then have "json_value (Suc (length (json_text st v))) (json_text st v @ []) = Some (v, [])"
    using assms by (intro json_read_back(1)) (auto simp: no_num_next_def)
  moreover have "skip_ws (json_text st v) = json_text st v" using text_append [OF assms(1), of st "[]"] by simp
  ultimately show ?thesis by (simp add: json_loads_def skip_ws_def)
qed

end
