(* ===== verification/Manifest_Cache.thy ===== *)
theory Manifest_Cache
  imports Tool_Contracts
begin

text \<open>
  The per-tenant cache of tool manifests (\<open>app/tools/manifest_cache.py\<close>) and the
  Postgres-backed snapshot store behind it (\<open>app/tools/snapshots.py\<close>). Every operation
  takes the readings of the wall clock and of the monotonic clock it makes, and the
  answer of the fetch as a function of the ETag it sends. A call of \<open>get\<close> is two steps:
  the look-up before the lock and the one under it; the lock makes the second one atomic
  for a tenant, so calls that wait for it run one after the other.
\<close>

section \<open>State\<close>

record cache_entry =
  ce_raw :: py
  ce_manifest :: manifest
  ce_fetched_at :: rat
  ce_fresh_until :: rat
  ce_retry_at :: rat
  ce_last_error :: "string option"

record cache_config =
  ttl_seconds :: rat
  stale_max_seconds :: rat
  retry_seconds :: rat

type_synonym cache = "string \<rightharpoonup> cache_entry"

text \<open>The answer of \<open>fetch(etag)\<close>: (not modified, raw manifest), or the exception it raised.\<close>

type_synonym fetch_fn = "string option \<Rightarrow> (bool \<times> py) result"

text \<open>A snapshot store with state \<open>'s\<close>: \<open>load\<close> and \<open>save\<close> may raise.\<close>

record 's snapshot_ops =
  snap_load :: "'s \<Rightarrow> string \<Rightarrow> (py \<times> rat) option result"
  snap_save :: "rat \<Rightarrow> 's \<Rightarrow> string \<Rightarrow> py \<Rightarrow> 's result"

section \<open>Operations\<close>

definition usable_without_refresh :: "rat \<Rightarrow> rat \<Rightarrow> cache_entry \<Rightarrow> bool" where
  "usable_without_refresh wall mclk e =
     (wall < ce_fresh_until e \<or> (ce_last_error e \<noteq> None \<and> mclk < ce_retry_at e))"

definition invalidate :: "string \<Rightarrow> cache \<Rightarrow> cache" where
  "invalidate t c = (case c t of
     None \<Rightarrow> c
   | Some e \<Rightarrow> c(t \<mapsto> e\<lparr>ce_fresh_until := 0, ce_retry_at := 0\<rparr>))"

definition exc_text :: "py_exc \<Rightarrow> string" where
  "exc_text e = exc_name e @ '': '' @ (case e of
     ValueError m \<Rightarrow> m | KeyError m \<Rightarrow> m | TypeError m \<Rightarrow> m | AttributeError m \<Rightarrow> m
   | OverflowError m \<Rightarrow> m | HTTPException _ m \<Rightarrow> m | OtherError _ \<Rightarrow> [])"

definition mark_stale :: "manifest \<Rightarrow> manifest" where
  "mark_stale m = m\<lparr>mf_stale := True\<rparr>"

text \<open>
  \<open>_fallback\<close>. A failing \<open>load\<close> counts as no snapshot; a snapshot whose parsing raises a
  \<open>ValueError\<close> is dropped, any other exception leaves the method.
\<close>

definition fallback_entry ::
  "'s snapshot_ops option \<Rightarrow> 's \<Rightarrow> string \<Rightarrow> cache_entry option \<Rightarrow> cache_entry option result" where
  "fallback_entry ops s t entry = (case (entry, ops) of
     (Some e, _) \<Rightarrow> Inr (Some e)
   | (None, None) \<Rightarrow> Inr None
   | (None, Some os) \<Rightarrow>
       (case snap_load os s t of
          Inl _ \<Rightarrow> Inr None
        | Inr None \<Rightarrow> Inr None
        | Inr (Some (raw, fat)) \<Rightarrow>
            (case parse_manifest raw of
               Inr m \<Rightarrow> Inr (Some \<lparr>ce_raw = raw, ce_manifest = m, ce_fetched_at = fat,
                  ce_fresh_until = 0, ce_retry_at = 0, ce_last_error = None\<rparr>)
             | Inl (ValueError _) \<Rightarrow> Inr None
             | Inl e \<Rightarrow> Inl e)))"

definition fallback ::
  "cache_config \<Rightarrow> 's snapshot_ops option \<Rightarrow> rat \<Rightarrow> rat \<Rightarrow> string \<Rightarrow> cache_entry option \<Rightarrow> string
     \<Rightarrow> cache \<Rightarrow> 's \<Rightarrow> manifest option result \<times> cache" where
  "fallback cfg ops wall mclk t entry err c s = (case fallback_entry ops s t entry of
     Inl e \<Rightarrow> (Inl e, c)
   | Inr None \<Rightarrow> (Inr None, c(t := None))
   | Inr (Some e) \<Rightarrow>
       if wall - ce_fetched_at e > stale_max_seconds cfg then (Inr None, c(t := None))
       else (let e' = e\<lparr>ce_last_error := Some err, ce_retry_at := mclk + retry_seconds cfg,
                        ce_manifest := mark_stale (ce_manifest e)\<rparr>
             in (Inr (Some (ce_manifest e')), c(t \<mapsto> e'))))"

definition etag_of :: "cache_entry option \<Rightarrow> string option" where
  "etag_of entry = (case entry of
     None \<Rightarrow> None
   | Some e \<Rightarrow> if mf_hash (ce_manifest e) \<noteq> [] then Some (mf_hash (ce_manifest e)) else None)"

text \<open>The three ways \<open>_refresh\<close> ends: the old copy, a 304 revalidation, a new manifest.\<close>

definition refresh_failed ::
  "cache_config \<Rightarrow> 's snapshot_ops option \<Rightarrow> rat \<Rightarrow> rat \<Rightarrow> string \<Rightarrow> cache_entry option \<Rightarrow> py_exc
     \<Rightarrow> cache \<Rightarrow> 's \<Rightarrow> manifest option result \<times> cache \<times> 's" where
  "refresh_failed cfg ops wall mclk t entry e c s =
     (case fallback cfg ops wall mclk t entry (exc_text e) c s of (r, c') \<Rightarrow> (r, c', s))"

definition revalidated :: "cache_config \<Rightarrow> rat \<Rightarrow> cache_entry \<Rightarrow> cache_entry" where
  "revalidated cfg wall e = e\<lparr>ce_fetched_at := wall, ce_fresh_until := wall + ttl_seconds cfg,
     ce_last_error := None, ce_manifest := (ce_manifest e)\<lparr>mf_stale := False\<rparr>\<rparr>"

definition fresh_entry :: "cache_config \<Rightarrow> rat \<Rightarrow> py \<Rightarrow> manifest \<Rightarrow> cache_entry" where
  "fresh_entry cfg wall raw m = \<lparr>ce_raw = raw, ce_manifest = m, ce_fetched_at = wall,
     ce_fresh_until = wall + ttl_seconds cfg, ce_retry_at = 0, ce_last_error = None\<rparr>"

definition manifest_changed :: "cache_entry option \<Rightarrow> manifest \<Rightarrow> bool" where
  "manifest_changed entry m = (case entry of None \<Rightarrow> True
     | Some e \<Rightarrow> mf_hash (ce_manifest e) \<noteq> mf_hash m)"

definition save_snapshot ::
  "'s snapshot_ops option \<Rightarrow> bool \<Rightarrow> rat \<Rightarrow> 's \<Rightarrow> string \<Rightarrow> py \<Rightarrow> 's" where
  "save_snapshot ops changed wall s t raw = (case ops of
     Some os \<Rightarrow> if changed
       then (case snap_save os wall s t raw of Inl _ \<Rightarrow> s | Inr s' \<Rightarrow> s')
       else s
   | None \<Rightarrow> s)"

definition refresh ::
  "cache_config \<Rightarrow> 's snapshot_ops option \<Rightarrow> fetch_fn \<Rightarrow> rat \<Rightarrow> rat \<Rightarrow> string \<Rightarrow> cache_entry option
     \<Rightarrow> cache \<Rightarrow> 's \<Rightarrow> manifest option result \<times> cache \<times> 's" where
  "refresh cfg ops fetch wall mclk t entry c s = (case fetch (etag_of entry) of
     Inl e \<Rightarrow> refresh_failed cfg ops wall mclk t entry e c s
   | Inr (not_modified, raw) \<Rightarrow>
       (case (if not_modified then entry else None) of
          Some e \<Rightarrow> (let e' = revalidated cfg wall e in (Inr (Some (ce_manifest e')), c(t \<mapsto> e'), s))
        | None \<Rightarrow>
            if raw = PNone
            then refresh_failed cfg ops wall mclk t entry (ValueError ''empty manifest'') c s
            else (case parse_manifest raw of
                Inl e \<Rightarrow> refresh_failed cfg ops wall mclk t entry e c s
              | Inr m \<Rightarrow> (Inr (Some m), c(t \<mapsto> fresh_entry cfg wall raw m),
                          save_snapshot ops (manifest_changed entry m) wall s t raw))))"

text \<open>The two halves of \<open>get\<close>; the second component tells whether a fetch was made.\<close>

definition get_fast :: "rat \<Rightarrow> rat \<Rightarrow> string \<Rightarrow> cache \<Rightarrow> manifest option" where
  "get_fast wall mclk t c = (case c t of
     Some e \<Rightarrow> if usable_without_refresh wall mclk e then Some (ce_manifest e) else None
   | None \<Rightarrow> None)"

record readings =
  wall_in :: rat
  mclk_in :: rat
  wall_after :: rat
  mclk_after :: rat

definition get_locked ::
  "cache_config \<Rightarrow> 's snapshot_ops option \<Rightarrow> fetch_fn \<Rightarrow> readings \<Rightarrow> string \<Rightarrow> cache \<Rightarrow> 's
     \<Rightarrow> manifest option result \<times> bool \<times> cache \<times> 's" where
  "get_locked cfg ops fetch r t c s = (case get_fast (wall_in r) (mclk_in r) t c of
     Some m \<Rightarrow> (Inr (Some m), False, c, s)
   | None \<Rightarrow> (case refresh cfg ops fetch (wall_after r) (mclk_after r) t (c t) c s of
       (res, c', s') \<Rightarrow> (res, True, c', s')))"

definition cache_get ::
  "cache_config \<Rightarrow> 's snapshot_ops option \<Rightarrow> fetch_fn \<Rightarrow> rat \<Rightarrow> rat \<Rightarrow> readings \<Rightarrow> string
     \<Rightarrow> cache \<Rightarrow> 's \<Rightarrow> manifest option result \<times> bool \<times> cache \<times> 's" where
  "cache_get cfg ops fetch wall mclk r t c s = (case get_fast wall mclk t c of
     Some m \<Rightarrow> (Inr (Some m), False, c, s)
   | None \<Rightarrow> get_locked cfg ops fetch r t c s)"

text \<open>Calls queued on the tenant's lock, in the order they get it, and how many fetched.\<close>

fun locked_run ::
  "cache_config \<Rightarrow> 's snapshot_ops option \<Rightarrow> string \<Rightarrow> (readings \<times> fetch_fn) list \<Rightarrow> cache \<Rightarrow> 's
     \<Rightarrow> nat \<times> cache \<times> 's" where
  "locked_run cfg ops t [] c s = (0, c, s)"
| "locked_run cfg ops t ((r, f) # ws) c s =
     (case get_locked cfg ops f r t c s of
        (_, fetched, c', s') \<Rightarrow>
          (case locked_run cfg ops t ws c' s' of
             (n, c2, s2) \<Rightarrow> ((if fetched then 1 else 0) + n, c2, s2)))"

section \<open>The snapshot store\<close>

text \<open>One row of \<open>tenant_tool_manifests\<close> per tenant; \<open>save\<close> merges by primary key.\<close>

record snapshot_row =
  sr_hash :: string
  sr_json :: pydict
  sr_fetched_at :: rat

type_synonym snapshot_db = "string \<rightharpoonup> snapshot_row"

definition db_snapshot_load :: "snapshot_db \<Rightarrow> string \<Rightarrow> (py \<times> rat) option result" where
  "db_snapshot_load db t = (case db t of
     None \<Rightarrow> Inr None
   | Some row \<Rightarrow> Inr (Some (PDict (sr_json row), sr_fetched_at row)))"

definition db_snapshot_save :: "rat \<Rightarrow> snapshot_db \<Rightarrow> string \<Rightarrow> py \<Rightarrow> snapshot_db result" where
  "db_snapshot_save now db t v = (case v of
     PDict raw \<Rightarrow> Inr (db(t \<mapsto> \<lparr>sr_hash = str_or (pget raw ''manifest_hash''), sr_json = raw,
                                  sr_fetched_at = now\<rparr>))
   | _ \<Rightarrow> Inl (AttributeError ''get''))"

definition db_snapshots :: "snapshot_db snapshot_ops" where
  "db_snapshots = \<lparr>snap_load = db_snapshot_load, snap_save = db_snapshot_save\<rparr>"

section \<open>Interface: a store of snapshots\<close>

text \<open>
  What the cache relies on: a saved snapshot is what the next \<open>load\<close> of that tenant gives
  back, and it changes no other tenant's.
\<close>

locale snapshot_store =
  fixes ops :: "'s snapshot_ops"
  assumes load_saved: "snap_save ops now s t raw = Inr s' \<Longrightarrow> snap_load ops s' t = Inr (Some (raw, now))"
    and load_other: "snap_save ops now s t raw = Inr s' \<Longrightarrow> u \<noteq> t \<Longrightarrow>
      snap_load ops s' u = snap_load ops s u"

text \<open>Every snapshot in the store parses, and every entry holds the parse of its raw manifest.\<close>

definition snapshots_ok :: "'s snapshot_ops \<Rightarrow> 's \<Rightarrow> bool" where
  "snapshots_ok ops s \<longleftrightarrow> (\<forall>t raw fat. snap_load ops s t = Inr (Some (raw, fat)) \<longrightarrow>
     (\<exists>m. parse_manifest raw = Inr m))"

definition entry_ok :: "cache_entry \<Rightarrow> bool" where
  "entry_ok e \<longleftrightarrow> parse_manifest (ce_raw e) = Inr ((ce_manifest e)\<lparr>mf_stale := False\<rparr>)"

definition cache_ok :: "cache \<Rightarrow> bool" where
  "cache_ok c \<longleftrightarrow> (\<forall>t e. c t = Some e \<longrightarrow> entry_ok e)"

lemma parsed_not_stale: "parse_manifest raw = Inr m \<Longrightarrow> m\<lparr>mf_stale := False\<rparr> = m"
proof -
  assume a: "parse_manifest raw = Inr m"
  then obtain r where "raw = PDict r" using parse_manifest_dict by blast
  with a have "\<not> mf_stale m" using parse_manifest_fields(3) by blast
  then show ?thesis by simp
qed

lemma cache_ok_upd: "cache_ok c \<Longrightarrow> entry_ok e \<Longrightarrow> cache_ok (c(t \<mapsto> e))"
  by (simp add: cache_ok_def)

lemma cache_ok_del: "cache_ok c \<Longrightarrow> cache_ok (c(t := None))"
  by (simp add: cache_ok_def)

context snapshot_store
begin

lemma fallback_entry_ok:
  assumes "snapshots_ok ops s" and "\<And>e. entry = Some e \<Longrightarrow> entry_ok e"
  shows "\<exists>r. fallback_entry (Some ops) s t entry = Inr r \<and> (\<forall>e. r = Some e \<longrightarrow> entry_ok e)"
proof (cases entry)
  case (Some e)
  with assms show ?thesis by (simp add: fallback_entry_def)
next
  case None
  show ?thesis
  proof (cases "snap_load ops s t")
    case (Inl x)
    with None show ?thesis by (simp add: fallback_entry_def)
  next
    case (Inr l)
    show ?thesis
    proof (cases l)
      case None
      with Inr \<open>entry = None\<close> show ?thesis by (simp add: fallback_entry_def)
    next
      case (Some p)
      obtain raw fat where p: "p = (raw, fat)" by (cases p)
      with Some Inr assms(1) obtain m where m: "parse_manifest raw = Inr m"
        by (auto simp: snapshots_ok_def)
      with Some Inr p \<open>entry = None\<close> show ?thesis
        by (simp add: fallback_entry_def entry_ok_def parsed_not_stale)
    qed
  qed
qed

lemma fallback_ok:
  assumes "snapshots_ok ops s" and "cache_ok c" and "\<And>e. entry = Some e \<Longrightarrow> entry_ok e"
    and "fallback cfg (Some ops) wall mclk t entry err c s = (res, c')"
  shows "cache_ok c' \<and> (\<exists>mo. res = Inr mo)"
proof -
  from fallback_entry_ok [OF assms(1,3)] obtain r
    where r: "fallback_entry (Some ops) s t entry = Inr r" "\<forall>e. r = Some e \<longrightarrow> entry_ok e" by blast
  show ?thesis
  proof (cases r)
    case None
    with r assms(2,4) show ?thesis by (auto simp: fallback_def cache_ok_del)
  next
    case (Some e)
    then have "entry_ok (e\<lparr>ce_last_error := Some err, ce_retry_at := mclk + retry_seconds cfg,
        ce_manifest := mark_stale (ce_manifest e)\<rparr>)"
      using r(2) by (simp add: entry_ok_def mark_stale_def)
    with Some r(1) assms(2,4) show ?thesis
      by (auto simp: fallback_def Let_def cache_ok_del cache_ok_upd split: if_splits)
  qed
qed

lemma save_ok:
  assumes "snapshots_ok ops s" and "parse_manifest raw = Inr m" and "snap_save ops now s t raw = Inr s'"
  shows "snapshots_ok ops s'"
  unfolding snapshots_ok_def
proof (intro allI impI)
  fix u r fat
  assume l: "snap_load ops s' u = Inr (Some (r, fat))"
  show "\<exists>m. parse_manifest r = Inr m"
  proof (cases "u = t")
    case True
    with l load_saved [OF assms(3)] assms(2) show ?thesis by simp
  next
    case False
    with l load_other [OF assms(3)] have "snap_load ops s u = Inr (Some (r, fat))" by simp
    with assms(1) show ?thesis unfolding snapshots_ok_def by blast
  qed
qed

lemma refresh_failed_ok:
  assumes "snapshots_ok ops s" and "cache_ok c" and "\<And>e. entry = Some e \<Longrightarrow> entry_ok e"
    and "refresh_failed cfg (Some ops) wall mclk t entry x c s = (res, c', s')"
  shows "snapshots_ok ops s' \<and> cache_ok c' \<and> (\<exists>mo. res = Inr mo)"
  using assms fallback_ok [OF assms(1,2,3)] by (auto simp: refresh_failed_def split: prod.splits)

lemma save_snapshot_ok:
  assumes "snapshots_ok ops s" and "parse_manifest raw = Inr m"
  shows "snapshots_ok ops (save_snapshot (Some ops) ch wall s t raw)"
  using assms save_ok [OF assms] by (auto simp: save_snapshot_def split: sum.splits)

lemma refresh_ok:
  assumes s: "snapshots_ok ops s" and c: "cache_ok c" and e: "\<And>e. entry = Some e \<Longrightarrow> entry_ok e"
    and r: "refresh cfg (Some ops) fetch wall mclk t entry c s = (res, c', s')"
  shows "snapshots_ok ops s' \<and> cache_ok c' \<and> (\<exists>mo. res = Inr mo)"
proof (cases "fetch (etag_of entry)")
  case (Inl x)
  with r refresh_failed_ok [OF s c e] show ?thesis by (simp add: refresh_def)
next
  case (Inr p)
  obtain nm raw where p: "p = (nm, raw)" by (cases p)
  show ?thesis
  proof (cases "if nm then entry else None")
    case (Some e0)
    then have "entry_ok (revalidated cfg wall e0)"
      using e by (simp add: entry_ok_def revalidated_def split: if_splits)
    with r Inr p Some s c show ?thesis by (auto simp: refresh_def Let_def cache_ok_upd)
  next
    case None
    show ?thesis
    proof (cases "raw = PNone")
      case True
      with r Inr p None refresh_failed_ok [OF s c e] show ?thesis by (simp add: refresh_def)
    next
      case False
      show ?thesis
      proof (cases "parse_manifest raw")
        case (Inl x)
        with r \<open>fetch (etag_of entry) = Inr p\<close> p None False refresh_failed_ok [OF s c e]
        show ?thesis by (simp add: refresh_def)
      next
        case m: (Inr m)
        have "entry_ok (fresh_entry cfg wall raw m)"
          using m by (simp add: entry_ok_def fresh_entry_def parsed_not_stale)
        with r Inr p None False m c s save_snapshot_ok [OF s m] show ?thesis
          by (auto simp: refresh_def cache_ok_upd)
      qed
    qed
  qed
qed

lemma cache_get_ok:
  assumes "snapshots_ok ops s" and "cache_ok c"
    and "cache_get cfg (Some ops) fetch wall mclk r t c s = (res, fetched, c', s')"
  shows "snapshots_ok ops s' \<and> cache_ok c' \<and> (\<exists>mo. res = Inr mo)"
proof -
  have e: "\<And>e. c t = Some e \<Longrightarrow> entry_ok e" using assms(2) by (simp add: cache_ok_def)
  from assms refresh_ok [OF assms(1,2) e] show ?thesis
    by (auto simp: cache_get_def get_locked_def split: option.splits prod.splits)
qed

end

interpretation db: snapshot_store db_snapshots
  by unfold_locales
    (auto simp: db_snapshots_def db_snapshot_load_def db_snapshot_save_def split: py.splits)

section \<open>What a call of \<open>get\<close> guarantees\<close>

lemma fallback_Some:
  assumes "fallback cfg ops wall mclk t entry err c s = (Inr (Some m), c')"
  shows "mf_stale m \<and> (\<exists>e. c' t = Some e \<and> ce_manifest e = m \<and>
    wall - ce_fetched_at e \<le> stale_max_seconds cfg \<and> ce_last_error e = Some err \<and>
    ce_retry_at e = mclk + retry_seconds cfg)"
  using assms
  by (auto simp: fallback_def Let_def mark_stale_def split: sum.splits option.splits if_splits)

lemma refresh_Some:
  assumes "refresh cfg ops fetch wall mclk t entry c s = (Inr (Some m), c', s')"
  shows "\<exists>e. c' t = Some e \<and> ce_manifest e = m \<and>
    (ce_fresh_until e = wall + ttl_seconds cfg \<or>
     ce_last_error e \<noteq> None \<and> ce_retry_at e = mclk + retry_seconds cfg)"
proof -
  have failed: "?thesis" if "refresh_failed cfg ops wall mclk t entry x c s = (Inr (Some m), c', s')" for x
    using that fallback_Some [of cfg ops wall mclk t entry "exc_text x" c s m]
    by (fastforce simp: refresh_failed_def split: prod.splits)
  show ?thesis
    using assms failed
    by (auto simp: refresh_def Let_def revalidated_def fresh_entry_def
        split: sum.splits prod.splits option.splits if_splits)
qed

lemma get_locked_refreshed:
  "get_locked cfg ops fetch r t c s = (res, True, c', s') \<Longrightarrow>
   refresh cfg ops fetch (wall_after r) (mclk_after r) t (c t) c s = (res, c', s')"
  by (auto simp: get_locked_def split: option.splits prod.splits)

lemma locked_run_usable:
  assumes "\<And>r f. (r, f) \<in> set ws \<Longrightarrow> get_fast (wall_in r) (mclk_in r) t c = Some m"
  shows "locked_run cfg ops t ws c s = (0, c, s)"
  using assms
proof (induction ws)
  case Nil
  then show ?case by simp
next
  case (Cons w ws)
  obtain r f where w: "w = (r, f)" by (cases w)
  from Cons.prems [of r f] w have "get_fast (wall_in r) (mclk_in r) t c = Some m" by simp
  moreover have "locked_run cfg ops t ws c s = (0, c, s)" using Cons by auto
  ultimately show ?case by (simp add: w get_locked_def)
qed

text \<open>
  \<open>ManifestCache.get\<close> never raises into the turn. With the Postgres store, every call
  returns a manifest or \<open>None\<close>, whatever the CRM answers or raises, and keeps the
  invariant that makes it so: each cached entry holds the parse of its raw manifest and
  each stored snapshot parses.
\<close>

theorem get_never_raises:
  assumes "snapshots_ok db_snapshots db" and "cache_ok c"
    and "cache_get cfg (Some db_snapshots) fetch wall mclk r t c db = (res, fetched, c', db')"
  shows "(\<exists>mo. res = Inr mo) \<and> cache_ok c' \<and> snapshots_ok db_snapshots db'"
  using db.cache_get_ok [OF assms] by blast

theorem get_never_raises_witness:
  "snapshots_ok db_snapshots Map.empty \<and> cache_ok Map.empty \<and>
   (\<exists>mo. fst (cache_get \<lparr>ttl_seconds = 300, stale_max_seconds = 86400, retry_seconds = 30\<rparr>
      (Some db_snapshots) (\<lambda>_. Inl (OtherError ''ConnectError'')) 0 0
      \<lparr>wall_in = 0, mclk_in = 0, wall_after = 1, mclk_after = 1\<rparr> ''acme'' Map.empty Map.empty) = Inr mo)"
proof -
  have s: "snapshots_ok db_snapshots Map.empty"
    by (simp add: snapshots_ok_def db_snapshots_def db_snapshot_load_def)
  have c: "cache_ok Map.empty" by (simp add: cache_ok_def)
  show ?thesis
    using s c get_never_raises [OF s c] by (metis prod.collapse)
qed

text \<open>
  a manifest served although the fetch failed is flagged stale, is the cached one, was
  last fetched or revalidated at most \<open>stale_max_seconds\<close> ago, and the next refresh is
  put off by \<open>retry_seconds\<close>.
\<close>

theorem stale_manifest_bounded:
  assumes "get_locked cfg ops fetch r t c s = (Inr (Some m), True, c', s')"
    and "fetch (etag_of (c t)) = Inl e"
  shows "mf_stale m \<and> (\<exists>en. c' t = Some en \<and> ce_manifest en = m \<and>
    wall_after r - ce_fetched_at en \<le> stale_max_seconds cfg \<and>
    ce_retry_at en = mclk_after r + retry_seconds cfg)"
proof -
  from get_locked_refreshed [OF assms(1)] assms(2)
  have "fallback cfg ops (wall_after r) (mclk_after r) t (c t) (exc_text e) c s = (Inr (Some m), c')"
    by (auto simp: refresh_def refresh_failed_def split: prod.splits)
  from fallback_Some [OF this] show ?thesis by blast
qed

theorem stale_manifest_bounded_witness:
  "\<exists>c' s'. get_locked \<lparr>ttl_seconds = 300, stale_max_seconds = 86400, retry_seconds = 30\<rparr>
      (Some db_snapshots) (\<lambda>_. Inl (OtherError ''ConnectError''))
      \<lparr>wall_in = 900, mclk_in = 900, wall_after = 1000, mclk_after = 1000\<rparr> ''acme''
      [''acme'' \<mapsto> fresh_entry \<lparr>ttl_seconds = 300, stale_max_seconds = 86400, retry_seconds = 30\<rparr>
         100 (PDict demo_manifest) demo_parsed] Map.empty
    = (Inr (Some (mark_stale demo_parsed)), True, c', s') \<and> mf_stale (mark_stale demo_parsed)"
  (is "\<exists>c' s'. ?g = _ \<and> _")
proof -
  have g: "?g = (Inr (Some (mark_stale demo_parsed)), True, fst (snd (snd ?g)), snd (snd (snd ?g)))"
    by (simp add: get_locked_def get_fast_def usable_without_refresh_def fresh_entry_def refresh_def
        refresh_failed_def fallback_def fallback_entry_def Let_def)
  have "mf_stale (mark_stale demo_parsed)"
    using stale_manifest_bounded [OF g] by simp
  with g show ?thesis by blast
qed

text \<open>
  single flight and back-off. After one refresh that ended with a manifest, fetched or
  stale, the calls queued on the tenant's lock make no fetch at all and change nothing, as
  long as they get the lock within \<open>ttl_seconds\<close> and within \<open>retry_seconds\<close> of it.
\<close>

theorem single_flight:
  assumes "get_locked cfg ops fetch r t c s = (Inr (Some m), True, c', s')"
    and "\<forall>(r', f) \<in> set ws. wall_in r' < wall_after r + ttl_seconds cfg \<and>
           mclk_in r' < mclk_after r + retry_seconds cfg"
  shows "locked_run cfg ops t ws c' s' = (0, c', s')"
proof -
  from refresh_Some [OF get_locked_refreshed [OF assms(1)]] obtain e
    where e: "c' t = Some e" "ce_manifest e = m"
      "ce_fresh_until e = wall_after r + ttl_seconds cfg \<or>
       ce_last_error e \<noteq> None \<and> ce_retry_at e = mclk_after r + retry_seconds cfg" by blast
  show ?thesis
  proof (rule locked_run_usable)
    fix r' f assume "(r', f) \<in> set ws"
    with assms(2) have "wall_in r' < wall_after r + ttl_seconds cfg"
      "mclk_in r' < mclk_after r + retry_seconds cfg" by auto
    with e show "get_fast (wall_in r') (mclk_in r') t c' = Some m"
      by (auto simp: get_fast_def usable_without_refresh_def)
  qed
qed

theorem single_flight_witness:
  "locked_run \<lparr>ttl_seconds = 300, stale_max_seconds = 86400, retry_seconds = 30\<rparr> None ''acme''
     [(\<lparr>wall_in = 2, mclk_in = 2, wall_after = 2, mclk_after = 2\<rparr>, \<lambda>_. Inl (OtherError ''unused''))]
     [''acme'' \<mapsto> fresh_entry \<lparr>ttl_seconds = 300, stale_max_seconds = 86400, retry_seconds = 30\<rparr>
         1 (PDict demo_manifest) demo_parsed] () =
   (0, [''acme'' \<mapsto> fresh_entry \<lparr>ttl_seconds = 300, stale_max_seconds = 86400, retry_seconds = 30\<rparr>
         1 (PDict demo_manifest) demo_parsed], ())"
proof -
  let ?cfg = "\<lparr>ttl_seconds = 300, stale_max_seconds = 86400, retry_seconds = 30\<rparr>"
  have g: "get_locked ?cfg None (\<lambda>_. Inr (False, PDict demo_manifest))
      \<lparr>wall_in = 0, mclk_in = 0, wall_after = 1, mclk_after = 1\<rparr> ''acme'' Map.empty () =
    (Inr (Some demo_parsed), True,
      [''acme'' \<mapsto> fresh_entry ?cfg 1 (PDict demo_manifest) demo_parsed], ())"
    by (simp add: get_locked_def get_fast_def refresh_def demo_parse save_snapshot_def)
  show ?thesis by (rule single_flight [OF g]) simp
qed

end
