(* ===== verification/Resilience.thy ===== *)
theory Resilience
  imports Prelude Complex_Main
begin

text \<open>
  The per-tenant circuit breaker and the registry of tenant guards
  (\<open>app/tools/resilience.py\<close>). The monotonic clock is an argument: each operation that
  reads it takes the value it reads. The breaker is a state machine over the events of
  the tool calls that share it; the section on reachable states states what holds under
  any interleaving of them.
\<close>

section \<open>The circuit breaker\<close>

record breaker =
  failure_threshold :: int
  reset_seconds :: rat
  failures :: int
  opened_at :: "rat option"
  trial_in_flight :: bool

definition new_breaker :: "int \<Rightarrow> rat \<Rightarrow> breaker" where
  "new_breaker n r = \<lparr>failure_threshold = n, reset_seconds = r, failures = 0,
     opened_at = None, trial_in_flight = False\<rparr>"

datatype circuit = Closed | HalfOpen | Open

definition breaker_state :: "rat \<Rightarrow> breaker \<Rightarrow> circuit" where
  "breaker_state now b = (case opened_at b of
     None \<Rightarrow> Closed
   | Some t \<Rightarrow> if now - t \<ge> reset_seconds b then HalfOpen else Open)"

text \<open>\<open>None\<close> is the \<open>CircuitOpenError\<close>: the call is refused and the breaker is unchanged.\<close>

definition before_call :: "rat \<Rightarrow> breaker \<Rightarrow> breaker option" where
  "before_call now b = (let st = breaker_state now b in
     if st = Open \<or> (st = HalfOpen \<and> trial_in_flight b) then None
     else if st = HalfOpen then Some (b\<lparr>trial_in_flight := True\<rparr>)
     else Some b)"

definition record_success :: "breaker \<Rightarrow> breaker" where
  "record_success b = b\<lparr>failures := 0, opened_at := None, trial_in_flight := False\<rparr>"

definition record_failure :: "rat \<Rightarrow> breaker \<Rightarrow> breaker" where
  "record_failure now b = (let b1 = b\<lparr>trial_in_flight := False, failures := failures b + 1\<rparr> in
     if opened_at b1 \<noteq> None \<or> failures b1 \<ge> failure_threshold b1
     then b1\<lparr>opened_at := Some now\<rparr> else b1)"

definition release_trial :: "breaker \<Rightarrow> breaker" where
  "release_trial b = b\<lparr>trial_in_flight := False\<rparr>"

lemmas breaker_defs = before_call_def record_success_def record_failure_def release_trial_def
  breaker_state_def new_breaker_def Let_def

section \<open>Tenant guards\<close>

text \<open>A semaphore is its number of free permits; a guard pairs it with the breaker.\<close>

record tenant_guard =
  semaphore :: nat
  guard_breaker :: breaker

record tenant_guards =
  max_concurrency :: nat
  tg_threshold :: int
  tg_reset :: rat
  guards :: "string \<rightharpoonup> tenant_guard"

definition guards_get :: "tenant_guards \<Rightarrow> string \<Rightarrow> tenant_guard \<times> tenant_guards" where
  "guards_get g tenant = (case guards g tenant of
     Some guard \<Rightarrow> (guard, g)
   | None \<Rightarrow>
       (let guard = \<lparr>semaphore = max_concurrency g,
                     guard_breaker = new_breaker (tg_threshold g) (tg_reset g)\<rparr>
        in (guard, g\<lparr>guards := (guards g)(tenant \<mapsto> guard)\<rparr>)))"

definition guards_state :: "rat \<Rightarrow> tenant_guards \<Rightarrow> string \<Rightarrow> circuit \<times> int" where
  "guards_state now g tenant = (case guards g tenant of
     None \<Rightarrow> (Closed, 0)
   | Some guard \<Rightarrow> (breaker_state now (guard_breaker guard), failures (guard_breaker guard)))"

text \<open>Writing a tenant's breaker back, as the mutation of the shared guard object does.\<close>

definition guards_update :: "(breaker \<Rightarrow> breaker) \<Rightarrow> string \<Rightarrow> tenant_guards \<Rightarrow> tenant_guards" where
  "guards_update f tenant g = (case guards_get g tenant of
     (guard, g') \<Rightarrow> g'\<lparr>guards := (guards g')(tenant \<mapsto>
        guard\<lparr>guard_breaker := f (guard_breaker guard)\<rparr>)\<rparr>)"

definition breaker_of :: "tenant_guards \<Rightarrow> string \<Rightarrow> breaker" where
  "breaker_of g tenant = guard_breaker (fst (guards_get g tenant))"

lemma breaker_of_update:
  "breaker_of (guards_update f t g) u =
     (if u = t then f (breaker_of g t) else breaker_of g u)"
  by (auto simp: breaker_of_def guards_update_def guards_get_def Let_def split: option.splits)

section \<open>Interface: a gate in front of a remote service\<close>

text \<open>
  What the tool provider relies on: a healthy gate admits a call and stays as it is, a
  success makes the gate healthy, and releasing never makes a healthy gate unhealthy.
\<close>

locale call_gate =
  fixes admit :: "rat \<Rightarrow> 'g \<Rightarrow> 'g option"
    and succeed :: "'g \<Rightarrow> 'g"
    and release :: "'g \<Rightarrow> 'g"
    and healthy :: "'g \<Rightarrow> bool"
  assumes admit_healthy: "healthy g \<Longrightarrow> admit now g = Some g"
    and succeed_healthy: "healthy (succeed g)"
    and release_healthy: "healthy g \<Longrightarrow> healthy (release g)"
begin

text \<open>A run of admitted calls that all get an answer; \<open>None\<close> once one of them is refused.\<close>

fun answered :: "rat list \<Rightarrow> 'g \<Rightarrow> 'g option" where
  "answered [] g = Some g"
| "answered (t # ts) g = (case admit t g of None \<Rightarrow> None | Some g' \<Rightarrow> answered ts (succeed g'))"

lemma answered_never_refused: "healthy g \<Longrightarrow> \<exists>g'. answered ts g = Some g' \<and> healthy g'"
  by (induction ts arbitrary: g) (auto simp: admit_healthy succeed_healthy)

lemma admit_after_success: "admit now (succeed g) = Some (succeed g)"
  by (rule admit_healthy) (rule succeed_healthy)

end

definition is_closed :: "breaker \<Rightarrow> bool" where
  "is_closed b = (opened_at b = None \<and> \<not> trial_in_flight b)"

interpretation cb: call_gate before_call record_success release_trial is_closed
  by unfold_locales (auto simp: is_closed_def breaker_defs)

section \<open>The breaker under interleaved calls\<close>

datatype breaker_event = Admit rat | Succeed | Fail rat | Release

fun breaker_next :: "breaker \<Rightarrow> breaker_event \<Rightarrow> breaker" where
  "breaker_next b (Admit t) = (case before_call t b of None \<Rightarrow> b | Some b' \<Rightarrow> b')"
| "breaker_next b Succeed = record_success b"
| "breaker_next b (Fail t) = record_failure t b"
| "breaker_next b Release = release_trial b"

inductive breaker_step :: "breaker \<Rightarrow> breaker_event \<Rightarrow> breaker \<Rightarrow> bool" where
  admitted: "before_call t b = Some b' \<Longrightarrow> breaker_step b (Admit t) b'"
| refused: "before_call t b = None \<Longrightarrow> breaker_step b (Admit t) b"
| succeeded: "breaker_step b Succeed (record_success b)"
| failed: "breaker_step b (Fail t) (record_failure t b)"
| released: "breaker_step b Release (release_trial b)"

inductive_cases breaker_step_Admit: "breaker_step b (Admit t) b'"
inductive_simps breaker_step_Fail: "breaker_step b (Fail t) b'"

inductive reachable_breaker :: "int \<Rightarrow> rat \<Rightarrow> breaker \<Rightarrow> bool" for n r where
  start: "reachable_breaker n r (new_breaker n r)"
| step: "reachable_breaker n r b \<Longrightarrow> breaker_step b e b' \<Longrightarrow> reachable_breaker n r b'"

lemma breaker_step_next: "breaker_step b e b' \<longleftrightarrow> b' = breaker_next b e"
  by (cases e) (auto elim: breaker_step.cases intro: breaker_step.intros split: option.splits)

text \<open>
  The invariant: failures are counted from zero, a closed breaker is below its threshold
  and has no trial in flight, and an open one has reached the threshold.
\<close>

definition breaker_inv :: "int \<Rightarrow> rat \<Rightarrow> breaker \<Rightarrow> bool" where
  "breaker_inv n r b \<longleftrightarrow> failure_threshold b = n \<and> reset_seconds b = r \<and> 0 \<le> failures b \<and>
     (opened_at b = None \<longrightarrow> \<not> trial_in_flight b \<and> failures b < n) \<and>
     (opened_at b \<noteq> None \<longrightarrow> n \<le> failures b)"

lemma breaker_step_inv:
  "breaker_step b e b' \<Longrightarrow> 0 < n \<Longrightarrow> breaker_inv n r b \<Longrightarrow> breaker_inv n r b'"
  by (induction rule: breaker_step.induct)
    (auto simp: breaker_inv_def breaker_defs split: if_splits option.splits)

lemma reachable_breaker_inv: "reachable_breaker n r b \<Longrightarrow> 0 < n \<Longrightarrow> breaker_inv n r b"
proof (induction rule: reachable_breaker.induct)
  case start
  then show ?case by (simp add: breaker_inv_def new_breaker_def)
next
  case (step b e b')
  then show ?case by (blast intro: breaker_step_inv)
qed

text \<open>
  A run of events, as seen by the calls: once the half-open trial is granted, nobody else
  is admitted until one of the calls in flight reports back.
\<close>

lemma admit_blocked: "opened_at b \<noteq> None \<Longrightarrow> trial_in_flight b \<Longrightarrow> before_call t b = None"
  by (auto simp: breaker_defs)

lemma admits_blocked:
  "opened_at b \<noteq> None \<Longrightarrow> trial_in_flight b \<Longrightarrow> \<forall>e \<in> set es. \<exists>t. e = Admit t \<Longrightarrow>
   foldl breaker_next b es = b"
  by (induction es) (auto simp: admit_blocked)

lemma granted_trial:
  "before_call t b = Some b' \<Longrightarrow> opened_at b \<noteq> None \<Longrightarrow> opened_at b' \<noteq> None \<and> trial_in_flight b'"
  by (auto simp: breaker_defs split: if_splits option.splits)

section \<open>Properties\<close>

text \<open>
  in every state a breaker can reach, it is closed exactly while fewer than
  \<open>failure_threshold\<close> consecutive failures were recorded, a closed breaker admits every
  call unchanged, and an open one refuses every call before the cool-down is over.
\<close>

theorem breaker_reachable:
  assumes "reachable_breaker n r b" and "0 < n"
  shows "(opened_at b = None \<longleftrightarrow> failures b < n) \<and>
    (opened_at b = None \<longrightarrow> before_call now b = Some b) \<and>
    (\<forall>t0. opened_at b = Some t0 \<and> now - t0 < r \<longrightarrow> before_call now b = None)"
proof -
  have i: "breaker_inv n r b" using assms by (rule reachable_breaker_inv)
  show ?thesis
  proof (intro conjI)
    show "opened_at b = None \<longleftrightarrow> failures b < n" using i by (auto simp: breaker_inv_def)
    show "opened_at b = None \<longrightarrow> before_call now b = Some b"
      using i by (auto simp: breaker_inv_def breaker_defs)
    show "\<forall>t0. opened_at b = Some t0 \<and> now - t0 < r \<longrightarrow> before_call now b = None"
      using i by (auto simp: breaker_inv_def breaker_defs)
  qed
qed

theorem breaker_reachable_witness:
  "before_call 10 (record_failure 0 (new_breaker 1 30)) = None"
proof -
  have "reachable_breaker 1 30 (record_failure 0 (new_breaker 1 30))"
    by (rule reachable_breaker.step [OF reachable_breaker.start breaker_step.failed])
  from breaker_reachable [OF this, of 10] show ?thesis by (simp add: breaker_defs)
qed

text \<open>
  one trial at a time. When a breaker that is not closed admits a call, every later
  admission is refused and leaves it as it is, until a call in flight reports a success,
  a failure or its cancellation.
\<close>

theorem single_trial:
  assumes "opened_at b \<noteq> None" and "before_call t b = Some b'"
    and "\<forall>e \<in> set es. \<exists>t. e = Admit t"
  shows "foldl breaker_next b' es = b' \<and> before_call t' (foldl breaker_next b' es) = None"
proof -
  from granted_trial [OF assms(2,1)] have g: "opened_at b' \<noteq> None" "trial_in_flight b'" by auto
  from admits_blocked [OF g assms(3)] admit_blocked [OF g] show ?thesis by simp
qed

theorem single_trial_witness:
  "before_call 31 (foldl breaker_next
     ((record_failure 0 (new_breaker 1 30))\<lparr>trial_in_flight := True\<rparr>) [Admit 30, Admit 31]) = None"
proof -
  have o: "opened_at (record_failure 0 (new_breaker 1 30)) \<noteq> None" by (simp add: breaker_defs)
  have a: "before_call 30 (record_failure 0 (new_breaker 1 30)) =
      Some ((record_failure 0 (new_breaker 1 30))\<lparr>trial_in_flight := True\<rparr>)"
    by (simp add: breaker_defs)
  have "\<forall>e \<in> set [Admit 30, Admit 31]. \<exists>t. e = Admit t" by simp
  from single_trial [OF o a this, of 31] show ?thesis by (rule conjunct2)
qed

text \<open>
  The trial is not tied to the call that holds it. When any other call of the tenant is
  cancelled or ends in a local error while a trial is in flight, its release lets a second
  trial through.
\<close>

theorem foreign_release_second_trial:
  assumes "opened_at b \<noteq> None" and "before_call t b = Some b'" and "t \<le> t'"
  shows "before_call t' b' = None \<and> before_call t' (release_trial b') = Some b'"
  using assms by (auto simp: breaker_defs split: if_splits option.splits)

theorem foreign_release_second_trial_witness:
  "before_call 31 (release_trial ((record_failure 0 (new_breaker 1 30))\<lparr>trial_in_flight := True\<rparr>)) =
   Some ((record_failure 0 (new_breaker 1 30))\<lparr>trial_in_flight := True\<rparr>)"
proof -
  have o: "opened_at (record_failure 0 (new_breaker 1 30)) \<noteq> None" by (simp add: breaker_defs)
  have a: "before_call 30 (record_failure 0 (new_breaker 1 30)) =
      Some ((record_failure 0 (new_breaker 1 30))\<lparr>trial_in_flight := True\<rparr>)"
    by (simp add: breaker_defs)
  show ?thesis using foreign_release_second_trial [OF o a, of 31] by simp
qed

end
