(* ===== verification/Crm_Provider.thy ===== *)
theory Crm_Provider
  imports Manifest_Cache Resilience
begin

text \<open>
  Calling a tool of the tenant's CRM (\<open>app/tools/crm_provider.py\<close>): breaker, retry, and the
  translation of every transport outcome into a tool result. The transport is the world:
  a function from the number of the attempt to what that attempt meets, with the reading
  of the monotonic clock when it is over. A call holds one permit of the tenant's
  semaphore while it runs and gives it back, so the permits are not part of its effect.
  The user-facing Czech texts are written without diacritics.
\<close>

section \<open>What an attempt can meet\<close>

text \<open>
  \<open>TransportErr n\<close> is any \<open>httpx.TransportError\<close> other than \<open>ReadTimeout\<close>, with its class
  name; \<open>RaisedOther\<close> is any other exception, \<open>Cancelled\<close> the task being cancelled.
\<close>

datatype outcome =
    Reply py
  | HttpStatus int
  | TransportErr string
  | ReadTimeout
  | AsyncTimeout
  | RaisedOther string
  | Cancelled

datatype call_mode = Execute | Preview

definition retryable_status :: "int \<Rightarrow> bool" where
  "retryable_status code = (code \<in> set [502, 503, 504])"

definition read_timeout :: "tool_spec \<Rightarrow> num" where
  "read_timeout spec = num_min (num_max (timeout_seconds (ts_annotations spec)) (Fin 1)) (Fin 60)"

definition max_attempts :: "tool_spec \<Rightarrow> nat" where
  "max_attempts spec = (if read_only (ts_annotations spec) then 2 else 1)"

definition msg_unavailable :: string where
  "msg_unavailable = ''CRM je docasne nedostupne, zkuste to prosim za chvili.''"

definition msg_maybe_written :: string where
  "msg_maybe_written = ''CRM neodpovedelo vcas. Zmena se mohla provest - overte prosim stav v CRM, nez ji zopakujete.''"

section \<open>Errors as results\<close>

record provider_state =
  pv_guards :: tenant_guards
  pv_cache :: cache

definition on_breaker :: "(breaker \<Rightarrow> breaker) \<Rightarrow> string \<Rightarrow> provider_state \<Rightarrow> provider_state" where
  "on_breaker f t p = p\<lparr>pv_guards := guards_update f t (pv_guards p)\<rparr>"

definition http_error ::
  "tool_spec \<Rightarrow> int \<Rightarrow> rat \<Rightarrow> string \<Rightarrow> provider_state \<Rightarrow> tool_result \<times> string \<times> provider_state" where
  "http_error spec code now t p =
     (if code = 404 then
        (result_error ''not_found'' (''Nastroj '' @ ts_name spec @ '' v tomto CRM uz neni k dispozici.'') PNone,
         ''http_404'',
         (on_breaker record_success t p)\<lparr>pv_cache := invalidate t (pv_cache p)\<rparr>)
      else if code \<in> set [401, 403] then
        (result_error ''access_denied'' ''CRM odmitlo pristup k nastroji.'' PNone,
         ''http_'' @ int_str code, on_breaker record_success t p)
      else
        (result_error ''unavailable'' (''CRM vratilo chybu '' @ int_str code @ ''.'') PNone,
         ''http_'' @ int_str code,
         (if code \<ge> 500 then on_breaker (record_failure now) t p else on_breaker record_success t p)))"

definition transport_error :: "tool_spec \<Rightarrow> outcome \<Rightarrow> tool_result" where
  "transport_error spec oc =
     (if \<not> read_only (ts_annotations spec) \<and> oc \<in> set [ReadTimeout, AsyncTimeout]
      then result_error ''unavailable'' msg_maybe_written PNone
      else result_error ''unavailable'' msg_unavailable PNone)"

fun outcome_name :: "outcome \<Rightarrow> string" where
  "outcome_name ReadTimeout = ''ReadTimeout''"
| "outcome_name AsyncTimeout = ''TimeoutError''"
| "outcome_name (TransportErr n) = n"
| "outcome_name (RaisedOther n) = n"
| "outcome_name _ = []"

definition internal_error :: "tool_spec \<Rightarrow> string \<Rightarrow> tool_result" where
  "internal_error spec n = result_error ''internal''
     (''Volani nastroje '' @ ts_name spec @ '' selhalo ('' @ n @ '').'') PNone"

section \<open>The call\<close>

text \<open>
  The end of a call: a result with the status it is logged under, or the cancellation that
  goes on up the stack. The retry loop also returns how many requests were sent.
\<close>

datatype call_end = Returned tool_result string | CancelledCall

definition reply_status :: "tool_result \<Rightarrow> string" where
  "reply_status r = (case error_code r of
     Some c \<Rightarrow> c
   | None \<Rightarrow> if confirmation r \<noteq> None then ''confirmation_required'' else ''ok'')"

text \<open>
  The body of the \<open>for attempt in range(1, attempts + 1)\<close> loop and the handlers around it;
  \<open>left\<close> is the number of attempts after this one.
\<close>

fun attempt_loop ::
  "tool_spec \<Rightarrow> string \<Rightarrow> (nat \<Rightarrow> outcome) \<Rightarrow> (nat \<Rightarrow> rat) \<Rightarrow> nat \<Rightarrow> nat \<Rightarrow> provider_state
     \<Rightarrow> call_end \<times> nat \<times> provider_state" where
  "attempt_loop spec t world clk left i p = (case world i of
     Reply raw \<Rightarrow>
       (let p1 = on_breaker record_success t p in
        case result_from_wire raw of
          Inr r \<Rightarrow> (Returned r (reply_status r), 1, p1)
        | Inl e \<Rightarrow> (Returned (internal_error spec (exc_name e)) ''client_error'', 1,
                    on_breaker release_trial t p1))
   | HttpStatus code \<Rightarrow>
       (case left of
          Suc left' \<Rightarrow> if retryable_status code
            then (case attempt_loop spec t world clk left' (Suc i) p of (e, n, p') \<Rightarrow> (e, Suc n, p'))
            else (case http_error spec code (clk i) t p of (r, st, p') \<Rightarrow> (Returned r st, 1, p'))
        | 0 \<Rightarrow> (case http_error spec code (clk i) t p of (r, st, p') \<Rightarrow> (Returned r st, 1, p')))
   | Cancelled \<Rightarrow> (CancelledCall, 1, on_breaker release_trial t p)
   | RaisedOther nm \<Rightarrow> (Returned (internal_error spec nm) ''client_error'', 1,
                        on_breaker release_trial t p)
   | oc \<Rightarrow>
       (case left of
          Suc left' \<Rightarrow> if oc \<noteq> ReadTimeout
            then (case attempt_loop spec t world clk left' (Suc i) p of (e, n, p') \<Rightarrow> (e, Suc n, p'))
            else (Returned (transport_error spec oc) (outcome_name oc), 1,
                  on_breaker (record_failure (clk i)) t p)
        | 0 \<Rightarrow> (Returned (transport_error spec oc) (outcome_name oc), 1,
               on_breaker (record_failure (clk i)) t p)))"

declare attempt_loop.simps [simp del]

definition with_request_id :: "string \<Rightarrow> tool_result \<Rightarrow> tool_result" where
  "with_request_id rid r = (if has_key ''request_id'' (tr_meta r) then r
     else r\<lparr>tr_meta := dput ''request_id'' (PStr rid) (tr_meta r)\<rparr>)"

text \<open>
  \<open>CrmToolProvider.call\<close>. \<open>now\<close> is the clock reading of \<open>before_call\<close>; the mode, the
  arguments and the confirmation token go to the transport, that is to \<open>world\<close>.
\<close>

definition provider_call ::
  "tool_spec \<Rightarrow> string \<Rightarrow> string \<Rightarrow> (nat \<Rightarrow> outcome) \<Rightarrow> (nat \<Rightarrow> rat) \<Rightarrow> rat \<Rightarrow> provider_state
     \<Rightarrow> call_end \<times> nat \<times> provider_state" where
  "provider_call spec t rid world clk now p0 =
     (let p = p0\<lparr>pv_guards := snd (guards_get (pv_guards p0) t)\<rparr> in
      case before_call now (breaker_of (pv_guards p) t) of
        None \<Rightarrow> (Returned (result_error ''unavailable'' msg_unavailable PNone) ''circuit_open'', 0, p)
      | Some b \<Rightarrow>
          (case attempt_loop spec t world clk (max_attempts spec - 1) 1 (on_breaker (\<lambda>_. b) t p) of
             (Returned r st, n, p') \<Rightarrow> (Returned (with_request_id rid r) st, n, p')
           | (CancelledCall, n, p') \<Rightarrow> (CancelledCall, n, p')))"

section \<open>Lemmas\<close>

lemma breaker_on_breaker [simp]:
  "breaker_of (pv_guards (on_breaker f t p)) u =
     (if u = t then f (breaker_of (pv_guards p) t) else breaker_of (pv_guards p) u)"
  by (simp add: on_breaker_def breaker_of_update)

lemma cache_on_breaker [simp]: "pv_cache (on_breaker f t p) = pv_cache p"
  by (simp add: on_breaker_def)

lemma breaker_guards_get [simp]:
  "breaker_of (snd (guards_get g t)) u = breaker_of g u"
  by (auto simp: breaker_of_def guards_get_def Let_def split: option.splits)

lemma http_error_other:
  "http_error spec code now t p = (r, st, p') \<Longrightarrow> u \<noteq> t \<Longrightarrow>
   breaker_of (pv_guards p') u = breaker_of (pv_guards p) u"
  by (auto simp: http_error_def split: if_splits)

text \<open>Case split of the loop on its first outcome, used by every lemma about it.\<close>

lemma attempt_loop_last:
  "attempt_loop spec t world clk 0 i p = (case world i of
     Reply raw \<Rightarrow>
       (let p1 = on_breaker record_success t p in
        case result_from_wire raw of
          Inr r \<Rightarrow> (Returned r (reply_status r), 1, p1)
        | Inl e \<Rightarrow> (Returned (internal_error spec (exc_name e)) ''client_error'', 1,
                    on_breaker release_trial t p1))
   | HttpStatus code \<Rightarrow>
       (case http_error spec code (clk i) t p of (r, st, p') \<Rightarrow> (Returned r st, 1, p'))
   | Cancelled \<Rightarrow> (CancelledCall, 1, on_breaker release_trial t p)
   | RaisedOther nm \<Rightarrow> (Returned (internal_error spec nm) ''client_error'', 1,
                        on_breaker release_trial t p)
   | oc \<Rightarrow> (Returned (transport_error spec oc) (outcome_name oc), 1,
            on_breaker (record_failure (clk i)) t p))"
  by (subst attempt_loop.simps) (simp split: outcome.split)

lemma attempt_loop_sent:
  "attempt_loop spec t world clk left i p = (e, n, p') \<Longrightarrow> 1 \<le> n \<and> n \<le> Suc left"
proof (induction left arbitrary: i p e n p')
  case 0
  then show ?case
    by (auto simp: attempt_loop_last Let_def split: outcome.splits sum.splits prod.splits)
next
  case (Suc left)
  have rec: "1 \<le> n \<and> n \<le> Suc (Suc left)"
    if "(case attempt_loop spec t world clk left (Suc i) p of (e, n, p') \<Rightarrow> (e, Suc n, p')) = (e, n, p')"
    using that Suc.IH [of "Suc i" p] by (auto split: prod.splits)
  from Suc.prems rec show ?case
    by (auto simp: attempt_loop.simps [of spec t world clk "Suc left" i p] Let_def
        split: outcome.splits sum.splits prod.splits if_splits)
qed

lemma attempt_loop_other:
  "attempt_loop spec t world clk left i p = (e, n, p') \<Longrightarrow> u \<noteq> t \<Longrightarrow>
   breaker_of (pv_guards p') u = breaker_of (pv_guards p) u"
proof (induction left arbitrary: i p e n p')
  case 0
  then show ?case
    by (auto simp: attempt_loop_last Let_def dest: http_error_other
        split: outcome.splits sum.splits prod.splits)
next
  case (Suc left)
  have rec: "breaker_of (pv_guards p') u = breaker_of (pv_guards p) u"
    if "(case attempt_loop spec t world clk left (Suc i) p of (e, n, p') \<Rightarrow> (e, Suc n, p')) = (e, n, p')"
    using that Suc.IH [of "Suc i" p] Suc.prems(2) by (auto split: prod.splits)
  from Suc.prems rec show ?case
    by (auto simp: attempt_loop.simps [of spec t world clk "Suc left" i p] Let_def
        dest: http_error_other split: outcome.splits sum.splits prod.splits if_splits)
qed

lemma provider_call_admitted:
  assumes "before_call now (breaker_of (pv_guards p) t) = Some b"
  shows "\<exists>p1. breaker_of (pv_guards p1) t = b \<and> provider_call spec t rid world clk now p =
    (case attempt_loop spec t world clk (max_attempts spec - 1) 1 p1 of
       (Returned r st, n, p') \<Rightarrow> (Returned (with_request_id rid r) st, n, p')
     | (CancelledCall, n, p') \<Rightarrow> (CancelledCall, n, p'))"
  using assms
  by (intro exI [of _ "on_breaker (\<lambda>_. b) t
      (p\<lparr>pv_guards := snd (guards_get (pv_guards p) t)\<rparr>)"]) (simp add: provider_call_def)

lemma provider_call_sent:
  assumes "provider_call spec t rid world clk now p = (e, n, p')"
  shows "n \<le> max_attempts spec"
proof (cases "before_call now (breaker_of (pv_guards p) t)")
  case None
  with assms show ?thesis by (auto simp: provider_call_def)
next
  case (Some b)
  let ?p1 = "on_breaker (\<lambda>_. b) t (p\<lparr>pv_guards := snd (guards_get (pv_guards p) t)\<rparr>)"
  from assms Some obtain e1
    where "attempt_loop spec t world clk (max_attempts spec - 1) 1 ?p1 = (e1, n, p')"
    by (auto simp: provider_call_def split: prod.splits call_end.splits)
  from attempt_loop_sent [OF this] show ?thesis by (auto simp: max_attempts_def split: if_splits)
qed

section \<open>Properties\<close>

text \<open>
  how often the CRM is called. A tool that is not read-only is sent at most once,
  a read-only one at most twice, and nothing is sent when the breaker refuses the call:
  the answer is then the \<open>unavailable\<close> error.
\<close>

theorem call_sends_bounded:
  assumes "provider_call spec t rid world clk now p = (e, n, p')"
  shows "n \<le> (if read_only (ts_annotations spec) then 2 else 1) \<and>
    (before_call now (breaker_of (pv_guards p) t) = None \<longrightarrow> n = 0 \<and>
       e = Returned (result_error ''unavailable'' msg_unavailable PNone) ''circuit_open'')"
  using provider_call_sent [OF assms] assms by (auto simp: provider_call_def max_attempts_def)

definition demo_state :: provider_state where
  "demo_state = \<lparr>pv_guards = \<lparr>max_concurrency = 8, tg_threshold = 5, tg_reset = 30, guards = Map.empty\<rparr>,
     pv_cache = Map.empty\<rparr>"

theorem call_sends_bounded_witness:
  "fst (snd (provider_call (demo_tool ''crm_action_tool'' False) ''acme'' ''r1''
      (\<lambda>_. TransportErr ''ConnectError'') (\<lambda>_. 0) 0 demo_state)) \<le> 1"
proof -
  obtain e n p' where c: "provider_call (demo_tool ''crm_action_tool'' False) ''acme'' ''r1''
      (\<lambda>_. TransportErr ''ConnectError'') (\<lambda>_. 0) 0 demo_state = (e, n, p')" by (rule prod_cases3)
  from call_sends_bounded [OF c] c show ?thesis by (simp add: demo_tool_def demo_annotations_def)
qed

text \<open>
  a write that times out. A tool that is not read-only whose call ends in a read or
  overall time-out is not sent again: the user is told that the change may have happened,
  and the failure counts against the breaker.
\<close>

theorem write_timeout_reported:
  assumes "\<not> read_only (ts_annotations spec)"
    and "before_call now (breaker_of (pv_guards p) t) = Some b"
    and "world 1 = ReadTimeout \<or> world 1 = AsyncTimeout"
  shows "\<exists>p'. provider_call spec t rid world clk now p =
      (Returned (with_request_id rid (result_error ''unavailable'' msg_maybe_written PNone))
         (outcome_name (world 1)), 1, p') \<and>
    breaker_of (pv_guards p') t = record_failure (clk 1) b"
proof -
  from provider_call_admitted [OF assms(2), of spec rid world clk] obtain p1
    where p1: "breaker_of (pv_guards p1) t = b" and
      call: "provider_call spec t rid world clk now p =
        (case attempt_loop spec t world clk (max_attempts spec - 1) 1 p1 of
           (Returned r st, n, p') \<Rightarrow> (Returned (with_request_id rid r) st, n, p')
         | (CancelledCall, n, p') \<Rightarrow> (CancelledCall, n, p'))" by blast
  have "max_attempts spec - 1 = 0" using assms(1) by (simp add: max_attempts_def)
  with call p1 assms(1,3) show ?thesis
    by (auto simp: attempt_loop_last transport_error_def)
qed

theorem write_timeout_reported_witness:
  "\<exists>p'. provider_call (demo_tool ''crm_action_tool'' False) ''acme'' ''r1'' (\<lambda>_. ReadTimeout)
      (\<lambda>_. 7) 0 demo_state =
    (Returned (with_request_id ''r1'' (result_error ''unavailable'' msg_maybe_written PNone))
       ''ReadTimeout'', 1, p') \<and>
    breaker_of (pv_guards p') ''acme'' = record_failure 7 (new_breaker 5 30)"
proof -
  have ro: "\<not> read_only (ts_annotations (demo_tool ''crm_action_tool'' False))"
    by (simp add: demo_tool_def demo_annotations_def)
  have b: "before_call 0 (breaker_of (pv_guards demo_state) ''acme'') = Some (new_breaker 5 30)"
    by (simp add: demo_state_def breaker_of_def guards_get_def Let_def breaker_defs)
  show ?thesis using write_timeout_reported [OF ro b, of "\<lambda>_. ReadTimeout"] by simp
qed

text \<open>
  an answer of the CRM, even one that reports a tool error, is not a failure of the
  CRM: it closes the tenant's breaker, whatever state it was in, so that the next call is
  admitted at any time; one request was sent.
\<close>

theorem answered_call_closes:
  assumes "before_call now (breaker_of (pv_guards p) t) = Some b" and "world 1 = Reply raw"
    and "result_from_wire raw = Inr res"
  shows "\<exists>p'. provider_call spec t rid world clk now p =
      (Returned (with_request_id rid res) (reply_status res), 1, p') \<and>
    is_closed (breaker_of (pv_guards p') t) \<and>
    before_call later (breaker_of (pv_guards p') t) = Some (breaker_of (pv_guards p') t)"
proof -
  from provider_call_admitted [OF assms(1), of spec rid world clk] obtain p1
    where "breaker_of (pv_guards p1) t = b" and
      call: "provider_call spec t rid world clk now p =
        (case attempt_loop spec t world clk (max_attempts spec - 1) 1 p1 of
           (Returned r st, n, p') \<Rightarrow> (Returned (with_request_id rid r) st, n, p')
         | (CancelledCall, n, p') \<Rightarrow> (CancelledCall, n, p'))" by blast
  have l: "attempt_loop spec t world clk left 1 p1 =
      (Returned res (reply_status res), 1, on_breaker record_success t p1)" for left
    using assms(2,3) by (subst attempt_loop.simps) simp
  show ?thesis
    using call l cb.succeed_healthy cb.admit_after_success by simp
qed

theorem answered_call_closes_witness:
  "\<exists>p'. provider_call (demo_tool ''crm_query_tool'' True) ''acme'' ''r1''
      (\<lambda>_. Reply (PDict [(''isError'', PBool True)])) (\<lambda>_. 0) 0 demo_state =
    (Returned (with_request_id ''r1'' \<lparr>tr_text = [], tr_structured = [], tr_is_error = True, tr_meta = []\<rparr>)
       ''internal'', 1, p') \<and>
    before_call 99 (breaker_of (pv_guards p') ''acme'') = Some (breaker_of (pv_guards p') ''acme'')"
proof -
  have b: "before_call 0 (breaker_of (pv_guards demo_state) ''acme'') = Some (new_breaker 5 30)"
    by (simp add: demo_state_def breaker_of_def guards_get_def Let_def breaker_defs)
  have w: "result_from_wire (PDict [(''isError'', PBool True)]) =
      Inr \<lparr>tr_text = [], tr_structured = [], tr_is_error = True, tr_meta = []\<rparr>"
    by (simp add: result_from_wire_def pget_Cons dicts_of_def)
  have s: "reply_status \<lparr>tr_text = [], tr_structured = [], tr_is_error = True, tr_meta = []\<rparr> = ''internal''"
    by (simp add: reply_status_def error_code_def por_def)
  show ?thesis
    using answered_call_closes [OF b _ w, of "\<lambda>_. Reply (PDict [(''isError'', PBool True)])" "demo_tool ''crm_query_tool'' True" "''r1''" "\<lambda>_. 0" 99] s
    by auto
qed

text \<open>
  tenants are isolated. A call for one tenant, however it ends, leaves the breaker of
  every other tenant as it was.
\<close>

theorem call_isolates_tenants:
  assumes "provider_call spec t rid world clk now p = (e, n, p')" and "u \<noteq> t"
  shows "breaker_of (pv_guards p') u = breaker_of (pv_guards p) u"
proof (cases "before_call now (breaker_of (pv_guards p) t)")
  case None
  with assms show ?thesis by (auto simp: provider_call_def)
next
  case (Some b)
  let ?p1 = "on_breaker (\<lambda>_. b) t (p\<lparr>pv_guards := snd (guards_get (pv_guards p) t)\<rparr>)"
  from assms(1) Some obtain e1
    where "attempt_loop spec t world clk (max_attempts spec - 1) 1 ?p1 = (e1, n, p')"
    by (auto simp: provider_call_def split: prod.splits call_end.splits)
  from attempt_loop_other [OF this assms(2)] assms(2) show ?thesis by simp
qed

theorem call_isolates_tenants_witness:
  "breaker_of (pv_guards (snd (snd (provider_call (demo_tool ''crm_query_tool'' True) ''acme'' ''r1''
      (\<lambda>_. HttpStatus 500) (\<lambda>_. 0) 0 demo_state)))) ''other'' = breaker_of (pv_guards demo_state) ''other''"
proof -
  obtain e n p' where c: "provider_call (demo_tool ''crm_query_tool'' True) ''acme'' ''r1''
      (\<lambda>_. HttpStatus 500) (\<lambda>_. 0) 0 demo_state = (e, n, p')" by (rule prod_cases3)
  from call_isolates_tenants [OF c, of "''other''"] c show ?thesis by simp
qed

end
