(* ===== verification/Py_Datetime.thy ===== *)
theory Py_Datetime
  imports Text_Utils
begin

text \<open>
  Naive dates and times as the program uses them: the proleptic Gregorian calendar of
  \<open>datetime\<close>, \<open>strptime\<close> on the directives the code's formats contain, \<open>fromisoformat\<close> of
  Python 3.11 (the version of the Dockerfile), and the numeric \<open>strftime\<close> directives.
\<close>

section \<open>Calendar\<close>

record datetime =
  dt_year :: nat
  dt_month :: nat
  dt_day :: nat
  dt_hour :: nat
  dt_minute :: nat
  dt_second :: nat
  dt_micro :: nat

definition mk_datetime :: "nat \<Rightarrow> nat \<Rightarrow> nat \<Rightarrow> nat \<Rightarrow> nat \<Rightarrow> nat \<Rightarrow> nat \<Rightarrow> datetime" where
  "mk_datetime y mo d h mi s us = \<lparr>dt_year = y, dt_month = mo, dt_day = d, dt_hour = h,
     dt_minute = mi, dt_second = s, dt_micro = us\<rparr>"

definition is_leap :: "nat \<Rightarrow> bool" where
  "is_leap y = (y mod 4 = 0 \<and> (y mod 100 \<noteq> 0 \<or> y mod 400 = 0))"

definition days_in_month :: "nat \<Rightarrow> nat \<Rightarrow> nat" where
  "days_in_month y m = (if m = 2 then (if is_leap y then 29 else 28)
     else if m \<in> set [4, 6, 9, 11] then 30 else 31)"

definition valid_date :: "nat \<Rightarrow> nat \<Rightarrow> nat \<Rightarrow> bool" where
  "valid_date y m d = (1 \<le> y \<and> y \<le> 9999 \<and> 1 \<le> m \<and> m \<le> 12 \<and> 1 \<le> d \<and> d \<le> days_in_month y m)"

definition valid_datetime :: "datetime \<Rightarrow> bool" where
  "valid_datetime t = (valid_date (dt_year t) (dt_month t) (dt_day t) \<and> dt_hour t \<le> 23
     \<and> dt_minute t \<le> 59 \<and> dt_second t \<le> 59 \<and> dt_micro t \<le> 999999)"

text \<open>The \<open>datetime\<close> constructor raises \<open>ValueError\<close> on components out of range.\<close>

definition checked :: "datetime \<Rightarrow> datetime option" where
  "checked t = (if valid_datetime t then Some t else None)"

definition days_before_month :: "nat \<Rightarrow> nat \<Rightarrow> nat" where
  "days_before_month y m = sum_list (map (days_in_month y) [1..<m])"

definition days_before_year :: "nat \<Rightarrow> nat" where
  "days_before_year y = (let k = y - 1 in k * 365 + k div 4 - k div 100 + k div 400)"

definition ymd_to_ord :: "nat \<Rightarrow> nat \<Rightarrow> nat \<Rightarrow> nat" where
  "ymd_to_ord y m d = days_before_year y + days_before_month y m + d"

text \<open>\<open>_ord2ymd\<close>: cycles of 400, 100, 4 and 1 years, then the month.\<close>

fun month_from :: "nat \<Rightarrow> nat \<Rightarrow> nat list \<Rightarrow> nat \<times> nat" where
  "month_from y n [] = (12, n + 1)"
| "month_from y n (m # ms) =
     (if n < days_in_month y m then (m, n + 1) else month_from y (n - days_in_month y m) ms)"

definition ord_to_ymd :: "nat \<Rightarrow> nat \<times> nat \<times> nat" where
  "ord_to_ymd ordinal =
     (let n = ordinal - 1; n400 = n div 146097; r400 = n mod 146097;
          n100 = r400 div 36524; r100 = r400 mod 36524;
          n4 = r100 div 1461; r4 = r100 mod 1461;
          n1 = r4 div 365; r1 = r4 mod 365;
          y = n400 * 400 + n100 * 100 + n4 * 4 + n1 + 1
      in if n1 = 4 \<or> n100 = 4 then (y - 1, 12, 31)
         else (case month_from y r1 [1..<13] of (m, d) \<Rightarrow> (y, m, d)))"

text \<open>\<open>weekday()\<close>: Monday is 0.\<close>

definition weekday_of :: "nat \<Rightarrow> nat \<Rightarrow> nat \<Rightarrow> nat" where
  "weekday_of y m d = (ymd_to_ord y m d + 6) mod 7"

section \<open>strptime\<close>

text \<open>
  The regular expression of a format gives each directive its alternatives in order; the
  first overall match counts, and text left after it is an error. White space in the format
  matches one or more white space characters, letters match in either case.
\<close>

datatype directive = DYear | DMonth | DDay | DHour | DMinute | DSecond | DLit char | DSpace

fun directives :: "string \<Rightarrow> directive list" where
  "directives [] = []"
| "directives [c] = [if py_isspace c then DSpace else DLit c]"
| "directives (c # k # s) =
     (if c = CHR ''%'' then
        (if k = CHR ''Y'' then DYear else if k = CHR ''m'' then DMonth else if k = CHR ''d'' then DDay
         else if k = CHR ''H'' then DHour else if k = CHR ''M'' then DMinute
         else if k = CHR ''S'' then DSecond else DLit k) # directives s
      else (if py_isspace c then DSpace else DLit c) # directives (k # s))"

definition digit_in :: "nat \<Rightarrow> nat \<Rightarrow> char \<Rightarrow> bool" where
  "digit_in lo hi c = (is_digit c \<and> lo \<le> digit_val c \<and> digit_val c \<le> hi)"

definition two_digits :: "(char \<Rightarrow> bool) \<Rightarrow> (char \<Rightarrow> bool) \<Rightarrow> string \<Rightarrow> (nat \<times> string) list" where
  "two_digits p q s = (case s of a # b # r \<Rightarrow> if p a \<and> q b then [(digits_val [a, b], r)] else [] | _ \<Rightarrow> [])"

definition one_digit :: "(char \<Rightarrow> bool) \<Rightarrow> string \<Rightarrow> (nat \<times> string) list" where
  "one_digit p s = (case s of a # r \<Rightarrow> if p a then [(digit_val a, r)] else [] | _ \<Rightarrow> [])"

fun space_suffixes :: "string \<Rightarrow> (nat \<times> string) list" where
  "space_suffixes [] = []"
| "space_suffixes (c # s) = (if py_isspace c then space_suffixes s @ [(0, s)] else [])"

fun alternatives :: "directive \<Rightarrow> string \<Rightarrow> (nat \<times> string) list" where
  "alternatives DYear s = (case digits_at 4 s of Some (y, r) \<Rightarrow> [(digits_val y, r)] | None \<Rightarrow> [])"
| "alternatives DMonth s =
     two_digits (digit_in 1 1) (digit_in 0 2) s @ two_digits (digit_in 0 0) (digit_in 1 9) s
     @ one_digit (digit_in 1 9) s"
| "alternatives DDay s =
     two_digits (digit_in 3 3) (digit_in 0 1) s @ two_digits (digit_in 1 2) is_digit s
     @ two_digits (digit_in 0 0) (digit_in 1 9) s @ one_digit (digit_in 1 9) s
     @ (case s of a # r \<Rightarrow> if a = CHR '' '' then one_digit (digit_in 1 9) r else [] | [] \<Rightarrow> [])"
| "alternatives DHour s =
     two_digits (digit_in 2 2) (digit_in 0 3) s @ two_digits (digit_in 0 1) is_digit s @ one_digit is_digit s"
| "alternatives DMinute s = two_digits (digit_in 0 5) is_digit s @ one_digit is_digit s"
| "alternatives DSecond s =
     two_digits (digit_in 6 6) (digit_in 0 1) s @ two_digits (digit_in 0 5) is_digit s @ one_digit is_digit s"
| "alternatives (DLit c) s = (case s of a # r \<Rightarrow> if lower_char a = lower_char c then [(0, r)] else [] | [] \<Rightarrow> [])"
| "alternatives DSpace s = space_suffixes s"

fun match_directives :: "directive list \<Rightarrow> string \<Rightarrow> datetime \<Rightarrow> (datetime \<times> string) list" where
  "match_directives [] s t = [(t, s)]"
| "match_directives (f # fs) s t = concat (map (\<lambda>(n, r). match_directives fs r
     (case f of DYear \<Rightarrow> t\<lparr>dt_year := n\<rparr> | DMonth \<Rightarrow> t\<lparr>dt_month := n\<rparr> | DDay \<Rightarrow> t\<lparr>dt_day := n\<rparr>
        | DHour \<Rightarrow> t\<lparr>dt_hour := n\<rparr> | DMinute \<Rightarrow> t\<lparr>dt_minute := n\<rparr> | DSecond \<Rightarrow> t\<lparr>dt_second := n\<rparr>
        | _ \<Rightarrow> t)) (alternatives f s))"

definition strptime :: "string \<Rightarrow> string \<Rightarrow> datetime option" where
  "strptime s fmt = (case match_directives (directives fmt) s (mk_datetime 1900 1 1 0 0 0 0) of
     [] \<Rightarrow> None
   | (t, r) # _ \<Rightarrow> if r = [] then checked t else None)"

section \<open>fromisoformat\<close>

definition slice :: "nat \<Rightarrow> nat \<Rightarrow> string \<Rightarrow> string" where
  "slice a b s = take (b - a) (drop a s)"

definition all_digits :: "nat \<Rightarrow> string \<Rightarrow> nat option" where
  "all_digits n s = (if length s = n \<and> list_all is_digit s then Some (digits_val s) else None)"

definition char_is :: "string \<Rightarrow> nat \<Rightarrow> char \<Rightarrow> bool" where
  "char_is s i c = (slice i (Suc i) s = [c])"

text \<open>\<open>_find_isoformat_datetime_separator\<close>, for a text of at least 7 characters.\<close>

definition iso_separator :: "string \<Rightarrow> nat option" where
  "iso_separator s = (let n = length s in
     if n = 7 then Some 7
     else if char_is s 4 (CHR ''-'') then
       (if char_is s 5 (CHR ''W'') then
          (if n > 8 \<and> char_is s 8 (CHR ''-'') then
             (if n = 9 then None
              else if n > 10 \<and> is_digit (s ! 10) then Some 8
              else Some 10)
           else Some 8)
        else Some 10)
     else if char_is s 4 (CHR ''W'') then
       (let idx = 7 + length (takeWhile is_digit (drop 7 s)) in
        if idx < 9 then Some idx else if idx mod 2 = 0 then Some 7 else Some 8)
     else Some 8)"

text \<open>\<open>_isoweek_to_gregorian\<close>.\<close>

definition iso_week1_monday :: "nat \<Rightarrow> nat" where
  "iso_week1_monday y = (let first = ymd_to_ord y 1 1; wd = (first + 6) mod 7; mon = first - wd
     in if wd > 3 then mon + 7 else mon)"

definition iso_week_date :: "nat \<Rightarrow> nat \<Rightarrow> nat \<Rightarrow> (nat \<times> nat \<times> nat) option" where
  "iso_week_date y w d =
     (let first = (ymd_to_ord y 1 1 + 6) mod 7;
          w53 = (first = 3 \<or> (first = 2 \<and> is_leap y))
      in if y < 1 \<or> \<not> (1 \<le> w \<and> (w \<le> 52 \<or> (w = 53 \<and> w53))) \<or> \<not> (1 \<le> d \<and> d \<le> 7) then None
         else Some (ord_to_ymd (iso_week1_monday y + (w - 1) * 7 + (d - 1))))"

definition iso_date :: "string \<Rightarrow> (nat \<times> nat \<times> nat) option" where
  "iso_date s = Option.bind (all_digits 4 (take 4 s)) (\<lambda>y.
     (let sep = char_is s 4 (CHR ''-''); p = (if sep then 5 else 4) in
      if char_is s p (CHR ''W'') then
        Option.bind (all_digits 2 (slice (p + 1) (p + 3) s)) (\<lambda>w.
          (let q = p + 3 in
           if length s > q then
             (if char_is s q (CHR ''-'') \<noteq> sep then None
              else Option.bind (all_digits 1 (drop (if sep then q + 1 else q) s)) (\<lambda>d. iso_week_date y w d))
           else iso_week_date y w 1))
      else
        Option.bind (all_digits 2 (slice p (p + 2) s)) (\<lambda>m.
          (let q = p + 2 in
           if char_is s q (CHR ''-'') \<noteq> sep then None
           else Option.bind (all_digits 2 (drop (if sep then q + 1 else q) s)) (\<lambda>d. Some (y, m, d))))))"

text \<open>\<open>_parse_hh_mm_ss_ff\<close>: hours, then minutes and seconds while there is text, then a fraction.\<close>

definition frac_micro :: "string \<Rightarrow> nat option" where
  "frac_micro s = (case s of
     [] \<Rightarrow> Some 0
   | c # r \<Rightarrow> if c \<in> set ''.,'' \<and> r \<noteq> [] \<and> list_all is_digit r
       then Some (digits_val (take 6 r) * 10 ^ (6 - length (take 6 r))) else None)"

definition two_at :: "string \<Rightarrow> nat option" where
  "two_at s = all_digits 2 (take 2 s)"

definition iso_hms :: "string \<Rightarrow> (nat \<times> nat \<times> nat \<times> nat) option" where
  "iso_hms s = Option.bind (two_at s) (\<lambda>h.
     (let r = drop 2 s; sep = char_is s 2 (CHR '':'') in
      if r = [] then Some (h, 0, 0, 0)
      else (let r1 = (if sep then tl r else r) in
        Option.bind (two_at r1) (\<lambda>mi.
          (let r2 = drop 2 r1 in
           if r2 = [] then Some (h, mi, 0, 0)
           else if sep \<and> hd r2 \<noteq> CHR '':'' then None
           else (let r3 = (if sep then tl r2 else r2) in
             Option.bind (two_at r3) (\<lambda>sec.
             Option.bind (frac_micro (drop 2 r3)) (\<lambda>us. Some (h, mi, sec, us)))))))))"

definition split_zone :: "string \<Rightarrow> string \<times> string option" where
  "split_zone s = (if CHR ''-'' \<in> set s then split_first (CHR ''-'') s
     else if CHR ''+'' \<in> set s then split_first (CHR ''+'') s
     else split_first (CHR ''Z'') s)"

text \<open>The offset only has to be well formed and below a day: every caller drops it.\<close>

definition zone_ok :: "string \<Rightarrow> bool" where
  "zone_ok z = (case iso_hms z of
     None \<Rightarrow> False | Some (h, mi, s, us) \<Rightarrow> h * 3600 + mi * 60 + s < 86400)"

definition iso_time :: "string \<Rightarrow> (nat \<times> nat \<times> nat \<times> nat) option" where
  "iso_time s = (case split_zone s of
     (t, None) \<Rightarrow> iso_hms t
   | (t, Some z) \<Rightarrow> if (z = [] \<and> last s = CHR ''Z'') \<or> zone_ok z then iso_hms t else None)"

definition fromisoformat :: "string \<Rightarrow> datetime option" where
  "fromisoformat s =
     (if length s < 7 then None
      else Option.bind (iso_separator s) (\<lambda>sep.
        Option.bind (iso_date (take sep s)) (\<lambda>(y, m, d).
          (let t = drop (Suc sep) s in
           Option.bind (if t = [] then Some (0, 0, 0, 0) else iso_time t)
             (\<lambda>(h, mi, sec, us). checked (mk_datetime y m d h mi sec us))))))"

section \<open>strftime\<close>

text \<open>Two digits, and the year as glibc prints \<open>%Y\<close> (no padding).\<close>

definition pad2 :: "nat \<Rightarrow> string" where
  "pad2 n = (if n < 10 then ''0'' @ nat_digits n else nat_digits n)"

definition pad4 :: "nat \<Rightarrow> string" where
  "pad4 n = nat_digits n"

definition fmt_ymd :: "datetime \<Rightarrow> string" where
  "fmt_ymd t = pad4 (dt_year t) @ ''-'' @ pad2 (dt_month t) @ ''-'' @ pad2 (dt_day t)"

definition fmt_hms :: "datetime \<Rightarrow> string" where
  "fmt_hms t = pad2 (dt_hour t) @ '':'' @ pad2 (dt_minute t) @ '':'' @ pad2 (dt_second t)"

definition fmt_dmy_hm :: "datetime \<Rightarrow> string" where
  "fmt_dmy_hm t = pad2 (dt_day t) @ ''.'' @ pad2 (dt_month t) @ ''.'' @ pad4 (dt_year t) @ '' ''
     @ pad2 (dt_hour t) @ '':'' @ pad2 (dt_minute t)"

section \<open>Lemmas\<close>

lemma checked_Some [simp]: "checked t = Some u \<longleftrightarrow> u = t \<and> valid_datetime t"
  by (auto simp: checked_def)

lemma strptime_valid: "strptime s f = Some t \<Longrightarrow> valid_datetime t"
  by (auto simp: strptime_def split: list.splits if_splits)

lemma fromisoformat_valid: "fromisoformat s = Some t \<Longrightarrow> valid_datetime t"
  by (auto simp: fromisoformat_def bind_eq_Some_conv Let_def split: if_splits prod.splits)

lemma strptime_examples:
  "strptime ''2026-06-12 14:30'' ''%Y-%m-%d %H:%M'' = Some (mk_datetime 2026 6 12 14 30 0 0)"
  "strptime ''2026-02-30'' ''%Y-%m-%d'' = None"
  "strptime ''2026-06-123'' ''%Y-%m-%d'' = None"
  by code_simp+

lemma fromisoformat_examples:
  "fromisoformat ''2026-06-12T14:30:05.25+02:00'' = Some (mk_datetime 2026 6 12 14 30 5 250000)"
  "fromisoformat ''20260612'' = Some (mk_datetime 2026 6 12 0 0 0 0)"
  "fromisoformat ''2026-W24-5'' = Some (mk_datetime 2026 6 12 0 0 0 0)"
  by code_simp+

end
