(* ===== verification/Cards.thy ===== *)
theory Cards
  imports Py_Datetime
begin

text \<open>
  The cards shown for CRM records (\<open>app/presentation/cards.py\<close>): record cards for up to four
  rows, one table card for more. Rows are untrusted dicts of the CRM; every cell is read
  with \<open>safe_text\<close>, so building cards never raises.
\<close>

section \<open>Dates\<close>

definition card_date_formats :: "string list" where
  "card_date_formats = [''%Y-%m-%d %H:%M:%S'', ''%Y-%m-%d %H:%M'', ''%Y-%m-%dT%H:%M:%S'', ''%Y-%m-%d'']"

definition parse_datetime :: "py \<Rightarrow> datetime option" where
  "parse_datetime v = (let raw = safe_text v in
     if raw = [] then None
     else case first_some (strptime raw) card_date_formats of
            Some t \<Rightarrow> Some t
          | None \<Rightarrow> fromisoformat (replace_char (CHR ''Z'') ''+00:00'' raw))"

definition format_date :: "py \<Rightarrow> string" where
  "format_date v = (case parse_datetime v of None \<Rightarrow> safe_text v | Some t \<Rightarrow> fmt_dmy_hm t)"

section \<open>Record cards\<close>

definition record_name :: "pydict \<Rightarrow> string" where
  "record_name r = (let name = safe_text (pget r ''name'') in
     if name \<noteq> [] then name
     else (let full = py_strip (safe_text (pget r ''first_name'') @ '' '' @ safe_text (pget r ''last_name''))
           in if full \<noteq> [] then full else ''(bez nazvu)''))"

definition crm_detail_link :: "string \<Rightarrow> string \<Rightarrow> string" where
  "crm_detail_link md rid = (let m = (if py_strip md = [] then ''Home'' else py_strip md); i = py_strip rid
     in if i = [] then ''/#'' else ''/#detail/'' @ m @ ''/'' @ i)"

definition non_empty_meta :: "pydict \<Rightarrow> pydict" where
  "non_empty_meta meta = map (\<lambda>(k, v). (k, PStr (safe_text v))) (filter (\<lambda>(k, v). safe_text v \<noteq> []) meta)"

definition open_action :: "string \<Rightarrow> string \<Rightarrow> py" where
  "open_action md rid = PDict [(''label'', PStr ''Otevrit v CRM''), (''label_key'', PStr ''LBL_AI_OPEN''),
     (''intent'', PStr ''primary''), (''action'', PStr ''link''), (''url'', PStr (crm_detail_link md rid))]"

definition record_card :: "string \<Rightarrow> string \<Rightarrow> string \<Rightarrow> pydict \<Rightarrow> pydict" where
  "record_card md title rid meta =
     [(''id'', PStr (if rid \<noteq> [] then md @ ''-'' @ rid else md @ ''-row'')),
      (''type'', PStr ''record''), (''title'', PStr title), (''tag'', PStr md),
      (''meta'', PDict (non_empty_meta meta)),
      (''actions'', PList (if rid \<noteq> [] then [open_action md rid] else []))]"

section \<open>Table cards\<close>

definition table_card :: "string \<Rightarrow> string \<Rightarrow> (string \<times> string) list \<Rightarrow> pydict list \<Rightarrow> pydict" where
  "table_card title tag columns rows =
     [(''id'', PStr (''table-'' @ (if normalize_text title = [] then ''crm'' else normalize_text title))),
      (''type'', PStr ''table''), (''title'', PStr title), (''tag'', PStr tag),
      (''columns'', PList (map (\<lambda>(k, l). PDict [(''key'', PStr k), (''label'', PStr l)]) columns)),
      (''rows'', PList (map PDict rows))]"

definition detail_link :: "string \<Rightarrow> string \<Rightarrow> py" where
  "detail_link md rid = PDict [(''label'', PStr ''Detail''), (''url'', PStr (crm_detail_link md rid))]"

definition cell :: "pydict \<Rightarrow> string \<Rightarrow> py" where
  "cell r k = PStr (safe_text (pget r k))"

definition row_id :: "pydict \<Rightarrow> string" where
  "row_id r = safe_text (pget r ''id'')"

section \<open>Meetings\<close>

definition meeting_record_card :: "pydict \<Rightarrow> pydict" where
  "meeting_record_card r = record_card ''Meetings'' (record_name r) (row_id r)
     [(''Datum'', PStr (format_date (pget r ''date_start''))), (''Misto'', cell r ''location''),
      (''Stav'', cell r ''status'')]"

definition meeting_row :: "pydict \<Rightarrow> pydict" where
  "meeting_row r = [(''id'', PStr (row_id r)),
     (''cells'', PDict [(''date_start'', PStr (format_date (pget r ''date_start''))),
        (''name'', PStr (record_name r)), (''location'', cell r ''location''), (''status'', cell r ''status'')]),
     (''link'', detail_link ''Meetings'' (row_id r))]"

definition meeting_cards :: "pydict list \<Rightarrow> int \<Rightarrow> bool \<Rightarrow> pydict list" where
  "meeting_cards records cnt force_table =
     (if records = [] then []
      else if cnt \<le> 4 \<and> \<not> force_table then map meeting_record_card records
      else [table_card (''Schuzky ('' @ int_str cnt @ '')'') ''Meetings''
              [(''date_start'', ''Datum''), (''name'', ''Nazev''), (''location'', ''Misto''), (''status'', ''Stav'')]
              (map meeting_row records)])"

section \<open>Contacts\<close>

definition company_of :: "pydict \<Rightarrow> py" where
  "company_of r = PStr (safe_text (por (pget r ''account_name'') (pget r ''company'')))"

definition phone_of :: "pydict \<Rightarrow> py" where
  "phone_of r = PStr (safe_text (por (pget r ''phone_mobile'') (pget r ''phone_work'')))"

definition contact_record_card :: "pydict \<Rightarrow> pydict" where
  "contact_record_card r = record_card ''Contacts'' (record_name r) (row_id r)
     [(''Firma'', company_of r), (''E-mail'', cell r ''email1''), (''Telefon'', phone_of r)]"

definition contact_row :: "pydict \<Rightarrow> pydict" where
  "contact_row r = [(''id'', PStr (row_id r)),
     (''cells'', PDict [(''name'', PStr (record_name r)), (''company'', company_of r),
        (''email'', cell r ''email1''), (''phone'', phone_of r)]),
     (''link'', detail_link ''Contacts'' (row_id r))]"

definition contact_cards :: "pydict list \<Rightarrow> int \<Rightarrow> string \<Rightarrow> bool \<Rightarrow> pydict list" where
  "contact_cards records cnt title force_table =
     (if records = [] then []
      else if cnt \<le> 4 \<and> \<not> force_table then map contact_record_card records
      else [table_card title ''Contacts''
              [(''name'', ''Jmeno''), (''company'', ''Firma''), (''email'', ''E-mail''), (''phone'', ''Telefon'')]
              (map contact_row records)])"

section \<open>Any module\<close>

definition record_module_hint :: "pydict \<Rightarrow> string \<Rightarrow> string" where
  "record_module_hint r dflt =
     (case first_some (\<lambda>k. let v = safe_text (pget r k) in if v \<noteq> [] then Some v else None)
             [''_module_hint'', ''_module'', ''module'', ''record_module''] of
        Some v \<Rightarrow> v
      | None \<Rightarrow> if py_strip dflt \<noteq> [] then py_strip dflt else ''CRM'')"

definition generic_record_card :: "string \<Rightarrow> pydict \<Rightarrow> pydict" where
  "generic_record_card dflt r = (let m = record_module_hint r dflt in
     record_card m (record_name r) (row_id r)
       [(''Modul'', PStr m), (''Stav'', cell r ''status''), (''Upraveno'', PStr (format_date (pget r ''date_modified'')))])"

definition generic_row :: "string \<Rightarrow> pydict \<Rightarrow> pydict" where
  "generic_row dflt r = (let m = record_module_hint r dflt; i = row_id r in
     [(''id'', PStr (if i \<noteq> [] then m @ ''-'' @ i else m)),
      (''cells'', PDict [(''module'', PStr m), (''name'', PStr (record_name r)), (''status'', cell r ''status'')]),
      (''link'', if i \<noteq> [] then detail_link m i else PNone)])"

definition generic_cards :: "pydict list \<Rightarrow> int \<Rightarrow> string \<Rightarrow> pydict list" where
  "generic_cards records cnt dflt =
     (if records = [] then []
      else if cnt \<le> 4 then map (generic_record_card dflt) records
      else (let modules = dedup (map (\<lambda>r. record_module_hint r dflt) records) in
        [table_card (''Vysledky ('' @ int_str cnt @ '')'')
           (if length modules = 1 then hd modules else ''CRM'')
           [(''module'', ''Modul''), (''name'', ''Nazev''), (''status'', ''Stav'')]
           (map (generic_row dflt) records)]))"

section \<open>Lemmas\<close>

text \<open>What makes a card: a type the frontend renders and a title that is a text.\<close>

definition card_shape :: "pydict \<Rightarrow> bool" where
  "card_shape c = (pget c ''type'' \<in> {PStr ''record'', PStr ''table''} \<and> is_str (pget c ''title'')
     \<and> is_str (pget c ''tag'') \<and> is_str (pget c ''id''))"

lemma record_card_shape [simp]: "card_shape (record_card m t i meta)"
  by (simp add: card_shape_def record_card_def pget_Cons)

lemma table_card_shape [simp]: "card_shape (table_card t g cols rows)"
  by (simp add: card_shape_def table_card_def pget_Cons)

lemma record_name_ne [simp]: "record_name r \<noteq> []"
  by (simp add: record_name_def Let_def)

lemma module_hint_ne [simp]: "record_module_hint r d \<noteq> []"
  by (auto simp: record_module_hint_def first_some_Some Let_def split: option.splits if_splits)

lemma non_empty_meta_values:
  "(k, v) \<in> set (non_empty_meta meta) \<Longrightarrow> \<exists>t. v = PStr t \<and> t \<noteq> [] \<and> py_strip t = t"
  by (auto simp: non_empty_meta_def)

lemma meeting_cards_shape: "c \<in> set (meeting_cards rs n f) \<Longrightarrow> card_shape c"
  by (auto simp: meeting_cards_def meeting_record_card_def split: if_splits)

lemma contact_cards_shape: "c \<in> set (contact_cards rs n t f) \<Longrightarrow> card_shape c"
  by (auto simp: contact_cards_def contact_record_card_def split: if_splits)

lemma generic_cards_shape: "c \<in> set (generic_cards rs n d) \<Longrightarrow> card_shape c"
  by (auto simp: generic_cards_def generic_record_card_def Let_def split: if_splits)

text \<open>How many records a list of cards shows: one per record card, the rows of a table.\<close>

definition card_rows :: "pydict \<Rightarrow> nat" where
  "card_rows c = (if pget c ''type'' = PStr ''table'' then length (list_or_empty (pget c ''rows'')) else 1)"

lemma card_rows_simps [simp]:
  "card_rows (record_card m t i meta) = 1"
  "card_rows (table_card t g cols rows) = length rows"
  by (simp_all add: card_rows_def record_card_def table_card_def pget_Cons)

lemma sum_rows_map: "(\<And>r. card_rows (f r) = 1) \<Longrightarrow> sum_list (map card_rows (map f rs)) = length rs"
  by (induction rs) auto

lemma meeting_cards_rows: "sum_list (map card_rows (meeting_cards rs n f)) = length rs"
  by (simp add: meeting_cards_def meeting_record_card_def sum_rows_map del: map_map)

lemma contact_cards_rows: "sum_list (map card_rows (contact_cards rs n t f)) = length rs"
  by (simp add: contact_cards_def contact_record_card_def sum_rows_map del: map_map)

lemma generic_cards_rows: "sum_list (map card_rows (generic_cards rs n d)) = length rs"
  by (simp add: generic_cards_def generic_record_card_def Let_def sum_rows_map del: map_map)

end
