(* ===== verification/Pending_Action.thy ===== *)
theory Pending_Action
  imports Text_Utils
begin

text \<open>
  The envelope of a mutation that waits for the user's confirmation
  (\<open>app/domain/contracts.py\<close>): how it is built from a previewed tool call, and how it is
  read back from whatever the frontend or the chat history sends.
\<close>

section \<open>The envelope\<close>

definition tool_call_keys :: "string list" where
  "tool_call_keys = [''tool'', ''tool_version'', ''arguments'', ''confirmation_token'', ''expires_at'']"

text \<open>The keys of the tool call that are present, in the order of \<open>TOOL_CALL_KEYS\<close>.\<close>

definition call_entries :: "pydict \<Rightarrow> pydict" where
  "call_entries d = map (\<lambda>k. (k, pget d k)) (filter (\<lambda>k. has_key k d) tool_call_keys)"

text \<open>\<open>a or b\<close> on texts.\<close>

definition sor :: "string \<Rightarrow> string \<Rightarrow> string" where
  "sor a b = (if a = [] then b else a)"

definition build_pending_action_envelope ::
  "string \<Rightarrow> string \<Rightarrow> py \<Rightarrow> string \<Rightarrow> string \<Rightarrow> py list \<Rightarrow> py list \<Rightarrow> bool \<Rightarrow> pydict \<Rightarrow> pydict" where
  "build_pending_action_envelope md action data requested effective adjustments ambiguities confirm call =
     (let target = sor (py_strip (sor effective md)) (py_strip md);
          req = sor (py_strip (sor requested (sor md target))) target;
          envelope =
            [(''module'', PStr target),
             (''requested_module'', PStr req),
             (''effective_module'', PStr target),
             (''action'', PStr (py_lower (py_strip action))),
             (''data'', PDict (dict_or_empty data)),
             (''adjustments'', PList adjustments),
             (''ambiguities'', PList ambiguities),
             (''requires_confirmation'', PBool confirm)]
      in if truthy (pget call ''tool'') then dupdate envelope (call_entries call) else envelope)"

definition envelope_module :: "pydict \<Rightarrow> string" where
  "envelope_module d = text_of (por (pget d ''effective_module'')
     (por (pget d ''module'') (pget d ''requested_module'')))"

definition envelope_action :: "pydict \<Rightarrow> string" where
  "envelope_action d = py_lower (text_of (pget d ''action''))"

definition normalize_pending_action_envelope :: "py \<Rightarrow> pydict option" where
  "normalize_pending_action_envelope v = (case v of
     PDict d \<Rightarrow>
       (let md = envelope_module d; action = envelope_action d in
        if md = [] \<or> action = [] then None
        else Some (build_pending_action_envelope md action (pget d ''data'')
          (sor (py_strip (py_str (por (pget d ''requested_module'') (PStr md)))) md) md
          (map (\<lambda>x. PStr (py_str x)) (list_or_empty (pget d ''adjustments'')))
          (filter is_dict (list_or_empty (pget d ''ambiguities'')))
          (truthy (dget_default d ''requires_confirmation'' (PBool True)))
          (call_entries d)))
   | _ \<Rightarrow> None)"

section \<open>Lemmas\<close>

lemma isspace_lower [simp]: "py_isspace (lower_char c) = py_isspace c"
proof -
  have "(of_char c :: nat) < 256" by simp
  then show ?thesis by (auto simp: py_isspace_def lower_char_def Let_def)
qed

lemma lower_char_idem [simp]: "lower_char (lower_char c) = lower_char c"
proof -
  have "(of_char c :: nat) < 256" by simp
  then show ?thesis by (auto simp: lower_char_def Let_def)
qed

lemma py_lower_idem [simp, text_simps]: "py_lower (py_lower s) = py_lower s"
  by (simp add: py_lower_def o_def)

lemma py_lower_Nil [simp, text_simps]: "py_lower s = [] \<longleftrightarrow> s = []"
  by (simp add: py_lower_def)

lemma py_strip_lower [text_simps]: "py_strip (py_lower s) = py_lower (py_strip s)"
  by (simp add: py_strip_def py_rstrip_def py_lstrip_def py_lower_def dropWhile_map rev_map o_def)

lemma sor_simps [simp]: "sor [] b = b" "a \<noteq> [] \<Longrightarrow> sor a b = a" "sor a a = a"
  by (simp_all add: sor_def)

lemma sor_ne: "b \<noteq> [] \<Longrightarrow> sor a b \<noteq> []"
  by (simp add: sor_def)

lemma call_entries_keys: "map fst (call_entries d) = filter (\<lambda>k. has_key k d) tool_call_keys"
  by (simp add: call_entries_def comp_def)

lemma distinct_call_entries [simp]: "distinct (map fst (call_entries d))"
  by (simp add: call_entries_keys tool_call_keys_def)

lemma map_of_call_entries:
  "map_of (call_entries d) k = (if k \<in> set tool_call_keys then map_of d k else None)"
proof -
  have "map_of (map (\<lambda>k. (k, pget d k)) (filter (\<lambda>k. has_key k d) ks)) k
      = (if k \<in> set ks then map_of d k else None)" for ks
    by (induction ks) (auto simp: has_key_def pget_def dget_default_def)
  then show ?thesis by (simp add: call_entries_def)
qed

lemma dget_map_of: "map_of d k = map_of e k \<Longrightarrow> pget d k = pget e k"
  by (simp add: pget_def dget_default_def)

text \<open>A field of a built envelope: the tool call keys come from the call, the others do not.\<close>

lemma envelope_field:
  "pget (build_pending_action_envelope md a data rq ef adj amb cf call) k =
    (if k \<in> set tool_call_keys
     then (if truthy (pget call ''tool'') then pget call k else PNone)
     else pget
       [(''module'', PStr (sor (py_strip (sor ef md)) (py_strip md))),
        (''requested_module'', PStr (sor (py_strip (sor rq (sor md (sor (py_strip (sor ef md)) (py_strip md)))))
            (sor (py_strip (sor ef md)) (py_strip md)))),
        (''effective_module'', PStr (sor (py_strip (sor ef md)) (py_strip md))),
        (''action'', PStr (py_lower (py_strip a))),
        (''data'', PDict (dict_or_empty data)),
        (''adjustments'', PList adj), (''ambiguities'', PList amb),
        (''requires_confirmation'', PBool cf)] k)"
  by (auto simp: build_pending_action_envelope_def Let_def pget_def dget_default_def map_of_dupdate
      map_of_call_entries tool_call_keys_def split: option.splits)


lemma call_entries_cong:
  "(\<And>k. k \<in> set tool_call_keys \<Longrightarrow> map_of d k = map_of e k) \<Longrightarrow> call_entries d = call_entries e"
  unfolding call_entries_def
  by (rule map_cong) (auto simp: has_key_def pget_def dget_default_def intro!: filter_cong)

lemma call_entries_twice [simp]: "call_entries (call_entries d) = call_entries d"
  by (rule call_entries_cong) (simp add: map_of_call_entries)

lemma call_entries_tool [simp]: "pget (call_entries d) ''tool'' = pget d ''tool''"
  by (rule dget_map_of) (simp add: map_of_call_entries tool_call_keys_def)

lemma map_of_envelope_call:
  "k \<in> set tool_call_keys \<Longrightarrow>
   map_of (build_pending_action_envelope md a data rq ef adj amb cf call) k =
     (if truthy (pget call ''tool'') then map_of call k else None)"
proof -
  assume k: "k \<in> set tool_call_keys"
  have keys: "k \<noteq> ''module''" "k \<noteq> ''requested_module''" "k \<noteq> ''effective_module''"
    "k \<noteq> ''action''" "k \<noteq> ''data''" "k \<noteq> ''adjustments''" "k \<noteq> ''ambiguities''"
    "k \<noteq> ''requires_confirmation''"
    using k by (auto simp: tool_call_keys_def)
  show ?thesis
    using keys k by (simp add: build_pending_action_envelope_def Let_def map_of_dupdate
        map_of_call_entries split: option.split)
qed

lemma call_entries_envelope:
  "call_entries (build_pending_action_envelope md a data rq ef adj amb cf call) =
     (if truthy (pget call ''tool'') then call_entries call else [])"
proof (cases "truthy (pget call ''tool'')")
  case True
  then have "call_entries (build_pending_action_envelope md a data rq ef adj amb cf call) = call_entries call"
    by (intro call_entries_cong) (simp add: map_of_envelope_call)
  with True show ?thesis by simp
next
  case False
  then have "call_entries (build_pending_action_envelope md a data rq ef adj amb cf call) = call_entries []"
    by (intro call_entries_cong) (simp add: map_of_envelope_call)
  with False show ?thesis by (simp add: call_entries_def has_key_def)
qed

lemma envelope_confirm:
  "truthy (dget_default (build_pending_action_envelope md a data rq ef adj amb cf call)
     ''requires_confirmation'' (PBool True)) = cf"
  by (auto simp: build_pending_action_envelope_def Let_def map_of_dupdate dget_default_def
      map_of_call_entries tool_call_keys_def split: option.splits)

text \<open>Reading back a built envelope gives the same envelope.\<close>

lemma normalize_build:
  assumes t: "sor (py_strip (sor ef md)) (py_strip md) \<noteq> []" and a: "py_strip a \<noteq> []"
    and adj: "\<And>x. x \<in> set adj \<Longrightarrow> is_str x" and amb: "\<And>x. x \<in> set amb \<Longrightarrow> is_dict x"
  shows "normalize_pending_action_envelope
      (PDict (build_pending_action_envelope md a data rq ef adj amb cf call)) =
    Some (build_pending_action_envelope md a data rq ef adj amb cf call)"
proof -
  let ?B = "build_pending_action_envelope md a data rq ef adj amb cf call"
  define T where "T = sor (py_strip (sor ef md)) (py_strip md)"
  define R where "R = sor (py_strip (sor rq (sor md T))) T"
  have T: "T \<noteq> []" "py_strip T = T" using t by (auto simp: T_def sor_def)
  have R: "R \<noteq> []" "py_strip R = R" using T by (auto simp: R_def sor_def)
  have tk: "k \<notin> set tool_call_keys" if "k \<in> set [''module'', ''requested_module'', ''effective_module'',
      ''action'', ''data'', ''adjustments'', ''ambiguities'']" for k
    using that by (auto simp: tool_call_keys_def)
  have f: "pget ?B ''module'' = PStr T" "pget ?B ''effective_module'' = PStr T"
    "pget ?B ''requested_module'' = PStr R" "pget ?B ''action'' = PStr (py_lower (py_strip a))"
    "pget ?B ''data'' = PDict (dict_or_empty data)" "pget ?B ''adjustments'' = PList adj"
    "pget ?B ''ambiguities'' = PList amb"
    by (simp_all add: envelope_field tk pget_Cons T_def R_def)
  have adj': "map (\<lambda>x. PStr (py_str x)) adj = adj"
    by (rule map_idI) (use adj in \<open>fastforce elim: is_str.elims\<close>)
  have amb': "filter is_dict amb = amb" using amb by simp
  have m: "envelope_module ?B = T" using T by (simp add: envelope_module_def f por_def)
  have ac: "envelope_action ?B = py_lower (py_strip a)" by (simp add: envelope_action_def f py_strip_lower)
  have n: "normalize_pending_action_envelope (PDict ?B) = Some
      (build_pending_action_envelope T (py_lower (py_strip a)) (PDict (dict_or_empty data)) R T adj amb cf
        (if truthy (pget call ''tool'') then call_entries call else []))"
    using T R a by (simp add: normalize_pending_action_envelope_def m ac f adj' amb' envelope_confirm
        call_entries_envelope por_def Let_def)
  show ?thesis unfolding n
    using T R by (simp add: build_pending_action_envelope_def Let_def T_def [symmetric] R_def [symmetric] py_strip_lower)
qed

text \<open>The normal form of an envelope, and the entries it keeps.\<close>

lemma normalize_normal:
  assumes "normalize_pending_action_envelope (PDict d) = Some e"
  shows "normalize_pending_action_envelope (PDict e) = Some e
    \<and> (truthy (pget d ''tool'') \<longrightarrow> (\<forall>k \<in> set tool_call_keys. map_of e k = map_of d k))
    \<and> (\<not> truthy (pget d ''tool'') \<longrightarrow> (\<forall>k \<in> set tool_call_keys. map_of e k = None))
    \<and> pget e ''data'' = PDict (dict_or_empty (pget d ''data''))"
proof -
  let ?m = "envelope_module d" and ?a = "envelope_action d"
  from assms have ne: "?m \<noteq> []" "?a \<noteq> []"
    and e: "e = build_pending_action_envelope ?m ?a (pget d ''data'')
          (sor (py_strip (py_str (por (pget d ''requested_module'') (PStr ?m)))) ?m) ?m
          (map (\<lambda>x. PStr (py_str x)) (list_or_empty (pget d ''adjustments'')))
          (filter is_dict (list_or_empty (pget d ''ambiguities'')))
          (truthy (dget_default d ''requires_confirmation'' (PBool True))) (call_entries d)"
    by (auto simp: normalize_pending_action_envelope_def Let_def split: if_splits)
  have st: "py_strip ?m = ?m" "py_strip ?a = ?a"
    by (simp_all add: envelope_module_def envelope_action_def py_strip_lower)
  have "normalize_pending_action_envelope (PDict e) = Some e" unfolding e
    by (rule normalize_build) (use ne st in auto)
  moreover have "pget e ''data'' = PDict (dict_or_empty (pget d ''data''))"
    by (simp add: e envelope_field tool_call_keys_def pget_Cons)
  ultimately show ?thesis by (simp add: e map_of_envelope_call map_of_call_entries)
qed

section \<open>Properties\<close>

text \<open>
  the envelope survives the round trip between turns. What the gateway reads back from
  the frontend or the history is in normal form: reading it again changes nothing, and the
  tool call with its confirmation token and the arguments the token is bound to are those
  of the message, untouched.
\<close>

theorem pending_envelope_roundtrip:
  assumes "normalize_pending_action_envelope (PDict d) = Some e"
  shows "normalize_pending_action_envelope (PDict e) = Some e
    \<and> (truthy (pget d ''tool'') \<longrightarrow> (\<forall>k \<in> set tool_call_keys. map_of e k = map_of d k))
    \<and> (\<not> truthy (pget d ''tool'') \<longrightarrow> (\<forall>k \<in> set tool_call_keys. map_of e k = None))
    \<and> pget e ''data'' = PDict (dict_or_empty (pget d ''data''))"
  using assms by (rule normalize_normal)

definition demo_pending :: pydict where
  "demo_pending = [(''module'', PStr '' Accounts ''), (''action'', PStr ''Update''),
     (''data'', PDict [(''id'', PStr ''a1'')]), (''tool'', PStr ''crm_action_tool''),
     (''arguments'', PDict [(''module'', PStr ''Accounts'')]), (''confirmation_token'', PStr ''t1'')]"

theorem pending_envelope_roundtrip_witness:
  "\<exists>e. normalize_pending_action_envelope (PDict demo_pending) = Some e \<and>
     normalize_pending_action_envelope (PDict e) = Some e \<and>
     map_of e ''confirmation_token'' = Some (PStr ''t1'')"
proof -
  obtain e where e: "normalize_pending_action_envelope (PDict demo_pending) = Some e"
    by (rule option.exhaust [of "normalize_pending_action_envelope (PDict demo_pending)"]) (code_simp, blast)
  from pending_envelope_roundtrip [OF e] have "normalize_pending_action_envelope (PDict e) = Some e"
    and "truthy (pget demo_pending ''tool'') \<longrightarrow> map_of e ''confirmation_token'' = map_of demo_pending ''confirmation_token''"
    by (auto simp: tool_call_keys_def)
  with e show ?thesis by (auto simp: demo_pending_def pget_Cons)
qed

end
