(* ===== verification/Observation.thy ===== *)
theory Observation
  imports Cards Pending_Action Tool_Contracts Form_Fields
begin

text \<open>
  From a tool result to the observation the agent loop and the frontend consume
  (\<open>app/tools/observation.py\<close>): errors, confirmations and results with their cards. An
  observation is decided by the shape of the result, never by the name of the tool.
\<close>

section \<open>Cards of an observation\<close>

definition index_error :: py_exc where
  "index_error = OtherError ''IndexError''"

definition default_meta :: "pydict \<Rightarrow> pydict" where
  "default_meta row = filter (\<lambda>(k, v). k \<notin> set [''id'', ''name''] \<and> safe_text v \<noteq> []) row"

definition display_record :: "string \<Rightarrow> pydict \<Rightarrow> pydict list \<Rightarrow> pydict list result" where
  "display_record md obs rows = (case rows of
     [] \<Rightarrow> Inl index_error
   | row # _ \<Rightarrow>
       (let card = dict_or_empty (pget obs ''card'');
            meta = (case pget card ''meta'' of PDict m \<Rightarrow> m | _ \<Rightarrow> default_meta row);
            title = sor (safe_text (pget card ''title'')) (record_name row);
            rendered = record_card md title (safe_text (pget row ''id'')) (take 8 meta)
        in Inr [case pget card ''meta_fields'' of
                  PList fs \<Rightarrow> dput ''meta_fields'' (PList (take 8 (filter is_dict fs))) rendered
                | _ \<Rightarrow> rendered]))"

definition cards_for :: "pydict \<Rightarrow> pydict list result" where
  "cards_for obs = (case pget obs ''records'' of
     PList records \<Rightarrow>
       if records = [] then Inr []
       else (let rows = dicts_of records;
                 md = sor (safe_text (pget obs ''module'')) ''CRM'';
                 display = safe_text (pget obs ''display'')
             in res_bind (py_int (por (pget obs ''total'') (PInt (int (length rows))))) (\<lambda>cnt.
               if display = ''record'' then display_record md obs rows
               else if py_lower md = ''meetings'' then Inr (meeting_cards rows cnt (display = ''table''))
               else if py_lower md = ''contacts'' then
                 Inr (contact_cards rows cnt (''Kontakty ('' @ int_str cnt @ '')'') (display = ''table'' \<or> cnt > 4))
               else Inr (generic_cards rows cnt md)))
   | _ \<Rightarrow> Inr [])"

section \<open>Errors\<close>

definition error_status :: "string \<Rightarrow> string" where
  "error_status code = dget_default
     [(''invalid_arguments'', ''tool_validation_error''), (''unavailable'', ''crm_unavailable''),
      (''access_denied'', ''access_denied''), (''not_found'', ''not_found'')] code ''error''"

definition error_observation :: "tool_result \<Rightarrow> pydict" where
  "error_observation r =
     (let err = dict_or_empty (pget (tr_structured r) ''error'');
          code = (case error_code r of Some c \<Rightarrow> sor c ''internal'' | None \<Rightarrow> ''internal'');
          base = [(''status'', PStr (error_status code)), (''error_code'', PStr code),
                  (''message'', PStr (sor (tr_text r) (str_or (pget err ''message''))))]
      in case pget err ''details'' of
           PList ds \<Rightarrow> if ds = [] then base else dput ''field_errors'' (PList ds) base
         | _ \<Rightarrow> base)"

section \<open>Confirmations\<close>

definition confirm_args :: "pydict \<Rightarrow> pydict \<Rightarrow> pydict" where
  "confirm_args conf args = (case pget conf ''arguments'' of PDict a \<Rightarrow> a | _ \<Rightarrow> args)"

definition confirmation_call :: "tool_spec \<Rightarrow> pydict \<Rightarrow> pydict \<Rightarrow> tool_result \<Rightarrow> pydict" where
  "confirmation_call spec args conf r =
     [(''tool'', PStr (ts_name spec)),
      (''tool_version'', PStr (py_str (por (pget (tr_meta r) ''version'') (PStr (ts_version spec))))),
      (''arguments'', PDict (confirm_args conf args)),
      (''confirmation_token'', pget conf ''token''),
      (''expires_at'', pget conf ''expires_at'')]"

definition confirmation_observation :: "tool_spec \<Rightarrow> pydict \<Rightarrow> tool_result \<Rightarrow> pydict result" where
  "confirmation_observation spec args r =
     (let conf = (case confirmation r of Some c \<Rightarrow> c | None \<Rightarrow> []);
          st = tr_structured r;
          cargs = confirm_args conf args;
          data = (case pget cargs ''data_json'' of PDict d \<Rightarrow> d | _ \<Rightarrow> cargs)
      in res_bind (iter_or_empty (pget st ''adjustments'')) (\<lambda>adj.
         res_bind (iter_or_empty (pget st ''ambiguities'')) (\<lambda>amb.
           let pending = build_pending_action_envelope
                 (str_or (por (pget st ''module'') (pget cargs ''module'')))
                 (py_str (por (por (pget st ''action'') (pget cargs ''action'')) (PStr ''execute'')))
                 (PDict data) [] [] (map (\<lambda>n. PStr (py_str n)) adj) (filter is_dict amb) True
                 (confirmation_call spec args conf r)
           in Inr ([(''status'', PStr ''confirmation_required''),
                    (''message'', PStr (py_str (por (por (pget st ''message'') (PStr (tr_text r)))
                        (PStr ''Akce vyzaduje potvrzeni uzivatele.'')))),
                    (''pending_action'', PDict pending),
                    (''adjustments'', pget pending ''adjustments'')]
                @ map (\<lambda>k. (k, pget st k))
                    (filter (\<lambda>k. truthy (pget st k)) [''ambiguities'', ''missing_required'', ''record_name''])))))"

section \<open>The observation\<close>

definition result_observation :: "tool_result \<Rightarrow> pydict result" where
  "result_observation r =
     (let o1 = (if has_key ''status'' (tr_structured r) then tr_structured r
                else dput ''status'' (PStr ''ok'') (tr_structured r));
          o2 = (if \<not> truthy (pget o1 ''summary'') \<and> tr_text r \<noteq> []
                then dput ''summary'' (PStr (tr_text r)) o1 else o1)
      in if is_list (pget o2 ''cards'') then Inr o2
         else res_bind (cards_for o2) (\<lambda>cards.
           Inr (if cards = [] then o2 else dput ''cards'' (PList (map PDict cards)) o2)))"

definition to_observation :: "tool_spec \<Rightarrow> pydict \<Rightarrow> tool_result \<Rightarrow> pydict result" where
  "to_observation spec args r =
     (if tr_is_error r then Inr (error_observation r)
      else if confirmation r \<noteq> None then confirmation_observation spec args r
      else result_observation r)"

section \<open>Lemmas\<close>

lemma card_shape_meta_fields [simp]: "card_shape (dput ''meta_fields'' v c) = card_shape c"
  by (simp add: card_shape_def)

lemma display_record_shape:
  assumes "display_record md obs rows = Inr cs" and "c \<in> set cs"
  shows "card_shape c"
proof (cases rows)
  case Nil
  with assms(1) show ?thesis by (simp add: display_record_def)
next
  case (Cons row rest)
  with assms show ?thesis
    by (cases "pget (dict_or_empty (pget obs ''card'')) ''meta_fields''") (auto simp: display_record_def Let_def)
qed

lemma cards_for_shape:
  assumes "cards_for obs = Inr cs" and "c \<in> set cs"
  shows "card_shape c"
proof (cases "pget obs ''records''")
  case (PList records)
  with assms show ?thesis
    by (auto simp: cards_for_def Let_def res_bind_Inr dest: display_record_shape
        dest: meeting_cards_shape contact_cards_shape generic_cards_shape split: if_splits)
qed (use assms in \<open>simp_all add: cards_for_def\<close>)

lemma error_status_failed: "error_status code \<noteq> ''ok'' \<and> error_status code \<noteq> ''confirmation_required''"
  by (simp add: error_status_def dget_default_def)

lemma error_code_observed:
  "tr_is_error r \<Longrightarrow> pget (error_observation r) ''status'' \<noteq> PStr ''ok'' \<and>
     pget (error_observation r) ''status'' \<noteq> PStr ''confirmation_required'' \<and>
     pget (error_observation r) ''pending_action'' = PNone \<and> pget (error_observation r) ''cards'' = PNone"
  unfolding error_observation_def Let_def
  by (cases "pget (dict_or_empty (pget (tr_structured r) ''error'')) ''details''")
    (simp_all add: pget_Cons error_status_failed)

text \<open>The previewed mutation names a module and an action that are not blank.\<close>

definition confirm_target :: "pydict \<Rightarrow> pydict \<Rightarrow> bool" where
  "confirm_target st cargs =
     (py_strip (str_or (por (pget st ''module'') (pget cargs ''module''))) \<noteq> [] \<and>
      py_strip (py_str (por (por (pget st ''action'') (pget cargs ''action'')) (PStr ''execute''))) \<noteq> [])"

lemma confirmation_pending:
  assumes "to_observation spec args r = Inr obs" and "\<not> tr_is_error r" and "confirmation r = Some conf"
    and ne: "ts_name spec \<noteq> []"
    and tgt: "confirm_target (tr_structured r) (confirm_args conf args)"
  shows "\<exists>p. pget obs ''pending_action'' = PDict p \<and> pget obs ''status'' = PStr ''confirmation_required''
    \<and> normalize_pending_action_envelope (PDict p) = Some p
    \<and> pget p ''tool'' = PStr (ts_name spec) \<and> pget p ''arguments'' = PDict (confirm_args conf args)
    \<and> pget p ''confirmation_token'' = pget conf ''token''"
proof -
  from assms(1-3) obtain adj amb where
    "obs = [(''status'', PStr ''confirmation_required''),
        (''message'', PStr (py_str (por (por (pget (tr_structured r) ''message'') (PStr (tr_text r)))
           (PStr ''Akce vyzaduje potvrzeni uzivatele.'')))),
        (''pending_action'', PDict (build_pending_action_envelope
            (str_or (por (pget (tr_structured r) ''module'') (pget (confirm_args conf args) ''module'')))
            (py_str (por (por (pget (tr_structured r) ''action'') (pget (confirm_args conf args) ''action'')) (PStr ''execute'')))
            (PDict (case pget (confirm_args conf args) ''data_json'' of PDict d \<Rightarrow> d | _ \<Rightarrow> confirm_args conf args))
            [] [] (map (\<lambda>n. PStr (py_str n)) adj) (filter is_dict amb) True
            (confirmation_call spec args conf r))),
        (''adjustments'', pget (build_pending_action_envelope
            (str_or (por (pget (tr_structured r) ''module'') (pget (confirm_args conf args) ''module'')))
            (py_str (por (por (pget (tr_structured r) ''action'') (pget (confirm_args conf args) ''action'')) (PStr ''execute'')))
            (PDict (case pget (confirm_args conf args) ''data_json'' of PDict d \<Rightarrow> d | _ \<Rightarrow> confirm_args conf args))
            [] [] (map (\<lambda>n. PStr (py_str n)) adj) (filter is_dict amb) True
            (confirmation_call spec args conf r)) ''adjustments'')]
        @ map (\<lambda>k. (k, pget (tr_structured r) k))
            (filter (\<lambda>k. truthy (pget (tr_structured r) k)) [''ambiguities'', ''missing_required'', ''record_name''])"
    (is "obs = [_, _, (_, PDict ?p), _] @ _")
    by (auto simp: to_observation_def confirmation_observation_def Let_def res_bind_Inr)
  then have o: "pget obs ''pending_action'' = PDict ?p" "pget obs ''status'' = PStr ''confirmation_required''"
    by (simp_all add: pget_Cons)
  have t: "truthy (pget (confirmation_call spec args conf r) ''tool'')"
    using ne by (simp add: confirmation_call_def pget_Cons)
  have n: "normalize_pending_action_envelope (PDict ?p) = Some ?p"
    by (rule normalize_build) (use tgt in \<open>auto simp: sor_def confirm_target_def\<close>)
  have "pget ?p ''tool'' = PStr (ts_name spec)" "pget ?p ''arguments'' = PDict (confirm_args conf args)"
    "pget ?p ''confirmation_token'' = pget conf ''token''"
    using t by (simp_all add: envelope_field tool_call_keys_def) (simp_all add: confirmation_call_def pget_Cons)
  with o n show ?thesis by blast
qed

section \<open>Properties\<close>

text \<open>
  cards of a result. When the cards of a result that is shown as a list are built, each
  of them is a well-formed card and together they show every record of the result once.
\<close>

theorem cards_show_all_records:
  assumes "cards_for obs = Inr cs" and "safe_text (pget obs ''display'') \<noteq> ''record''"
    and "pget obs ''records'' = PList records"
  shows "(\<forall>c \<in> set cs. card_shape c) \<and> sum_list (map card_rows cs) = length (filter is_dict records)"
proof -
  have "length (dicts_of records) = length (filter is_dict records)" by (simp add: dicts_of_def)
  with assms cards_for_shape [OF assms(1)] show ?thesis
    by (auto simp: cards_for_def Let_def res_bind_Inr meeting_cards_rows contact_cards_rows
        generic_cards_rows split: if_splits)
qed

definition demo_listing :: pydict where
  "demo_listing = [(''module'', PStr ''Meetings''), (''records'', PList
     [PDict [(''id'', PStr ''m1''), (''name'', PStr ''Standup''), (''date_start'', PStr ''2026-06-12 14:30:00'')],
      PInt 7])]"

theorem cards_show_all_records_witness:
  "\<exists>cs. cards_for demo_listing = Inr cs \<and> (\<forall>c \<in> set cs. card_shape c) \<and> sum_list (map card_rows cs) = 1"
proof -
  let ?rows = "[[(''id'', PStr ''m1''), (''name'', PStr ''Standup''), (''date_start'', PStr ''2026-06-12 14:30:00'')]]"
  have c: "cards_for demo_listing = Inr (meeting_cards ?rows 1 False)" by code_simp
  have d: "safe_text (pget demo_listing ''display'') \<noteq> ''record''" by code_simp
  have r: "pget demo_listing ''records'' = PList [PDict (hd ?rows), PInt 7]" by code_simp
  from cards_show_all_records [OF c d r] c show ?thesis by simp
qed

text \<open>
  a confirmation carries exactly the call the CRM bound to the token. The pending action
  read back on the next turn names the tool, the arguments the CRM returned with the token
  (else the previewed ones) and the token itself, and it requires confirmation.
\<close>

theorem confirmation_carries_token:
  assumes "to_observation spec args r = Inr obs" and "\<not> tr_is_error r" and "confirmation r = Some conf"
    and "ts_name spec \<noteq> []" and "confirm_target (tr_structured r) (confirm_args conf args)"
  shows "\<exists>p. pget obs ''pending_action'' = PDict p \<and> pget obs ''status'' = PStr ''confirmation_required''
    \<and> normalize_pending_action_envelope (PDict p) = Some p
    \<and> pget p ''tool'' = PStr (ts_name spec) \<and> pget p ''arguments'' = PDict (confirm_args conf args)
    \<and> pget p ''confirmation_token'' = pget conf ''token''"
  using confirmation_pending [OF assms] .

definition demo_preview :: tool_result where
  "demo_preview = \<lparr>tr_text = ''Nahled'', tr_structured = [(''module'', PStr ''Accounts'')], tr_is_error = False,
     tr_meta = [(''confirmation'', PDict [(''required'', PBool True), (''token'', PStr ''t1'')])]\<rparr>"

theorem confirmation_carries_token_witness:
  "\<exists>obs p. to_observation (demo_tool ''crm_action_tool'' False) [(''action'', PStr ''update'')] demo_preview = Inr obs
     \<and> pget obs ''pending_action'' = PDict p \<and> pget p ''confirmation_token'' = PStr ''t1''"
proof -
  let ?s = "demo_tool ''crm_action_tool'' False" and ?a = "[(''action'', PStr ''update'')]"
  let ?c = "[(''required'', PBool True), (''token'', PStr ''t1'')]"
  obtain obs where o: "to_observation ?s ?a demo_preview = Inr obs"
    by (cases "to_observation ?s ?a demo_preview")
      (simp add: to_observation_def confirmation_observation_def demo_preview_def confirmation_def
        iter_or_empty_def pget_Cons Let_def, blast)
  have "\<not> tr_is_error demo_preview" "confirmation demo_preview = Some ?c" "ts_name ?s \<noteq> []"
    "confirm_target (tr_structured demo_preview) (confirm_args ?c ?a)"
    by code_simp+
  from confirmation_carries_token [OF o this] o show ?thesis by (auto simp: pget_Cons)
qed

text \<open>
  A result shown as one record whose record list holds no record raises \<open>IndexError\<close>:
  the guard tests the raw list, the card takes the first of the filtered rows.
\<close>

theorem record_display_index_error:
  assumes "filter is_dict records = []" and "records \<noteq> []"
  shows "cards_for [(''display'', PStr ''record''), (''records'', PList records)] = Inl index_error"
  using assms
  by (simp add: cards_for_def pget_Cons dicts_of_def display_record_def por_def py_strip_id Let_def py_isspace_def)

theorem record_display_index_error_witness:
  "cards_for [(''display'', PStr ''record''), (''records'', PList [PStr ''m1''])] = Inl index_error"
  by (rule record_display_index_error) simp_all

end
