(* ===== verification/Toolset.thy ===== *)
theory Toolset
  imports Capabilities Crm_Provider Observation Tool_Args
begin

text \<open>
  The tools of one agent turn (\<open>app/tools/toolset.py\<close>): the flat namespace built from the
  tenant's manifest and the gateway's own tools, the interceptors, the only path by which the
  agent calls the CRM, and the confirmed and edited pending calls. Every call returns, with
  its observation, the requests that left the gateway.
\<close>

section \<open>What runs outside\<close>

text \<open>
  A request names the tool, the mode, the arguments and the token. The environment of a call
  holds the libraries of the argument check, the id of the request, the transport (what each
  attempt of a request meets) and the clock.
\<close>

record call_request =
  rq_tool :: string
  rq_mode :: call_mode
  rq_args :: pydict
  rq_token :: "string option"

record call_env =
  en_libs :: arg_libs
  en_request_id :: string
  en_transport :: "call_request \<Rightarrow> nat \<Rightarrow> outcome"
  en_clock :: "nat \<Rightarrow> rat"
  en_now :: rat

datatype invoke_end = Observed py | Raised py_exc | CallCancelled

text \<open>A native tool is what it answers to its arguments; an interceptor may answer instead of the CRM.\<close>

type_synonym native_tool = "pydict \<Rightarrow> py result"
type_synonym interceptor = "tool_spec \<Rightarrow> pydict \<Rightarrow> py option result"

record toolset =
  st_tenant :: string
  st_enabled :: "string set"
  st_unknown :: "string list"
  st_crm :: "(string \<times> tool_spec) list"
  st_native :: "(string \<times> native_tool) list"
  st_manifest :: "manifest option"
  st_extra :: extra_capabilities
  st_interceptors :: "interceptor list"
  st_dropped :: "string list"

section \<open>Building the set\<close>

definition reserved_native_names :: "string list" where
  "reserved_native_names = map fst tool_prompt_blocks @ [''crm_aggregate_tool'', ''math_tool'']"

fun collect_specs ::
  "string list \<Rightarrow> string set \<Rightarrow> tool_spec list \<Rightarrow> (string \<times> tool_spec) list \<times> string list
     \<Rightarrow> (string \<times> tool_spec) list \<times> string list" where
  "collect_specs natives enabled [] acc = acc"
| "collect_specs natives enabled (s # ss) (specs, dropped) =
     (if ts_name s \<in> set natives \<or> ts_name s \<in> set reserved_native_names
      then collect_specs natives enabled ss (specs, dropped @ [ts_name s])
      else if capability (ts_annotations s) \<in> enabled
      then collect_specs natives enabled ss (dput (ts_name s) s specs, dropped)
      else collect_specs natives enabled ss (specs, dropped))"

definition manifest_extra :: "manifest option \<Rightarrow> extra_capabilities" where
  "manifest_extra m = (case m of None \<Rightarrow> []
     | Some mf \<Rightarrow> fold (\<lambda>c a. dput (cs_id c) c a) (mf_capabilities mf) [])"

definition open_form_redirect :: "(string \<Rightarrow> string option \<Rightarrow> py result) \<Rightarrow> pydict \<Rightarrow> interceptor" where
  "open_form_redirect ai_schema ctx spec args =
     (if ts_name spec \<noteq> ''crm_action_tool'' then Inr None
      else (let d0 = dict_or_empty (pget args ''data_json'');
                data = (if truthy (pget args ''record_id'') \<and> \<not> truthy (pget d0 ''id'')
                        then dput ''id'' (pget args ''record_id'') d0 else d0);
                md = str_or (pget args ''module'');
                action = str_or (pget args ''action'')
            in if \<not> targets_open_form ctx md action data then Inr None
               else (let rid = first_text [pget ctx ''record_id'', pget ctx ''record'']
                     in res_bind (action_as_form_patch ai_schema md (if rid = [] then None else Some rid) data)
                          (\<lambda>o1. Inr (Some o1)))))"

text \<open>
  \<open>ToolSet.build\<close>, given the manifest the provider returned. \<open>capabilities\<close> is \<open>None\<close> for
  a chat turn; \<open>native_tools\<close> are the gateway's tools for the enabled capabilities.
\<close>

definition native_dict :: "(string \<times> native_tool) list \<Rightarrow> (string \<times> native_tool) list" where
  "native_dict ts = fold (\<lambda>(n, f) d. dput n f d) (filter (\<lambda>(n, _). n \<noteq> []) ts) []"

definition build_toolset ::
  "string \<Rightarrow> pydict \<Rightarrow> (string \<Rightarrow> string option \<Rightarrow> py result) \<Rightarrow> (string set \<Rightarrow> (string \<times> native_tool) list)
     \<Rightarrow> string set option \<Rightarrow> manifest option \<Rightarrow> toolset" where
  "build_toolset tenant ctx ai_schema native_tools capabilities m =
     (let extra = manifest_extra m;
          (enabled, unknown) = (case capabilities of
             None \<Rightarrow> resolve_capabilities (PDict ctx) extra
           | Some cs \<Rightarrow> (insert ''crm'' cs, []));
          natives = native_dict (native_tools enabled);
          (specs, dropped) = collect_specs (map fst natives) enabled
             (case m of None \<Rightarrow> [] | Some mf \<Rightarrow> mf_tools mf) ([], [])
      in \<lparr>st_tenant = tenant, st_enabled = enabled, st_unknown = unknown, st_crm = specs,
          st_native = natives, st_manifest = m, st_extra = extra,
          st_interceptors = (if ''form'' \<in> enabled then [open_form_redirect ai_schema ctx] else []),
          st_dropped = dropped\<rparr>)"

section \<open>What the agent sees\<close>

definition prompt_rank :: "string \<Rightarrow> nat" where
  "prompt_rank n = length (takeWhile (\<lambda>m. m \<noteq> n) tool_prompt_order)"

definition tool_names :: "toolset \<Rightarrow> string list" where
  "tool_names ts = sort_key (\<lambda>n. (prompt_rank n, n)) (map fst (st_crm ts) @ map fst (st_native ts))"

definition is_read_only :: "toolset \<Rightarrow> string \<Rightarrow> bool" where
  "is_read_only ts n = (case map_of (st_crm ts) n of
     Some s \<Rightarrow> read_only (ts_annotations s)
   | None \<Rightarrow> n \<in> set (map fst (st_native ts)))"

definition prompt_block :: "toolset \<Rightarrow> string \<Rightarrow> string option result" where
  "prompt_block ts n = (case map_of (st_crm ts) n of
     Some s \<Rightarrow> res_bind (render_block s) (\<lambda>b. Inr (Some b))
   | None \<Rightarrow> Inr (map_of tool_prompt_blocks n))"

definition prompt_blocks :: "toolset \<Rightarrow> string list result" where
  "prompt_blocks ts = res_bind (res_map (prompt_block ts) (tool_names ts))
     (\<lambda>bs. Inr (map the (filter (\<lambda>b. b \<noteq> None) bs)))"

definition capability_prompt :: "toolset \<Rightarrow> string" where
  "capability_prompt ts = prompt_blocks_for (st_enabled ts) (st_extra ts)"

section \<open>Calling the CRM\<close>

definition run_call ::
  "call_env \<Rightarrow> toolset \<Rightarrow> tool_spec \<Rightarrow> pydict \<Rightarrow> call_mode \<Rightarrow> string option \<Rightarrow> provider_state
     \<Rightarrow> invoke_end \<times> call_request list \<times> provider_state" where
  "run_call env ts spec args mode token p =
     (let rq = \<lparr>rq_tool = ts_name spec, rq_mode = mode, rq_args = args, rq_token = token\<rparr> in
      case provider_call spec (st_tenant ts) (en_request_id env) (en_transport env rq) (en_clock env) (en_now env) p of
        (e, n, p') \<Rightarrow>
          ((case e of
              CancelledCall \<Rightarrow> CallCancelled
            | Returned r _ \<Rightarrow> (case to_observation spec args r of
                Inr obs \<Rightarrow> Observed (PDict obs) | Inl x \<Rightarrow> Raised x)), replicate n rq, p'))"

fun first_redirect :: "interceptor list \<Rightarrow> tool_spec \<Rightarrow> pydict \<Rightarrow> py option result" where
  "first_redirect [] spec args = Inr None"
| "first_redirect (i # is) spec args = (case i spec args of
     Inl e \<Rightarrow> Inl e
   | Inr (Some o1) \<Rightarrow> Inr (Some o1)
   | Inr None \<Rightarrow> first_redirect is spec args)"

definition describe_error :: "py \<Rightarrow> string" where
  "describe_error e = (let d = dict_or_empty e in str_or (pget d ''path'') @ '': '' @ str_or (pget d ''problem''))"

definition invalid_arguments :: "tool_spec \<Rightarrow> py list \<Rightarrow> pydict" where
  "invalid_arguments spec errors = error_observation (result_error ''invalid_arguments''
     (''Neplatne argumenty pro '' @ ts_name spec @ '': '' @ py_join ''; '' (map describe_error (take 5 errors)))
     (PList errors))"

definition invoke_crm ::
  "call_env \<Rightarrow> toolset \<Rightarrow> tool_spec \<Rightarrow> py \<Rightarrow> provider_state
     \<Rightarrow> invoke_end \<times> call_request list \<times> provider_state" where
  "invoke_crm env ts spec args0 p = (case validate_arguments (en_libs env) args0 (ts_schema spec) of
     Inl e \<Rightarrow> (Raised e, [], p)
   | Inr (args, errors) \<Rightarrow>
       if errors \<noteq> [] then (Observed (PDict (invalid_arguments spec errors)), [], p)
       else (case first_redirect (st_interceptors ts) spec args of
         Inl e \<Rightarrow> (Raised e, [], p)
       | Inr (Some o1) \<Rightarrow> (Observed o1, [], p)
       | Inr None \<Rightarrow> run_call env ts spec args
           (if needs_confirmation (ts_annotations spec) then Preview else Execute) None p))"

definition unknown_tool :: "toolset \<Rightarrow> string \<Rightarrow> py" where
  "unknown_tool ts n = PDict [(''status'', PStr ''error''),
     (''message'', PStr (''Nastroj '' @ [char_of (39 :: nat)] @ n @ [char_of (39 :: nat)] @ '' neexistuje. Dostupne: ''
        @ py_repr (PList (map PStr (tool_names ts)))))]"

definition invoke ::
  "call_env \<Rightarrow> toolset \<Rightarrow> string \<Rightarrow> pydict \<Rightarrow> provider_state
     \<Rightarrow> invoke_end \<times> call_request list \<times> provider_state" where
  "invoke env ts n args p = (case map_of (st_crm ts) n of
     Some spec \<Rightarrow> invoke_crm env ts spec (PDict args) p
   | None \<Rightarrow> (case map_of (st_native ts) n of
       None \<Rightarrow> (Observed (unknown_tool ts n), [], p)
     | Some f \<Rightarrow> (case f args of Inr v \<Rightarrow> (Observed v, [], p) | Inl e \<Rightarrow> (Raised e, [], p))))"

section \<open>Pending calls\<close>

definition pending_spec :: "toolset \<Rightarrow> pydict \<Rightarrow> tool_spec option" where
  "pending_spec ts pending = (let n = str_or (pget pending ''tool'') in
     case map_of (st_crm ts) n of
       Some s \<Rightarrow> Some s
     | None \<Rightarrow> (case st_manifest ts of
         None \<Rightarrow> None | Some m \<Rightarrow> find (\<lambda>s. ts_name s = n) (mf_tools m)))"

definition cannot_run :: "string \<Rightarrow> py" where
  "cannot_run verb = PDict [(''status'', PStr ''error''), (''message'',
     PStr (''Navrhovanou akci uz nelze '' @ verb @ '' (nastroj neni k dispozici).''))]"

definition execute_pending ::
  "call_env \<Rightarrow> toolset \<Rightarrow> pydict \<Rightarrow> provider_state \<Rightarrow> invoke_end \<times> call_request list \<times> provider_state" where
  "execute_pending env ts pending p = (case pending_spec ts pending of
     None \<Rightarrow> (Observed (cannot_run ''provest''), [], p)
   | Some spec \<Rightarrow> run_call env ts spec (dict_or_empty (pget pending ''arguments'')) Execute
       (Some (str_or (pget pending ''confirmation_token''))) p)"

definition repreview_pending ::
  "call_env \<Rightarrow> toolset \<Rightarrow> pydict \<Rightarrow> pydict \<Rightarrow> provider_state \<Rightarrow> invoke_end \<times> call_request list \<times> provider_state" where
  "repreview_pending env ts pending data p = (case pending_spec ts pending of
     None \<Rightarrow> (Observed (cannot_run ''upravit''), [], p)
   | Some spec \<Rightarrow> run_call env ts spec
       (dput ''data_json'' (PDict data) (dict_or_empty (pget pending ''arguments''))) Preview None p)"

section \<open>Diagnostics\<close>

fun before_blank_line :: "string \<Rightarrow> string" where
  "before_blank_line [] = []"
| "before_blank_line (c # s) = (if py_startswith (c # s) (nl @ nl) then [] else c # before_blank_line s)"

definition short_description :: "string \<Rightarrow> nat \<Rightarrow> string" where
  "short_description raw limit =
     (let first = py_join '' '' (py_split_ws (before_blank_line (py_strip raw)))
      in if length first \<le> limit then first else py_rstrip (take (limit - 1) first) @ ''...'')"

section \<open>Lemmas\<close>

lemma collect_specs_sound:
  "collect_specs natives enabled ss (specs0, d0) = (specs, d) \<Longrightarrow> map_of specs n = Some s \<Longrightarrow>
   map_of specs0 n = Some s \<or>
   (s \<in> set ss \<and> n = ts_name s \<and> n \<notin> set natives \<and> n \<notin> set reserved_native_names
    \<and> capability (ts_annotations s) \<in> enabled)"
proof (induction ss arbitrary: specs0 d0)
  case Nil
  then show ?case by simp
next
  case (Cons x ss)
  let ?res = "ts_name x \<in> set natives \<or> ts_name x \<in> set reserved_native_names"
  show ?case
  proof (cases "\<not> ?res \<and> capability (ts_annotations x) \<in> enabled")
    case True
    with Cons.prems(1) have "collect_specs natives enabled ss (dput (ts_name x) x specs0, d0) = (specs, d)"
      by simp
    from Cons.IH [OF this Cons.prems(2)] True show ?thesis by (auto split: if_splits)
  next
    case False
    with Cons.prems(1) obtain d1 where "collect_specs natives enabled ss (specs0, d1) = (specs, d)"
      by (auto split: if_splits)
    from Cons.IH [OF this Cons.prems(2)] show ?thesis by auto
  qed
qed

lemma run_call_requests:
  "run_call env ts spec args mode token p = (e, rqs, p') \<Longrightarrow> rq \<in> set rqs \<Longrightarrow>
   rq_tool rq = ts_name spec \<and> rq_mode rq = mode \<and> rq_args rq = args \<and> rq_token rq = token"
  by (auto simp: run_call_def Let_def split: prod.splits)

lemma run_call_bounded:
  assumes "run_call env ts spec args mode token p = (e, rqs, p')"
  shows "length rqs \<le> max_attempts spec"
  using assms by (auto simp: run_call_def Let_def dest: provider_call_sent split: prod.splits)

lemma first_redirect_None:
  "first_redirect is spec args = Inr None \<longleftrightarrow> (\<forall>i \<in> set is. i spec args = Inr None)"
  by (induction "is") (auto split: sum.splits option.splits)


lemma collect_specs_distinct:
  "collect_specs natives enabled ss (specs0, d0) = (specs, d) \<Longrightarrow> distinct (map fst specs0) \<Longrightarrow>
   distinct (map fst specs)"
proof (induction ss arbitrary: specs0 d0)
  case Nil
  then show ?case by simp
next
  case (Cons x ss)
  from Cons.prems(1) obtain specs1 d1
    where n: "collect_specs natives enabled ss (specs1, d1) = (specs, d)"
      and u: "specs1 = specs0 \<or> specs1 = dput (ts_name x) x specs0"
    by (auto split: if_splits)
  from u Cons.prems(2) have "distinct (map fst specs1)" by auto
  from Cons.IH [OF n this] show ?case .
qed

lemma fold_dput_distinct:
  "distinct (map fst d) \<Longrightarrow> distinct (map fst (fold (\<lambda>(n, f) d. dput n f d) ts d))"
  by (induction ts arbitrary: d) (auto simp: case_prod_unfold)

lemma native_dict_distinct: "distinct (map fst (native_dict ts))"
  by (simp add: native_dict_def fold_dput_distinct)

text \<open>The toolset a turn gets, from the answer of \<open>collect_specs\<close>.\<close>

lemma build_toolset_specs:
  assumes "ts = build_toolset tenant ctx sch nat_tools caps m"
  shows "\<exists>d0. collect_specs (map fst (st_native ts)) (st_enabled ts)
           (case m of None \<Rightarrow> [] | Some mf \<Rightarrow> mf_tools mf) ([], []) = (st_crm ts, d0)"
    and "distinct (map fst (st_native ts))" and "st_manifest ts = m"
    and "st_interceptors ts = (if ''form'' \<in> st_enabled ts then [open_form_redirect sch ctx] else [])"
  using assms
  by (auto simp: build_toolset_def Let_def native_dict_distinct split: prod.splits)

lemma invoke_crm_requests:
  assumes "invoke_crm env ts spec args p = (e, rqs, p')" and "rq \<in> set rqs"
  shows "rq_tool rq = ts_name spec \<and> rq_token rq = None \<and>
    rq_mode rq = (if needs_confirmation (ts_annotations spec) then Preview else Execute)"
  using assms
  by (auto simp: invoke_crm_def dest!: run_call_requests split: sum.splits option.splits if_splits prod.splits)

lemma invoke_crm_bounded:
  "invoke_crm env ts spec args p = (e, rqs, p') \<Longrightarrow> length rqs \<le> max_attempts spec"
  by (auto simp: invoke_crm_def dest!: run_call_bounded split: sum.splits option.splits if_splits prod.splits)

lemma invoke_requests:
  assumes "invoke env ts n args p = (e, rqs, p')" and "rq \<in> set rqs"
  shows "\<exists>spec. map_of (st_crm ts) n = Some spec \<and> rq_tool rq = ts_name spec \<and> rq_token rq = None
    \<and> (rq_mode rq = Execute \<longrightarrow> read_only (ts_annotations spec))
    \<and> length rqs \<le> (if read_only (ts_annotations spec) then 2 else 1)"
proof -
  from assms obtain spec where s: "map_of (st_crm ts) n = Some spec"
    and i: "invoke_crm env ts spec (PDict args) p = (e, rqs, p')"
    by (auto simp: invoke_def split: option.splits sum.splits)
  from invoke_crm_requests [OF i assms(2)] invoke_crm_bounded [OF i] s show ?thesis
    by (auto simp: needs_confirmation_def max_attempts_def split: if_splits)
qed

section \<open>Properties\<close>

text \<open>
  C33: the namespace of a turn. A CRM tool is offered only under its own name, with its
  capability enabled, and never under a name the gateway implements or reserves; the names
  the agent sees are the CRM and the native ones, each once.
\<close>

theorem namespace_never_shadowed:
  assumes "ts = build_toolset tenant ctx sch nat_tools caps m"
  shows "(\<forall>n s. map_of (st_crm ts) n = Some s \<longrightarrow>
       (\<exists>mf. m = Some mf \<and> s \<in> set (mf_tools mf)) \<and> n = ts_name s
       \<and> capability (ts_annotations s) \<in> st_enabled ts
       \<and> n \<notin> set (map fst (st_native ts)) \<and> n \<notin> set reserved_native_names)
    \<and> set (tool_names ts) = set (map fst (st_crm ts)) \<union> set (map fst (st_native ts))
    \<and> distinct (tool_names ts)"
proof -
  from build_toolset_specs(1) [OF assms] obtain d0
    where c: "collect_specs (map fst (st_native ts)) (st_enabled ts)
           (case m of None \<Rightarrow> [] | Some mf \<Rightarrow> mf_tools mf) ([], []) = (st_crm ts, d0)" by blast
  have s: "(\<exists>mf. m = Some mf \<and> s \<in> set (mf_tools mf)) \<and> n = ts_name s
       \<and> capability (ts_annotations s) \<in> st_enabled ts
       \<and> n \<notin> set (map fst (st_native ts)) \<and> n \<notin> set reserved_native_names"
    if "map_of (st_crm ts) n = Some s" for n s
    using collect_specs_sound [OF c that] by (auto split: option.splits)
  have dc: "distinct (map fst (st_crm ts))" using collect_specs_distinct [OF c] by simp
  have "set (map fst (st_crm ts)) \<inter> set (map fst (st_native ts)) = {}"
  proof -
    have "n \<notin> set (map fst (st_native ts))" if "n \<in> set (map fst (st_crm ts))" for n
    proof -
      from that have "map_of (st_crm ts) n \<noteq> None" by (simp add: map_of_eq_None_iff)
      then obtain s0 where "map_of (st_crm ts) n = Some s0" by blast
      from s [OF this] show ?thesis by blast
    qed
    then show ?thesis by blast
  qed
  with dc build_toolset_specs(2) [OF assms] have "distinct (map fst (st_crm ts) @ map fst (st_native ts))"
    by simp
  then have "distinct (tool_names ts)" by (simp add: tool_names_def)
  with s show ?thesis by (simp add: tool_names_def)
qed

definition demo_natives :: "string set \<Rightarrow> (string \<times> native_tool) list" where
  "demo_natives enabled = [(''rag_search_tool'', \<lambda>args. Inr (PDict []))]"

definition demo_toolset :: toolset where
  "demo_toolset = build_toolset ''acme'' [] (\<lambda>m r. Inl (OtherError ''x'')) demo_natives None (Some demo_parsed)"

theorem namespace_never_shadowed_witness:
  "\<exists>s. map_of (st_crm demo_toolset) ''crm_query_tool'' = Some s \<and> ''crm_query_tool'' = ts_name s
     \<and> distinct (tool_names demo_toolset)"
proof -
  have "map_of (st_crm demo_toolset) ''crm_query_tool'' = Some (demo_tool ''crm_query_tool'' True)"
    by code_simp
  with namespace_never_shadowed [OF demo_toolset_def] show ?thesis by blast
qed

text \<open>
  the agent never writes. Whatever tool and arguments the model chooses, every request
  that leaves the gateway carries no token and runs in preview mode unless the manifest
  declares the tool read-only; a tool that writes is sent at most once.
\<close>

theorem agent_call_never_writes:
  assumes "invoke env ts n args p = (e, rqs, p')" and "rq \<in> set rqs"
  shows "\<exists>spec. map_of (st_crm ts) n = Some spec \<and> rq_tool rq = ts_name spec \<and> rq_token rq = None
    \<and> (rq_mode rq = Execute \<longrightarrow> read_only (ts_annotations spec))
    \<and> length rqs \<le> (if read_only (ts_annotations spec) then 2 else 1)"
  using assms by (rule invoke_requests)

definition demo_reply :: py where
  "demo_reply = PDict [(''content'', PList [PDict [(''type'', PStr ''text''), (''text'', PStr ''Nahled'')]]),
     (''structuredContent'', PDict [(''module'', PStr ''Accounts'')]),
     (''meta'', PDict [(''confirmation'', PDict [(''required'', PBool True), (''token'', PStr ''t1'')])])]"

definition demo_env :: call_env where
  "demo_env = \<lparr>en_libs = demo_libs, en_request_id = ''r1'', en_transport = (\<lambda>rq i. Reply demo_reply),
     en_clock = (\<lambda>i. 1), en_now = 0\<rparr>"

theorem agent_call_never_writes_witness:
  "\<exists>e p'. invoke demo_env demo_toolset ''crm_action_tool'' [(''action'', PStr ''update'')] demo_state
     = (e, [\<lparr>rq_tool = ''crm_action_tool'', rq_mode = Preview, rq_args = [(''action'', PStr ''update'')],
             rq_token = None\<rparr>], p')"
proof -
  obtain e rqs p' where i: "invoke demo_env demo_toolset ''crm_action_tool'' [(''action'', PStr ''update'')] demo_state
      = (e, rqs, p')" by (rule prod_cases3)
  have r: "fst (snd (invoke demo_env demo_toolset ''crm_action_tool'' [(''action'', PStr ''update'')] demo_state))
     = [\<lparr>rq_tool = ''crm_action_tool'', rq_mode = Preview, rq_args = [(''action'', PStr ''update'')],
             rq_token = None\<rparr>]"
    by code_simp
  with i have rq: "rqs = [\<lparr>rq_tool = ''crm_action_tool'', rq_mode = Preview, rq_args = [(''action'', PStr ''update'')],
             rq_token = None\<rparr>]" by simp
  from agent_call_never_writes [OF i, of "hd rqs"] rq i show ?thesis by auto
qed

text \<open>
  C4: what the user confirms is what runs. When a previewed call answered with a
  confirmation, executing the pending action it produced sends only that tool, in execute
  mode, with the arguments the CRM bound to the token and with that token, and a writing
  tool at most once.
\<close>

theorem confirmed_call_is_bound:
  assumes "to_observation spec args r = Inr obs" and "\<not> tr_is_error r" and "confirmation r = Some conf"
    and "ts_name spec \<noteq> []" and "confirm_target (tr_structured r) (confirm_args conf args)"
    and "map_of (st_crm ts) (ts_name spec) = Some spec"
    and "normalize_pending_action_envelope (pget obs ''pending_action'') = Some pending"
    and "execute_pending env ts pending p = (e, rqs, p')" and "rq \<in> set rqs"
  shows "rq = \<lparr>rq_tool = ts_name spec, rq_mode = Execute, rq_args = confirm_args conf args,
               rq_token = Some (str_or (pget conf ''token''))\<rparr>
    \<and> length rqs \<le> max_attempts spec"
proof -
  from confirmation_pending [OF assms(1-5)] assms(7)
  have pd: "pget pending ''tool'' = PStr (ts_name spec)" "pget pending ''arguments'' = PDict (confirm_args conf args)"
    "pget pending ''confirmation_token'' = pget conf ''token''"
    by auto
  then have "pending_spec ts pending = Some spec"
    using assms(4,6) by (simp add: pending_spec_def str_or_def)
  with assms(8) pd have c: "run_call env ts spec (confirm_args conf args) Execute
      (Some (str_or (pget conf ''token''))) p = (e, rqs, p')"
    by (simp add: execute_pending_def)
  from run_call_requests [OF c assms(9)] run_call_bounded [OF c] show ?thesis by simp
qed

theorem confirmed_call_is_bound_witness:
  "\<exists>pending e p'. execute_pending demo_env demo_toolset pending demo_state =
     (e, [\<lparr>rq_tool = ''crm_action_tool'', rq_mode = Execute, rq_args = [(''action'', PStr ''update'')],
           rq_token = Some ''t1''\<rparr>], p')"
proof -
  let ?s = "demo_tool ''crm_action_tool'' False" and ?a = "[(''action'', PStr ''update'')]"
  let ?c = "[(''required'', PBool True), (''token'', PStr ''t1'')]"
  obtain obs where o: "to_observation ?s ?a demo_preview = Inr obs"
    by (cases "to_observation ?s ?a demo_preview")
      (simp add: to_observation_def confirmation_observation_def demo_preview_def confirmation_def
        iter_or_empty_def pget_Cons Let_def, blast)
  have h: "\<not> tr_is_error demo_preview" "confirmation demo_preview = Some ?c" "ts_name ?s \<noteq> []"
    "confirm_target (tr_structured demo_preview) (confirm_args ?c ?a)"
    by code_simp+
  have m: "map_of (st_crm demo_toolset) (ts_name ?s) = Some ?s" by code_simp
  from confirmation_pending [OF o h] obtain pending
    where n: "normalize_pending_action_envelope (pget obs ''pending_action'') = Some pending"
      and pd: "pget pending ''tool'' = PStr ''crm_action_tool''" "pget pending ''arguments'' = PDict ?a"
        "pget pending ''confirmation_token'' = PStr ''t1''"
    by (auto simp: confirm_args_def pget_Cons demo_tool_def)
  obtain e rqs p' where x: "execute_pending demo_env demo_toolset pending demo_state = (e, rqs, p')"
    by (rule prod_cases3)
  have "execute_pending demo_env demo_toolset pending demo_state =
      run_call demo_env demo_toolset ?s ?a Execute (Some ''t1'') demo_state"
    using pd m by (simp add: execute_pending_def pending_spec_def str_or_def demo_tool_def)
  moreover have "length (fst (snd (run_call demo_env demo_toolset ?s ?a Execute (Some ''t1'') demo_state))) = 1"
    by code_simp
  ultimately have "length rqs = 1" using x by (metis fst_conv snd_conv)
  then obtain rq where rq: "rqs = [rq]" by (cases rqs) auto
  from confirmed_call_is_bound [OF o h m n x, of rq] rq x show ?thesis
    by (auto simp: confirm_args_def pget_Cons demo_tool_def str_or_def)
qed


definition demo_form_ctx :: pydict where
  "demo_form_ctx = [(''form'', PDict [(''editable'', PBool True)]), (''record_module'', PStr ''Accounts''),
     (''record_id'', PStr ''a1'')]"


end
