(* ===== verification/Answer_Stream.thy ===== *)
theory Answer_Stream
  imports Py_Text
begin

text \<open>
  The classifier of streamed model output (\<open>app/engine/answer_stream.py\<close>): chunks are held
  until the kind of output is known, a tool call is suppressed, an answer is streamed with a
  guard of twelve characters held back for the closing tag.
\<close>

section \<open>The state machine\<close>

datatype stream_phase = Hold | Suppressed | Streaming

record stream_state =
  sm_phase :: stream_phase
  sm_hold :: string
  sm_tail :: string

definition stream_init :: stream_state where
  "stream_init = \<lparr>sm_phase = Hold, sm_hold = [], sm_tail = []\<rparr>"

definition tail_guard :: nat where "tail_guard = 12"

definition tag_tool :: string where "tag_tool = ''<tool_call>''"
definition tag_think :: string where "tag_think = ''<think>''"
definition tag_think_end :: string where "tag_think_end = ''</think>''"
definition tag_answer :: string where "tag_answer = ''<answer>''"
definition tag_answer_end :: string where "tag_answer_end = ''</answer>''"

definition wait_prefixes :: "string list" where
  "wait_prefixes = [tag_tool, tag_think, tag_answer]"

definition emit_chunk :: "string \<Rightarrow> stream_state \<Rightarrow> string \<times> stream_state" where
  "emit_chunk chunk st = (let combined = sm_tail st @ chunk in
     if length combined \<le> tail_guard then ([], st\<lparr>sm_tail := combined\<rparr>)
     else (take (length combined - tail_guard) combined,
           st\<lparr>sm_tail := drop (length combined - tail_guard) combined\<rparr>))"

text \<open>The loop that removes completed think blocks; \<open>None\<close> when one is still open.\<close>

lemma py_find_length: "py_find s sub = Some i \<Longrightarrow> i + length sub \<le> length s"
proof (induction s sub arbitrary: i rule: py_find.induct)
  case (1 sub)
  then show ?case by (auto split: if_splits)
next
  case (2 c s sub)
  show ?case
  proof (cases "py_startswith (c # s) sub")
    case True
    with 2 have "i = 0" by simp
    from True have "length (take (length sub) (c # s)) = length sub" by (simp only: py_startswith_def)
    with \<open>i = 0\<close> show ?thesis by (simp split: if_splits)
  next
    case False
    with 2 obtain j where "py_find s sub = Some j" "i = Suc j" by auto
    with 2(1) [OF False] show ?thesis by simp
  qed
qed

function strip_think :: "string \<Rightarrow> string option" where
  "strip_think buf = (case py_find buf tag_think of
     None \<Rightarrow> Some buf
   | Some i \<Rightarrow> (case py_find (drop i buf) tag_think_end of
       None \<Rightarrow> None
     | Some j \<Rightarrow> strip_think (take i buf @ drop (i + j + 8) buf)))"
  by pat_completeness auto
termination
  by (relation "measure length") (auto simp: tag_think_def tag_think_end_def dest!: py_find_length)

declare strip_think.simps [simp del]

definition could_be_tag :: "string \<Rightarrow> bool" where
  "could_be_tag s = list_ex (\<lambda>tag. py_startswith tag s \<and> s \<noteq> tag) wait_prefixes"

definition classify :: "stream_state \<Rightarrow> string \<times> stream_state" where
  "classify st = (case strip_think (sm_hold st) of
     None \<Rightarrow> ([], st)
   | Some buf \<Rightarrow>
       (let s = py_lstrip buf in
        if s = [] \<or> could_be_tag s then ([], st)
        else if py_startswith s tag_tool then ([], st\<lparr>sm_phase := Suppressed\<rparr>)
        else emit_chunk (if py_startswith s tag_answer then drop (length tag_answer) s else s)
               (st\<lparr>sm_phase := Streaming, sm_hold := []\<rparr>)))"

definition feed :: "string \<Rightarrow> stream_state \<Rightarrow> string \<times> stream_state" where
  "feed chunk st = (case sm_phase st of
     Suppressed \<Rightarrow> ([], st)
   | Streaming \<Rightarrow> emit_chunk chunk st
   | Hold \<Rightarrow> classify (st\<lparr>sm_hold := sm_hold st @ chunk\<rparr>))"

definition strip_closing :: "string \<Rightarrow> string" where
  "strip_closing r = (let s = py_rstrip r in
     if py_endswith s tag_answer_end then py_rstrip (take (length s - length tag_answer_end) s) else s)"

definition flush :: "stream_state \<Rightarrow> string \<times> stream_state" where
  "flush st = (case sm_phase st of
     Suppressed \<Rightarrow> ([], st)
   | Hold \<Rightarrow> (case classify st of (leftover, st') \<Rightarrow> (strip_closing (leftover @ sm_tail st'), st'\<lparr>sm_tail := []\<rparr>))
   | Streaming \<Rightarrow> (strip_closing (sm_tail st), st\<lparr>sm_tail := []\<rparr>))"

definition is_suppressed :: "stream_state \<Rightarrow> bool" where
  "is_suppressed st = (sm_phase st = Suppressed)"

text \<open>A whole response: the outputs of the chunks, and the state before the flush.\<close>

fun feed_all :: "string list \<Rightarrow> stream_state \<Rightarrow> string list \<times> stream_state" where
  "feed_all [] st = ([], st)"
| "feed_all (c # cs) st = (case feed c st of (out, st1) \<Rightarrow>
     (case feed_all cs st1 of (outs, st2) \<Rightarrow> (out # outs, st2)))"

section \<open>Lemmas\<close>

lemma emit_chunk_text:
  "emit_chunk chunk st = (out, st') \<Longrightarrow>
   out @ sm_tail st' = sm_tail st @ chunk \<and> length (sm_tail st') \<le> tail_guard
   \<and> sm_phase st' = sm_phase st \<and> sm_hold st' = sm_hold st"
proof -
  assume e: "emit_chunk chunk st = (out, st')"
  define w where "w = sm_tail st @ chunk"
  have "out @ sm_tail st' = w \<and> length (sm_tail st') \<le> tail_guard \<and> sm_phase st' = sm_phase st \<and> sm_hold st' = sm_hold st"
    using e unfolding emit_chunk_def Let_def w_def [symmetric] by (auto split: if_splits)
  then show ?thesis by (simp add: w_def)
qed

text \<open>What a classified buffer streams: its text without think blocks and the opening tag.\<close>

definition visible_start :: "string \<Rightarrow> string" where
  "visible_start buf = (case strip_think buf of
     None \<Rightarrow> []
   | Some b \<Rightarrow> let s = py_lstrip b in if py_startswith s tag_answer then drop (length tag_answer) s else s)"

lemma classify_cases:
  assumes "classify st = (out, st')" and "sm_phase st = Hold" and "sm_tail st = []"
  shows "(sm_phase st' = Hold \<and> out = [] \<and> st' = st) \<or> (sm_phase st' = Suppressed \<and> out = [] \<and> sm_tail st' = [])
    \<or> (sm_phase st' = Streaming \<and> out @ sm_tail st' = visible_start (sm_hold st) \<and> length (sm_tail st') \<le> tail_guard)"
  using assms
  by (auto simp: classify_def visible_start_def Let_def split: option.splits if_splits dest!: emit_chunk_text)

text \<open>Streaming never loses, repeats or reorders a character.\<close>

lemma feed_all_streaming:
  "feed_all cs st = (outs, st') \<Longrightarrow> sm_phase st = Streaming \<Longrightarrow> length (sm_tail st) \<le> tail_guard \<Longrightarrow>
   sm_phase st' = Streaming \<and> concat outs @ sm_tail st' = sm_tail st @ concat cs \<and> length (sm_tail st') \<le> tail_guard"
proof (induction cs arbitrary: st outs)
  case Nil
  then show ?case by simp
next
  case (Cons c cs)
  obtain out st1 where f: "feed c st = (out, st1)" by fastforce
  with Cons.prems obtain outs1 where r: "feed_all cs st1 = (outs1, st')" "outs = out # outs1"
    by (auto split: prod.splits)
  from f Cons.prems(2) have "emit_chunk c st = (out, st1)" by (simp add: feed_def)
  from emit_chunk_text [OF this] Cons.prems
  have e: "out @ sm_tail st1 = sm_tail st @ c" "sm_phase st1 = Streaming" "length (sm_tail st1) \<le> tail_guard" by auto
  from Cons.IH [OF r(1) e(2,3)] have ih: "sm_phase st' = Streaming" "concat outs1 @ sm_tail st' = sm_tail st1 @ concat cs"
    "length (sm_tail st') \<le> tail_guard" by auto
  have "concat outs @ sm_tail st' = out @ sm_tail st1 @ concat cs" using r(2) ih(2) by simp
  also have "\<dots> = sm_tail st @ concat (c # cs)" using e(1) by (metis append_assoc concat.simps(2))
  finally show ?case using ih by simp
qed

lemma feed_all_suppressed:
  "feed_all cs st = (outs, st') \<Longrightarrow> sm_phase st = Suppressed \<Longrightarrow> st' = st \<and> concat outs = []"
  by (induction cs arbitrary: outs) (auto simp: feed_def split: prod.splits)

lemma feed_all_hold:
  assumes "feed_all cs st = (outs, st')" and "sm_phase st = Hold" and "sm_tail st = []"
  shows "(sm_phase st' \<noteq> Streaming \<and> concat outs = [] \<and> sm_tail st' = []
        \<and> (sm_phase st' = Hold \<longrightarrow> sm_hold st' = sm_hold st @ concat cs)) \<or>
    (sm_phase st' = Streaming \<and> length (sm_tail st') \<le> tail_guard \<and>
      (\<exists>us vs. cs = us @ vs \<and> concat outs @ sm_tail st' = visible_start (sm_hold st @ concat us) @ concat vs))"
  using assms
proof (induction cs arbitrary: st outs)
  case Nil
  then show ?case by auto
next
  case (Cons c cs)
  let ?st0 = "st\<lparr>sm_hold := sm_hold st @ c\<rparr>"
  obtain out st1 where f: "feed c st = (out, st1)" by fastforce
  with Cons.prems obtain outs1 where r: "feed_all cs st1 = (outs1, st')" "outs = out # outs1"
    by (auto split: prod.splits)
  from f Cons.prems(2) have cl: "classify ?st0 = (out, st1)" by (simp add: feed_def)
  have p0: "sm_phase ?st0 = Hold" "sm_tail ?st0 = []" using Cons.prems by simp_all
  from classify_cases [OF cl p0] consider
    (hold) "sm_phase st1 = Hold" "out = []" "st1 = ?st0"
    | (supp) "sm_phase st1 = Suppressed" "out = []" "sm_tail st1 = []"
    | (stream) "sm_phase st1 = Streaming" "out @ sm_tail st1 = visible_start (sm_hold st @ c)" "length (sm_tail st1) \<le> tail_guard"
    by auto
  then show ?case
  proof cases
    case hold
    then have "sm_tail st1 = []" using p0 by simp
    from Cons.IH [OF r(1) hold(1) this] show ?thesis
    proof (elim disjE conjE exE)
      fix us vs
      assume "cs = us @ vs" "concat outs1 @ sm_tail st' = visible_start (sm_hold st1 @ concat us) @ concat vs"
        "sm_phase st' = Streaming" "length (sm_tail st') \<le> tail_guard"
      then show ?thesis using hold r(2)
        by (intro disjI2 conjI exI [of _ "c # us"] exI [of _ vs]) simp_all
    qed (use hold r(2) in auto)
  next
    case supp
    from feed_all_suppressed [OF r(1) supp(1)] supp r(2) show ?thesis by simp
  next
    case stream
    from feed_all_streaming [OF r(1) stream(1,3)] have s: "sm_phase st' = Streaming" "length (sm_tail st') \<le> tail_guard"
      "concat outs1 @ sm_tail st' = sm_tail st1 @ concat cs" by auto
    have "concat outs @ sm_tail st' = visible_start (sm_hold st @ concat [c]) @ concat cs"
      using s(3) stream(2) r(2) by (metis append_assoc concat.simps append_Nil2)
    with s show ?thesis by (intro disjI2 conjI exI [of _ "[c]"] exI [of _ cs]) simp_all
  qed
qed


text \<open>The response up to and including the flush.\<close>

definition respond :: "string list \<Rightarrow> string list \<times> stream_state" where
  "respond cs = (case feed_all cs stream_init of (outs, st) \<Rightarrow>
     (case flush st of (last_out, st') \<Rightarrow> (outs @ [last_out], st')))"

subsection \<open>A response that is a tool call\<close>

lemma lstrip_append_space: "list_all py_isspace w \<Longrightarrow> py_lstrip (w @ s) = py_lstrip s"
  by (induction w) (simp_all add: py_lstrip_def)

lemma find_think_space: "list_all py_isspace w \<Longrightarrow> py_find (w @ s) tag_think = map_option ((+) (length w)) (py_find s tag_think)"
proof (induction w)
  case Nil
  then show ?case by (simp add: option.map_ident)
next
  case (Cons c w)
  then have "c \<noteq> CHR ''<''" by (auto simp: py_isspace_def)
  then have "\<not> py_startswith (c # (w @ s)) tag_think"
    by (simp add: py_startswith_def tag_think_def)
  with Cons show ?case by (simp add: option.map_comp comp_def)
qed

lemma find_think_tool: "py_find (tag_tool @ s) tag_think = map_option ((+) 11) (py_find s tag_think)"
  by (cases "py_find s tag_think") (simp_all add: py_startswith_def tag_think_def tag_tool_def)

lemma strip_think_tool:
  assumes "list_all py_isspace w"
  shows "strip_think (w @ tag_tool @ r) = None \<or> (\<exists>r'. strip_think (w @ tag_tool @ r) = Some (w @ tag_tool @ r'))"
proof (induction r rule: measure_induct_rule [of length])
  case (less r)
  let ?b = "w @ tag_tool @ r"
  have f: "py_find ?b tag_think = map_option (\<lambda>i. length w + (11 + i)) (py_find r tag_think)"
    using find_think_space [OF assms] find_think_tool by (simp add: option.map_comp comp_def)
  show ?case
  proof (cases "py_find r tag_think")
    case None
    with f have "strip_think ?b = Some ?b" by (subst strip_think.simps) simp
    then show ?thesis by blast
  next
    case (Some i)
    note i = this
    with f have fi: "py_find ?b tag_think = Some (length w + (11 + i))" by simp
    show ?thesis
    proof (cases "py_find (drop (length w + (11 + i)) ?b) tag_think_end")
      case None
      with fi show ?thesis by (subst (1) strip_think.simps) simp
    next
      case (Some j)
      let ?k = "length w + (11 + i) + j + 8"
      have l: "length tag_tool = 11" by (simp add: tag_tool_def)
      have tk: "take (length w + (11 + i)) ?b = w @ tag_tool @ take i r" by (simp add: l)
      have dr: "drop ?k ?b = drop (i + j + 8) r" by (simp add: l ac_simps)
      have step: "strip_think ?b = strip_think (take (length w + (11 + i)) ?b @ drop ?k ?b)"
        by (subst (1) strip_think.simps) (simp only: fi Some option.case)
      let ?r = "take i r @ drop (i + j + 8) r"
      from step tk dr have s: "strip_think ?b = strip_think (w @ tag_tool @ ?r)" by (simp only: append_assoc)
      have "i + length tag_think \<le> length r" using py_find_length [OF i] .
      then have "length ?r < length r" by (auto simp: tag_think_def)
      from less [OF this] s show ?thesis by (simp only:)
    qed
  qed
qed

lemma take_prefix_cases: "take n (w @ t) = (if n \<le> length w then take n w else w @ take (n - length w) t)"
  by simp

lemma strip_think_short:
  assumes "list_all py_isspace w" and "n < 11"
  shows "strip_think (w @ take n tag_tool) = Some (w @ take n tag_tool)"
proof -
  have "n \<in> set [0..<11]" using assms(2) by simp
  then have "py_find (take n tag_tool) tag_think = None"
    by (auto simp: upt_rec tag_tool_def tag_think_def py_startswith_def)
  with find_think_space [OF assms(1)] show ?thesis by (subst strip_think.simps) simp
qed

lemma classify_tool:
  assumes "sm_phase st = Hold" and "list_all py_isspace w" and "sm_hold st @ rest = w @ tag_tool @ r"
  shows "classify st = ([], st) \<or> classify st = ([], st\<lparr>sm_phase := Suppressed\<rparr>)"
proof (cases "length w + 11 \<le> length (sm_hold st)")
  case True
  have l: "length (w @ tag_tool) = length w + 11" by (simp add: tag_tool_def)
  from assms(3) True l obtain r1 where h: "sm_hold st = w @ tag_tool @ r1"
    by (metis append_assoc append_eq_append_conv_if append_take_drop_id)
  from strip_think_tool [OF assms(2), of r1] show ?thesis
  proof (elim disjE exE)
    assume "strip_think (w @ tag_tool @ r1) = None"
    then show ?thesis by (simp add: classify_def h)
  next
    fix r' assume s: "strip_think (w @ tag_tool @ r1) = Some (w @ tag_tool @ r')"
    have ls: "py_lstrip (w @ tag_tool @ r') = tag_tool @ r'"
      using assms(2) by (simp add: lstrip_append_space) (simp add: tag_tool_def py_lstrip_def py_isspace_def)
    have "tag_tool @ r' \<noteq> []" by (simp add: tag_tool_def)
    moreover have "\<not> could_be_tag (tag_tool @ r')"
      by (cases r') (auto simp: could_be_tag_def wait_prefixes_def tag_tool_def tag_think_def tag_answer_def py_startswith_def)
    ultimately show ?thesis using s ls by (simp only: classify_def h option.case Let_def py_startswith_append if_True if_False) simp
  qed
next
  case False
  define k where "k = length (sm_hold st) - length w"
  have k: "k < 11" using False k_def by auto
  have "sm_hold st = take (length (sm_hold st)) (w @ tag_tool @ r)"
    using assms(3) by (metis append_eq_conv_conj)
  then consider "sm_hold st = take (length (sm_hold st)) w" | "sm_hold st = w @ take k (tag_tool @ r)"
    unfolding take_prefix_cases k_def by (metis)
  then obtain w' where h: "sm_hold st = w' @ take k tag_tool" "list_all py_isspace w'"
  proof cases
    case 1
    have "list_all py_isspace (take (length (sm_hold st)) w)" using assms(2) by (auto simp: list_all_iff dest: in_set_takeD)
    moreover have "length (sm_hold st) \<le> length w" using 1 by (metis length_take min.cobounded1)
    ultimately show ?thesis using that [of "take (length (sm_hold st)) w"] 1 by (simp add: k_def)
  next
    case 2
    have "take k (tag_tool @ r) = take k tag_tool" using k by (subst take_append) (simp add: tag_tool_def)
    with 2 assms(2) that [of w] show ?thesis by simp
  qed
  have "k \<in> set [0..<11]" using k by simp
  then have "py_lstrip (take k tag_tool) = take k tag_tool \<and> (take k tag_tool = [] \<or> could_be_tag (take k tag_tool))"
    by (auto simp: upt_rec tag_tool_def py_lstrip_def py_isspace_def could_be_tag_def wait_prefixes_def py_startswith_def)
  then show ?thesis
    using strip_think_short [OF h(2) k] lstrip_append_space [OF h(2)] by (auto simp: classify_def h(1))
qed

lemma feed_all_tool:
  assumes "feed_all cs st = (outs, st')" and "sm_phase st = Hold" and "sm_tail st = []"
    and "list_all py_isspace w" and "sm_hold st @ concat cs = w @ tag_tool @ r"
  shows "concat outs = [] \<and> fst (flush st') = []"
  using assms
proof (induction cs arbitrary: st outs)
  case Nil
  then have "classify st = ([], st) \<or> classify st = ([], st\<lparr>sm_phase := Suppressed\<rparr>)"
    using classify_tool [of st w "[]" r] by simp
  with Nil show ?case by (auto simp: flush_def strip_closing_def py_rstrip_def py_endswith_def tag_answer_end_def)
next
  case (Cons c cs)
  let ?st0 = "st\<lparr>sm_hold := sm_hold st @ c\<rparr>"
  from classify_tool [of ?st0 w "concat cs" r] Cons.prems
  have "classify ?st0 = ([], ?st0) \<or> classify ?st0 = ([], ?st0\<lparr>sm_phase := Suppressed\<rparr>)" by simp
  then show ?case
  proof
    assume "classify ?st0 = ([], ?st0)"
    with Cons.prems obtain outs1 where "feed_all cs ?st0 = (outs1, st')" "outs = [] # outs1"
      by (auto simp: feed_def split: prod.splits)
    with Cons.IH [of ?st0 outs1] Cons.prems show ?thesis by simp
  next
    assume "classify ?st0 = ([], ?st0\<lparr>sm_phase := Suppressed\<rparr>)"
    with Cons.prems obtain outs1 where r: "feed_all cs (?st0\<lparr>sm_phase := Suppressed\<rparr>) = (outs1, st')" "outs = [] # outs1"
      by (auto simp: feed_def split: prod.splits)
    from feed_all_suppressed [OF r(1)] r(2) show ?thesis by (simp add: flush_def)
  qed
qed

section \<open>Properties\<close>

text \<open>
  C37: While a response is streamed, nothing is lost, repeated or reordered: either nothing has
  been emitted, or what was emitted together with the guarded tail (at most twelve characters)
  is exactly the visible start of the chunks seen when the kind of output was decided, followed
  by every later chunk.
\<close>
theorem stream_faithful:
  "feed_all cs stream_init = (outs, st) \<Longrightarrow>
   (concat outs = [] \<and> sm_phase st \<noteq> Streaming) \<or>
   (length (sm_tail st) \<le> tail_guard \<and>
     (\<exists>us vs. cs = us @ vs \<and> concat outs @ sm_tail st = visible_start (concat us) @ concat vs))"
  using feed_all_hold [of cs stream_init outs st] by (auto simp: stream_init_def)

theorem stream_faithful_witness:
  "\<exists>us vs. [''<ans'', ''wer>Dobry den, vse je'', '' hotovo.''] = us @ vs \<and>
     concat (fst (feed_all [''<ans'', ''wer>Dobry den, vse je'', '' hotovo.''] stream_init)) @
     sm_tail (snd (feed_all [''<ans'', ''wer>Dobry den, vse je'', '' hotovo.''] stream_init))
     = visible_start (concat us) @ concat vs"
proof -
  let ?cs = "[''<ans'', ''wer>Dobry den, vse je'', '' hotovo.'']"
  have "concat (fst (feed_all ?cs stream_init)) \<noteq> []" by code_simp
  with stream_faithful [of ?cs "fst (feed_all ?cs stream_init)" "snd (feed_all ?cs stream_init)"]
  show ?thesis by auto
qed

text \<open>
  A response that is a tool call is never shown to the user: when the text starts, after
  whitespace, with the opening tag, no chunk and no flush emits a character, however the text is
  cut into chunks.
\<close>
theorem tool_call_never_shown:
  assumes "list_all py_isspace w" and "concat cs = w @ ''<tool_call>'' @ r"
  shows "concat (fst (respond cs)) = []"
proof -
  obtain outs st where f: "feed_all cs stream_init = (outs, st)" by fastforce
  have "concat outs = [] \<and> fst (flush st) = []"
    by (rule feed_all_tool [OF f _ _ assms(1), of r]) (simp_all add: stream_init_def assms(2) tag_tool_def)
  then show ?thesis by (auto simp: respond_def f split: prod.splits)
qed

theorem tool_call_never_shown_witness:
  "concat (fst (respond ['' <tool'', ''_call>{}</tool_call> text <think>''])) = []"
  by (rule tool_call_never_shown [of "'' ''" _ "''{}</tool_call> text <think>''"]) (simp_all add: py_isspace_def)

text \<open>
  The guard of twelve characters does not cover a closing tag followed by white space: with
  six blanks after the tag, the tag itself is emitted.
\<close>
theorem closing_tag_leaks:
  "concat (fst (respond [''<answer>Hotovo.'', ''</answer>'', ''      '']))  = ''Hotovo.</answer>''"
  by code_simp

end
