(* ===== verification/Contact_Proposals.thy ===== *)
theory Contact_Proposals
  imports Agent_Loop Pending_Action Cards
begin

text \<open>
  Contact proposals for the company open in the CRM (\<open>app/engine/contact_tools.py\<close>): people
  found on the web are checked against the CRM, each new one is previewed by the CRM, and only a
  preview the CRM confirmed field by field becomes a proposal card with a command. The tool
  reaches the CRM through the toolset's \<open>invoke\<close>, an argument here; \<open>urlparse\<close> is one too.
\<close>

section \<open>Actions that call tools\<close>

type_synonym ('a, 'w) act = "'w \<Rightarrow> 'a result \<times> 'w"

type_synonym 'w invoker = "string \<Rightarrow> pydict \<Rightarrow> 'w \<Rightarrow> tool_end \<times> 'w"

definition act_lift :: "'a result \<Rightarrow> ('a, 'w) act" where
  "act_lift r w = (r, w)"

definition act_bind :: "('a, 'w) act \<Rightarrow> ('a \<Rightarrow> ('b, 'w) act) \<Rightarrow> ('b, 'w) act" where
  "act_bind f g w = (case f w of (Inl e, w1) \<Rightarrow> (Inl e, w1) | (Inr x, w1) \<Rightarrow> g x w1)"

text \<open>\<open>json.loads(await toolset.invoke(...))\<close>; a cancellation is no \<open>Exception\<close>.\<close>

definition cancelled :: py_exc where "cancelled = OtherError ''CancelledError''"

definition call_json :: "'w invoker \<Rightarrow> string \<Rightarrow> pydict \<Rightarrow> (py, 'w) act" where
  "call_json ask n args w = (case ask n args w of
     (Answered t, w1) \<Rightarrow> (json_loads t, w1)
   | (Failed e, w1) \<Rightarrow> (Inl e, w1)
   | (Abandoned, w1) \<Rightarrow> (Inl cancelled, w1))"

definition os_errors :: "string list" where
  "os_errors = [''OSError'', ''ConnectionError'', ''ConnectionResetError'', ''ConnectionRefusedError'',
     ''BrokenPipeError'', ''TimeoutError'']"

fun call_error :: "py_exc \<Rightarrow> bool" where
  "call_error (ValueError _) = True"
| "call_error (TypeError _) = True"
| "call_error (OtherError n) = (n \<in> set os_errors)"
| "call_error _ = False"

text \<open>\<open>try: json.loads(await invoke(...)) except (ValueError, TypeError, OSError)\<close>, \<open>None\<close> when caught.\<close>

definition try_call :: "'w invoker \<Rightarrow> string \<Rightarrow> pydict \<Rightarrow> (py option, 'w) act" where
  "try_call ask n args w = (case call_json ask n args w of
     (Inl e, w1) \<Rightarrow> (if call_error e then Inr None else Inl e, w1)
   | (Inr v, w1) \<Rightarrow> (Inr (Some v), w1))"

section \<open>Misdirected descriptions\<close>

definition words :: "string \<Rightarrow> string list" where
  "words s = py_split_ws s"

fun adjacent :: "(string \<Rightarrow> string \<Rightarrow> bool) \<Rightarrow> string list \<Rightarrow> bool" where
  "adjacent P (a # b # ws) = (P a b \<or> adjacent P (b # ws))"
| "adjacent P _ = False"

text \<open>\<open>len(re.findall(r"[^\s@]+@[^\s@]+", text))\<close>: pairs of non-empty parts between at-signs.\<close>

fun mail_pairs :: "string list \<Rightarrow> nat" where
  "mail_pairs (a # b # ps) = (if a \<noteq> [] \<and> b \<noteq> [] then Suc (mail_pairs ps) else mail_pairs (b # ps))"
| "mail_pairs _ = 0"

definition mail_count :: "string \<Rightarrow> nat" where
  "mail_count s = sum_list (map (\<lambda>t. mail_pairs (split_all (CHR ''@'') t)) (py_split_ws s))"

definition contact_form_misroute :: "string \<Rightarrow> string \<Rightarrow> bool" where
  "contact_form_misroute t user_input =
     (let user = normalize_text user_input in
      if py_contains ''description'' user
         \<or> adjacent (\<lambda>a b. a \<in> {''do'', ''v'', ''pole''} \<and> b = ''popisu'') (words user) then False
      else (let ws = words (normalize_text (t @ '' '' @ user_input)) in
        list_ex (\<lambda>x. x \<in> {''kontakty'', ''kontaktu'', ''contacts''}) ws \<and>
        (list_ex (\<lambda>x. x \<in> {''hledej'', ''find'', ''create'', ''lookup''} \<or>
            list_ex (py_startswith x) [''dohled'', ''najd'', ''vytvor'', ''prid'', ''dopln'']) ws
         \<or> mail_count t > 1)))"

definition related_contacts_response :: pydict where
  "related_contacts_response = [(''status'', PStr ''related_contacts_required''),
     (''message'', PStr ''Kontakty patri do samostatnych zaznamu Contacts navazanych na firmu, ne do jejiho description. Pro nalezene pojmenovane osoby pouzij prepare_company_contacts_tool. Obecne schranky vypis oddelene.'')]"

section \<open>Candidates\<close>

record contact_candidate =
  cc_first :: string
  cc_last :: string
  cc_email :: "string option"
  cc_phone :: "string option"
  cc_title :: "string option"
  cc_department :: "string option"
  cc_source :: string

definition text_or_empty :: "string option \<Rightarrow> string" where
  "text_or_empty v = (case v of None \<Rightarrow> [] | Some s \<Rightarrow> s)"

definition cand_first :: "contact_candidate \<Rightarrow> string" where "cand_first c = py_strip (cc_first c)"
definition cand_last :: "contact_candidate \<Rightarrow> string" where "cand_last c = py_strip (cc_last c)"
definition cand_email :: "contact_candidate \<Rightarrow> string" where "cand_email c = py_lower (py_strip (text_or_empty (cc_email c)))"
definition cand_phone :: "contact_candidate \<Rightarrow> string" where "cand_phone c = py_strip (text_or_empty (cc_phone c))"
definition cand_name :: "contact_candidate \<Rightarrow> string" where "cand_name c = cand_first c @ '' '' @ cand_last c"

text \<open>\<open>re.fullmatch(r"[^\s@]+@[^\s@]+\.[^\s@]+", email)\<close>\<close>

fun inner_dot :: "string \<Rightarrow> bool" where
  "inner_dot (a # b # c # s) = (b = CHR ''.'' \<or> inner_dot (b # c # s))"
| "inner_dot _ = False"

definition valid_email :: "string \<Rightarrow> bool" where
  "valid_email e = (list_all (\<lambda>c. \<not> py_isspace c) e \<and>
     (case split_all (CHR ''@'') e of [a, b] \<Rightarrow> a \<noteq> [] \<and> inner_dot b | _ \<Rightarrow> False))"

text \<open>\<open>urlparse\<close> gives a scheme and a host name, or raises \<open>ValueError\<close>.\<close>

type_synonym url_parts = "string \<Rightarrow> (string \<times> string option) result"

definition unusable :: "string \<times> string option \<Rightarrow> contact_candidate \<Rightarrow> bool" where
  "unusable source c =
     (let email = cand_email c; phone = cand_phone c in
      cand_first c = [] \<or> cand_last c = [] \<or> fst source \<notin> {''http'', ''https''} \<or> text_or_empty (snd source) = []
      \<or> (email \<noteq> [] \<and> \<not> valid_email email)
      \<or> (phone \<noteq> [] \<and> (length (filter is_digit phone) < 7 \<or> py_contains ''...'' phone))
      \<or> (email = [] \<and> phone = []))"

section \<open>Questions to the CRM\<close>

definition query :: "'w invoker \<Rightarrow> string \<Rightarrow> py list \<Rightarrow> pydict \<Rightarrow> (py list option, 'w) act" where
  "query ask md filters extra = act_bind
     (try_call ask ''crm_query_tool''
        ([(''module'', PStr md), (''filters'', PList filters), (''limit'', PInt 20)] @ extra))
     (\<lambda>r. case r of
        None \<Rightarrow> act_lift (Inr None)
      | Some v \<Rightarrow> act_lift (res_bind (get_method v) (\<lambda>d. case pget d ''records'' of
          PList rows \<Rightarrow> Inr (if pget d ''status'' = PStr ''ok'' then Some rows else None)
        | _ \<Rightarrow> Inr None)))"

definition eq_filter :: "string \<Rightarrow> string \<Rightarrow> py" where
  "eq_filter f v = PDict [(''field'', PStr f), (''op'', PStr ''eq''), (''value'', PStr v)]"

fun find_account :: "string \<Rightarrow> py list \<Rightarrow> pydict option result" where
  "find_account i [] = Inr None"
| "find_account i (r # rs) = res_bind (get_method r) (\<lambda>d.
     if pget d ''id'' = PStr i then Inr (Some d) else find_account i rs)"

fun rows_named :: "string \<Rightarrow> py list \<Rightarrow> py list result" where
  "rows_named key [] = Inr []"
| "rows_named key (r # rs) = res_bind (get_method r) (\<lambda>d. res_bind (rows_named key rs) (\<lambda>ds.
     Inr (if normalize_text (record_name d) = key then r # ds else ds)))"

section \<open>One candidate\<close>

record gather =
  ga_cards :: "pydict list"
  ga_skipped :: "(string \<times> string) list"
  ga_emails :: "string set"
  ga_names :: "string set"

definition skip :: "contact_candidate \<Rightarrow> string \<Rightarrow> gather \<Rightarrow> gather" where
  "skip c reason g = g\<lparr>ga_skipped := ga_skipped g @ [(cand_name c, reason)]\<rparr>"

definition add_card :: "pydict \<Rightarrow> gather \<Rightarrow> gather" where
  "add_card cd g = g\<lparr>ga_cards := ga_cards g @ [cd]\<rparr>"

definition existing_card :: "pydict \<Rightarrow> pydict" where
  "existing_card d = dput ''text'' (PStr ''Mozny existujici kontakt v CRM; novy zaznam nebyl navrzen. Overte jeho vztah k firme.'')
     (record_card ''Contacts'' (record_name d) (py_str (pget d ''id'')) [])"

definition contact_fields :: "string \<Rightarrow> contact_candidate \<Rightarrow> pydict" where
  "contact_fields account_id c =
     [(''first_name'', PStr (cand_first c)), (''last_name'', PStr (cand_last c)), (''account_id'', PStr account_id)] @
     map (\<lambda>(k, v). (k, PStr v)) (filter (\<lambda>(k, v). v \<noteq> [])
       [(''email1'', cand_email c), (''phone_work'', cand_phone c), (''title'', text_or_empty (cc_title c)),
        (''department'', text_or_empty (cc_department c))])"

text \<open>\<open>d.get(k, {})\<close> followed by a \<open>get\<close> of its own.\<close>

definition get_dict :: "pydict \<Rightarrow> string \<Rightarrow> pydict result" where
  "get_dict d k = get_method (dget_default d k (PDict []))"

definition confirmed_fields :: "pydict \<Rightarrow> pydict result" where
  "confirmed_fields pending = res_bind (get_method (por (pget pending ''arguments'') (PDict [])))
     (\<lambda>args. res_bind (get_dict args ''data_json'') (\<lambda>data. get_dict data ''fields''))"

definition relation_id :: "pydict \<Rightarrow> py" where
  "relation_id flds = (case pget flds ''account_id'' of PDict r \<Rightarrow> pget r ''id'' | v \<Rightarrow> v)"

definition crm_confirms :: "string \<Rightarrow> contact_candidate \<Rightarrow> pydict \<Rightarrow> pydict \<Rightarrow> pydict \<Rightarrow> bool" where
  "crm_confirms account_id c preview pending flds =
     (pget preview ''status'' = PStr ''confirmation_required'' \<and> truthy (pget pending ''confirmation_token'')
      \<and> relation_id flds = PStr account_id
      \<and> dget_default flds ''email1'' (PStr []) = PStr (cand_email c)
      \<and> dget_default flds ''phone_work'' (PStr []) = PStr (cand_phone c)
      \<and> pget flds ''first_name'' = PStr (cand_first c) \<and> pget flds ''last_name'' = PStr (cand_last c))"

definition field_labels :: "(string \<times> string) list" where
  "field_labels = [(''first_name'', ''LBL_FIRST_NAME''), (''last_name'', ''LBL_LAST_NAME''),
     (''email1'', ''LBL_EMAIL_ADDRESS''), (''phone_work'', ''LBL_OFFICE_PHONE''), (''title'', ''LBL_TITLE''),
     (''department'', ''LBL_DEPARTMENT'')]"

definition meta_field :: "string \<times> py \<Rightarrow> py option" where
  "meta_field kv = (case map_of field_labels (fst kv) of
     Some l \<Rightarrow> if truthy (snd kv) then Some (PDict [(''name'', PStr (fst kv)), (''label_key'', PStr l),
         (''label'', PStr l), (''type'', PStr ''text''), (''value'', snd kv)]) else None
   | None \<Rightarrow> None)"

definition command_of :: "pydict \<Rightarrow> pydict \<Rightarrow> pydict" where
  "command_of ctx pending =
     (let cmd = dput ''module'' (PStr ''Contacts'') (dput ''action'' (PStr ''create'') (call_entries pending))
      in if truthy (pget ctx ''chat_id'') then dput ''chat_id'' (pget ctx ''chat_id'') cmd else cmd)"

definition proposal_card :: "pydict \<Rightarrow> string \<Rightarrow> nat \<Rightarrow> contact_candidate \<Rightarrow> pydict \<Rightarrow> pydict \<Rightarrow> pydict" where
  "proposal_card ctx account_name i c pending flds =
     [(''id'', PStr (''contact-proposal-'' @ nat_digits i)), (''type'', PStr ''record''),
      (''title'', PStr (cand_name c)), (''tag'', PStr ''Contacts''),
      (''text'', PStr (''Verejny kontakt z webu. Zdroj: '' @ cc_source c)),
      (''meta_fields'', PList (List.map_filter meta_field flds @
         [PDict [(''label_key'', PStr ''LBL_ACCOUNT_NAME''), (''label'', PStr ''Firma''), (''type'', PStr ''text''),
            (''value'', PStr account_name)]])),
      (''command'', PDict (command_of ctx pending))]"

definition preview_contact ::
  "'w invoker \<Rightarrow> pydict \<Rightarrow> string \<Rightarrow> string \<Rightarrow> nat \<Rightarrow> contact_candidate \<Rightarrow> gather \<Rightarrow> (gather, 'w) act" where
  "preview_contact ask ctx account_id account_name i c g = act_bind
     (try_call ask ''crm_action_tool'' [(''module'', PStr ''Contacts''), (''action'', PStr ''create''),
        (''data_json'', PDict [(''fields'', PDict (contact_fields account_id c))])])
     (\<lambda>r. case r of
        None \<Rightarrow> act_lift (Inr (skip c ''Nahled v CRM neni dostupny.'' g))
      | Some v \<Rightarrow> act_lift (res_bind (get_method v) (\<lambda>preview.
          res_bind (get_method (por (pget preview ''pending_action'') (PDict []))) (\<lambda>pending.
          res_bind (confirmed_fields pending) (\<lambda>flds.
            Inr (if crm_confirms account_id c preview pending flds
                 then add_card (proposal_card ctx account_name i c pending flds) g
                 else skip c ''CRM nepotvrdilo pozadovana pole a vazbu na firmu; nic nebylo zapsano.'' g))))))"

definition report_match :: "contact_candidate \<Rightarrow> py \<Rightarrow> gather \<Rightarrow> gather result" where
  "report_match c existing g = res_bind (get_method existing) (\<lambda>d.
     Inr (skip c ''Mozna duplicita v CRM.'' (if truthy (pget d ''id'') then add_card (existing_card d) g else g)))"

definition check_duplicates ::
  "'w invoker \<Rightarrow> pydict \<Rightarrow> string \<Rightarrow> string \<Rightarrow> nat \<Rightarrow> contact_candidate \<Rightarrow> gather \<Rightarrow> (gather, 'w) act" where
  "check_duplicates ask ctx account_id account_name i c g =
     act_bind (if cand_email c = [] then act_lift (Inr (Some []))
               else query ask ''Contacts'' [eq_filter ''email1'' (cand_email c)] [])
     (\<lambda>by_mail. act_bind (query ask ''Contacts'' [eq_filter ''account_id'' account_id] [(''search'', PStr (cand_name c))])
     (\<lambda>by_name. case (by_mail, by_name) of
        (Some ms, Some ns) \<Rightarrow> act_bind (act_lift (rows_named (normalize_text (cand_name c)) ns)) (\<lambda>same.
          case ms @ same of
            [] \<Rightarrow> preview_contact ask ctx account_id account_name i c g
          | m # _ \<Rightarrow> act_lift (report_match c m g))
      | _ \<Rightarrow> act_lift (Inr (skip c ''Nelze overit duplicity v CRM.'' g))))"

definition gather_candidate ::
  "'w invoker \<Rightarrow> url_parts \<Rightarrow> pydict \<Rightarrow> string \<Rightarrow> string \<Rightarrow> nat \<Rightarrow> contact_candidate \<Rightarrow> gather \<Rightarrow> (gather, 'w) act" where
  "gather_candidate ask urlparse ctx account_id account_name i c g =
     act_bind (act_lift (urlparse (cc_source c))) (\<lambda>source.
       let key = normalize_text (cand_name c); email = cand_email c in
       if unusable source c then act_lift (Inr (skip c ''Chybi platny uplny kontakt nebo zdrojova URL.'' g))
       else if (email \<noteq> [] \<and> email \<in> ga_emails g) \<or> key \<in> ga_names g
       then act_lift (Inr (skip c ''Opakovany kandidat ve vysledcich.'' g))
       else check_duplicates ask ctx account_id account_name i c
         (g\<lparr>ga_names := insert key (ga_names g),
            ga_emails := (if email \<noteq> [] then insert email (ga_emails g) else ga_emails g)\<rparr>))"

fun gather_all ::
  "'w invoker \<Rightarrow> url_parts \<Rightarrow> pydict \<Rightarrow> string \<Rightarrow> string \<Rightarrow> nat \<Rightarrow> contact_candidate list \<Rightarrow> gather \<Rightarrow> (gather, 'w) act" where
  "gather_all ask urlparse ctx account_id account_name i [] g = act_lift (Inr g)"
| "gather_all ask urlparse ctx account_id account_name i (c # cs) g =
     act_bind (gather_candidate ask urlparse ctx account_id account_name i c g)
       (gather_all ask urlparse ctx account_id account_name (Suc i) cs)"

section \<open>The tool\<close>

text \<open>\<open>uuid.UUID(text)\<close>: prefixes, braces and hyphens removed, 32 characters left, read base 16.\<close>

function remove_text :: "string \<Rightarrow> string \<Rightarrow> string" where
  "remove_text sub [] = []"
| "remove_text sub (c # s) = (if sub \<noteq> [] \<and> py_startswith (c # s) sub
     then remove_text sub (drop (length sub) (c # s)) else c # remove_text sub s)"
  by pat_completeness auto
termination
  by (relation "measure (\<lambda>(sub, s). length s)") auto

definition strip_chars :: "char list \<Rightarrow> string \<Rightarrow> string" where
  "strip_chars cs s = rev (dropWhile (\<lambda>c. c \<in> set cs) (rev (dropWhile (\<lambda>c. c \<in> set cs) s)))"

definition hex_digit_char :: "char \<Rightarrow> bool" where
  "hex_digit_char c = (is_digit c \<or> c \<in> set ''abcdefABCDEF'')"

fun hex_run :: "bool \<Rightarrow> string \<Rightarrow> bool" where
  "hex_run seen [] = seen"
| "hex_run seen (c # s) = (if hex_digit_char c then hex_run True s else c = CHR ''_'' \<and> seen \<and> hex_run False s)"

definition hex_int :: "string \<Rightarrow> bool" where
  "hex_int t = (let s = py_strip t;
      u = (case s of c # r \<Rightarrow> if c = CHR ''-'' \<or> c = CHR ''+'' then r else s | [] \<Rightarrow> []);
      v = (if ci_startswith u ''0x'' then (let r = drop 2 u in if take 1 r = ''_'' then drop 1 r else r) else u)
    in hex_run False v)"

definition is_uuid :: "string \<Rightarrow> bool" where
  "is_uuid t = (let h = filter (\<lambda>c. c \<noteq> CHR ''-'') (strip_chars ''{}'' (remove_text ''uuid:'' (remove_text ''urn:'' t)))
     in length h = 32 \<and> hex_int h)"

definition context_account :: "pydict \<Rightarrow> string" where
  "context_account ctx = text_of (por (pget ctx ''record'') (pget ctx ''record_id''))"

definition on_account :: "pydict \<Rightarrow> bool" where
  "on_account ctx = (py_lower (str_or (por (pget ctx ''module'') (pget ctx ''record_module''))) = ''accounts'')"

datatype prepared =
    NotPrepared string string
  | Prepared string gather

definition prepare_contacts ::
  "'w invoker \<Rightarrow> url_parts \<Rightarrow> pydict \<Rightarrow> contact_candidate list \<Rightarrow> (prepared, 'w) act" where
  "prepare_contacts ask urlparse ctx cs =
     (let account_id = context_account ctx in
      if \<not> on_account ctx then act_lift (Inr (NotPrepared ''account_required''
        ''Otevrete firmu, ke ktere maji byt kontakty prirazeny.''))
      else if \<not> is_uuid account_id then act_lift (Inr (NotPrepared ''account_required''
        ''Nejprve ulozte firmu; kontakty potrebuji existujici CRM ID.''))
      else act_bind (query ask ''Accounts'' [eq_filter ''id'' account_id] []) (\<lambda>rows.
        act_bind (act_lift (find_account account_id (case rows of None \<Rightarrow> [] | Some rs \<Rightarrow> rs))) (\<lambda>acc.
          case acc of
            None \<Rightarrow> act_lift (Inr (NotPrepared ''account_unavailable''
              ''Cilovou firmu se nepodarilo overit v CRM; zadny navrh nebyl pripraven.''))
          | Some d \<Rightarrow> act_bind (gather_all ask urlparse ctx account_id (record_name d) 0 cs
                \<lparr>ga_cards = [], ga_skipped = [], ga_emails = {}, ga_names = {}\<rparr>)
              (\<lambda>g. act_lift (Inr (Prepared (record_name d) g))))))"

definition proposals_message :: "string \<Rightarrow> gather \<Rightarrow> string" where
  "proposals_message account_name g =
     (let cnt = length (filter (\<lambda>cd. truthy (pget cd ''command'')) (ga_cards g)) in
      ''Pripraveno '' @ nat_digits cnt @ '' kontaktu k firme '' @ account_name @ ''. '' @
      (if cnt > 0 then ''Kazdou osobu muzete vytvorit nebo zrusit na jeji karte. '' else ''Zadny novy kontakt nebyl navrzen. '') @
      ''Do CRM zatim nebylo nic zapsano.'' @
      (if ga_skipped g = [] then []
       else '' Vynechano '' @ nat_digits (length (ga_skipped g)) @ '' kandidatu: '' @
         py_join ''; '' (map (\<lambda>(n, r). n @ '': '' @ r) (ga_skipped g))))"

fun prepared_observation :: "prepared \<Rightarrow> pydict" where
  "prepared_observation (NotPrepared status msg) = [(''status'', PStr status), (''message'', PStr msg)]"
| "prepared_observation (Prepared account_name g) =
     [(''status'', PStr ''contact_proposals''), (''cards'', PList (map PDict (ga_cards g))),
      (''skipped'', PList (map (\<lambda>(n, r). PDict [(''name'', PStr n), (''reason'', PStr r)]) (ga_skipped g))),
      (''message_to_user'', PStr (proposals_message account_name g))]"

definition prepare_company_contacts_tool ::
  "'w invoker \<Rightarrow> url_parts \<Rightarrow> pydict \<Rightarrow> contact_candidate list \<Rightarrow> 'w \<Rightarrow> tool_end \<times> 'w" where
  "prepare_company_contacts_tool ask urlparse ctx cs w = (case prepare_contacts ask urlparse ctx cs w of
     (Inl e, w1) \<Rightarrow> (if e = cancelled then Abandoned else Failed e, w1)
   | (Inr p, w1) \<Rightarrow> (Answered (json_text json_readable (PDict (prepared_observation p))), w1))"

section \<open>Lemmas\<close>

lemma act_bind_Inr: "act_bind f g w = (Inr y, w2) \<longleftrightarrow> (\<exists>x w1. f w = (Inr x, w1) \<and> g x w1 = (Inr y, w2))"
  by (auto simp: act_bind_def split: prod.splits sum.splits)

lemma act_lift_eq [simp]: "act_lift r w = (r', w') \<longleftrightarrow> r = r' \<and> w = w'"
  by (auto simp: act_lift_def)

text \<open>An invariant of the world that the two CRM tools keep is kept by the whole tool.\<close>

definition act_keeps :: "('w \<Rightarrow> bool) \<Rightarrow> ('a, 'w) act \<Rightarrow> bool" where
  "act_keeps I f = (\<forall>w. I w \<longrightarrow> I (snd (f w)))"

lemma act_keeps_lift [intro, simp]: "act_keeps I (act_lift r)"
  by (simp add: act_keeps_def act_lift_def)

lemma act_keeps_bind [intro]: "act_keeps I f \<Longrightarrow> (\<And>x. act_keeps I (g x)) \<Longrightarrow> act_keeps I (act_bind f g)"
  by (auto simp: act_keeps_def act_bind_def split: prod.splits sum.splits)

definition tool_keeps :: "('w \<Rightarrow> bool) \<Rightarrow> 'w invoker \<Rightarrow> string \<Rightarrow> bool" where
  "tool_keeps I ask n = (\<forall>args w. I w \<longrightarrow> I (snd (ask n args w)))"

lemma act_keeps_try:
  assumes "tool_keeps I ask n"
  shows "act_keeps I (try_call ask n args)"
  unfolding act_keeps_def
proof (intro allI impI)
  fix w assume "I w"
  with assms have "I (snd (ask n args w))" by (simp add: tool_keeps_def)
  then show "I (snd (try_call ask n args w))"
    by (cases "ask n args w") (simp add: try_call_def call_json_def split: tool_end.splits sum.splits)
qed

lemma act_keeps_query: "tool_keeps I ask ''crm_query_tool'' \<Longrightarrow> act_keeps I (query ask md fs extra)"
  unfolding query_def by (intro act_keeps_bind act_keeps_try) (auto split: option.splits)

lemma act_keeps_preview:
  "tool_keeps I ask ''crm_action_tool'' \<Longrightarrow> act_keeps I (preview_contact ask ctx a n i c g)"
  unfolding preview_contact_def by (intro act_keeps_bind act_keeps_try) (auto split: option.splits)

lemma act_keeps_candidate:
  assumes "tool_keeps I ask ''crm_query_tool''" and "tool_keeps I ask ''crm_action_tool''"
  shows "act_keeps I (gather_candidate ask u ctx a n i c g)"
  unfolding gather_candidate_def check_duplicates_def Let_def
  by (auto intro!: act_keeps_bind act_keeps_query act_keeps_preview assms split: option.splits list.splits)

lemma act_keeps_all:
  assumes "tool_keeps I ask ''crm_query_tool''" and "tool_keeps I ask ''crm_action_tool''"
  shows "act_keeps I (gather_all ask u ctx a n i cs g)"
  by (induction cs arbitrary: i g) (auto intro!: act_keeps_bind act_keeps_candidate assms)

lemma act_keeps_prepare:
  assumes "tool_keeps I ask ''crm_query_tool''" and "tool_keeps I ask ''crm_action_tool''"
  shows "act_keeps I (prepare_contacts ask u ctx cs)"
  unfolding prepare_contacts_def Let_def
  by (auto intro!: act_keeps_bind act_keeps_query act_keeps_all assms split: option.splits)

lemma contact_tool_keeps:
  assumes "tool_keeps I ask ''crm_query_tool''" and "tool_keeps I ask ''crm_action_tool''" and "I w"
  shows "I (snd (prepare_company_contacts_tool ask u ctx cs w))"
proof -
  from act_keeps_prepare [OF assms(1,2)] assms(3) have "I (snd (prepare_contacts ask u ctx cs w))"
    by (simp add: act_keeps_def)
  then show ?thesis
    by (cases "prepare_contacts ask u ctx cs w") (simp add: prepare_company_contacts_tool_def split: sum.splits)
qed

subsection \<open>What a proposal holds\<close>

definition command_ok :: "string \<Rightarrow> contact_candidate \<Rightarrow> pydict \<Rightarrow> bool" where
  "command_ok account_id c cmd =
     (pget cmd ''action'' = PStr ''create'' \<and> pget cmd ''module'' = PStr ''Contacts''
      \<and> truthy (pget cmd ''confirmation_token'')
      \<and> (\<exists>args data flds. pget cmd ''arguments'' = PDict args \<and> pget args ''data_json'' = PDict data
          \<and> pget data ''fields'' = PDict flds \<and> relation_id flds = PStr account_id
          \<and> pget flds ''first_name'' = PStr (cand_first c) \<and> pget flds ''last_name'' = PStr (cand_last c)
          \<and> dget_default flds ''email1'' (PStr []) = PStr (cand_email c)
          \<and> dget_default flds ''phone_work'' (PStr []) = PStr (cand_phone c)))"

lemma get_method_Inr [simp]: "get_method v = Inr d \<longleftrightarrow> v = PDict d"
  by (cases v) auto

lemma get_dict_Inr: "get_dict d k = Inr e \<longleftrightarrow> pget d k = PDict e \<or> (\<not> has_key k d \<and> e = [])"
  by (cases "map_of d k") (auto simp: get_dict_def dget_default_def pget_def has_key_def)

lemma pget_command:
  "pget (command_of ctx pending) k = (if k = ''chat_id'' \<and> truthy (pget ctx ''chat_id'') then pget ctx ''chat_id''
     else if k = ''module'' then PStr ''Contacts'' else if k = ''action'' then PStr ''create''
     else if k \<in> set tool_call_keys then pget pending k else PNone)"
  by (simp add: command_of_def Let_def) (simp add: pget_def dget_default_def map_of_call_entries)

lemma confirmed_command:
  assumes "confirmed_fields pending = Inr flds" and "crm_confirms account_id c preview pending flds"
  shows "command_ok account_id c (command_of ctx pending)"
proof -
  from assms(2) have f: "pget flds ''first_name'' = PStr (cand_first c)" by (simp add: crm_confirms_def)
  then have ne: "flds \<noteq> []" by auto
  from assms(1) obtain args data where a: "por (pget pending ''arguments'') (PDict []) = PDict args"
    "get_dict args ''data_json'' = Inr data" "get_dict data ''fields'' = Inr flds"
    by (auto simp: confirmed_fields_def res_bind_Inr)
  from a(3) ne have d: "pget data ''fields'' = PDict flds" by (auto simp: get_dict_Inr)
  then have "data \<noteq> []" by auto
  with a(2) have e: "pget args ''data_json'' = PDict data" by (auto simp: get_dict_Inr)
  then have "args \<noteq> []" by auto
  with a(1) have g: "pget pending ''arguments'' = PDict args" by (auto simp: por_def split: if_splits)
  from assms(2) d e g show ?thesis
    unfolding command_ok_def crm_confirms_def by (auto simp: pget_command tool_call_keys_def)
qed

definition proposal_of :: "string \<Rightarrow> contact_candidate list \<Rightarrow> pydict \<Rightarrow> bool" where
  "proposal_of account_id cs cd = (\<exists>c \<in> set cs. \<exists>cmd. pget cd ''command'' = PDict cmd \<and> command_ok account_id c cmd
     \<and> pget cd ''title'' = PStr (cand_name c))"

definition proposals :: "gather \<Rightarrow> pydict list" where
  "proposals g = filter (\<lambda>cd. pget cd ''command'' \<noteq> PNone) (ga_cards g)"

definition proposal_key :: "pydict \<Rightarrow> string" where
  "proposal_key cd = normalize_text (str_or (pget cd ''title''))"

definition gather_ok :: "string \<Rightarrow> contact_candidate list \<Rightarrow> gather \<Rightarrow> bool" where
  "gather_ok account_id cs g = ((\<forall>cd \<in> set (proposals g). proposal_of account_id cs cd)
     \<and> distinct (map proposal_key (proposals g)) \<and> proposal_key ` set (proposals g) \<subseteq> ga_names g)"

lemma gather_ok_skip [simp]: "gather_ok a cs (skip c r g) = gather_ok a cs g"
  by (simp add: gather_ok_def proposals_def skip_def)

lemma gather_ok_existing [simp]: "gather_ok a cs (add_card (existing_card d) g) = gather_ok a cs g"
  by (simp add: gather_ok_def proposals_def add_card_def existing_card_def record_card_def pget_Cons)

lemma preview_contact_ok:
  assumes "preview_contact ask ctx a n i c g w = (Inr g2, w2)" and "gather_ok a cs g" and "c \<in> set cs"
    and "normalize_text (cand_name c) \<in> ga_names g"
    and "normalize_text (cand_name c) \<notin> proposal_key ` set (proposals g)"
  shows "gather_ok a cs g2"
proof -
  from assms(1) consider r where "g2 = skip c r g" | preview pending flds where
    "confirmed_fields pending = Inr flds" "crm_confirms a c preview pending flds"
    "g2 = add_card (proposal_card ctx n i c pending flds) g"
    by (auto simp: preview_contact_def act_bind_Inr res_bind_Inr split: option.splits if_splits)
  then show ?thesis
  proof cases
    case 1
    with assms(2) show ?thesis by simp
  next
    case 2
    let ?cd = "proposal_card ctx n i c pending flds"
    have t: "pget ?cd ''title'' = PStr (cand_name c)" "pget ?cd ''command'' = PDict (command_of ctx pending)"
      by (simp_all add: proposal_card_def pget_Cons)
    have "cand_name c \<noteq> []" by (simp add: cand_name_def)
    with t have k: "proposal_key ?cd = normalize_text (cand_name c)" by (simp add: proposal_key_def str_or_def)
    have "proposal_of a cs ?cd"
      using confirmed_command [OF 2(1,2)] t assms(3) by (auto simp: proposal_of_def)
    with t k assms(2,4,5) show ?thesis
      by (auto simp: gather_ok_def proposals_def 2(3) add_card_def)
  qed
qed

lemma check_duplicates_cases:
  assumes "check_duplicates ask ctx a n i c g w = (Inr g2, w2)"
  obtains r where "g2 = skip c r g"
    | m where "report_match c m g = Inr g2"
    | w3 where "preview_contact ask ctx a n i c g w3 = (Inr g2, w2)"
proof -
  from assms obtain by_mail w1 by_name w3 where
    r: "(case (by_mail, by_name) of
        (Some ms, Some ns) \<Rightarrow> act_bind (act_lift (rows_named (normalize_text (cand_name c)) ns)) (\<lambda>same.
          case ms @ same of
            [] \<Rightarrow> preview_contact ask ctx a n i c g
          | m # _ \<Rightarrow> act_lift (report_match c m g))
      | _ \<Rightarrow> act_lift (Inr (skip c ''Nelze overit duplicity v CRM.'' g))) w3 = (Inr g2, w2)"
    unfolding check_duplicates_def act_bind_Inr by blast
  show thesis
  proof (cases "\<exists>ms ns. by_mail = Some ms \<and> by_name = Some ns")
    case False
    with r that(1) show thesis by (auto split: option.splits)
  next
    case True
    then obtain ms ns where "by_mail = Some ms" "by_name = Some ns" by blast
    with r obtain same w4 where r2: "(case ms @ same of [] \<Rightarrow> preview_contact ask ctx a n i c g
          | m # _ \<Rightarrow> act_lift (report_match c m g)) w4 = (Inr g2, w2)"
      by (auto simp: act_bind_Inr)
    with that(2,3) show thesis by (cases "ms @ same") (simp_all only: list.case act_lift_eq, blast+)
  qed
qed

lemma gather_candidate_ok:
  assumes "gather_candidate ask u ctx a n i c g w = (Inr g2, w2)" and "gather_ok a cs g" and "c \<in> set cs"
  shows "gather_ok a cs g2"
proof -
  let ?key = "normalize_text (cand_name c)" and ?email = "cand_email c"
  let ?g = "g\<lparr>ga_names := insert ?key (ga_names g), ga_emails := (if ?email \<noteq> [] then insert ?email (ga_emails g) else ga_emails g)\<rparr>"
  have ok: "gather_ok a cs ?g" using assms(2) by (auto simp: gather_ok_def proposals_def)
  from assms(1) consider r where "g2 = skip c r g"
    | w1 where "?key \<notin> ga_names g" "check_duplicates ask ctx a n i c ?g w1 = (Inr g2, w2)"
    by (auto simp: gather_candidate_def Let_def act_bind_Inr split: if_splits)
  then show ?thesis
  proof cases
    case 1
    with assms(2) show ?thesis by simp
  next
    case 2
    from 2(1) assms(2) have fresh: "?key \<notin> proposal_key ` set (proposals ?g)"
      by (auto simp: gather_ok_def proposals_def)
    have inn: "?key \<in> ga_names ?g" by simp
    from 2(2) show ?thesis
    proof (cases rule: check_duplicates_cases)
      case 1
      with ok show ?thesis by simp
    next
      case 2
      with ok show ?thesis by (auto simp: report_match_def res_bind_Inr split: if_splits)
    next
      case 3
      from preview_contact_ok [OF 3 ok assms(3) inn fresh] show ?thesis .
    qed
  qed
qed

lemma gather_all_ok:
  "gather_all ask u ctx a n i ds g w = (Inr g2, w2) \<Longrightarrow> gather_ok a cs g \<Longrightarrow> set ds \<subseteq> set cs \<Longrightarrow> gather_ok a cs g2"
proof (induction ds arbitrary: i g w)
  case Nil
  then show ?case by simp
next
  case (Cons c ds)
  from Cons.prems(1) obtain g1 w1 where "gather_candidate ask u ctx a n i c g w = (Inr g1, w1)"
    and r: "gather_all ask u ctx a n (Suc i) ds g1 w1 = (Inr g2, w2)" by (auto simp: act_bind_Inr)
  with gather_candidate_ok [of ask u ctx a n i c g w g1 w1 cs] Cons.prems have "gather_ok a cs g1" by simp
  from Cons.IH [OF r this] Cons.prems show ?case by simp
qed

section \<open>Properties\<close>

text \<open>
  C36: A contact is proposed only as the CRM confirmed it. Whatever the CRM answers, every
  proposal card belongs to one of the given people and carries a create command for Contacts
  with a confirmation token, whose fields are that person's name, e-mail and phone and the open
  company; no two proposals have the same normalised name, and nothing is prepared unless an
  existing company is open.
\<close>
theorem contact_proposals_confirmed:
  assumes "prepare_contacts ask urlparse ctx cs w = (Inr (Prepared account_name g), w2)"
  shows "on_account ctx \<and> is_uuid (context_account ctx)
    \<and> (\<forall>cd \<in> set (proposals g). proposal_of (context_account ctx) cs cd)
    \<and> distinct (map proposal_key (proposals g))"
proof -
  let ?a = "context_account ctx"
  let ?g0 = "\<lparr>ga_cards = [], ga_skipped = [], ga_emails = {}, ga_names = {}\<rparr> :: gather"
  have g0: "gather_ok ?a cs ?g0" by (simp add: gather_ok_def proposals_def)
  from assms have o1: "on_account ctx" "is_uuid ?a"
    by (auto simp: prepare_contacts_def Let_def split: if_splits)
  with assms obtain n w1 where "gather_all ask urlparse ctx ?a n 0 cs ?g0 w1 = (Inr g, w2)"
    by (auto simp: prepare_contacts_def Let_def act_bind_Inr split: option.splits)
  from gather_all_ok [OF this g0 subset_refl] o1 show ?thesis by (simp add: gather_ok_def)
qed

definition demo_account :: string where "demo_account = ''12345678-1234-1234-1234-123456789abc''"

definition demo_ctx :: pydict where
  "demo_ctx = [(''module'', PStr ''Accounts''), (''record'', PStr demo_account)]"

definition demo_person :: contact_candidate where
  "demo_person = \<lparr>cc_first = ''Jan'', cc_last = ''Novak'', cc_email = Some ''Jan@acme.cz'', cc_phone = None,
     cc_title = None, cc_department = None, cc_source = ''https://acme.cz''\<rparr>"

definition demo_ask :: "nat invoker" where
  "demo_ask n args w =
     (Answered (json_text json_compact (PDict (
        if n = ''crm_action_tool'' then
          [(''status'', PStr ''confirmation_required''), (''pending_action'', PDict
             [(''tool'', PStr n), (''arguments'', PDict args), (''confirmation_token'', PStr ''t1'')])]
        else [(''status'', PStr ''ok''), (''records'', PList (if pget args ''module'' = PStr ''Accounts''
            then [PDict [(''id'', PStr demo_account), (''name'', PStr ''ACME'')]] else []))]))), Suc w)"

theorem contact_proposals_confirmed_witness:
  "\<exists>g w2. prepare_contacts demo_ask (\<lambda>_. Inr (''https'', Some ''acme.cz'')) demo_ctx [demo_person, demo_person] 0
     = (Inr (Prepared ''ACME'' g), w2) \<and> length (proposals g) = 1
     \<and> proposal_of demo_account [demo_person, demo_person] (hd (proposals g))"
proof -
  let ?r = "prepare_contacts demo_ask (\<lambda>_. Inr (''https'', Some ''acme.cz'')) demo_ctx [demo_person, demo_person] 0"
  obtain r w2 where r: "?r = (r, w2)" by (cases ?r)
  have p: "(case fst ?r of Inr (Prepared n g) \<Rightarrow> n = ''ACME'' \<and> length (proposals g) = 1 | _ \<Rightarrow> False)" by code_simp
  with r obtain g where g: "r = Inr (Prepared ''ACME'' g)" "length (proposals g) = 1"
    by (auto split: sum.splits prepared.splits)
  have a: "context_account demo_ctx = demo_account" by code_simp
  from g(2) obtain cd where cd: "proposals g = [cd]" by (cases "proposals g") auto
  from contact_proposals_confirmed [OF r [unfolded g(1)]] cd a
  have "proposal_of demo_account [demo_person, demo_person] cd" by simp
  with g r cd show ?thesis by simp
qed

end
