(* ===== verification/Agent_Turn.thy ===== *)
theory Agent_Turn
  imports Toolset Contact_Proposals
begin

text \<open>
  One chat turn put together: the agent loop over the toolset of the turn
  (\<open>build_turn_toolset\<close> of \<open>app/tools/toolset.py\<close>), with the contact tool and the guard that
  keeps lists of people out of a company's description. The world of the turn is the state of
  the tool provider and the requests that left the gateway.
\<close>

section \<open>The tools of a turn\<close>

definition contact_tool_name :: string where
  "contact_tool_name = ''prepare_company_contacts_tool''"

definition contact_ready :: "toolset \<Rightarrow> bool" where
  "contact_ready ts = ({''crm_query_tool'', ''crm_action_tool''} \<subseteq> set (map fst (st_crm ts)))"

text \<open>\<open>"description" in fields\<close> and \<open>fields["description"]\<close> on whatever the value is.\<close>

fun mentions_description :: "py \<Rightarrow> bool result" where
  "mentions_description (PDict d) = Inr (has_key ''description'' d)"
| "mentions_description (PList xs) = Inr (PStr ''description'' \<in> set xs)"
| "mentions_description (PStr s) = Inr (py_contains ''description'' s)"
| "mentions_description _ = Inl (TypeError ''not iterable'')"

fun description_of :: "py \<Rightarrow> py result" where
  "description_of (PDict d) = Inr (pget d ''description'')"
| "description_of _ = Inl (TypeError ''indices must be integers'')"

definition guard_contact_description :: "string \<Rightarrow> interceptor" where
  "guard_contact_description user_input spec args =
     res_bind (get_method (por (pget args ''data_json'') (PDict []))) (\<lambda>data.
       let flds = por (pget data ''fields'') (PDict []) in
       if ts_name spec = ''crm_action_tool'' \<and> py_lower (str_or (pget args ''module'')) = ''accounts''
       then res_bind (mentions_description flds) (\<lambda>m.
         if m then res_bind (description_of flds) (\<lambda>d.
           Inr (if contact_form_misroute (py_str d) user_input then Some (PDict related_contacts_response) else None))
         else Inr None)
       else Inr None)"

definition guarded_toolset :: "string \<Rightarrow> toolset \<Rightarrow> toolset" where
  "guarded_toolset user_input ts = (if contact_ready ts
     then ts\<lparr>st_interceptors := guard_contact_description user_input # st_interceptors ts\<rparr> else ts)"

definition turn_names :: "toolset \<Rightarrow> string list" where
  "turn_names ts = (if contact_ready ts \<and> contact_tool_name \<notin> set (tool_names ts)
     then sort_key (\<lambda>n. (prompt_rank n, n)) (contact_tool_name # tool_names ts) else tool_names ts)"

section \<open>The world of a turn\<close>

record turn_world =
  tw_provider :: provider_state
  tw_requests :: "call_request list"
  tw_calls :: nat
  tw_model_calls :: nat

text \<open>
  \<open>ToolSet.invoke\<close>: an observation of the CRM, or of an unknown name, is dumped as JSON, the
  answer of a native tool is its text. \<open>envs i\<close> is what call number \<open>i\<close> of the turn meets.
\<close>

definition observation_text :: "toolset \<Rightarrow> string \<Rightarrow> py \<Rightarrow> string" where
  "observation_text ts n v = (if map_of (st_crm ts) n = None \<and> map_of (st_native ts) n \<noteq> None
     then py_str v else json_text json_readable v)"

definition turn_invoke :: "(nat \<Rightarrow> call_env) \<Rightarrow> toolset \<Rightarrow> turn_world invoker" where
  "turn_invoke envs ts n args w = (case invoke (envs (tw_calls w)) ts n args (tw_provider w) of (e, rqs, p) \<Rightarrow>
     (case e of
        Observed v \<Rightarrow> Answered (observation_text ts n v)
      | Raised x \<Rightarrow> Failed x
      | CallCancelled \<Rightarrow> Abandoned,
      w\<lparr>tw_provider := p, tw_requests := tw_requests w @ rqs, tw_calls := Suc (tw_calls w)\<rparr>))"

text \<open>The libraries of a turn: the language model, \<open>json_repair\<close>, \<open>urlparse\<close>, and the argument schema of the contact tool.\<close>

record turn_libs =
  tl_model :: "message list \<Rightarrow> nat \<Rightarrow> string list \<times> bool"
  tl_repair :: "string \<Rightarrow> py result"
  tl_repair_text :: "string \<Rightarrow> string result"
  tl_urlparse :: url_parts
  tl_candidates :: "pydict \<Rightarrow> contact_candidate list result"

definition turn_tool ::
  "turn_libs \<Rightarrow> (nat \<Rightarrow> call_env) \<Rightarrow> pydict \<Rightarrow> toolset \<Rightarrow> string \<Rightarrow> pydict \<Rightarrow> turn_world \<Rightarrow> tool_end \<times> turn_world" where
  "turn_tool libs envs ctx ts n args w =
     (if n = contact_tool_name \<and> contact_ready ts \<and> map_of (st_crm ts) n = None
      then (case tl_candidates libs args of
          Inl e \<Rightarrow> (Failed e, w)
        | Inr cs \<Rightarrow> prepare_company_contacts_tool (turn_invoke envs ts) (tl_urlparse libs) ctx cs w)
      else turn_invoke envs ts n args w)"

definition turn_env ::
  "turn_libs \<Rightarrow> (nat \<Rightarrow> call_env) \<Rightarrow> pydict \<Rightarrow> string \<Rightarrow> toolset \<Rightarrow> bool \<Rightarrow> nat \<Rightarrow> turn_world agent_env" where
  "turn_env libs envs ctx user_input ts streaming limit =
     (let gts = guarded_toolset user_input ts in
      \<lparr>ag_llm = (\<lambda>ms w. (tl_model libs ms (tw_model_calls w), w\<lparr>tw_model_calls := Suc (tw_model_calls w)\<rparr>)),
       ag_tools = map (\<lambda>n. (n, turn_tool libs envs ctx gts n)) (turn_names gts),
       ag_repair = tl_repair libs, ag_repair_text = tl_repair_text libs,
       ag_emit = streaming, ag_max_iterations = limit\<rparr>)"

section \<open>Lemmas\<close>

text \<open>A request that cannot change anything in the CRM.\<close>

definition harmless :: "toolset \<Rightarrow> call_request \<Rightarrow> bool" where
  "harmless ts rq = (\<exists>n spec. map_of (st_crm ts) n = Some spec \<and> rq_tool rq = ts_name spec \<and> rq_token rq = None
     \<and> (rq_mode rq = Execute \<longrightarrow> read_only (ts_annotations spec)))"

definition harmless_world :: "toolset \<Rightarrow> turn_world \<Rightarrow> bool" where
  "harmless_world ts w = (\<forall>rq \<in> set (tw_requests w). harmless ts rq)"

lemma turn_invoke_keeps: "tool_keeps (harmless_world ts) (turn_invoke envs ts) n"
proof -
  have "harmless_world ts (snd (turn_invoke envs ts n args w))" if "harmless_world ts w" for args w
  proof -
    obtain e rqs p where i: "invoke (envs (tw_calls w)) ts n args (tw_provider w) = (e, rqs, p)" by (rule prod_cases3)
    from invoke_requests [OF i] have "\<forall>rq \<in> set rqs. harmless ts rq" unfolding harmless_def by blast
    with that show ?thesis by (auto simp: turn_invoke_def i harmless_world_def)
  qed
  then show ?thesis by (simp add: tool_keeps_def)
qed

lemma turn_tool_keeps:
  assumes "harmless_world ts w"
  shows "harmless_world ts (snd (turn_tool libs envs ctx ts n args w))"
proof (cases "n = contact_tool_name \<and> contact_ready ts \<and> map_of (st_crm ts) n = None")
  case True
  have e: "turn_tool libs envs ctx ts n args w = (case tl_candidates libs args of
      Inl e \<Rightarrow> (Failed e, w)
    | Inr cs \<Rightarrow> prepare_company_contacts_tool (turn_invoke envs ts) (tl_urlparse libs) ctx cs w)"
    unfolding turn_tool_def using True by (rule if_P)
  show ?thesis
  proof (cases "tl_candidates libs args")
    case (Inl e)
    with assms show ?thesis by (simp add: e)
  next
    case (Inr cs)
    from contact_tool_keeps [OF turn_invoke_keeps turn_invoke_keeps assms] Inr
    show ?thesis by (simp add: e)
  qed
next
  case False
  with turn_invoke_keeps [of ts envs n] assms show ?thesis
    unfolding turn_tool_def by (simp only: if_False tool_keeps_def)
qed

lemma guarded_crm [simp]: "st_crm (guarded_toolset u ts) = st_crm ts"
  by (simp add: guarded_toolset_def)

lemma harmless_guarded [simp]: "harmless_world (guarded_toolset u ts) = harmless_world ts"
  by (simp add: harmless_world_def harmless_def fun_eq_iff)

lemma turn_env_keeps: "keeps_world (turn_env libs envs ctx u ts streaming limit) (harmless_world ts)"
  using turn_tool_keeps [of "guarded_toolset u ts"]
  by (auto simp: keeps_world_def turn_env_def Let_def) (simp add: harmless_world_def)

section \<open>Properties\<close>

text \<open>
  C3: A whole chat turn cannot write to the CRM. Whatever the model answers, whatever the CRM
  and the web return and however calls fail, every request that left the gateway during the
  turn, also those of the contact tool, names a tool of the turn's toolset, carries no
  confirmation token, and runs in execute mode only when the manifest declares the tool
  read-only.
\<close>
theorem agent_turn_never_writes:
  assumes "run_agent (turn_env libs envs ctx user_input ts streaming limit) ms w = (r, st)"
    and "tw_requests w = []" and "rq \<in> set (tw_requests (st_world st))"
  shows "\<exists>n spec. map_of (st_crm ts) n = Some spec \<and> rq_tool rq = ts_name spec \<and> rq_token rq = None
    \<and> (rq_mode rq = Execute \<longrightarrow> read_only (ts_annotations spec))"
proof -
  have "harmless_world ts w" using assms(2) by (simp add: harmless_world_def)
  from run_agent_world [OF turn_env_keeps this, of libs envs ctx user_input streaming limit ms] assms(1,3)
  have "harmless ts rq" by (simp add: harmless_world_def)
  then show ?thesis by (simp add: harmless_def)
qed

definition demo_turn_libs :: turn_libs where
  "demo_turn_libs = \<lparr>tl_model = (\<lambda>ms n. (if n = 0
       then [quoted ''<tool_call>{|name|: |crm_action_tool|, |args|: {|action|: |update|}}</tool_call>''] else [''<answer>Hotovo</answer>''], False)),
     tl_repair = (\<lambda>_. Inl (OtherError ''repair'')), tl_repair_text = (\<lambda>_. Inl (OtherError ''repair'')),
     tl_urlparse = (\<lambda>_. Inr (''https'', Some ''acme.cz'')), tl_candidates = (\<lambda>_. Inr [])\<rparr>"

definition demo_world :: turn_world where
  "demo_world = \<lparr>tw_provider = demo_state, tw_requests = [], tw_calls = 0, tw_model_calls = 0\<rparr>"

definition demo_turn :: "string result \<times> turn_world agent_state" where
  "demo_turn = run_agent (turn_env demo_turn_libs (\<lambda>_. demo_env) [] ''uprav firmu'' demo_toolset False 3)
     [SystemMsg ''s''] demo_world"

theorem agent_turn_never_writes_witness:
  "map rq_tool (tw_requests (st_world (snd demo_turn))) = [''crm_action_tool'']
   \<and> map rq_token (tw_requests (st_world (snd demo_turn))) = [None]"
proof -
  let ?rqs = "tw_requests (st_world (snd demo_turn))"
  have m: "map rq_tool ?rqs = [''crm_action_tool'']" by code_simp
  then obtain rq where rq: "?rqs = [rq]" by auto
  obtain r st where t: "demo_turn = (r, st)" by (cases demo_turn)
  have "tw_requests demo_world = []" by (simp add: demo_world_def)
  moreover from rq have "tw_requests (st_world st) = [rq]" unfolding t snd_conv .
  then have "rq \<in> set (tw_requests (st_world st))" by simp
  ultimately have "rq_token rq = None" using agent_turn_never_writes [OF t [unfolded demo_turn_def]] by blast
  with m rq show ?thesis by simp
qed

end
