(* ===== verification/Nonce_Store.thy ===== *)
theory Nonce_Store
  imports Py_Value
begin

text \<open>
  Replay protection (\<open>app/core/nonce_store.py\<close>): what every nonce store promises, as a locale
  with the replay theorem proved once, and its two implementations, the dictionary of one
  process and the PostgreSQL table that all workers share.
\<close>

section \<open>The contract\<close>

text \<open>
  \<open>remembers s scope nonce u\<close>: the state refuses the pair at every time before \<open>u\<close>; \<open>valid\<close>
  is the invariant of the store's data. A registration is a time, a scope, a nonce and a
  lifetime.
\<close>

type_synonym registration = "rat \<times> string \<times> string \<times> rat"

locale nonce_store =
  fixes register :: "rat \<Rightarrow> string \<Rightarrow> string \<Rightarrow> rat \<Rightarrow> 's \<Rightarrow> bool \<times> 's"
    and remembers :: "'s \<Rightarrow> string \<Rightarrow> string \<Rightarrow> rat \<Rightarrow> bool"
    and valid :: "'s \<Rightarrow> bool"
  assumes valid_kept: "valid s \<Longrightarrow> valid (snd (register now scope nonce ttl s))"
    and fresh_remembered: "valid s \<Longrightarrow> 0 < ttl \<Longrightarrow> register now scope nonce ttl s = (True, s') \<Longrightarrow>
       remembers s' scope nonce (now + ttl)"
    and remembered_refused: "valid s \<Longrightarrow> remembers s scope nonce u \<Longrightarrow> now < u \<Longrightarrow>
       \<not> fst (register now scope nonce ttl s)"
    and remembered_kept: "valid s \<Longrightarrow> remembers s scope nonce u \<Longrightarrow> now < u \<Longrightarrow>
       remembers (snd (register now scope' nonce' ttl s)) scope nonce u"
begin

fun register_all :: "registration list \<Rightarrow> 's \<Rightarrow> 's" where
  "register_all [] s = s"
| "register_all ((now, scope, nonce, ttl) # rs) s = register_all rs (snd (register now scope nonce ttl s))"

lemma remembered_all:
  "valid s \<Longrightarrow> remembers s scope nonce u \<Longrightarrow> \<forall>r \<in> set rs. fst r < u \<Longrightarrow>
   valid (register_all rs s) \<and> remembers (register_all rs s) scope nonce u"
  by (induction rs arbitrary: s) (auto simp: remembered_kept valid_kept)

lemma replay_refused:
  assumes "valid s0" and "0 < ttl" and r: "register t0 scope nonce ttl s0 = (True, s1)"
    and "\<forall>r \<in> set rs. fst r < t0 + ttl" and "t1 < t0 + ttl"
  shows "\<not> fst (register t1 scope nonce ttl' (register_all rs s1))"
proof -
  have v: "valid s1" using valid_kept [OF assms(1), of t0 scope nonce ttl] r by simp
  from remembered_all [OF v fresh_remembered [OF assms(1,2) r] assms(4)] assms(5)
  show ?thesis by (intro remembered_refused) auto
qed

end

section \<open>The store of one process\<close>

type_synonym memory_nonces = "((string \<times> string) \<times> rat) list"

definition prune_threshold :: nat where "prune_threshold = 1024"

definition memory_prune :: "rat \<Rightarrow> memory_nonces \<Rightarrow> memory_nonces" where
  "memory_prune now seen =
     (if length seen > prune_threshold then filter (\<lambda>kv. \<not> snd kv \<le> now) seen else seen)"

definition memory_register :: "rat \<Rightarrow> string \<Rightarrow> string \<Rightarrow> rat \<Rightarrow> memory_nonces \<Rightarrow> bool \<times> memory_nonces" where
  "memory_register now scope nonce ttl seen0 =
     (let seen = memory_prune now seen0; key = (scope, nonce) in
      if dget_default seen key 0 > now then (False, seen) else (True, dput key (now + ttl) seen))"

text \<open>The keys of a dict are distinct; pruning keeps that and drops only expired entries.\<close>

definition memory_valid :: "memory_nonces \<Rightarrow> bool" where
  "memory_valid seen = distinct (map fst seen)"

definition memory_remembers :: "memory_nonces \<Rightarrow> string \<Rightarrow> string \<Rightarrow> rat \<Rightarrow> bool" where
  "memory_remembers seen scope nonce u =
     (case map_of seen (scope, nonce) of Some e \<Rightarrow> u \<le> e | None \<Rightarrow> False)"

lemma map_of_filter_distinct:
  "distinct (map fst d) \<Longrightarrow> map_of d k = Some v \<Longrightarrow> P (k, v) \<Longrightarrow> map_of (filter P d) k = Some v"
  by (induction d) (auto split: if_splits dest: map_of_SomeD)

lemma memory_valid_prune: "memory_valid d \<Longrightarrow> memory_valid (memory_prune now d)"
  by (simp add: memory_valid_def memory_prune_def distinct_map_filter)

lemma prune_remembers:
  assumes "memory_valid seen" and "memory_remembers seen scope nonce u" and "now < u"
  shows "memory_remembers (memory_prune now seen) scope nonce u"
proof -
  from assms(2) obtain e where e: "map_of seen (scope, nonce) = Some e" "u \<le> e"
    by (auto simp: memory_remembers_def split: option.splits)
  have "map_of (filter (\<lambda>kv. \<not> snd kv \<le> now) seen) (scope, nonce) = Some e"
    by (rule map_of_filter_distinct) (use assms e in \<open>auto simp: memory_valid_def\<close>)
  with e show ?thesis by (simp add: memory_remembers_def memory_prune_def)
qed

interpretation memory: nonce_store memory_register memory_remembers memory_valid
proof unfold_locales
  fix now scope nonce and ttl :: rat and s :: memory_nonces
  assume "memory_valid s"
  then show "memory_valid (snd (memory_register now scope nonce ttl s))"
    using memory_valid_prune [of s now]
    by (auto simp: memory_register_def Let_def memory_valid_def)
next
  fix now scope nonce ttl and s s' :: memory_nonces
  assume "memory_register now scope nonce ttl s = (True, s')"
  then show "memory_remembers s' scope nonce (now + ttl)"
    by (auto simp: memory_register_def memory_remembers_def Let_def split: if_splits)
next
  fix s scope nonce and u now ttl :: rat
  assume "memory_valid s" "memory_remembers s scope nonce u" "now < u"
  then have "memory_remembers (memory_prune now s) scope nonce u" by (rule prune_remembers)
  with \<open>now < u\<close> show "\<not> fst (memory_register now scope nonce ttl s)"
    by (auto simp: memory_remembers_def memory_register_def dget_default_def Let_def split: option.splits)
next
  fix s scope nonce scope' nonce' and u now ttl :: rat
  assume "memory_valid s" "memory_remembers s scope nonce u" "now < u"
  then have "memory_remembers (memory_prune now s) scope nonce u" by (rule prune_remembers)
  with \<open>now < u\<close> show "memory_remembers (snd (memory_register now scope' nonce' ttl s)) scope nonce u"
    by (cases "(scope, nonce) = (scope', nonce')")
      (auto simp: memory_remembers_def memory_register_def dget_default_def Let_def split: option.splits)
qed

section \<open>The store all workers share\<close>

text \<open>
  One atomic upsert: the row is written when it is absent or expired, and then the statement
  returns it. Key id and nonce are cut to the 200 characters of their columns. Whether the
  expired rows are pruned afterwards is a coin toss, the argument \<open>prune\<close>.
\<close>

type_synonym nonce_table = "(string \<times> string) \<rightharpoonup> rat"

definition upsert_nonce :: "rat \<Rightarrow> string \<Rightarrow> string \<Rightarrow> rat \<Rightarrow> nonce_table \<Rightarrow> bool \<times> nonce_table" where
  "upsert_nonce now scope nonce ttl tb =
     (let key = (take 200 scope, take 200 nonce) in
      case tb key of
        None \<Rightarrow> (True, tb(key \<mapsto> now + ttl))
      | Some e \<Rightarrow> if e \<le> now then (True, tb(key \<mapsto> now + ttl)) else (False, tb))"

definition prune_table :: "rat \<Rightarrow> nonce_table \<Rightarrow> nonce_table" where
  "prune_table now tb = (\<lambda>k. case tb k of Some e \<Rightarrow> if e \<le> now then None else Some e | None \<Rightarrow> None)"

definition database_register ::
  "(rat \<Rightarrow> bool) \<Rightarrow> rat \<Rightarrow> string \<Rightarrow> string \<Rightarrow> rat \<Rightarrow> nonce_table \<Rightarrow> bool \<times> nonce_table" where
  "database_register prune now scope nonce ttl tb =
     (case upsert_nonce now scope nonce ttl tb of (fresh, tb') \<Rightarrow>
        (fresh, if prune now then prune_table now tb' else tb'))"

definition table_remembers :: "nonce_table \<Rightarrow> string \<Rightarrow> string \<Rightarrow> rat \<Rightarrow> bool" where
  "table_remembers tb scope nonce u = (\<exists>e. tb (take 200 scope, take 200 nonce) = Some e \<and> u \<le> e)"

lemma prune_table_keeps: "tb k = Some e \<Longrightarrow> now < e \<Longrightarrow> prune_table now tb k = Some e"
  by (simp add: prune_table_def)

lemma upsert_keeps:
  assumes "tb k = Some e" and "now < e"
  shows "snd (upsert_nonce now scope nonce ttl tb) k = Some e"
proof (cases "(take 200 scope, take 200 nonce) = k")
  case True
  with assms show ?thesis by (simp add: upsert_nonce_def)
next
  case False
  then show ?thesis using assms(1) by (auto simp: upsert_nonce_def Let_def split: option.split)
qed

lemma database_keeps:
  "tb k = Some e \<Longrightarrow> now < e \<Longrightarrow> snd (database_register prune now scope nonce ttl tb) k = Some e"
  using upsert_keeps [of tb k e now scope nonce ttl]
  by (auto simp: database_register_def split: prod.split intro: prune_table_keeps)

interpretation database: nonce_store "database_register prune" table_remembers "\<lambda>tb. True" for prune
proof unfold_locales
  fix now scope nonce and ttl :: rat and s s' :: nonce_table
  assume p: "0 < ttl" and r: "database_register prune now scope nonce ttl s = (True, s')"
  obtain f tb where u: "upsert_nonce now scope nonce ttl s = (f, tb)" by fastforce
  with r have f: "f" "s' = (if prune now then prune_table now tb else tb)"
    by (auto simp: database_register_def)
  with u have "tb (take 200 scope, take 200 nonce) = Some (now + ttl)"
    by (auto simp: upsert_nonce_def Let_def split: option.splits if_splits)
  with p f(2) show "table_remembers s' scope nonce (now + ttl)"
    by (auto simp: table_remembers_def intro!: prune_table_keeps)
next
  fix s scope nonce and u now ttl :: rat
  assume "table_remembers s scope nonce u" "now < u"
  then show "\<not> fst (database_register prune now scope nonce ttl s)"
    by (auto simp: table_remembers_def database_register_def upsert_nonce_def Let_def)
next
  fix s scope nonce scope' nonce' and u now ttl :: rat
  assume a: "table_remembers s scope nonce u" "now < u"
  then obtain e where e: "s (take 200 scope, take 200 nonce) = Some e" "u \<le> e" by (auto simp: table_remembers_def)
  with a(2) have "now < e" by simp
  with e(1) have "snd (database_register prune now scope' nonce' ttl s) (take 200 scope, take 200 nonce) = Some e"
    by (rule database_keeps)
  with e(2) show "table_remembers (snd (database_register prune now scope' nonce' ttl s)) scope nonce u"
    by (auto simp: table_remembers_def)
qed simp_all

section \<open>Which store\<close>

definition dev_environments :: "string list" where
  "dev_environments = [''dev'', ''development'', ''test'', ''local'']"

definition uses_database :: "string \<Rightarrow> string \<Rightarrow> bool" where
  "uses_database nonce_mode environment =
     (let sor2 = (\<lambda>a b. if a = [] then b else a);
          m = py_lower (py_strip (sor2 nonce_mode ''auto''));
          env = py_lower (py_strip (sor2 environment ''dev''))
      in (if m = ''auto'' then env \<notin> set dev_environments else m = ''database''))"

end
