(* ===== verification/Request_Auth.thy ===== *)
theory Request_Auth
  imports Nonce_Store Json Text_Utils
begin

text \<open>
  Authentication of requests: the stored CRM token (\<open>app/core/crm_token.py\<close>), the signature
  check of a request (\<open>app/core/security.py\<close>) and the stream token
  (\<open>app/core/stream_token.py\<close>). The keyed hash is the argument \<open>mac\<close>: it takes a key and a
  message and gives the text of the signature (base64 in a request, hex in a token).
  Nothing is assumed of it. Text stands for its UTF-8 bytes.
\<close>

section \<open>The stored token of a tenant\<close>

definition crm_auth :: "string \<Rightarrow> string \<Rightarrow> pydict" where
  "crm_auth key_id secret = [(''mode'', PStr ''coripo_public''), (''hmac_key_id'', PStr key_id),
     (''hmac_secret'', PStr secret)]"

definition parse_crm_token :: "string \<Rightarrow> pydict" where
  "parse_crm_token token0 = (let token = py_strip token0 in
     if token = [] then []
     else if py_startswith token ''{'' then
       (case json_loads token of
          Inr (PDict d) \<Rightarrow>
            if \<not> has_key ''hmac_secret'' d \<and> \<not> has_key ''session_id'' d \<and> \<not> has_key ''sid'' d
               \<and> length d = 1 \<and> py_strip (fst (hd d)) \<noteq> [] \<and> text_of (snd (hd d)) \<noteq> []
            then crm_auth (py_strip (fst (hd d))) (text_of (snd (hd d)))
            else d
        | _ \<Rightarrow> [])
     else (case split_first (CHR '':'') token of
             (k, Some sec) \<Rightarrow> if py_strip k \<noteq> [] \<and> py_strip sec \<noteq> []
               then crm_auth (py_strip k) (py_strip sec) else []
           | (_, None) \<Rightarrow> []))"

definition build_crm_token :: "string \<Rightarrow> string \<Rightarrow> string" where
  "build_crm_token key_id secret = json_text json_compact (PDict (crm_auth key_id secret))"

section \<open>The authorization header\<close>

text \<open>
  \<open>HMAC_AUTH_PATTERN\<close>, any case: \<open>HMAC\<close>, white space, \<open>keyId=\<close>, a run without commas, a
  comma, optional white space, \<open>signature=\<close> and at least one more character up to the end of
  the line.
\<close>

record hmac_header =
  hh_key_id :: string
  hh_signature :: string

definition drop_ws :: "string \<Rightarrow> string" where "drop_ws s = dropWhile py_isspace s"

definition parse_hmac_authorization :: "string \<Rightarrow> hmac_header option" where
  "parse_hmac_authorization v = (let s = py_strip v in
     if \<not> ci_startswith s ''hmac'' then None
     else (let r = drop 4 s in
       if r = [] \<or> \<not> py_isspace (hd r) \<or> \<not> ci_startswith (drop_ws r) ''keyid='' then None
       else (case split_first (CHR '','') (drop 6 (drop_ws r)) of
           (_, None) \<Rightarrow> None
         | (kid, Some rest) \<Rightarrow>
             if kid = [] \<or> \<not> ci_startswith (drop_ws rest) ''signature='' then None
             else (let sig = drop 10 (drop_ws rest) in
               if sig = [] \<or> CHR 0x0A \<in> set sig then None
               else Some \<lparr>hh_key_id = py_strip kid, hh_signature = py_strip sig\<rparr>))))"

section \<open>The signature of a request\<close>

record hmac_settings =
  max_skew :: int
  bind_identity :: bool

record signed_request =
  sr_method :: string
  sr_path :: string
  sr_original_path :: "string option"
  sr_body :: string
  sr_authorization :: "string option"
  sr_timestamp :: "string option"
  sr_nonce :: "string option"
  sr_query :: string
  sr_tenant :: "string option"
  sr_user :: "string option"

datatype sig_format = Bound | Legacy

definition upper_char :: "char \<Rightarrow> char" where
  "upper_char c = (if is_az c then char_of (of_char c - 32 :: nat) else c)"

definition opt_text :: "string option \<Rightarrow> string" where
  "opt_text x = (case x of Some s \<Rightarrow> s | None \<Rightarrow> [])"

text \<open>The HTTP method is ASCII. \<open>tenant or ""\<close> and \<open>user_id or ""\<close> are what is signed.\<close>

definition signing_input :: "sig_format \<Rightarrow> signed_request \<Rightarrow> string \<Rightarrow> string" where
  "signing_input fmt r path = (case fmt of
     Legacy \<Rightarrow> py_join nl [map upper_char (sr_method r), path, opt_text (sr_timestamp r),
        opt_text (sr_nonce r), sr_body r]
   | Bound \<Rightarrow> py_join nl [map upper_char (sr_method r), path, opt_text (sr_timestamp r),
        opt_text (sr_nonce r), sr_query r, opt_text (sr_tenant r), opt_text (sr_user r), sr_body r])"

definition add_candidate :: "string list \<Rightarrow> string \<Rightarrow> string list" where
  "add_candidate ps v = (if v \<noteq> [] \<and> v \<notin> set ps then ps @ [v] else ps)"

definition candidate_paths :: "signed_request \<Rightarrow> string list" where
  "candidate_paths r =
     (let ps = add_candidate (add_candidate [] (py_strip (sr_path r))) (py_strip (opt_text (sr_original_path r)))
      in if sr_path r \<noteq> [] \<and> \<not> py_startswith (sr_path r) ''/v1/''
         then add_candidate ps (''/v1'' @ sr_path r) else ps)"

definition sig_formats :: "hmac_settings \<Rightarrow> signed_request \<Rightarrow> sig_format list" where
  "sig_formats st r = filter (\<lambda>f. \<not> (f = Bound \<and> sr_tenant r = None \<and> sr_user r = None))
     (if bind_identity st then [Bound] else [Bound, Legacy])"

definition signature_matches ::
  "(string \<Rightarrow> string \<Rightarrow> string) \<Rightarrow> string \<Rightarrow> hmac_settings \<Rightarrow> signed_request \<Rightarrow> string \<Rightarrow> bool" where
  "signature_matches mac key st r sig =
     list_ex (\<lambda>p. list_ex (\<lambda>f. mac key (signing_input f r p) = sig) (sig_formats st r)) (candidate_paths r)"

text \<open>\<open>_verify_signature\<close>; \<open>keys\<close> maps a key id to its secret and \<open>now\<close> is \<open>time.time()\<close>.\<close>

definition verify_signature ::
  "(string \<Rightarrow> string \<Rightarrow> string) \<Rightarrow> hmac_settings \<Rightarrow> rat \<Rightarrow> (string \<rightharpoonup> string) \<Rightarrow> signed_request \<Rightarrow> hmac_header option" where
  "verify_signature mac st now keys r = (case parse_hmac_authorization (opt_text (sr_authorization r)) of
     None \<Rightarrow> None
   | Some h \<Rightarrow>
       if opt_text (sr_timestamp r) = [] \<or> opt_text (sr_nonce r) = [] then None
       else (case int_of_text (opt_text (sr_timestamp r)) of
         None \<Rightarrow> None
       | Some ts \<Rightarrow>
           if \<bar>\<lfloor>now\<rfloor> - ts\<bar> > max_skew st then None
           else (case keys (hh_key_id h) of
             None \<Rightarrow> None
           | Some key \<Rightarrow>
               if key = [] then None
               else if bind_identity st \<and> (sr_tenant r = None \<or> sr_user r = None) then None
               else if signature_matches mac key st r (hh_signature h) then Some h else None)))"

text \<open>
  The nonce is registered only after the signature is verified, for twice the skew, under
  the key id. \<open>register\<close> is the nonce store of the deployment.
\<close>

definition verify_hmac_request ::
  "(rat \<Rightarrow> string \<Rightarrow> string \<Rightarrow> rat \<Rightarrow> 's \<Rightarrow> bool \<times> 's) \<Rightarrow> (string \<Rightarrow> string \<Rightarrow> string) \<Rightarrow> hmac_settings
     \<Rightarrow> rat \<Rightarrow> (string \<rightharpoonup> string) \<Rightarrow> signed_request \<Rightarrow> 's \<Rightarrow> bool \<times> 's" where
  "verify_hmac_request register mac st now keys r s = (case verify_signature mac st now keys r of
     None \<Rightarrow> (False, s)
   | Some h \<Rightarrow> register now (hh_key_id h) (opt_text (sr_nonce r)) (of_int (max_skew st * 2)) s)"

section \<open>Stream tokens\<close>

text \<open>
  \<open>b64\<close> and \<open>unb64\<close> are the base64 codec. A token is the encoded JSON payload, a dot and the
  hex signature of the encoded text.
\<close>

definition stream_payload :: "string \<Rightarrow> string \<Rightarrow> string \<Rightarrow> string \<Rightarrow> rat \<Rightarrow> string \<Rightarrow> pydict" where
  "stream_payload tenant user_id user_name key_id now nonce =
     [(''tenant'', PStr tenant), (''user_id'', PStr user_id), (''user_name'', PStr user_name),
      (''key_id'', PStr key_id), (''exp'', PInt (\<lfloor>now\<rfloor> + 60)), (''nonce'', PStr nonce)]"

definition json_stream :: json_style where
  "json_stream = \<lparr>js_ascii = False, js_item_sep = '','', js_key_sep = '':''\<rparr>"

definition create_stream_token ::
  "(string \<Rightarrow> string \<Rightarrow> string) \<Rightarrow> (string \<Rightarrow> string) \<Rightarrow> string \<Rightarrow> pydict \<Rightarrow> string" where
  "create_stream_token mac b64 secret payload =
     (let p = b64 (json_text json_stream (PDict payload)) in p @ ''.'' @ mac secret p)"

text \<open>\<open>token.rsplit(".", 1)\<close>; without a dot the unpacking raises.\<close>

definition rsplit_dot :: "string \<Rightarrow> (string \<times> string) option" where
  "rsplit_dot t = (case split_first (CHR ''.'') (rev t) of
     (_, None) \<Rightarrow> None | (a, Some b) \<Rightarrow> Some (rev b, rev a))"

definition decode_payload :: "(string \<Rightarrow> string option) \<Rightarrow> string \<Rightarrow> py result" where
  "decode_payload unb64 p = (case unb64 p of
     None \<Rightarrow> Inl (ValueError ''Malformed token: cannot decode payload'')
   | Some t \<Rightarrow> (case json_loads t of Inr v \<Rightarrow> Inr v
       | Inl _ \<Rightarrow> Inl (ValueError ''Malformed token: cannot decode payload'')))"

definition peek_stream_token_claims :: "(string \<Rightarrow> string option) \<Rightarrow> string \<Rightarrow> pydict result" where
  "peek_stream_token_claims unb64 token = (case rsplit_dot token of
     None \<Rightarrow> Inl (ValueError ''Malformed token: cannot decode payload'')
   | Some (p, _) \<Rightarrow> (case decode_payload unb64 p of
       Inr (PDict d) \<Rightarrow> Inr d
     | Inr _ \<Rightarrow> Inl (ValueError ''Malformed token: cannot decode payload'')
     | Inl e \<Rightarrow> Inl e))"

definition verify_stream_token ::
  "(string \<Rightarrow> string \<Rightarrow> string) \<Rightarrow> (string \<Rightarrow> string option) \<Rightarrow> rat \<Rightarrow> (string \<rightharpoonup> string) \<Rightarrow> string
     \<Rightarrow> (pydict \<times> string) result" where
  "verify_stream_token mac unb64 now keys token = (case rsplit_dot token of
     None \<Rightarrow> Inl (ValueError ''Malformed token: missing signature separator'')
   | Some (p, sig) \<Rightarrow> res_bind (decode_payload unb64 p) (\<lambda>v. case v of
       PDict d \<Rightarrow>
         (let key_id = py_str (dget_default d ''key_id'' (PStr [])) in
          case keys key_id of
            None \<Rightarrow> Inl (ValueError ''Unknown key_id in stream token'')
          | Some secret \<Rightarrow>
              if secret = [] then Inl (ValueError ''Unknown key_id in stream token'')
              else if sig \<noteq> mac secret p then Inl (ValueError ''Invalid token signature'')
              else res_bind (py_int (dget_default d ''exp'' (PInt 0))) (\<lambda>ex.
                if \<lfloor>now\<rfloor> > ex then Inl (ValueError ''Token expired'') else Inr (d, key_id)))
     | _ \<Rightarrow> Inl (AttributeError ''get'')))"

definition stream_identity :: "pydict \<Rightarrow> string \<times> string \<times> string" where
  "stream_identity d = (py_str (dget_default d ''tenant'' (PStr [])),
     py_str (dget_default d ''user_id'' (PStr [])), str_or (dget_default d ''user_name'' (PStr [])))"

definition stream_nonce :: "pydict \<Rightarrow> string" where
  "stream_nonce d = py_str (dget_default d ''nonce'' (PStr []))"

definition validate_stream_token ::
  "(rat \<Rightarrow> string \<Rightarrow> string \<Rightarrow> rat \<Rightarrow> 's \<Rightarrow> bool \<times> 's) \<Rightarrow> (string \<Rightarrow> string \<Rightarrow> string) \<Rightarrow> (string \<Rightarrow> string option)
     \<Rightarrow> rat \<Rightarrow> (string \<rightharpoonup> string) \<Rightarrow> string \<Rightarrow> 's \<Rightarrow> (string \<times> string \<times> string) result \<times> 's" where
  "validate_stream_token register mac unb64 now keys token s =
     (case verify_stream_token mac unb64 now keys token of
        Inl e \<Rightarrow> (Inl e, s)
      | Inr (d, key_id) \<Rightarrow>
          (case register now (''stream:'' @ key_id) (stream_nonce d) 120 s of
             (True, s') \<Rightarrow> (Inr (stream_identity d), s')
           | (False, s') \<Rightarrow> (Inl (ValueError ''Token nonce already used (replay attack)''), s')))"

section \<open>Lemmas\<close>

lemma verify_signature_Some:
  "verify_signature mac st now keys r = Some h \<Longrightarrow>
   parse_hmac_authorization (opt_text (sr_authorization r)) = Some h \<and>
   (\<exists>ts key. int_of_text (opt_text (sr_timestamp r)) = Some ts \<and> \<bar>\<lfloor>now\<rfloor> - ts\<bar> \<le> max_skew st
     \<and> keys (hh_key_id h) = Some key \<and> key \<noteq> [] \<and> opt_text (sr_nonce r) \<noteq> []
     \<and> (bind_identity st \<longrightarrow> sr_tenant r \<noteq> None \<and> sr_user r \<noteq> None)
     \<and> signature_matches mac key st r (hh_signature h))"
  by (auto simp: verify_signature_def split: option.splits if_splits)

lemma verify_hmac_True:
  "verify_hmac_request register mac st now keys r s = (True, s') \<Longrightarrow>
   \<exists>h. verify_signature mac st now keys r = Some h \<and>
     register now (hh_key_id h) (opt_text (sr_nonce r)) (of_int (max_skew st * 2)) s = (True, s')"
  by (auto simp: verify_hmac_request_def split: option.splits)

lemma crm_auth_wf [simp]: "json_wf (PDict (crm_auth k s))"
  by (simp add: crm_auth_def)

lemma split_first_rev_dot:
  "CHR ''.'' \<notin> set b \<Longrightarrow> rsplit_dot (a @ CHR ''.'' # b) = Some (a, b)"
  by (simp add: rsplit_dot_def split_first_append)


lemma floor_mono_add: "t0 + of_int k \<le> t1 \<Longrightarrow> \<lfloor>t0\<rfloor> + k \<le> \<lfloor>t1 :: rat\<rfloor>"
proof -
  assume "t0 + of_int k \<le> t1"
  then have "\<lfloor>t0 + of_int k\<rfloor> \<le> \<lfloor>t1\<rfloor>" by (rule floor_mono)
  then show ?thesis by simp
qed

text \<open>A request outside the skew window is refused by the signature check.\<close>

lemma verify_signature_skew:
  "int_of_text (opt_text (sr_timestamp r)) = Some ts \<Longrightarrow> \<bar>\<lfloor>now\<rfloor> - ts\<bar> > max_skew st \<Longrightarrow>
   verify_signature mac st now keys r = None"
  by (auto simp: verify_signature_def split: option.splits)

lemma validate_stream_Inr:
  "validate_stream_token register mac unb64 now keys token s = (Inr w, s') \<Longrightarrow>
   \<exists>d key_id. verify_stream_token mac unb64 now keys token = Inr (d, key_id) \<and> w = stream_identity d
     \<and> register now (''stream:'' @ key_id) (stream_nonce d) 120 s = (True, s')"
  by (auto simp: validate_stream_token_def split: sum.splits prod.splits bool.splits)

lemma verify_stream_Inr:
  "verify_stream_token mac unb64 now keys token = Inr (d, key_id) \<Longrightarrow>
   \<exists>p sig secret ex. rsplit_dot token = Some (p, sig) \<and> decode_payload unb64 p = Inr (PDict d)
     \<and> key_id = py_str (dget_default d ''key_id'' (PStr [])) \<and> keys key_id = Some secret \<and> secret \<noteq> []
     \<and> sig = mac secret p \<and> py_int (dget_default d ''exp'' (PInt 0)) = Inr ex \<and> \<lfloor>now\<rfloor> \<le> ex"
proof -
  assume v: "verify_stream_token mac unb64 now keys token = Inr (d, key_id)"
  then obtain p sig where r: "rsplit_dot token = Some (p, sig)"
    by (auto simp: verify_stream_token_def split: option.splits)
  with v obtain w where w: "decode_payload unb64 p = Inr w"
    by (cases "decode_payload unb64 p") (auto simp: verify_stream_token_def)
  with v r obtain d0 where "w = PDict d0" by (cases w) (auto simp: verify_stream_token_def)
  with v r w show ?thesis
    by (auto simp: verify_stream_token_def res_bind_Inr Let_def split: option.splits if_splits)
qed

section \<open>Properties\<close>


definition demo_request :: signed_request where
  "demo_request = \<lparr>sr_method = ''post'', sr_path = ''/v1/chat'', sr_original_path = None, sr_body = ''hi'',
     sr_authorization = Some ''HMAC keyId=k1, signature=s3/POST/'', sr_timestamp = Some ''1000'',
     sr_nonce = Some ''n1'', sr_query = [], sr_tenant = Some ''acme'', sr_user = Some ''u1''\<rparr>"

definition demo_hmac :: hmac_settings where
  "demo_hmac = \<lparr>max_skew = 300, bind_identity = True\<rparr>"

definition demo_mac :: "string \<Rightarrow> string \<Rightarrow> string" where
  "demo_mac key msg = key @ ''/'' @ take 4 msg @ ''/''"

lemma demo_accepted: "fst (verify_hmac_request memory_register demo_mac demo_hmac 900 [''k1'' \<mapsto> ''s3''] demo_request [])"
  by code_simp


text \<open>
  C11: no replay inside the nonce's lifetime, and none ever for a request that is not stamped
  the full skew ahead. After a request was accepted with the shared store, whatever other
  requests the workers register in between, the same request is refused before its nonce
  expires; and if its time stamp is less than the skew ahead of the clock, it is refused
  forever.
\<close>

theorem request_replay_refused:
  assumes "verify_hmac_request (database_register prune) mac st t0 keys r tb = (True, tb1)"
    and "0 < max_skew st" and "int_of_text (opt_text (sr_timestamp r)) = Some ts"
    and "\<forall>x \<in> set others. fst x \<le> t1"
    and "t1 < t0 + of_int (max_skew st * 2) \<or> ts < \<lfloor>t0\<rfloor> + max_skew st"
  shows "\<not> fst (verify_hmac_request (database_register prune) mac st t1 keys r
            (database.register_all prune others tb1))"
proof (cases "t1 < t0 + of_int (max_skew st * 2)")
  case True
  from verify_hmac_True [OF assms(1)] obtain h where h: "verify_signature mac st t0 keys r = Some h"
    and reg: "database_register prune t0 (hh_key_id h) (opt_text (sr_nonce r)) (of_int (max_skew st * 2)) tb = (True, tb1)"
    by blast
  have "\<forall>x \<in> set others. fst x < t0 + of_int (max_skew st * 2)" using assms(4) True by force
  moreover have "0 < (of_int (max_skew st * 2) :: rat)" using assms(2) by simp
  ultimately have no: "\<not> fst (database_register prune t1 (hh_key_id h) (opt_text (sr_nonce r))
      (of_int (max_skew st * 2)) (database.register_all prune others tb1))"
    using database.replay_refused [OF TrueI _ reg] True by blast
  show ?thesis
  proof (cases "verify_signature mac st t1 keys r")
    case None
    then show ?thesis by (simp add: verify_hmac_request_def)
  next
    case (Some h')
    with verify_signature_Some [OF h] verify_signature_Some [OF Some] have "h' = h" by auto
    with Some no show ?thesis by (simp add: verify_hmac_request_def)
  qed
next
  case False
  then have "ts < \<lfloor>t0\<rfloor> + max_skew st" using assms(5) by blast
  moreover have "\<lfloor>t0\<rfloor> + max_skew st * 2 \<le> \<lfloor>t1\<rfloor>" by (rule floor_mono_add) (use False in simp)
  ultimately have "\<bar>\<lfloor>t1\<rfloor> - ts\<bar> > max_skew st" using assms(2) by linarith
  from verify_signature_skew [OF assms(3) this] show ?thesis by (simp add: verify_hmac_request_def)
qed

lemma demo_accepted_db:
  "fst (verify_hmac_request (database_register (\<lambda>t. True)) demo_mac demo_hmac 900 [''k1'' \<mapsto> ''s3''] demo_request Map.empty)"
  by code_simp

theorem request_replay_refused_witness:
  "\<exists>tb1. verify_hmac_request (database_register (\<lambda>t. True)) demo_mac demo_hmac 900 [''k1'' \<mapsto> ''s3''] demo_request Map.empty
      = (True, tb1) \<and>
    \<not> fst (verify_hmac_request (database_register (\<lambda>t. True)) demo_mac demo_hmac 950 [''k1'' \<mapsto> ''s3''] demo_request
        (database.register_all (\<lambda>t. True) [(910, ''k2'', ''n9'', 600)] tb1))"
proof -
  obtain tb1 where v: "verify_hmac_request (database_register (\<lambda>t. True)) demo_mac demo_hmac 900 [''k1'' \<mapsto> ''s3'']
      demo_request Map.empty = (True, tb1)"
    using demo_accepted_db by (metis (full_types) prod.collapse)
  have t: "int_of_text (opt_text (sr_timestamp demo_request)) = Some 1000" by code_simp
  from request_replay_refused [where ?t1.0 = 950 and others = "[(910, ''k2'', ''n9'', 600)]", OF v _ t] v show ?thesis
    by (simp add: demo_hmac_def)
qed

text \<open>
  The corner the first property leaves out is real. A request stamped the full skew ahead
  is accepted, and accepted again when it is replayed just after its nonce expired: the clock
  of the skew check is cut to whole seconds, the clock of the nonce is not.
\<close>

theorem replay_at_skew_edge:
  "\<exists>s1. verify_hmac_request memory_register demo_mac demo_hmac (7001 / 10) [''k1'' \<mapsto> ''s3''] demo_request [] = (True, s1)
    \<and> fst (verify_hmac_request memory_register demo_mac demo_hmac (13005 / 10) [''k1'' \<mapsto> ''s3''] demo_request s1)"
proof -
  let ?v = "verify_hmac_request memory_register demo_mac demo_hmac (7001 / 10) [''k1'' \<mapsto> ''s3''] demo_request []"
  have "fst ?v" by code_simp
  moreover have "fst (verify_hmac_request memory_register demo_mac demo_hmac (13005 / 10) [''k1'' \<mapsto> ''s3'']
      demo_request (snd ?v))" by code_simp
  ultimately show ?thesis by (intro exI [of _ "snd ?v"]) (metis (full_types) prod.collapse)
qed

text \<open>
  a stream token is single use. Once a token that was not issued in the future is
  accepted, it is never accepted again, whatever the workers register in between: before 120
  seconds its nonce is known, after that it has expired.
\<close>

theorem stream_token_single_use:
  assumes "validate_stream_token (database_register prune) mac unb64 t0 keys token tb = (Inr who, tb1)"
    and "\<forall>d k. verify_stream_token mac unb64 t0 keys token = Inr (d, k) \<longrightarrow>
           py_int (dget_default d ''exp'' (PInt 0)) = Inr ex \<and> ex \<le> \<lfloor>t0\<rfloor> + 60"
    and "\<forall>x \<in> set others. fst x \<le> t1"
  shows "\<exists>e. fst (validate_stream_token (database_register prune) mac unb64 t1 keys token
            (database.register_all prune others tb1)) = Inl e"
proof -
  from validate_stream_Inr [OF assms(1)] obtain d k where d: "verify_stream_token mac unb64 t0 keys token = Inr (d, k)"
    and reg: "database_register prune t0 (''stream:'' @ k) (stream_nonce d) 120 tb = (True, tb1)" by blast
  from assms(2) d have ex: "py_int (dget_default d ''exp'' (PInt 0)) = Inr ex" "ex \<le> \<lfloor>t0\<rfloor> + 60" by blast+
  show ?thesis
  proof (cases "verify_stream_token mac unb64 t1 keys token")
    case (Inl e)
    then show ?thesis by (simp add: validate_stream_token_def)
  next
    case (Inr dk)
    obtain d' k' where [simp]: "dk = (d', k')" by (cases dk)
    from verify_stream_Inr [OF d] verify_stream_Inr [of mac unb64 t1 keys token d' k'] Inr
    have same: "d' = d" "k' = k" and live: "\<lfloor>t1\<rfloor> \<le> ex" using ex by auto
    have t1: "t1 < t0 + 120"
    proof (rule ccontr)
      assume "\<not> t1 < t0 + 120"
      then have "\<lfloor>t0\<rfloor> + 120 \<le> \<lfloor>t1\<rfloor>" by (intro floor_mono_add) simp
      with live ex show False by simp
    qed
    have "\<forall>x \<in> set others. fst x < t0 + 120" using assms(3) t1 by force
    from database.replay_refused [OF TrueI _ reg this t1]
    have "\<not> fst (database_register prune t1 (''stream:'' @ k) (stream_nonce d) 120 (database.register_all prune others tb1))"
      by simp
    with Inr same show ?thesis
      by (auto simp: validate_stream_token_def split: prod.splits bool.splits)
  qed
qed

definition demo_stream_token :: string where
  "demo_stream_token = create_stream_token demo_mac (\<lambda>t. t) ''s3''
     (stream_payload ''acme'' ''u1'' ''Jana'' ''k1'' 100 ''n7'')"

lemma demo_stream_ok:
  "\<exists>d. verify_stream_token demo_mac Some 110 [''k1'' \<mapsto> ''s3''] demo_stream_token = Inr (d, ''k1'')
     \<and> dget_default d ''exp'' (PInt 0) = PInt 160"
proof -
  have "verify_stream_token demo_mac Some 110 [''k1'' \<mapsto> ''s3''] demo_stream_token
     = Inr (stream_payload ''acme'' ''u1'' ''Jana'' ''k1'' 100 ''n7'', ''k1'')" by code_simp
  moreover have "dget_default (stream_payload ''acme'' ''u1'' ''Jana'' ''k1'' 100 ''n7'') ''exp'' (PInt 0) = PInt 160"
    by code_simp
  ultimately show ?thesis by blast
qed

theorem stream_token_single_use_witness:
  "\<exists>who tb1 e. validate_stream_token (database_register (\<lambda>t. True)) demo_mac Some 110 [''k1'' \<mapsto> ''s3''] demo_stream_token Map.empty
      = (Inr who, tb1) \<and>
    fst (validate_stream_token (database_register (\<lambda>t. True)) demo_mac Some 120 [''k1'' \<mapsto> ''s3''] demo_stream_token tb1) = Inl e"
proof -
  let ?v = "validate_stream_token (database_register (\<lambda>t. True)) demo_mac Some 110 [''k1'' \<mapsto> ''s3''] demo_stream_token Map.empty"
  have "(case fst ?v of Inr _ \<Rightarrow> True | Inl _ \<Rightarrow> False)" by code_simp
  then obtain who tb1 where v: "?v = (Inr who, tb1)" by (cases ?v) (auto split: sum.splits)
  have ex: "\<forall>d k. verify_stream_token demo_mac Some 110 [''k1'' \<mapsto> ''s3''] demo_stream_token = Inr (d, k) \<longrightarrow>
      py_int (dget_default d ''exp'' (PInt 0)) = Inr 160 \<and> 160 \<le> \<lfloor>110 :: rat\<rfloor> + 60"
    using demo_stream_ok by auto
  from stream_token_single_use [where ?t1.0 = 120 and others = "[]", OF v ex] v show ?thesis
    by (metis database.register_all.simps(1) list.set(1) empty_iff)
qed

text \<open>
  a stream token carries the identity it was created for. Decoded by the matching codec
  and checked under the same secret within its 60 seconds, a token whose nonce is fresh
  gives back the tenant, the user and the user's name.
\<close>

theorem stream_token_roundtrip:
  assumes "payload = stream_payload tenant user_id user_name key_id t0 nonce"
    and "text = json_text json_stream (PDict payload)"
    and "unb64 (b64 text) = Some text" and "CHR ''.'' \<notin> set (mac secret (b64 text))"
    and "keys key_id = Some secret" and "secret \<noteq> []" and "\<lfloor>t1\<rfloor> \<le> \<lfloor>t0\<rfloor> + 60"
    and "tb (take 200 (''stream:'' @ key_id), take 200 nonce) = None"
  shows "fst (validate_stream_token (database_register prune) mac unb64 t1 keys
      (create_stream_token mac b64 secret payload) tb) = Inr (tenant, user_id, user_name)"
proof -
  have wf: "json_wf (PDict payload)" by (simp add: assms(1) stream_payload_def)
  have st: "style_ok json_stream" by (simp add: style_ok_def json_stream_def)
  have dec: "decode_payload unb64 (b64 text) = Inr (PDict payload)"
    using assms(3) json_roundtrip [OF wf st] by (simp add: decode_payload_def assms(2))
  have "create_stream_token mac b64 secret payload = b64 text @ CHR ''.'' # mac secret (b64 text)"
    by (simp add: create_stream_token_def assms(2) Let_def)
  then have tok: "rsplit_dot (create_stream_token mac b64 secret payload) = Some (b64 text, mac secret (b64 text))"
    using split_first_rev_dot [OF assms(4)] by (simp only:)
  have f: "dget_default payload ''key_id'' (PStr []) = PStr key_id"
    "dget_default payload ''exp'' (PInt 0) = PInt (\<lfloor>t0\<rfloor> + 60)"
    "dget_default payload ''nonce'' (PStr []) = PStr nonce"
    "stream_identity payload = (tenant, user_id, user_name)"
    by (simp_all add: assms(1) stream_payload_def dget_default_def stream_identity_def str_or_def)
  have v: "verify_stream_token mac unb64 t1 keys (create_stream_token mac b64 secret payload) = Inr (payload, key_id)"
    using assms(5-7) by (simp add: verify_stream_token_def tok dec f)
  show ?thesis
    using assms(8) v f
    by (simp add: validate_stream_token_def database_register_def upsert_nonce_def stream_nonce_def)
qed

theorem stream_token_roundtrip_witness:
  "fst (validate_stream_token (database_register (\<lambda>t. False)) demo_mac Some 110 [''k1'' \<mapsto> ''s3'']
      demo_stream_token Map.empty) = Inr (''acme'', ''u1'', ''Jana'')"
  unfolding demo_stream_token_def
  by (rule stream_token_roundtrip [where ?t0.0 = 100 and nonce = "''n7''", OF refl refl]) code_simp+

text \<open>
  the canonical token of a tenant is read back as the key id and the secret it was built
  from, whatever characters they have.
\<close>

theorem crm_token_roundtrip:
  "parse_crm_token (build_crm_token key_id secret) = crm_auth key_id secret"
proof -
  let ?t = "build_crm_token key_id secret"
  obtain m where t: "?t = CHR ''{'' # m @ [CHR ''}'']" by (simp add: build_crm_token_def)
  have s: "py_strip ?t = ?t" by (rule py_strip_id) (simp_all add: t py_isspace_def)
  have "json_loads ?t = Inr (PDict (crm_auth key_id secret))"
    unfolding build_crm_token_def by (rule json_roundtrip) (simp_all add: crm_auth_def)
  moreover have "py_startswith ?t ''{''" by (simp add: t py_startswith_def)
  moreover have "?t \<noteq> []" by (simp add: t)
  ultimately show ?thesis
    by (simp add: parse_crm_token_def s has_key_def crm_auth_def)
qed

end
