(* ===== verification/Ttl_Cache.thy ===== *)
theory Ttl_Cache
  imports Py_Value
begin

text \<open>
  The caches with a time to live: tenant credentials (\<open>app/services/tenant_manager.py\<close>),
  LLM configurations (\<open>app/services/tenant_llm.py\<close>) and module catalogs
  (\<open>app/services/module_catalog.py\<close>). The locale states what a reader of such a cache relies
  on; the two layouts of the code, an expiry time or the time of the store, satisfy it.
\<close>

section \<open>The contract\<close>

locale ttl_cache =
  fixes lookup :: "rat \<Rightarrow> 'c \<Rightarrow> 'k \<Rightarrow> 'v option"
    and store :: "rat \<Rightarrow> 'c \<Rightarrow> 'k \<Rightarrow> 'v \<Rightarrow> 'c"
    and ttl :: rat
  assumes lookup_store: "0 < ttl \<Longrightarrow> lookup now' (store now c k v) k = (if now' < now + ttl then Some v else None)"
    and lookup_other: "k' \<noteq> k \<Longrightarrow> lookup now' (store now c k v) k' = lookup now' c k'"
begin

text \<open>A read that fetches on a miss; the flag tells whether it fetched.\<close>

definition cached_read :: "rat \<Rightarrow> 'c \<Rightarrow> 'k \<Rightarrow> 'v \<Rightarrow> 'v \<times> bool \<times> 'c" where
  "cached_read now c k v = (case lookup now c k of Some w \<Rightarrow> (w, False, c) | None \<Rightarrow> (v, True, store now c k v))"

lemma fetched_then_served:
  assumes "0 < ttl" and "cached_read t0 c k v = (w, True, c')" and "t1 < t0 + ttl"
  shows "cached_read t1 c' k v' = (w, False, c')"
  using assms by (auto simp: cached_read_def lookup_store split: option.splits)

lemma read_other:
  "k' \<noteq> k \<Longrightarrow> cached_read now c k v = (w, f, c') \<Longrightarrow> lookup t c' k' = lookup t c k'"
  by (auto simp: cached_read_def lookup_other split: option.splits)

lemma expired_fetches:
  "0 < ttl \<Longrightarrow> cached_read t0 c k v = (w, True, c') \<Longrightarrow> t0 + ttl \<le> t1 \<Longrightarrow> cached_read t1 c' k v' = (v', True, store t1 c' k v')"
  by (auto simp: cached_read_def lookup_store split: option.splits)

end

section \<open>Entries that hold their expiry\<close>

type_synonym ('k, 'v) expiring = "('k \<times> (rat \<times> 'v)) list"

text \<open>\<open>if cached and cached[0] > time.monotonic()\<close>, behind the test of the time to live.\<close>

definition expiring_lookup :: "rat \<Rightarrow> rat \<Rightarrow> ('k, 'v) expiring \<Rightarrow> 'k \<Rightarrow> 'v option" where
  "expiring_lookup ttl now c k = (if ttl \<le> 0 then None
     else (case map_of c k of Some (e, v) \<Rightarrow> if e > now then Some v else None | None \<Rightarrow> None))"

definition expiring_store :: "rat \<Rightarrow> rat \<Rightarrow> ('k, 'v) expiring \<Rightarrow> 'k \<Rightarrow> 'v \<Rightarrow> ('k, 'v) expiring" where
  "expiring_store ttl now c k v = (if ttl > 0 then dput k (now + ttl, v) c else c)"

interpretation expiring: ttl_cache "expiring_lookup ttl" "expiring_store ttl" ttl for ttl
  by unfold_locales (auto simp: expiring_lookup_def expiring_store_def)

section \<open>Entries that hold the time of the store\<close>

definition stamped_lookup :: "rat \<Rightarrow> rat \<Rightarrow> ('k, 'v) expiring \<Rightarrow> 'k \<Rightarrow> 'v option" where
  "stamped_lookup ttl now c k = (case map_of c k of
     Some (t, v) \<Rightarrow> if now - t < ttl then Some v else None | None \<Rightarrow> None)"

definition stamped_store :: "rat \<Rightarrow> ('k, 'v) expiring \<Rightarrow> 'k \<Rightarrow> 'v \<Rightarrow> ('k, 'v) expiring" where
  "stamped_store now c k v = dput k (now, v) c"

interpretation stamped: ttl_cache "stamped_lookup ttl" stamped_store ttl for ttl
  by unfold_locales (auto simp: stamped_lookup_def stamped_store_def algebra_simps)

end
