(* ===== verification/Tenant_Auth.thy ===== *)
theory Tenant_Auth
  imports Request_Auth Ttl_Cache
begin

text \<open>
  Which secret checks a request: the credentials of a tenant with their cache
  (\<open>app/services/tenant_manager.py\<close>) and the authentication dependencies of the endpoints
  (\<open>app/api/dependencies.py\<close>). The database is a function from tenant ids to rows; the Fernet
  decryption is the argument \<open>decrypt\<close>, which may raise \<open>ValueError\<close>. Failures of the
  database itself, which the code turns into status 503, are outside.
\<close>

section \<open>Rows and credentials\<close>

record tenant_row =
  tn_id :: string
  tn_base_url :: string
  tn_token_encrypted :: string
  tn_active :: bool

type_synonym tenants = "string \<rightharpoonup> tenant_row"

record credentials =
  cd_tenant :: string
  cd_base_url :: string
  cd_token :: string

type_synonym credentials_cache = "(string, credentials) expiring"

definition is_uuid_like :: "string \<Rightarrow> bool" where
  "is_uuid_like v = hex_groups [8, 4, 4, 4, 12] (py_strip v)"

definition normalize_token :: "string \<Rightarrow> string \<Rightarrow> string" where
  "normalize_token tenant_id token = (let raw = py_strip token; parsed = parse_crm_token raw in
     if raw = [] \<or> is_uuid_like raw then raw
     else if parsed \<noteq> [] then
       (if truthy (pget parsed ''hmac_secret'') \<and> text_of (pget parsed ''hmac_key_id'') = []
        then json_text json_compact (PDict (dput ''hmac_key_id'' (PStr tenant_id) parsed)) else raw)
     else if py_startswith raw ''{'' then raw
     else build_crm_token tenant_id raw)"

definition unknown_tenant :: py_exc where
  "unknown_tenant = HTTPException 401 ''Unknown or inactive tenant''"

definition get_tenant :: "tenants \<Rightarrow> string \<Rightarrow> tenant_row result" where
  "get_tenant db t = (case db t of
     Some row \<Rightarrow> if tn_active row then Inr row else Inl unknown_tenant
   | None \<Rightarrow> Inl unknown_tenant)"

definition rstrip_char :: "char \<Rightarrow> string \<Rightarrow> string" where
  "rstrip_char c s = rev (dropWhile (\<lambda>d. d = c) (rev s))"

definition row_credentials :: "tenant_row \<Rightarrow> string \<Rightarrow> credentials" where
  "row_credentials row token = \<lparr>cd_tenant = tn_id row, cd_base_url = rstrip_char (CHR ''/'') (tn_base_url row),
     cd_token = normalize_token (tn_id row) token\<rparr>"

text \<open>\<open>now\<close> is the clock of the cache lookup, \<open>later\<close> the one of the store.\<close>

definition get_credentials ::
  "(string \<Rightarrow> string result) \<Rightarrow> rat \<Rightarrow> tenants \<Rightarrow> rat \<Rightarrow> rat \<Rightarrow> string \<Rightarrow> credentials_cache
     \<Rightarrow> credentials result \<times> credentials_cache" where
  "get_credentials decrypt ttl db now later t cache = (case expiring_lookup ttl now cache t of
     Some c \<Rightarrow> (Inr c, cache)
   | None \<Rightarrow> (case get_tenant db t of
       Inl e \<Rightarrow> (Inl e, cache)
     | Inr row \<Rightarrow> (case decrypt (tn_token_encrypted row) of
         Inl e \<Rightarrow> (Inl e, cache)
       | Inr token \<Rightarrow> (let c = row_credentials row token in (Inr c, expiring_store ttl later cache t c)))))"

definition own_secret :: "credentials \<Rightarrow> string \<Rightarrow> string option" where
  "own_secret c key_id = (let config = parse_crm_token (cd_token c); secret = text_of (pget config ''hmac_secret'') in
     if secret = [] \<or> text_of (pget config ''hmac_key_id'') \<noteq> key_id then None else Some secret)"

definition get_hmac_secret ::
  "(string \<Rightarrow> string result) \<Rightarrow> rat \<Rightarrow> tenants \<Rightarrow> rat \<Rightarrow> rat \<Rightarrow> string \<Rightarrow> string \<Rightarrow> credentials_cache
     \<Rightarrow> string option \<times> credentials_cache" where
  "get_hmac_secret decrypt ttl db now later t key_id cache =
     (case get_credentials decrypt ttl db now later t cache of
        (Inl _, cache') \<Rightarrow> (None, cache')
      | (Inr c, cache') \<Rightarrow> (own_secret c key_id, cache'))"

definition assert_user_access :: "rat \<Rightarrow> tenants \<Rightarrow> rat \<Rightarrow> string \<Rightarrow> credentials_cache \<Rightarrow> unit result" where
  "assert_user_access ttl db now t cache =
     (if expiring_lookup ttl now cache t \<noteq> None then Inr ()
      else res_bind (get_tenant db t) (\<lambda>_. Inr ()))"

definition invalidate_tenant_cache :: "string option \<Rightarrow> credentials_cache \<Rightarrow> credentials_cache" where
  "invalidate_tenant_cache t cache = (case t of None \<Rightarrow> [] | Some k \<Rightarrow> ddel k cache)"

section \<open>The request dependency\<close>

record 's auth_env =
  ae_decrypt :: "string \<Rightarrow> string result"
  ae_mac :: "string \<Rightarrow> string \<Rightarrow> string"
  ae_unb64 :: "string \<Rightarrow> string option"
  ae_register :: "rat \<Rightarrow> string \<Rightarrow> string \<Rightarrow> rat \<Rightarrow> 's \<Rightarrow> bool \<times> 's"
  ae_ttl :: rat
  ae_hmac :: hmac_settings
  ae_require_hmac :: bool
  ae_skill_admins :: "string list"

record 's auth_state =
  as_cache :: credentials_cache
  as_nonces :: 's

type_synonym tenant_context = "string \<times> string \<times> string option"

definition key_table :: "string \<Rightarrow> string option \<Rightarrow> (string \<rightharpoonup> string)" where
  "key_table kid secret = (case secret of Some sec \<Rightarrow> if sec = [] then Map.empty else [kid \<mapsto> sec] | None \<Rightarrow> Map.empty)"

text \<open>The HMAC branch of \<open>get_tenant_context\<close>: the secret comes from the tenant the request names.\<close>

definition check_hmac ::
  "'s auth_env \<Rightarrow> tenants \<Rightarrow> rat \<Rightarrow> signed_request \<Rightarrow> string \<Rightarrow> 's auth_state \<Rightarrow> bool \<times> 's auth_state" where
  "check_hmac env db now r t st =
     (case parse_hmac_authorization (opt_text (sr_authorization r)) of
        None \<Rightarrow> (case verify_hmac_request (ae_register env) (ae_mac env) (ae_hmac env) now Map.empty r (as_nonces st) of
          (ok, ns) \<Rightarrow> (ok, st\<lparr>as_nonces := ns\<rparr>))
      | Some h \<Rightarrow>
          (case get_hmac_secret (ae_decrypt env) (ae_ttl env) db now now t (hh_key_id h) (as_cache st) of
             (secret, cache) \<Rightarrow>
               (case verify_hmac_request (ae_register env) (ae_mac env) (ae_hmac env) now
                       (key_table (hh_key_id h) secret) r (as_nonces st) of
                  (ok, ns) \<Rightarrow> (ok, st\<lparr>as_cache := cache, as_nonces := ns\<rparr>))))"

definition http401 :: "string \<Rightarrow> py_exc" where "http401 detail = HTTPException 401 detail"

definition get_tenant_context ::
  "'s auth_env \<Rightarrow> tenants \<Rightarrow> rat \<Rightarrow> signed_request \<Rightarrow> string \<Rightarrow> string \<Rightarrow> string option \<Rightarrow> 's auth_state
     \<Rightarrow> tenant_context result \<times> 's auth_state" where
  "get_tenant_context env db now r0 t user name st =
     (let r = r0\<lparr>sr_tenant := Some t, sr_user := Some user\<rparr>;
          has_hmac = py_startswith (py_lower (opt_text (sr_authorization r))) ''hmac''
      in if ae_require_hmac env \<and> \<not> has_hmac then (Inl (http401 ''HMAC authentication required''), st)
         else (case (if has_hmac then check_hmac env db now r t st else (True, st)) of
           (ok, st') \<Rightarrow>
             if \<not> ok then (Inl (http401 ''Invalid HMAC signature''), st')
             else (case assert_user_access (ae_ttl env) db now t (as_cache st') of
               Inl e \<Rightarrow> (Inl e, st') | Inr _ \<Rightarrow> (Inr (t, user, name), st'))))"

text \<open>
  The stream endpoints. \<open>except ValueError\<close> gives 401, every other exception 503; without a
  bearer token the plain headers count only when HMAC is not required.
\<close>

definition stream_error :: "py_exc \<Rightarrow> py_exc" where
  "stream_error e = (case e of
     ValueError m \<Rightarrow> http401 (''Invalid stream token: '' @ m)
   | _ \<Rightarrow> HTTPException 503 ''Authentication temporarily unavailable'')"

definition check_stream ::
  "'s auth_env \<Rightarrow> tenants \<Rightarrow> rat \<Rightarrow> string \<Rightarrow> 's auth_state \<Rightarrow> (string \<times> string \<times> string) result \<times> 's auth_state" where
  "check_stream env db now token st = (case peek_stream_token_claims (ae_unb64 env) token of
     Inl e \<Rightarrow> (Inl e, st)
   | Inr claims \<Rightarrow>
       (let key_id = py_str (dget_default claims ''key_id'' (PStr []));
            tenant = py_str (dget_default claims ''tenant'' (PStr []))
        in case get_hmac_secret (ae_decrypt env) (ae_ttl env) db now now tenant key_id (as_cache st) of
             (secret, cache) \<Rightarrow>
               (case validate_stream_token (ae_register env) (ae_mac env) (ae_unb64 env) now
                       (key_table key_id secret) token (as_nonces st) of
                  (res, ns) \<Rightarrow> (res, st\<lparr>as_cache := cache, as_nonces := ns\<rparr>))))"

definition finish_access ::
  "'s auth_env \<Rightarrow> tenants \<Rightarrow> rat \<Rightarrow> tenant_context \<Rightarrow> 's auth_state \<Rightarrow> tenant_context result \<times> 's auth_state" where
  "finish_access env db now ctx st = (case assert_user_access (ae_ttl env) db now (fst ctx) (as_cache st) of
     Inl e \<Rightarrow> (Inl e, st) | Inr _ \<Rightarrow> (Inr ctx, st))"

definition get_stream_token_context ::
  "'s auth_env \<Rightarrow> tenants \<Rightarrow> rat \<Rightarrow> string \<Rightarrow> string \<Rightarrow> string \<Rightarrow> string option \<Rightarrow> 's auth_state
     \<Rightarrow> tenant_context result \<times> 's auth_state" where
  "get_stream_token_context env db now auth x_tenant x_user x_name st =
     (if py_startswith (py_lower auth) ''bearer '' then
        (case check_stream env db now (py_strip (drop 7 auth)) st of
           (Inl e, st') \<Rightarrow> (Inl (stream_error e), st')
         | (Inr (t, u, n), st') \<Rightarrow> finish_access env db now (t, u, if n = [] then None else Some n) st')
      else if x_tenant \<noteq> [] \<and> x_user \<noteq> [] \<and> \<not> ae_require_hmac env then
        finish_access env db now (x_tenant, x_user, x_name) st
      else (Inl (http401 ''Authorization: Bearer <stream-token> required''), st))"

definition skills_admin :: "'s auth_env \<Rightarrow> tenant_context \<Rightarrow> tenant_context result" where
  "skills_admin env ctx = (case ctx of (t, u, n) \<Rightarrow>
     if u \<in> set (ae_skill_admins env) \<or> (t @ '':'' @ u) \<in> set (ae_skill_admins env) then Inr ctx
     else Inl (HTTPException 403 ''Skills administrator role required''))"

section \<open>Lemmas\<close>

text \<open>
  A cache is sound when every entry was made from an active row of its own tenant; the table
  is keyed by the tenant id.
\<close>

definition from_own_row :: "(string \<Rightarrow> string result) \<Rightarrow> string \<Rightarrow> credentials \<Rightarrow> bool" where
  "from_own_row decrypt t c = (\<exists>row token. tn_id row = t \<and> tn_active row
     \<and> decrypt (tn_token_encrypted row) = Inr token \<and> c = row_credentials row token)"

definition cache_sound :: "(string \<Rightarrow> string result) \<Rightarrow> credentials_cache \<Rightarrow> bool" where
  "cache_sound decrypt cache = (\<forall>t e c. map_of cache t = Some (e, c) \<longrightarrow> from_own_row decrypt t c)"

definition table_keyed :: "tenants \<Rightarrow> bool" where
  "table_keyed db = (\<forall>t row. db t = Some row \<longrightarrow> tn_id row = t)"

lemma get_credentials_own:
  assumes "cache_sound decrypt cache" and "table_keyed db"
    and "get_credentials decrypt ttl db now later t cache = (res, cache')"
  shows "cache_sound decrypt cache' \<and> (\<forall>c. res = Inr c \<longrightarrow> from_own_row decrypt t c)"
proof (cases "expiring_lookup ttl now cache t")
  case (Some c)
  with assms show ?thesis
    by (auto simp: get_credentials_def expiring_lookup_def cache_sound_def split: if_splits option.splits)
next
  case None
  show ?thesis
  proof (cases "res")
    case (Inl e)
    with None assms show ?thesis
      by (auto simp: get_credentials_def Let_def split: sum.splits)
  next
    case (Inr c)
    with None assms(3) obtain row token where g: "get_tenant db t = Inr row"
      "decrypt (tn_token_encrypted row) = Inr token" "c = row_credentials row token"
      "cache' = expiring_store ttl later cache t c"
      by (auto simp: get_credentials_def Let_def split: sum.splits)
    then have "from_own_row decrypt t c"
      using assms(2) by (auto simp: from_own_row_def get_tenant_def table_keyed_def split: option.splits if_splits)
    with assms(1) g(4) Inr show ?thesis by (auto simp: cache_sound_def expiring_store_def)
  qed
qed

lemma get_hmac_secret_own:
  assumes "cache_sound decrypt cache" and "table_keyed db"
    and "get_hmac_secret decrypt ttl db now later t key_id cache = (Some sec, cache')"
  shows "cache_sound decrypt cache' \<and> (\<exists>c. from_own_row decrypt t c \<and> own_secret c key_id = Some sec)"
  using assms get_credentials_own [OF assms(1,2), of ttl now later t]
  by (fastforce simp: get_hmac_secret_def split: prod.splits sum.splits)

lemma own_secret_ne: "own_secret c key_id = Some sec \<Longrightarrow> sec \<noteq> []"
  by (auto simp: own_secret_def Let_def split: if_splits)

lemma key_table_Some: "key_table kid secret k = Some sec \<Longrightarrow> k = kid \<and> secret = Some sec \<and> sec \<noteq> []"
  by (auto simp: key_table_def split: option.splits if_splits)

lemma verify_hmac_key:
  "verify_hmac_request register mac st now keys r s = (True, s') \<Longrightarrow>
   \<exists>h key. parse_hmac_authorization (opt_text (sr_authorization r)) = Some h \<and> keys (hh_key_id h) = Some key
     \<and> signature_matches mac key st r (hh_signature h)"
proof -
  assume "verify_hmac_request register mac st now keys r s = (True, s')"
  from verify_hmac_True [OF this] obtain h where h: "verify_signature mac st now keys r = Some h" by blast
  from verify_signature_Some [OF h] show ?thesis by auto
qed

lemma verify_hmac_empty: "verify_hmac_request register mac st now Map.empty r s \<noteq> (True, s')"
  using verify_hmac_key [of register mac st now Map.empty r s s'] by auto

lemma check_hmac_own:
  assumes "check_hmac env db now r t st = (True, st')"
    and "cache_sound (ae_decrypt env) (as_cache st)" and "table_keyed db"
  shows "\<exists>h c key. parse_hmac_authorization (opt_text (sr_authorization r)) = Some h
    \<and> from_own_row (ae_decrypt env) t c \<and> own_secret c (hh_key_id h) = Some key
    \<and> signature_matches (ae_mac env) key (ae_hmac env) r (hh_signature h)"
proof (cases "parse_hmac_authorization (opt_text (sr_authorization r))")
  case None
  with assms(1) show ?thesis by (auto simp: check_hmac_def verify_hmac_empty split: prod.splits)
next
  case (Some h)
  obtain secret cache where g: "get_hmac_secret (ae_decrypt env) (ae_ttl env) db now now t (hh_key_id h) (as_cache st)
      = (secret, cache)" by fastforce
  with assms(1) Some obtain ns where "verify_hmac_request (ae_register env) (ae_mac env) (ae_hmac env) now
      (key_table (hh_key_id h) secret) r (as_nonces st) = (True, ns)"
    by (auto simp: check_hmac_def split: prod.splits)
  from verify_hmac_key [OF this] Some obtain key where k: "key_table (hh_key_id h) secret (hh_key_id h) = Some key"
    "signature_matches (ae_mac env) key (ae_hmac env) r (hh_signature h)" by auto
  from key_table_Some [OF k(1)] g have "get_hmac_secret (ae_decrypt env) (ae_ttl env) db now now t (hh_key_id h)
      (as_cache st) = (Some key, cache)" by simp
  from get_hmac_secret_own [OF assms(2,3) this] Some k(2) show ?thesis by blast
qed

section \<open>Properties\<close>


definition demo_auth_env :: "nonce_table auth_env" where
  "demo_auth_env = \<lparr>ae_decrypt = (\<lambda>s. Inr s), ae_mac = demo_mac, ae_unb64 = Some,
     ae_register = database_register (\<lambda>t. True), ae_ttl = 60, ae_hmac = demo_hmac, ae_require_hmac = True,
     ae_skill_admins = []\<rparr>"

definition demo_tenants :: tenants where
  "demo_tenants = [''acme'' \<mapsto> \<lparr>tn_id = ''acme'', tn_base_url = ''https://crm/'', tn_token_encrypted = ''k1:s3'',
     tn_active = True\<rparr>]"


end
