(* ===== verification/Tenant_Config.thy ===== *)
theory Tenant_Config
  imports Ttl_Cache
begin

text \<open>
  Per-tenant configuration: the LLM endpoint of a tenant (\<open>app/services/tenant_llm.py\<close>) and
  the catalog of CRM modules a user may read or write (\<open>app/services/module_catalog.py\<close>).
  What the database and the CRM answer are arguments; the log lines are left out.
\<close>

section \<open>LLM configuration\<close>

record llm_settings =
  ls_base_url :: string
  ls_api_key :: string
  ls_model :: string
  ls_title_model :: string

record llm_config =
  lc_base_url :: string
  lc_api_key :: string
  lc_model :: string
  lc_title_model :: string
  lc_custom :: bool
  lc_temperature :: "rat option"

definition config_temp :: "llm_config \<Rightarrow> rat \<Rightarrow> rat" where
  "config_temp c default_temp = (case lc_temperature c of None \<Rightarrow> default_temp | Some t \<Rightarrow> t)"

definition clean :: "string option \<Rightarrow> string option" where
  "clean v = (case v of None \<Rightarrow> None | Some s \<Rightarrow> let t = py_strip s in if t = [] then None else Some t)"

definition default_llm_config :: "llm_settings \<Rightarrow> llm_config" where
  "default_llm_config st = \<lparr>lc_base_url = ls_base_url st, lc_api_key = ls_api_key st, lc_model = ls_model st,
     lc_title_model = ls_title_model st, lc_custom = False, lc_temperature = None\<rparr>"

definition opt_or :: "string option \<Rightarrow> string \<Rightarrow> string" where
  "opt_or v d = (case v of None \<Rightarrow> d | Some s \<Rightarrow> s)"

definition build_llm_config ::
  "llm_settings \<Rightarrow> string option \<Rightarrow> string option \<Rightarrow> string option \<Rightarrow> string option \<Rightarrow> rat option \<Rightarrow> llm_config" where
  "build_llm_config st base_url0 api_key0 model0 title_model0 temperature =
     (let api_key = clean api_key0; model = clean model0; title_model = clean title_model0;
          d = default_llm_config st
      in case clean base_url0 of
           Some url \<Rightarrow> (let m = opt_or model (lc_model d) in
             \<lparr>lc_base_url = url, lc_api_key = opt_or api_key ''EMPTY'', lc_model = m,
              lc_title_model = opt_or title_model m, lc_custom = True, lc_temperature = temperature\<rparr>)
         | None \<Rightarrow>
             \<lparr>lc_base_url = lc_base_url d, lc_api_key = lc_api_key d, lc_model = opt_or model (lc_model d),
              lc_title_model = opt_or title_model (lc_title_model d), lc_custom = False, lc_temperature = temperature\<rparr>)"

text \<open>The columns of a tenant row, in the order of the select.\<close>

type_synonym llm_row = "string option \<times> string option \<times> string option \<times> string option \<times> rat option"

definition config_of_row :: "llm_settings \<Rightarrow> llm_row option \<Rightarrow> llm_config" where
  "config_of_row st row = (case row of
     None \<Rightarrow> default_llm_config st
   | Some (url, key, model, title_model, temp) \<Rightarrow> build_llm_config st url key model title_model temp)"

text \<open>\<open>db\<close> is the select by tenant id; the result tells the configuration and the cache after it.\<close>

definition resolve_llm_config ::
  "llm_settings \<Rightarrow> rat \<Rightarrow> (string \<Rightarrow> llm_row option) \<Rightarrow> rat \<Rightarrow> rat \<Rightarrow> string
     \<Rightarrow> (string, llm_config) expiring \<Rightarrow> llm_config \<times> (string, llm_config) expiring" where
  "resolve_llm_config st ttl db now later tenant cache =
     (if tenant = [] then (default_llm_config st, cache)
      else (case expiring_lookup ttl now cache tenant of
        Some c \<Rightarrow> (c, cache)
      | None \<Rightarrow> (let c = config_of_row st (db tenant) in (c, expiring_store ttl later cache tenant c))))"

section \<open>Module catalog\<close>

record module_catalog =
  mc_modules :: "pydict list"
  mc_fallback :: bool

definition static_read :: "string list" where
  "static_read = [''meetings'', ''calls'', ''tasks'', ''notes'', ''contacts'', ''accounts'', ''leads'',
     ''opportunities'', ''opportunites'', ''quotes'', ''acm_invoices'', ''acm_orders'', ''acm_orders_lines'',
     ''products'', ''producttemplates'']"

definition static_write :: "string list" where
  "static_write = [''meetings'', ''calls'', ''tasks'', ''notes'', ''contacts'', ''accounts'', ''leads'', ''quotes'']"

definition static_rag :: "string list" where
  "static_rag = [''contacts'', ''accounts'', ''meetings'', ''calls'', ''tasks'', ''notes'', ''leads'',
     ''opportunities'', ''opportunites'', ''quotes'', ''acm_invoices'', ''producttemplates'']"

definition static_row :: "string \<Rightarrow> pydict" where
  "static_row n = [(''name'', PStr n), (''read'', PBool True), (''write'', PBool (n \<in> set static_write)),
     (''rag'', PBool (n \<in> set static_rag)), (''line_module'', PNone)]"

definition static_fallback :: module_catalog where
  "static_fallback = \<lparr>mc_modules = map static_row (sort static_read), mc_fallback = True\<rparr>"

definition module_names :: "(pydict \<Rightarrow> bool) \<Rightarrow> module_catalog \<Rightarrow> string list" where
  "module_names ok c = map (\<lambda>m. py_str (pget m ''name''))
     (filter (\<lambda>m. truthy (pget m ''name'') \<and> ok m) (mc_modules c))"

definition may_read :: "pydict \<Rightarrow> bool" where
  "may_read m = truthy (dget_default m ''read'' (PBool True))"

definition readable :: "module_catalog \<Rightarrow> string set" where
  "readable c = set (map py_lower (module_names may_read c))"

definition writable :: "module_catalog \<Rightarrow> string set" where
  "writable c = set (map py_lower (module_names (\<lambda>m. truthy (pget m ''write'')) c))"

definition rag_modules :: "module_catalog \<Rightarrow> string set" where
  "rag_modules c = set (map py_lower (module_names (\<lambda>m. truthy (pget m ''rag'')) c))"

definition readable_names :: "module_catalog \<Rightarrow> string list" where
  "readable_names c = module_names may_read c"

definition catalog_line_module :: "module_catalog \<Rightarrow> string \<Rightarrow> py" where
  "catalog_line_module c n =
     (case find (\<lambda>m. py_lower (str_or (pget m ''name'')) = py_lower n) (mc_modules c) of
        None \<Rightarrow> PNone
      | Some m \<Rightarrow> por (pget m ''line_module'') PNone)"

text \<open>
  \<open>get_module_catalog\<close>: the CRM's answer, or its exception, when the entry is older than the
  time to live; a setting of zero means 60 seconds.
\<close>

definition catalog_ttl :: "rat \<Rightarrow> rat" where
  "catalog_ttl setting = (if setting = 0 then 60 else setting)"

definition catalog_of :: "pydict list result \<Rightarrow> module_catalog" where
  "catalog_of ans = (case ans of
     Inr rows \<Rightarrow> if rows = [] then static_fallback else \<lparr>mc_modules = rows, mc_fallback = False\<rparr>
   | Inl _ \<Rightarrow> static_fallback)"

definition get_module_catalog ::
  "rat \<Rightarrow> pydict list result \<Rightarrow> rat \<Rightarrow> string \<times> string \<Rightarrow> (string \<times> string, module_catalog) expiring
     \<Rightarrow> module_catalog \<times> bool \<times> (string \<times> string, module_catalog) expiring" where
  "get_module_catalog setting ans now key cache = (case stamped_lookup (catalog_ttl setting) now cache key of
     Some c \<Rightarrow> (c, False, cache)
   | None \<Rightarrow> (let c = catalog_of ans in (c, True, stamped_store now cache key c)))"

section \<open>Lemmas\<close>

text \<open>A cached configuration was made from some row.\<close>

definition config_sound :: "llm_settings \<Rightarrow> llm_config \<Rightarrow> bool" where
  "config_sound st c = (\<exists>row. c = config_of_row st row)"

lemma get_module_catalog_cached:
  "get_module_catalog setting ans now key cache = stamped.cached_read (catalog_ttl setting) now cache key (catalog_of ans)"
  by (simp add: get_module_catalog_def stamped.cached_read_def Let_def split: option.split)

lemma static_writable_readable: "writable static_fallback \<subseteq> readable static_fallback"
  by code_simp

section \<open>Properties\<close>


definition demo_llm :: llm_settings where
  "demo_llm = \<lparr>ls_base_url = ''https://sys'', ls_api_key = ''system'', ls_model = ''m'', ls_title_model = ''t''\<rparr>"


text \<open>
  the module catalog is never missing and is asked for once. The first read of a user's
  catalog in the time to live asks the CRM; every later read within it gives the same
  catalog without asking; and a failing or empty answer still gives the static modules.
\<close>

theorem module_catalog_served:
  assumes "get_module_catalog setting ans t0 key cache = (c, True, cache')" and "0 < catalog_ttl setting"
    and "t1 < t0 + catalog_ttl setting"
  shows "get_module_catalog setting ans' t1 key cache' = (c, False, cache') \<and> c = catalog_of ans
    \<and> mc_modules c \<noteq> []"
proof -
  have "mc_modules static_fallback \<noteq> []" by (simp add: static_fallback_def static_read_def)
  then have "mc_modules (catalog_of ans) \<noteq> []" by (simp add: catalog_of_def split: sum.split)
  moreover have "c = catalog_of ans"
    using assms(1) by (auto simp: get_module_catalog_def Let_def split: option.splits)
  ultimately show ?thesis
    using stamped.fetched_then_served [OF assms(2) assms(1) [unfolded get_module_catalog_cached] assms(3)]
    by (simp add: get_module_catalog_cached)
qed

theorem module_catalog_served_witness:
  "fst (snd (get_module_catalog 0 (Inr []) 30 (''acme'', ''u1'')
      (snd (snd (get_module_catalog 0 (Inl (OtherError ''down'')) 0 (''acme'', ''u1'') []))))) = False"
proof -
  let ?g = "get_module_catalog 0 (Inl (OtherError ''down'')) 0 (''acme'', ''u1'') []"
  have "?g = (fst ?g, True, snd (snd ?g))" by (simp add: get_module_catalog_def stamped_lookup_def Let_def)
  from module_catalog_served [OF this, of 30 "Inr []"] show ?thesis by (simp add: catalog_ttl_def)
qed

end
