(* ===== verification/Filter_Builder.thy ===== *)
theory Filter_Builder
  imports Text_Utils
begin

text \<open>
  The filters the gateway sends to the CRM (\<open>app/engine/filter_builder.py\<close>): the language
  model names a field, a short operator and a value, and the builder composes the filter of the
  CRM's REST interface, with its operator names, the date field of the module, and the detour
  over relations for parents of activities, accounts and order lines.
\<close>

section \<open>Conditions\<close>

datatype filter_op = OpEq | OpNeq | OpCont | OpStarts | OpNnull | OpNull | OpGte | OpLte | OpGt | OpLt | OpIn

datatype filter_value = NoValue | OneValue string | ManyValues "string list"

record filter_spec =
  fs_field :: string
  fs_op :: filter_op
  fs_value :: filter_value

text \<open>\<open>validate_value_shape\<close>: an array belongs to \<open>in\<close>, which needs one of non-blank texts.\<close>

definition validate_value_shape :: "filter_spec \<Rightarrow> filter_spec result" where
  "validate_value_shape s = (case (fs_op s = OpIn, fs_value s) of
     (True, ManyValues vs) \<Rightarrow>
       (if vs = [] then Inl (ValueError ''Operator in requires a non-empty array value.'')
        else if [] \<in> set (map py_strip vs) then Inl (ValueError ''Operator in requires non-empty string items.'')
        else Inr (s\<lparr>fs_value := ManyValues (map py_strip vs)\<rparr>))
   | (True, _) \<Rightarrow> Inl (ValueError ''Operator in requires a non-empty array value.'')
   | (False, ManyValues _) \<Rightarrow> Inl (ValueError ''Array values are supported only for operator in.'')
   | (False, _) \<Rightarrow> Inr s)"

section \<open>Names of the CRM\<close>

definition op_map :: "(filter_op \<times> string) list" where
  "op_map = [(OpEq, ''eq''), (OpNeq, ''neq''), (OpCont, ''cont''), (OpStarts, ''starts''), (OpNnull, ''nnull''),
     (OpNull, ''null''), (OpGte, ''moreThanInclude''), (OpLte, ''lessThanInclude''), (OpGt, ''moreThan''),
     (OpLt, ''lessThan'')]"

definition date_fields :: "(string \<times> string) list" where
  "date_fields = [(''meetings'', ''date_start''), (''calls'', ''date_start''), (''tasks'', ''date_due''),
     (''opportunities'', ''date_closed''), (''opportunites'', ''date_closed''),
     (''quotes'', ''date_quote_expected_closed''), (''acm_invoices'', ''datum_vystaveni''),
     (''acm_orders'', ''datum_vystaveni'')]"

definition activity_modules :: "string list" where
  "activity_modules = [''meetings'', ''calls'', ''tasks'', ''notes'']"

definition module_canonical :: "(string \<times> string) list" where
  "module_canonical = [(''meetings'', ''Meetings''), (''calls'', ''Calls''), (''tasks'', ''Tasks''), (''notes'', ''Notes'')]"

definition activity_parent_aliases :: "(string \<times> string list) list" where
  "activity_parent_aliases =
     [(''Accounts'', [''account_id'', ''accounts.id'', ''accounts|id'', ''account_name'', ''accounts.name'', ''company'']),
      (''Contacts'', [''contact_id'', ''contacts.id'', ''contacts|id'', ''contact_name'', ''contacts.name'']),
      (''Leads'', [''lead_id'', ''leads.id'', ''leads|id'', ''lead_name'', ''leads.name'']),
      (''Opportunities'', [''opportunity_id'', ''opportunities.id'', ''opportunities|id'', ''opportunites_id'',
         ''opportunites.id'', ''opportunites|id'']),
      (''Quotes'', [''quote_id'', ''quotes.id'', ''quotes|id''])]"

definition activity_id_aliases :: "string list" where
  "activity_id_aliases = [''account_id'', ''accounts.id'', ''accounts|id'', ''contact_id'', ''contacts.id'',
     ''contacts|id'', ''lead_id'', ''leads.id'', ''leads|id'', ''opportunity_id'', ''opportunities.id'',
     ''opportunities|id'', ''opportunites_id'', ''opportunites.id'', ''opportunites|id'', ''quote_id'',
     ''quotes.id'', ''quotes|id'']"

definition module_account_relations :: "(string \<times> (string \<times> string)) list" where
  "module_account_relations =
     [(''opportunities'', (''Opportunities'', ''accounts'')), (''opportunites'', (''Opportunities'', ''accounts'')),
      (''quotes'', (''Quotes'', ''billing_accounts'')), (''acm_invoices'', (''acm_invoices'', ''acm_invoices_accounts'')),
      (''acm_orders'', (''acm_orders'', ''acm_orders_accounts''))]"

definition module_parent_relations :: "(string \<times> (string list \<times> string \<times> string)) list" where
  "module_parent_relations =
     [(''acm_orders_lines'', ([''order_id'', ''acm_orders.id'', ''acm_orders|id'', ''orders.id'', ''orders|id''],
        ''acm_orders_lines'', ''acm_orders_acm_orders_lines''))]"

definition account_id_aliases :: "string list" where
  "account_id_aliases = [''account_id'', ''accounts.id'', ''accounts|id'']"

section \<open>Virtual lists of ids\<close>

definition extract_virtual_id_in_values :: "filter_spec list \<Rightarrow> string list option result" where
  "extract_virtual_id_in_values specs = (case specs of
     [s] \<Rightarrow>
       if fs_op s \<noteq> OpIn then Inr None
       else if py_lower (py_strip (fs_field s)) \<noteq> ''id''
       then Inl (ValueError ''Operator in is supported only for field id.'')
       else (case fs_value s of
           ManyValues (v # vs) \<Rightarrow> Inr (Some (dedup (filter (\<lambda>x. x \<noteq> []) (map py_strip (v # vs)))))
         | _ \<Rightarrow> Inl (ValueError ''Operator in requires a non-empty array of ids.''))
   | _ \<Rightarrow> Inr None)"

section \<open>Operands\<close>

fun value_py :: "filter_value \<Rightarrow> py" where
  "value_py NoValue = PNone"
| "value_py (OneValue s) = PStr s"
| "value_py (ManyValues vs) = PList (map PStr vs)"

definition operand :: "string \<Rightarrow> py \<Rightarrow> py \<Rightarrow> string \<Rightarrow> py \<Rightarrow> pydict" where
  "operand fld md rel op v = [(''field'', PStr fld), (''fieldModule'', md), (''fieldRel'', rel), (''type'', PStr op),
     (''value'', v), (''relationField'', PNone)]"

definition make_operand :: "string \<Rightarrow> string \<Rightarrow> py \<Rightarrow> pydict" where
  "make_operand fld op v = operand fld PNone PNone op v"

definition is_crm_id :: "py \<Rightarrow> bool" where
  "is_crm_id v = is_valid_crm_id (text_of v)"

definition make_activity_parent_operand :: "string \<Rightarrow> string \<Rightarrow> string \<Rightarrow> py \<Rightarrow> pydict option" where
  "make_activity_parent_operand module_lower field_name op v =
     (if module_lower \<notin> set activity_modules then None
      else (let field_norm = py_lower (py_strip field_name) in
        case find (\<lambda>pa. field_norm \<in> set (snd pa)) activity_parent_aliases of
          None \<Rightarrow> None
        | Some (parent_type, _) \<Rightarrow>
            (let target = (if field_norm \<notin> set activity_id_aliases \<or> \<not> is_crm_id v then ''parent_name'' else ''parent_id'');
                 target_op = (if target = ''parent_name'' \<and> op = ''eq'' then ''cont'' else op);
                 canonical = (case map_of module_canonical module_lower of Some m \<Rightarrow> PStr m | None \<Rightarrow> PNone)
             in Some (dput ''parent_type'' (PStr parent_type)
                  (dput ''fieldModule'' canonical (make_operand target target_op v))))))"

definition make_contacts_account_relation_operand :: "string \<Rightarrow> py \<Rightarrow> pydict" where
  "make_contacts_account_relation_operand op v =
     [(''operator'', PStr ''or''),
      (''operands'', PList (PDict (operand ''id'' (PStr ''Contacts'') (PList [PStr ''accounts'']) op v) #
        (if op = ''eq'' \<and> truthy v then
          [PDict [(''module'', PStr ''Accounts''), (''type'', PStr ''relate''), (''name'', PStr ''account_name''),
             (''relationship'', PList [PStr ''accounts'']),
             (''filter'', PDict [(''operator'', PStr ''and''),
                (''operands'', PList [PDict [(''field'', PStr ''id''), (''type'', PStr ''eq''), (''value'', v)]])])]]
         else [])))]"

definition make_module_account_relation_operand :: "string \<Rightarrow> string \<Rightarrow> string \<Rightarrow> py \<Rightarrow> pydict" where
  "make_module_account_relation_operand module_name relationship op v =
     operand ''id'' (PStr module_name) (PList [PStr relationship]) op v"

definition spec_operand :: "string \<Rightarrow> filter_spec \<Rightarrow> pydict result" where
  "spec_operand module_lower s =
     (let field_name = py_strip (fs_field s);
          field_lower = py_lower field_name;
          v = value_py (fs_value s)
      in case map_of op_map (fs_op s) of
           None \<Rightarrow> Inl (ValueError ''Operator in must be resolved before building a Coripo filter.'')
         | Some op \<Rightarrow> Inr (case make_activity_parent_operand module_lower field_name op v of
             Some o1 \<Rightarrow> o1
           | None \<Rightarrow>
               if module_lower = ''contacts'' \<and> field_lower \<in> set account_id_aliases
               then make_contacts_account_relation_operand op v
               else (case (field_lower \<in> set account_id_aliases, map_of module_account_relations module_lower) of
                   (True, Some (rm, rel)) \<Rightarrow> make_module_account_relation_operand rm rel op v
                 | _ \<Rightarrow> (case map_of module_parent_relations module_lower of
                     Some (aliases, rm, rel) \<Rightarrow>
                       if field_lower \<in> set aliases then make_module_account_relation_operand rm rel op v
                       else make_operand field_name op v
                   | None \<Rightarrow> make_operand field_name op v))))"

section \<open>Filters and orders\<close>

definition conjunction :: "pydict list \<Rightarrow> pydict" where
  "conjunction ops = [(''operator'', PStr ''and''), (''operands'', PList (map PDict ops))]"

definition build_filter ::
  "string \<Rightarrow> string option \<Rightarrow> filter_spec list \<Rightarrow> string option \<Rightarrow> string option \<Rightarrow> string option \<Rightarrow> pydict result" where
  "build_filter md search specs date_from date_to date_field =
     (let module_lower = py_lower (py_strip md);
          given = (\<lambda>v. case v of None \<Rightarrow> [] | Some s \<Rightarrow> s);
          override = py_strip (given date_field);
          resolved = (if override \<noteq> [] then override
             else dget_default date_fields module_lower ''date_entered'')
      in res_bind (res_map (spec_operand module_lower) specs) (\<lambda>ops. Inr (conjunction (
           (if given search \<noteq> [] then [conjunction [make_operand ''*'' ''cont'' (PStr (given search))]] else []) @
           (if given date_from \<noteq> [] then [make_operand resolved ''moreThanInclude'' (PStr (given date_from))] else []) @
           (if given date_to \<noteq> [] then [make_operand resolved ''lessThanInclude'' (PStr (given date_to))] else []) @
           ops))))"

text \<open>
  \<open>str.upper\<close>, used to recognise \<open>ASC\<close> and \<open>DESC\<close>; the three letters whose upper case is no
  Latin-1 letter stay, they are in neither word.
\<close>

definition upper_char :: "char \<Rightarrow> char" where
  "upper_char c = (let n = (of_char c :: nat) in
     if is_az c \<or> (224 \<le> n \<and> n \<le> 254 \<and> n \<noteq> 247) then char_of (n - 32) else c)"

definition build_order :: "string option \<Rightarrow> py list" where
  "build_order order_by = (case order_by of
     None \<Rightarrow> []
   | Some t \<Rightarrow>
       if t = [] then []
       else (case split_first (CHR '':'') (py_strip t) of (f, d) \<Rightarrow>
         (let fld = py_strip f;
              direction = (case d of None \<Rightarrow> ''ASC'' | Some x \<Rightarrow> map upper_char (py_strip x));
              direction = (if direction \<in> {''ASC'', ''DESC''} then direction else ''ASC'')
          in if fld = [] then []
             else [PDict [(''field'', PStr fld), (''sort'', PStr direction), (''module'', PNone)]])))"

section \<open>Well-formed filters\<close>

text \<open>
  What the CRM's interface accepts: a leaf compares a field with an operator of the interface, a
  relation condition carries a filter of leaves, and a group joins leaves and relations.
\<close>

definition coripo_types :: "string list" where
  "coripo_types = map snd op_map"

definition leaf_ok :: "pydict \<Rightarrow> bool" where
  "leaf_ok d = ((case pget d ''field'' of PStr _ \<Rightarrow> True | _ \<Rightarrow> False)
     \<and> (case pget d ''type'' of PStr t \<Rightarrow> t \<in> set coripo_types | _ \<Rightarrow> False) \<and> has_key ''value'' d)"

definition group_ok :: "(pydict \<Rightarrow> bool) \<Rightarrow> pydict \<Rightarrow> bool" where
  "group_ok P d = (pget d ''operator'' \<in> {PStr ''and'', PStr ''or''} \<and>
     (case pget d ''operands'' of
        PList os \<Rightarrow> os \<noteq> [] \<and> list_all (\<lambda>v. case v of PDict e \<Rightarrow> P e | _ \<Rightarrow> False) os | _ \<Rightarrow> False))"

definition relate_ok :: "pydict \<Rightarrow> bool" where
  "relate_ok d = (pget d ''type'' = PStr ''relate'' \<and>
     (case pget d ''filter'' of PDict e \<Rightarrow> group_ok leaf_ok e | _ \<Rightarrow> False))"

definition node_ok :: "pydict \<Rightarrow> bool" where
  "node_ok d = (leaf_ok d \<or> group_ok (\<lambda>e. leaf_ok e \<or> relate_ok e) d)"

text \<open>The value a condition compares with: of the leaf, or of the first leaf of its group.\<close>

definition operand_value :: "pydict \<Rightarrow> py" where
  "operand_value d = (case pget d ''operands'' of PList (PDict e # _) \<Rightarrow> pget e ''value'' | _ \<Rightarrow> pget d ''value'')"

lemma operand_ok:
  "op \<in> set coripo_types \<Longrightarrow> leaf_ok (operand f md rel op v) \<and> operand_value (operand f md rel op v) = v"
  by (simp add: operand_def leaf_ok_def operand_value_def pget_Cons has_key_def)

lemma op_map_types: "map_of op_map oper = Some op \<Longrightarrow> op \<in> set coripo_types"
  unfolding coripo_types_def by (force dest: map_of_SomeD)

lemma op_map_None: "map_of op_map oper = None \<longleftrightarrow> oper = OpIn"
  by (cases oper) (simp_all add: op_map_def)

lemma parent_operand_ok:
  assumes "make_activity_parent_operand m f op v = Some d" and "op \<in> set coripo_types"
  shows "leaf_ok d \<and> operand_value d = v"
proof -
  have c: "''cont'' \<in> set coripo_types" by (simp add: coripo_types_def op_map_def)
  from assms obtain t o2 pt cn where d: "d = dput ''parent_type'' (PStr pt) (dput ''fieldModule'' cn (make_operand t o2 v))"
    and o2: "o2 \<in> set coripo_types"
    using c by (auto simp: make_activity_parent_operand_def Let_def split: if_splits option.splits)
  then show ?thesis
    by (simp add: make_operand_def operand_def leaf_ok_def operand_value_def pget_Cons has_key_def)
qed

lemma contacts_operand_ok:
  assumes "op \<in> set coripo_types"
  shows "node_ok (make_contacts_account_relation_operand op v) \<and>
    operand_value (make_contacts_account_relation_operand op v) = v"
proof -
  have e: "''eq'' \<in> set coripo_types" by (simp add: coripo_types_def op_map_def)
  have l: "leaf_ok (operand f md rel op v)" for f md rel using operand_ok [OF assms] by simp
  have r: "relate_ok [(''module'', m), (''type'', PStr ''relate''), (''name'', n), (''relationship'', rs),
      (''filter'', PDict [(''operator'', PStr ''and''), (''operands'', PList [PDict [(''field'', PStr ''id''),
         (''type'', PStr ''eq''), (''value'', v)]])])]" for m n rs
    using e by (simp add: relate_ok_def group_ok_def leaf_ok_def pget_Cons has_key_def)
  show ?thesis
    using l r operand_ok [OF assms]
    by (simp add: make_contacts_account_relation_operand_def node_ok_def group_ok_def operand_value_def pget_Cons)
      (simp add: operand_def pget_Cons)
qed

lemma spec_operand_ok:
  assumes "spec_operand m s = Inr d"
  shows "node_ok d \<and> operand_value d = value_py (fs_value s) \<and> fs_op s \<noteq> OpIn"
proof -
  from assms obtain op where op: "map_of op_map (fs_op s) = Some op"
    by (auto simp: spec_operand_def Let_def split: option.splits)
  then have t: "op \<in> set coripo_types" and ni: "fs_op s \<noteq> OpIn"
    using op_map_types op_map_None by (blast, metis option.distinct(1))
  let ?v = "value_py (fs_value s)"
  from assms op consider
    (par) "make_activity_parent_operand m (py_strip (fs_field s)) op ?v = Some d"
    | (con) "d = make_contacts_account_relation_operand op ?v"
    | (leaf) f md rel where "d = operand f md rel op ?v"
    by (auto simp: spec_operand_def Let_def make_operand_def make_module_account_relation_operand_def
        split: option.splits if_splits bool.splits)
  then show ?thesis
    using parent_operand_ok [OF _ t] contacts_operand_ok [OF t] operand_ok [OF t] ni
    by cases (auto simp: node_ok_def)
qed

lemma spec_operand_Inl: "spec_operand m s = Inl e \<longleftrightarrow> fs_op s = OpIn \<and>
    e = ValueError ''Operator in must be resolved before building a Coripo filter.''"
  using op_map_None [of "fs_op s"] by (auto simp: spec_operand_def Let_def split: option.splits)

lemma res_map_Inl: "res_map f xs = Inl e \<Longrightarrow> \<exists>x \<in> set xs. f x = Inl e"
  by (induction xs) (auto split: sum.splits)

section \<open>Properties\<close>


definition demo_specs :: "filter_spec list" where
  "demo_specs = [\<lparr>fs_field = ''account_id'', fs_op = OpEq, fs_value = OneValue ''ACME''\<rparr>,
     \<lparr>fs_field = ''status'', fs_op = OpNeq, fs_value = OneValue ''Held''\<rparr>]"


text \<open>
  A checked list of ids is usable as it is: an \<open>in\<close> condition that passed the shape check
  gives a non-empty list of distinct ids without a blank one, or is refused because its field
  is not the id.
\<close>
theorem virtual_ids_usable:
  assumes "validate_value_shape s = Inr checked" and "extract_virtual_id_in_values [checked] = Inr (Some ids)"
  shows "fs_op s = OpIn \<and> ids \<noteq> [] \<and> distinct ids \<and> [] \<notin> set ids
    \<and> (\<exists>vs. fs_value s = ManyValues vs \<and> set ids = set (map py_strip vs))"
proof -
  from assms(2) have op: "fs_op checked = OpIn" by (simp add: extract_virtual_id_in_values_def split: if_splits)
  with assms(1) have ops: "fs_op s = OpIn"
    by (cases "fs_op s = OpIn"; cases "fs_value s") (auto simp: validate_value_shape_def)
  with assms(1) obtain vs where vs: "fs_value s = ManyValues vs" "vs \<noteq> []" "[] \<notin> set (map py_strip vs)"
    "checked = s\<lparr>fs_value := ManyValues (map py_strip vs)\<rparr>"
    by (cases "fs_value s") (auto simp: validate_value_shape_def split: if_splits)
  from vs(3) have fl: "filter (\<lambda>x. x \<noteq> []) (map py_strip vs) = map py_strip vs" by (simp add: filter_id_conv) (metis image_eqI)
  obtain v r where vr: "vs = v # r" using vs(2) by (cases vs) auto
  from assms(2) ops vs(4) vr have "ids = dedup (filter (\<lambda>x. x \<noteq> []) (map py_strip (map py_strip vs)))"
    by (simp add: extract_virtual_id_in_values_def split: if_splits)
  also have "map py_strip (map py_strip vs) = map py_strip vs" by simp
  finally have ids: "ids = dedup (map py_strip vs)" using fl by simp
  have set_ids: "set ids = set (map py_strip vs)" unfolding ids by (rule set_dedup)
  moreover have "distinct ids" unfolding ids by (rule distinct_dedup)
  moreover have "ids \<noteq> []" using set_ids vr by auto
  ultimately show ?thesis using ops vs(1,3) by auto
qed

theorem virtual_ids_usable_witness:
  "[''a'', ''b''] \<noteq> [] \<and> distinct [''a'', ''b''] \<and> extract_virtual_id_in_values
     [\<lparr>fs_field = ''id'', fs_op = OpIn, fs_value = ManyValues [''a'', ''b'', ''a'']\<rparr>] = Inr (Some [''a'', ''b''])"
proof -
  let ?s = "\<lparr>fs_field = ''id'', fs_op = OpIn, fs_value = ManyValues ['' a'', ''b'', ''a'']\<rparr>"
  let ?c = "\<lparr>fs_field = ''id'', fs_op = OpIn, fs_value = ManyValues [''a'', ''b'', ''a'']\<rparr>"
  have v: "validate_value_shape ?s = Inr ?c" by code_simp
  have e: "extract_virtual_id_in_values [?c] = Inr (Some [''a'', ''b''])" by code_simp
  from virtual_ids_usable [OF v e] e show ?thesis by blast
qed

end
