(* ===== verification/Pending_Patch.thy ===== *)
theory Pending_Patch
  imports Pending_Action Cards Json
begin

text \<open>
  Editing a pending action by a short text without the language model
  (\<open>app/engine/pending_patch.py\<close>): a time, a duration or a description found in the text is
  written into the fields of the proposed record, and the user confirms the patched proposal.
\<close>

section \<open>Patterns\<close>

text \<open>
  A pattern that starts with a word character is searched at the word boundaries before one;
  \<open>prev\<close> tells whether the character before the rest is a word character.
\<close>

fun search_word :: "(string \<Rightarrow> 'a option) \<Rightarrow> bool \<Rightarrow> string \<Rightarrow> 'a option" where
  "search_word f prev [] = None"
| "search_word f prev (c # s) =
     (if \<not> prev \<and> is_word_char c
      then (case f (c # s) of Some x \<Rightarrow> Some x | None \<Rightarrow> search_word f (is_word_char c) s)
      else search_word f (is_word_char c) s)"

definition word_ends :: "string \<Rightarrow> bool" where
  "word_ends s = (s = [] \<or> \<not> is_word_char (hd s))"

text \<open>\<open>\b(\d{1,2})[:.](\d{2})\b\<close>\<close>

definition time_with :: "nat \<Rightarrow> string \<Rightarrow> (nat \<times> nat) option" where
  "time_with n s = Option.bind (digits_at n s) (\<lambda>(h, r). Option.bind (char_at '':.'' r) (\<lambda>r2.
     Option.bind (digits_at 2 r2) (\<lambda>(m, r3). if word_ends r3 then Some (digits_val h, digits_val m) else None)))"

definition time_at :: "string \<Rightarrow> (nat \<times> nat) option" where
  "time_at s = (case time_with 2 s of Some x \<Rightarrow> Some x | None \<Rightarrow> time_with 1 s)"

definition find_time :: "string \<Rightarrow> (nat \<times> nat) option" where
  "find_time s = search_word time_at False s"

text \<open>\<open>\b(?:na\s+)?(\d{1,k})\s*(?:units)\b\<close>, any case\<close>

definition after_na :: "string \<Rightarrow> string" where
  "after_na s = (if ci_startswith s ''na'' \<and> drop 2 s \<noteq> [] \<and> py_isspace (hd (drop 2 s))
     then py_lstrip (drop 2 s) else s)"

definition amount_at :: "nat \<Rightarrow> string list \<Rightarrow> string \<Rightarrow> nat option" where
  "amount_at k units s0 = (let s = after_na s0; d = takeWhile is_digit (take k s) in
     if d = [] then None
     else (let r = py_lstrip (drop (length d) s) in
       if list_ex (\<lambda>u. ci_startswith r u \<and> word_ends (drop (length u) r)) units then Some (digits_val d) else None))"

definition hour_units :: "string list" where "hour_units = [''h'', ''hod'', ''hodin'', ''hodiny'']"
definition minute_units :: "string list" where "minute_units = [''m'', ''min'', ''minut'', ''minuty'']"

definition find_hours :: "string \<Rightarrow> nat option" where
  "find_hours s = search_word (amount_at 2 hour_units) False s"

definition find_minutes :: "string \<Rightarrow> nat option" where
  "find_minutes s = search_word (amount_at 3 minute_units) False s"

text \<open>\<open>\bpopis\s+(.+)\<close>, any case, over newlines\<close>

definition description_at :: "string \<Rightarrow> string option" where
  "description_at s = (let r = drop 5 s in
     if ci_startswith s ''popis'' \<and> r \<noteq> [] \<and> py_isspace (hd r) \<and> py_lstrip r \<noteq> [] then Some (py_lstrip r) else None)"

definition find_description :: "string \<Rightarrow> string option" where
  "find_description s = search_word description_at False s"

section \<open>What the text wants\<close>

definition confirmations :: "string list" where
  "confirmations = [''ano'', ''jo'', ''ok'', ''potvrzuji'', ''potvrdzuji'', ''potvrd'', ''potvrdit'', ''provest'',
     ''proved'', ''schvaluji'']"

definition is_confirmation_only :: "string \<Rightarrow> bool" where
  "is_confirmation_only t = (let n = normalize_text t in
     n \<noteq> [] \<and> \<not> list_ex (\<lambda>w. py_contains w n) [''zmen'', ''presun'', ''preplanuj'', ''uprav''] \<and> find_time t = None
     \<and> py_split_ws n \<noteq> [] \<and> list_all (\<lambda>w. w \<in> set confirmations) (py_split_ws n))"

definition edit_tokens :: "string list" where
  "edit_tokens = [''zmen'', ''presun'', ''preplanuj'', ''uprav'', ''dej'', ''misto'', ''bez'', ''na '', ''popis '']"

definition looks_like_pending_edit :: "string \<Rightarrow> bool" where
  "looks_like_pending_edit t = (let n = normalize_text t in
     n \<noteq> [] \<and> \<not> list_ex (\<lambda>w. py_contains w n) [''kolik'', ''kdy'', ''kde'', ''kdo'', ''co'', ''jak'']
     \<and> (list_ex (\<lambda>w. py_contains w n) edit_tokens \<or> find_time t \<noteq> None))"

definition extract_duration_patch :: "string \<Rightarrow> (nat \<times> nat) option" where
  "extract_duration_patch t = (case find_hours t of
     Some h \<Rightarrow> Some (min 12 h, 0)
   | None \<Rightarrow> (case find_minutes t of Some m \<Rightarrow> Some (0, min 59 m) | None \<Rightarrow> None))"

definition patch_time :: "string \<Rightarrow> (nat \<times> nat) option" where
  "patch_time t = (let n = normalize_text t in
     case find_time t of
       Some (h, m) \<Rightarrow> Some (min 23 h, min 59 m)
     | None \<Rightarrow>
         if py_contains ''po poledni'' n then Some (13, 0)
         else if py_contains ''odpoledne'' n then Some (14, 0)
         else if py_contains ''hned rano'' n \<or> py_contains ''rano'' n then Some (8, 0)
         else None)"

text \<open>\<open>now\<close> is the clock, read when the current value holds no date.\<close>

definition resolve_datetime_patch :: "datetime \<Rightarrow> string \<Rightarrow> string \<Rightarrow> string option" where
  "resolve_datetime_patch now t current =
     (let anchor = (case parse_datetime (PStr current) of Some d \<Rightarrow> d | None \<Rightarrow> now)
      in case patch_time t of
           None \<Rightarrow> None
         | Some (h, m) \<Rightarrow>
             (let target = anchor\<lparr>dt_hour := h, dt_minute := m, dt_second := 0, dt_micro := 0\<rparr>
              in Some (fmt_ymd target @ '' '' @ fmt_hms target)))"

section \<open>Summaries\<close>

definition first_text_of :: "pydict \<Rightarrow> string list \<Rightarrow> string" where
  "first_text_of flds ks = (case filter (\<lambda>v. v \<noteq> []) (map (\<lambda>k. text_of (pget flds k)) ks) of [] \<Rightarrow> [] | v # _ \<Rightarrow> v)"

definition weekdays :: "string list" where
  "weekdays = [''v pondeli'', ''v utery'', ''ve stredu'', ''ve ctvrtek'', ''v patek'', ''v sobotu'', ''v nedeli'']"

definition meeting_patch_summary :: "pydict \<Rightarrow> string" where
  "meeting_patch_summary flds =
     (let contact = first_text_of flds [''contact_name'', ''related_contact_name'', ''participant_name''];
          account = first_text_of flds [''account_name'', ''related_account_name'', ''company'', ''company_name''];
          description = first_text_of flds [''description'', ''note'', ''subject''];
          start = text_of (pget flds ''date_start'')
      in ''Upraveno: vytvorit schuzku'' @
         (if contact = [] then [] else '' s '' @ contact) @
         (if account = [] then [] else '' z firmy '' @ account) @
         (case parse_datetime (PStr start) of
            Some d \<Rightarrow> '' '' @ weekdays ! weekday_of (dt_year d) (dt_month d) (dt_day d) @ '' '' @
              pad2 (dt_day d) @ ''.'' @ pad2 (dt_month d) @ ''.'' @ pad4 (dt_year d) @ '' v '' @
              pad2 (dt_hour d) @ '':'' @ pad2 (dt_minute d)
          | None \<Rightarrow> if start = [] then [] else '' na '' @ start) @
         (if description = [] then [] else '' ohledne '' @ description) @ ''. Potvrdte prosim provedeni.'')"

definition generic_patch_summary :: "string \<Rightarrow> string \<Rightarrow> string" where
  "generic_patch_summary md action =
     ''Upraveno: '' @ dget_default [(''create'', ''vytvorit''), (''update'', ''upravit''), (''patch'', ''upravit''),
        (''delete'', ''smazat'')] action action @ '' zaznam v modulu '' @ md @ ''. Potvrdte prosim provedeni.''"

section \<open>The patch\<close>

text \<open>The fields being patched, whether one changed, and the notes for the user.\<close>

type_synonym patching = "pydict \<times> bool \<times> string list"

definition patch_start :: "datetime \<Rightarrow> string \<Rightarrow> patching \<Rightarrow> patching" where
  "patch_start now t p = (case p of (flds, changed, notes) \<Rightarrow>
     (let before = text_of (pget flds ''date_start'') in
      case resolve_datetime_patch now t before of
        Some v \<Rightarrow> if v \<noteq> before
          then (dput ''date_start'' (PStr v) flds, True, notes @ [''Patched pending datetime -> '' @ v]) else p
      | None \<Rightarrow> p))"

definition stored_duration :: "pydict \<Rightarrow> string \<Rightarrow> int result" where
  "stored_duration flds k = py_int (por (pget flds k) (PInt 0))"

definition duration_differs :: "pydict \<Rightarrow> nat \<times> nat \<Rightarrow> bool result" where
  "duration_differs flds hm = res_bind (stored_duration flds ''duration_hours'') (\<lambda>h.
     if h \<noteq> int (fst hm) then Inr True
     else res_bind (stored_duration flds ''duration_minutes'') (\<lambda>m. Inr (m \<noteq> int (snd hm))))"

definition patch_duration :: "string \<Rightarrow> patching \<Rightarrow> patching result" where
  "patch_duration t p = (case p of (flds, changed, notes) \<Rightarrow> (case extract_duration_patch t of
     None \<Rightarrow> Inr p
   | Some (h, m) \<Rightarrow> res_bind (duration_differs flds (h, m)) (\<lambda>diff. Inr (if diff
       then (dput ''duration_minutes'' (PInt (int m)) (dput ''duration_hours'' (PInt (int h)) flds), True,
             notes @ [''Patched pending duration -> '' @ nat_digits h @ ''h '' @ nat_digits m @ ''m''])
       else p))))"

definition rstrip_dots :: "string \<Rightarrow> string" where
  "rstrip_dots s = rev (dropWhile (\<lambda>c. c = CHR ''.'') (rev s))"

definition patch_description :: "string \<Rightarrow> patching \<Rightarrow> patching" where
  "patch_description t p = (case p of (flds, changed, notes) \<Rightarrow> (case find_description t of
     None \<Rightarrow> p
   | Some g \<Rightarrow> (let d = rstrip_dots (py_strip g) in
       if d \<noteq> [] \<and> d \<noteq> text_of (pget flds ''description'')
       then (dput ''description'' (PStr d) flds, True, notes @ [''Patched pending description -> '' @ take 60 d])
       else p)))"

definition time_note :: "string \<Rightarrow> bool" where
  "time_note n = (py_startswith n ''Patched pending datetime'' \<or> py_startswith n ''Patched pending duration'')"

definition texts_of :: "py list \<Rightarrow> string list" where
  "texts_of xs = List.map_filter (\<lambda>x. case x of PStr s \<Rightarrow> Some s | _ \<Rightarrow> None) xs"

definition patch_fields :: "datetime \<Rightarrow> string \<Rightarrow> string \<Rightarrow> pydict \<Rightarrow> string list \<Rightarrow> patching result" where
  "patch_fields now t module_norm flds notes =
     (let timed = module_norm \<in> {''meetings'', ''calls''} in
      res_bind (if timed then patch_duration t (patch_start now t (flds, False, notes)) else Inr (flds, False, notes))
        (\<lambda>p. case patch_description t p of (f, changed, ns) \<Rightarrow>
           Inr (if timed \<and> list_ex time_note ns then ddel ''date_end'' f else f, changed, ns)))"

definition patched_result :: "string \<Rightarrow> string \<Rightarrow> pydict \<Rightarrow> pydict \<Rightarrow> pydict \<Rightarrow> string list \<Rightarrow> pydict" where
  "patched_result md action pending data flds notes =
     (let patched = build_pending_action_envelope md action (PDict data)
            (sor (text_of (por (pget pending ''requested_module'') (PStr md))) md) md (map PStr notes)
            (filter is_dict (list_or_empty (pget pending ''ambiguities''))) True [];
          message = (if py_lower md = ''meetings'' then meeting_patch_summary flds else generic_patch_summary md action)
      in [(''status'', PStr ''confirmation_required''), (''pending_action'', PDict patched),
          (''output'', PStr (json_text json_readable (PDict
             [(''action'', PStr action), (''module'', PStr md), (''data_json'', PStr (json_text json_readable (PDict data))),
              (''message_to_user'', PStr message)]))),
          (''message_to_user'', PStr message)])"

definition try_patch_pending_action :: "datetime \<Rightarrow> string \<Rightarrow> pydict \<Rightarrow> pydict option result" where
  "try_patch_pending_action now t pending_action =
     (case normalize_pending_action_envelope (PDict pending_action) of
        None \<Rightarrow> Inr None
      | Some pending \<Rightarrow>
          (let action = py_lower (text_of (pget pending ''action''));
               md = sor (text_of (por (pget pending ''effective_module'') (pget pending ''module''))) ''Meetings'';
               data = dict_or_empty (pget pending ''data'');
               flds = dict_or_empty (pget data ''fields'');
               notes = texts_of (list_or_empty (pget pending ''adjustments''))
           in if action \<notin> {''create'', ''update'', ''patch'', ''delete''}
                 \<or> \<not> truthy (dget_default pending ''requires_confirmation'' (PBool True))
                 \<or> is_confirmation_only t \<or> \<not> looks_like_pending_edit t
              then Inr None
              else res_bind (patch_fields now t (py_lower md) flds notes) (\<lambda>(f, changed, ns).
                Inr (if changed then Some (patched_result md action pending (dput ''fields'' (PDict f) data) f ns)
                     else None))))"

section \<open>Lemmas\<close>

definition patched_keys :: "string list" where
  "patched_keys = [''date_start'', ''duration_hours'', ''duration_minutes'', ''description'', ''date_end'']"

text \<open>Two dicts that agree outside the patched fields.\<close>

definition same_outside :: "pydict \<Rightarrow> pydict \<Rightarrow> bool" where
  "same_outside f g = (\<forall>k. k \<notin> set patched_keys \<longrightarrow> pget f k = pget g k)"

lemma same_outside_refl [simp]: "same_outside f f"
  by (simp add: same_outside_def)

lemma same_outside_dput [simp]: "k \<in> set patched_keys \<Longrightarrow> same_outside (dput k v f) g = same_outside f g"
  by (auto simp: same_outside_def)

lemma same_outside_ddel [simp]: "k \<in> set patched_keys \<Longrightarrow> same_outside (ddel k f) g = same_outside f g"
  by (auto simp: same_outside_def)

lemma patched_key [simp]:
  "''date_start'' \<in> set patched_keys" "''duration_hours'' \<in> set patched_keys" "''duration_minutes'' \<in> set patched_keys"
  "''description'' \<in> set patched_keys" "''date_end'' \<in> set patched_keys"
  by (simp_all add: patched_keys_def)

lemma patch_start_frame: "same_outside (fst p) g \<Longrightarrow> same_outside (fst (patch_start now t p)) g"
  by (auto simp: patch_start_def Let_def split: prod.splits option.splits)

lemma patch_duration_frame: "patch_duration t p = Inr p2 \<Longrightarrow> same_outside (fst p) g \<Longrightarrow> same_outside (fst p2) g"
  by (auto simp: patch_duration_def res_bind_Inr split: prod.splits option.splits if_splits)

lemma patch_description_frame: "same_outside (fst p) g \<Longrightarrow> same_outside (fst (patch_description t p)) g"
  by (auto simp: patch_description_def Let_def split: prod.splits option.splits)

lemma patch_fields_frame:
  assumes "patch_fields now t m flds notes = Inr (f, changed, ns)"
  shows "same_outside f flds"
proof -
  let ?p0 = "(flds, False, notes) :: patching"
  let ?timed = "m \<in> {''meetings'', ''calls''}"
  obtain p where st: "(if ?timed then patch_duration t (patch_start now t ?p0) else Inr ?p0) = Inr p"
    using assms by (cases "if ?timed then patch_duration t (patch_start now t ?p0) else Inr ?p0")
      (simp_all add: patch_fields_def Let_def)
  have d: "(case patch_description t p of (f, changed, ns) \<Rightarrow>
       Inr (if ?timed \<and> list_ex time_note ns then ddel ''date_end'' f else f, changed, ns)) = (Inr (f, changed, ns) :: patching result)"
    using assms unfolding patch_fields_def Let_def st res_bind_simps .
  from st have p: "p = ?p0 \<or> patch_duration t (patch_start now t ?p0) = Inr p" by (auto split: if_splits)
  obtain f0 c0 n0 where pd: "patch_description t p = (f0, c0, n0)" by (rule prod_cases3)
  with d have f: "f = fst (patch_description t p) \<or> f = ddel ''date_end'' (fst (patch_description t p))"
    by (simp split: if_splits)
  have "same_outside (fst p) flds"
    using p patch_duration_frame [where ?p2.0 = p, OF _ patch_start_frame [where p = ?p0 and g = flds]] by auto
  from patch_description_frame [OF this] f show ?thesis by auto
qed

lemma normalized_action:
  assumes "normalize_pending_action_envelope v = Some q"
  shows "pget q ''action'' = PStr (py_lower (text_of (pget q ''action'')))"
proof -
  from assms obtain d where "v = PDict d" by (cases v) (auto simp: normalize_pending_action_envelope_def)
  with assms have "pget q ''action'' = PStr (py_lower (py_strip (envelope_action d)))"
    by (auto simp: normalize_pending_action_envelope_def Let_def envelope_field tool_call_keys_def pget_Cons split: if_splits)
  then show ?thesis by (simp add: py_strip_lower)
qed

section \<open>Properties\<close>

text \<open>
  C7: A text edit changes only what it may. A patched proposal keeps its action and still asks
  for confirmation; it carries no tool call and no token, so the edited action has to be
  previewed again; and outside the start, the duration, the description and the derived end
  every entry of its data and of its fields is untouched.
\<close>
theorem patch_is_narrow:
  assumes "try_patch_pending_action now t pending_action = Inr (Some r)"
  shows "\<exists>pending q data f. normalize_pending_action_envelope (PDict pending_action) = Some pending
    \<and> pget r ''status'' = PStr ''confirmation_required'' \<and> pget r ''pending_action'' = PDict q
    \<and> pget q ''action'' = pget pending ''action'' \<and> pget q ''requires_confirmation'' = PBool True
    \<and> (\<forall>k \<in> set tool_call_keys. pget q k = PNone)
    \<and> pget q ''data'' = PDict (dput ''fields'' (PDict f) data) \<and> data = dict_or_empty (pget pending ''data'')
    \<and> same_outside f (dict_or_empty (pget data ''fields''))"
proof -
  from assms obtain pending where n: "normalize_pending_action_envelope (PDict pending_action) = Some pending"
    by (auto simp: try_patch_pending_action_def split: option.splits)
  let ?data = "dict_or_empty (pget pending ''data'')"
  let ?md = "sor (text_of (por (pget pending ''effective_module'') (pget pending ''module''))) ''Meetings''"
  let ?action = "py_lower (text_of (pget pending ''action''))"
  from assms n obtain f changed ns where p: "patch_fields now t (py_lower ?md) (dict_or_empty (pget ?data ''fields''))
      (texts_of (list_or_empty (pget pending ''adjustments''))) = Inr (f, changed, ns)"
    and r: "r = patched_result ?md ?action pending (dput ''fields'' (PDict f) ?data) f ns"
    by (auto simp: try_patch_pending_action_def Let_def res_bind_Inr split: if_splits prod.splits)
  define q where "q = build_pending_action_envelope ?md ?action (PDict (dput ''fields'' (PDict f) ?data))
      (sor (text_of (por (pget pending ''requested_module'') (PStr ?md))) ?md) ?md (map PStr ns)
      (filter is_dict (list_or_empty (pget pending ''ambiguities''))) True []"
  have rq: "pget r ''status'' = PStr ''confirmation_required''" "pget r ''pending_action'' = PDict q"
    unfolding r q_def by (simp_all only: patched_result_def Let_def pget_Cons) simp_all
  have q1: "pget q ''action'' = pget pending ''action''"
    using normalized_action [OF n] by (simp add: q_def envelope_field tool_call_keys_def pget_Cons py_strip_lower)
  have q2: "pget q ''requires_confirmation'' = PBool True" "pget q ''data'' = PDict (dput ''fields'' (PDict f) ?data)"
    by (simp_all add: q_def envelope_field tool_call_keys_def pget_Cons)
  have q3: "\<forall>k \<in> set tool_call_keys. pget q k = PNone" by (simp add: q_def envelope_field)
  from n rq q1 q2 q3 patch_fields_frame [OF p] show ?thesis by blast
qed

definition demo_meeting :: "py \<Rightarrow> pydict" where
  "demo_meeting hours = [(''module'', PStr ''Meetings''), (''action'', PStr ''create''),
     (''data'', PDict [(''fields'', PDict [(''name'', PStr ''Porada''), (''date_start'', PStr ''2025-10-05 09:00:00''),
        (''duration_hours'', hours)])]),
     (''tool'', PStr ''crm_action_tool''), (''confirmation_token'', PStr ''t1'')]"

definition demo_now :: datetime where "demo_now = mk_datetime 2025 10 1 8 0 0 0"

theorem patch_is_narrow_witness:
  "\<exists>r q. try_patch_pending_action demo_now ''presun na 14:30'' (demo_meeting (PInt 1)) = Inr (Some r)
     \<and> pget r ''pending_action'' = PDict q \<and> pget q ''confirmation_token'' = PNone"
proof -
  let ?r = "try_patch_pending_action demo_now ''presun na 14:30'' (demo_meeting (PInt 1))"
  have "case ?r of Inr (Some r) \<Rightarrow> True | _ \<Rightarrow> False" by code_simp
  then obtain r where r: "?r = Inr (Some r)" by (auto split: sum.splits option.splits)
  from patch_is_narrow [OF r] obtain q where "pget r ''pending_action'' = PDict q" "\<forall>k \<in> set tool_call_keys. pget q k = PNone"
    by blast
  with r show ?thesis by (auto simp: tool_call_keys_def)
qed

text \<open>
  The start a text edit leaves in the fields of a meeting.
\<close>

definition patched_start :: "pydict option result \<Rightarrow> py" where
  "patched_start r = (case r of Inr (Some d) \<Rightarrow>
     pget (dict_or_empty (pget (dict_or_empty (pget (dict_or_empty (pget d ''pending_action'')) ''data'')) ''fields'')) ''date_start''
   | _ \<Rightarrow> PNone)"

text \<open>
  Two slips of the patch. A new date in the text is read as a time of day: moving a meeting to
  10.11.2025 leaves its day and sets its time to 10:11. And a stored duration that is not a
  number raises out of the patch.
\<close>
theorem date_read_as_time:
  "patched_start (try_patch_pending_action demo_now ''presun na 10.11.2025'' (demo_meeting (PInt 1)))
     = PStr ''2025-10-05 10:11:00''
   \<and> try_patch_pending_action demo_now ''zmen na 2 hodiny'' (demo_meeting (PStr ''1h''))
     = Inl (ValueError ''invalid literal for int()'')"
  by code_simp

end
