(* ===== verification/Agent_Result.thy ===== *)
theory Agent_Result
  imports Pending_Action Json
begin

text \<open>
  From the raw result of an agent turn to what the client is shown
  (\<open>app/presentation/agent_result.py\<close>): the message, the pending action with the command that
  confirms it, the cards and the form patch. The result of a turn is a dict with the text
  \<open>output\<close> and the list \<open>intermediate_steps\<close>.
\<close>

section \<open>Messages\<close>

definition to_user_message :: "string \<Rightarrow> string" where
  "to_user_message t = py_strip (format_european_dates (PStr (strip_answer_tags (PStr (strip_think_tags (PStr t))))))"

definition try_parse_json :: "string \<Rightarrow> pydict option" where
  "try_parse_json t = (let raw = py_strip t in
     if raw = [] then None else (case json_loads raw of Inr (PDict d) \<Rightarrow> Some d | _ \<Rightarrow> None))"

definition noisy_patterns :: "string list" where
  "noisy_patterns = [''here'' @ [CHR 0x27] @ ''s the translation of the menu labels'',
     [json_quote] @ ''row_count'' @ [json_quote], [json_quote] @ ''menu'' @ [json_quote] @ '':'',
     replicate 3 CHR 0x60 @ ''json'']"

definition looks_like_noise :: "string \<Rightarrow> bool" where
  "looks_like_noise t = (let v = py_strip t; lower = py_lower v in
     v \<noteq> [] \<and> (py_startswith v ''{'' \<or> py_startswith v ''['' \<or> list_ex (\<lambda>p. py_contains p lower) noisy_patterns))"

section \<open>The description of a pending action\<close>

definition module_labels :: "(string \<times> string) list" where
  "module_labels = [(''meetings'', ''schuzka''), (''calls'', ''hovor''), (''tasks'', ''ukol''), (''notes'', ''poznamka''),
     (''contacts'', ''kontakt''), (''accounts'', ''firma''), (''leads'', ''lead''),
     (''opportunities'', ''obchodni pripad''), (''quotes'', ''nabidka'')]"

definition action_labels :: "(string \<times> string) list" where
  "action_labels = [(''create'', ''vytvoreni''), (''update'', ''uprava''), (''delete'', ''smazani'')]"

definition pending_summary_fields :: "(string \<times> string option) list" where
  "pending_summary_fields = [(''name'', None), (''subject'', None), (''note_content'', Some ''text''),
     (''description'', Some ''popis''), (''date_start'', Some ''od''), (''duration_hours'', Some ''delka (hod)''),
     (''contact_name'', Some ''kontakt''), (''parent_name'', Some ''tyka se'')]"

definition summary_part :: "pydict \<Rightarrow> string \<times> string option \<Rightarrow> string option" where
  "summary_part flds kl = (let v = text_of (pget flds (fst kl)) in
     if v = [] then None
     else (let cut = (if length v > 120 then py_rstrip (take 120 v) @ ''...'' else v)
           in Some (case snd kl of None \<Rightarrow> cut | Some l \<Rightarrow> l @ '': '' @ cut)))"

definition describe_pending_action :: "string \<Rightarrow> string \<Rightarrow> pydict \<Rightarrow> string" where
  "describe_pending_action md action data =
     (let ml = dget_default module_labels (py_lower (py_strip md)) (sor md ''zaznam'');
          al = dget_default action_labels (py_lower (py_strip action)) (sor action ''akce'');
          parts = List.map_filter (summary_part (dict_or_empty (pget data ''fields''))) pending_summary_fields
      in ''Pripravil jsem k potvrzeni: '' @ al @ '' ('' @ ml @ '')'' @
         (if parts = [] then [] else '' - '' @ py_join ''; '' parts) @ ''. Potvrdte prosim provedeni.'')"

section \<open>Observations of the steps\<close>

text \<open>The observation of a step: a dict, or the text of one; anything else counts as empty.\<close>

definition step_observation :: "pydict \<Rightarrow> pydict" where
  "step_observation step = (case pget step ''observation'' of
     PDict d \<Rightarrow> d
   | PStr t \<Rightarrow> (case try_parse_json t of Some d \<Rightarrow> d | None \<Rightarrow> [])
   | _ \<Rightarrow> [])"

text \<open>\<open>reversed(steps if isinstance(steps, list) else [])\<close> without the items that are no dicts.\<close>

definition steps_backwards :: "pydict \<Rightarrow> pydict list" where
  "steps_backwards agent_result = rev (dicts_of (list_or_empty (pget agent_result ''intermediate_steps'')))"

definition status_of :: "pydict \<Rightarrow> string" where
  "status_of obs = py_lower (text_of (pget obs ''status''))"

definition normalized_or_raw :: "pydict \<Rightarrow> pydict" where
  "normalized_or_raw raw = (case normalize_pending_action_envelope (PDict raw) of Some p \<Rightarrow> p | None \<Rightarrow> raw)"

text \<open>The command that confirms a pending action: a JSON text with the tool call's own keys.\<close>

definition given_call :: "pydict \<Rightarrow> pydict" where
  "given_call pending = map (\<lambda>k. (k, pget pending k)) (filter (\<lambda>k. pget pending k \<noteq> PNone) tool_call_keys)"

definition command_payload :: "string \<Rightarrow> string \<Rightarrow> pydict \<Rightarrow> string \<Rightarrow> pydict \<Rightarrow> pydict" where
  "command_payload action md data message pending =
     dupdate [(''action'', PStr (sor action ''create'')), (''module'', PStr (sor md ''Meetings'')),
        (''data_json'', PStr (json_text json_readable (PDict data))), (''message_to_user'', PStr message)]
       (given_call pending)"

definition pending_result :: "string \<Rightarrow> pydict \<Rightarrow> pydict \<Rightarrow> pydict" where
  "pending_result status obs normalized =
     (let pending = normalized_or_raw (dict_or_empty (pget obs ''pending_action''));
          md = envelope_module pending;
          action = text_of (pget pending ''action'');
          data = dict_or_empty (pget pending ''data'');
          message = (if status = ''confirmation_required'' then describe_pending_action md action data
            else text_of (por (pget obs ''message'') (PStr ''Pro pokracovani potrebuji upresnit cilovy zaznam.'')))
      in dput ''message_to_user'' (PStr message)
         (dput ''output'' (PStr (json_text json_readable (PDict (command_payload action md data message pending))))
         (dput ''pending_action'' (PDict pending) (dput ''status'' (PStr status) normalized))))"

definition failed_result :: "string \<Rightarrow> pydict \<Rightarrow> pydict \<Rightarrow> pydict" where
  "failed_result status obs normalized =
     (let message = text_of (por (pget obs ''message'')
            (PStr ''CRM akce selhala. Zkontrolujte mapovani poli a povinne hodnoty.''));
          n1 = dput ''message_to_user'' (PStr message) (dput ''status'' (PStr status) normalized)
      in if text_of (pget n1 ''output'') = [] then dput ''output'' (PStr message) n1 else n1)"

text \<open>The first pass over the steps: a pending action or a failed one decides.\<close>

definition decided_step :: "pydict \<Rightarrow> pydict \<Rightarrow> pydict option" where
  "decided_step normalized step = (let obs = step_observation step; status = status_of obs in
     if obs = [] then None
     else if status \<in> {''confirmation_required'', ''resolution_required''} then Some (pending_result status obs normalized)
     else if status \<in> {''crm_http_error'', ''crm_action_error''} then Some (failed_result status obs normalized)
     else None)"

definition result_tools :: "string list" where
  "result_tools = [''crm_query_tool'', ''my_meetings_tool'', ''crm_record_detail_tool'', ''propose_form_fields_tool'',
     ''research_record_tool'', ''product_lookup_tool'', ''daily_briefing_tool'']"

text \<open>The second pass: the last result that carries cards or comes from a result tool.\<close>

definition shown_step :: "string \<Rightarrow> pydict \<Rightarrow> pydict \<Rightarrow> pydict option" where
  "shown_step answer normalized step = (let obs = step_observation step in
     if obs = [] then None
     else if text_of (pget step ''tool'') \<notin> set result_tools \<and> \<not> is_list (pget obs ''cards'') then None
     else (let n1 = (if is_list (pget obs ''cards'') then dput ''cards'' (pget obs ''cards'') normalized else normalized);
               tool_message = to_user_message (text_of (por (pget obs ''message_to_user'') (pget obs ''summary'')));
               n2 = (if answer \<noteq> [] \<and> \<not> looks_like_noise answer then dput ''message_to_user'' (PStr answer) n1
                 else if tool_message \<noteq> [] then dput ''message_to_user'' (PStr tool_message) n1 else n1);
               tool_status = text_of (pget obs ''status'');
               n3 = (if tool_status \<noteq> [] then dput ''status'' (PStr tool_status) n2 else n2)
           in Some (if text_of (pget n3 ''output'') = [] then dput ''output'' (PStr (json_text json_readable (PDict obs))) n3
                    else n3)))"

definition fallback_message :: string where
  "fallback_message = ''Omlouvam se, tady se mi nepodarilo pripravit odpoved. Zkuste prosim dotaz zopakovat nebo preformulovat.''"

definition normalize_agent_result_for_ui :: "pydict \<Rightarrow> pydict" where
  "normalize_agent_result_for_ui agent_result =
     (let output_text = str_or (pget agent_result ''output'');
          parsed = try_parse_json output_text;
          answer = (case parsed of Some d \<Rightarrow> to_user_message (text_of (pget d ''message_to_user''))
            | None \<Rightarrow> to_user_message output_text);
          steps = steps_backwards agent_result
      in case first_some (decided_step agent_result) steps of
           Some r \<Rightarrow> r
         | None \<Rightarrow> (case first_some (shown_step answer agent_result) steps of
             Some r \<Rightarrow> r
           | None \<Rightarrow> (case parsed of
               Some d \<Rightarrow>
                 if truthy (pget d ''message_to_user'')
                 then dput ''message_to_user'' (PStr (to_user_message (py_str (pget d ''message_to_user'')))) agent_result
                 else (let clean = to_user_message output_text in dput ''message_to_user''
                   (PStr (if clean = [] \<or> looks_like_noise clean then fallback_message else clean)) agent_result)
             | None \<Rightarrow> (let clean = to_user_message output_text in dput ''message_to_user''
                 (PStr (if clean = [] \<or> looks_like_noise clean then fallback_message else clean)) agent_result))))"

section \<open>Extraction\<close>

definition pending_step :: "pydict \<Rightarrow> pydict option" where
  "pending_step step = (let obs = step_observation step in
     case pget obs ''pending_action'' of
       PDict p \<Rightarrow> if status_of obs \<in> {''confirmation_required'', ''resolution_required''} then Some (normalized_or_raw p) else None
     | _ \<Rightarrow> None)"

definition extract_pending_action :: "py \<Rightarrow> pydict option" where
  "extract_pending_action agent_result = (case agent_result of
     PDict r \<Rightarrow> (case pget r ''pending_action'' of
         PDict p \<Rightarrow> Some (normalized_or_raw p)
       | _ \<Rightarrow> first_some pending_step (steps_backwards r))
   | _ \<Rightarrow> None)"

definition patch_step :: "pydict \<Rightarrow> pydict option" where
  "patch_step step = (case pget (step_observation step) ''form_patch'' of
     PDict p \<Rightarrow> if is_dict (pget p ''fields'') then Some p else None
   | _ \<Rightarrow> None)"

definition extract_form_patch :: "pydict \<Rightarrow> pydict option" where
  "extract_form_patch agent_result = first_some patch_step (steps_backwards agent_result)"

section \<open>Lemmas\<close>

lemma json_wf_pget: "json_wf_dict d \<Longrightarrow> json_wf (pget d k)"
  by (induction d) (auto simp: pget_Cons)

lemma json_wf_dput: "json_wf_dict d \<Longrightarrow> json_wf v \<Longrightarrow> json_wf_dict (dput k v d)"
  by (induction k v d rule: dput.induct) auto

lemma json_wf_dupdate: "json_wf_dict d \<Longrightarrow> json_wf_dict e \<Longrightarrow> json_wf_dict (dupdate d e)"
  by (induction e arbitrary: d) (auto simp: json_wf_dput)

lemma distinct_dupdate: "distinct (map fst d) \<Longrightarrow> distinct (map fst (dupdate d e))"
  by (induction e arbitrary: d) auto

lemma json_wf_dict_map: "json_wf_dict (map (\<lambda>k. (k, f k)) ks) = list_all (\<lambda>k. json_wf (f k)) ks"
  by (induction ks) simp_all

text \<open>A dumped dict is read back.\<close>

lemma try_parse_dumps:
  assumes "json_wf (PDict d)" and "style_ok st"
  shows "try_parse_json (json_text st (PDict d)) = Some d"
proof -
  let ?t = "json_text st (PDict d)"
  have "py_strip ?t = ?t" by (rule py_strip_id) (simp_all add: py_isspace_def)
  then show ?thesis using json_roundtrip [OF assms] by (simp add: try_parse_json_def Let_def)
qed

lemma step_observation_dumps:
  assumes "pget step ''observation'' = PStr (json_text json_readable (PDict obs))" and "json_wf (PDict obs)"
  shows "step_observation step = obs"
  using try_parse_dumps [OF assms(2), of json_readable] by (simp only: step_observation_def assms(1)) simp

lemma pget_given_call:
  "pget (dupdate d (given_call q)) k = (if k \<in> set tool_call_keys \<and> pget q k \<noteq> PNone then pget q k else pget d k)"
proof -
  have dk: "distinct tool_call_keys" by (simp add: tool_call_keys_def)
  have keys: "map fst (given_call q) = filter (\<lambda>k. pget q k \<noteq> PNone) tool_call_keys"
    by (simp add: given_call_def comp_def)
  then have "distinct (map fst (given_call q))" using dk by simp
  moreover have "map_of (map (\<lambda>k. (k, pget q k)) (filter (\<lambda>k. pget q k \<noteq> PNone) ks)) k
      = (if k \<in> set ks \<and> pget q k \<noteq> PNone then Some (pget q k) else None)" for ks
    by (induction ks) auto
  ultimately show ?thesis
    by (simp add: pget_def dget_default_def map_of_dupdate) (simp add: given_call_def pget_def dget_default_def)
qed

lemma command_payload_wf:
  assumes "\<And>k. k \<in> set tool_call_keys \<Longrightarrow> json_wf (pget q k)"
  shows "json_wf (PDict (command_payload a m d msg q))"
proof -
  have "json_wf_dict (given_call q)"
    unfolding given_call_def json_wf_dict_map using assms by (auto simp: list_all_iff)
  then show ?thesis
    unfolding command_payload_def by (simp only: json_wf.simps) (intro conjI distinct_dupdate json_wf_dupdate; simp)
qed

lemma normalized_or_raw_Some: "normalize_pending_action_envelope (PDict p) = Some q \<Longrightarrow> normalized_or_raw p = q"
  by (simp add: normalized_or_raw_def)

lemma pending_result_fields:
  assumes "normalized_or_raw (dict_or_empty (pget obs ''pending_action'')) = q"
  shows "pget (pending_result ''confirmation_required'' obs n) ''pending_action'' = PDict q"
    and "pget (pending_result ''confirmation_required'' obs n) ''output'' = PStr (json_text json_readable (PDict
       (command_payload (text_of (pget q ''action'')) (envelope_module q) (dict_or_empty (pget q ''data''))
         (describe_pending_action (envelope_module q) (text_of (pget q ''action'')) (dict_or_empty (pget q ''data''))) q)))"
  unfolding pending_result_def assms Let_def by (simp_all only: pget_dput) simp_all

section \<open>Properties\<close>

text \<open>
  C6: What the user is asked to confirm is what the CRM previewed. When the last step of a turn
  is a result that requires confirmation, the pending action shown and kept for the next turn is
  the normal form of the one in the result, and the command the client sends back is JSON that
  reads as a dict whose tool, arguments, token and expiry are exactly those of the previewed
  call.
\<close>
theorem pending_command_faithful:
  assumes "steps_backwards r = step # rest"
    and "pget step ''observation'' = PStr (json_text json_readable (PDict obs))" and "json_wf (PDict obs)"
    and "status_of obs = ''confirmation_required''" and "pget obs ''pending_action'' = PDict p"
    and "normalize_pending_action_envelope (PDict p) = Some q" and "truthy (pget p ''tool'')"
  shows "pget (normalize_agent_result_for_ui r) ''pending_action'' = PDict q
    \<and> extract_pending_action (PDict (normalize_agent_result_for_ui r)) = Some q
    \<and> (\<exists>t cmd. pget (normalize_agent_result_for_ui r) ''output'' = PStr t \<and> json_loads t = Inr (PDict cmd)
        \<and> (\<forall>k \<in> set tool_call_keys. pget cmd k = pget p k))"
proof -
  have so: "step_observation step = obs" using assms(2,3) by (rule step_observation_dumps)
  have ne: "obs \<noteq> []" using assms(5) by auto
  have ui: "normalize_agent_result_for_ui r = pending_result ''confirmation_required'' obs r"
    using so ne assms(1,4) by (simp add: normalize_agent_result_for_ui_def decided_step_def Let_def)
  have nr: "normalized_or_raw p = q" "normalized_or_raw q = q"
    using normalized_or_raw_Some [OF assms(6)] normalized_or_raw_Some [OF conjunct1 [OF normalize_normal [OF assms(6)]]] .
  have same: "pget q k = pget p k" if "k \<in> set tool_call_keys" for k
  proof (rule dget_map_of)
    from normalize_normal [OF assms(6)] assms(7) that show "map_of q k = map_of p k" by blast
  qed
  define msg where "msg = describe_pending_action (envelope_module q) (text_of (pget q ''action'')) (dict_or_empty (pget q ''data''))"
  define cmd where "cmd = command_payload (text_of (pget q ''action'')) (envelope_module q) (dict_or_empty (pget q ''data'')) msg q"
  have u: "pget (normalize_agent_result_for_ui r) ''pending_action'' = PDict q"
    "pget (normalize_agent_result_for_ui r) ''output'' = PStr (json_text json_readable (PDict cmd))"
    unfolding ui cmd_def msg_def
    by (rule pending_result_fields; simp only: assms(5) dict_or_empty.simps nr)+
  have "json_wf_dict p" using json_wf_pget [of obs "''pending_action''"] assms(3,5) by simp
  then have "json_wf (PDict cmd)"
    unfolding cmd_def by (intro command_payload_wf) (simp add: same json_wf_pget)
  then have rd: "json_loads (json_text json_readable (PDict cmd)) = Inr (PDict cmd)" by (rule json_roundtrip) simp
  have keys: "pget cmd k = pget p k" if "k \<in> set tool_call_keys" for k
  proof -
    have "k \<notin> {''action'', ''module'', ''data_json'', ''message_to_user''}" using that by (auto simp: tool_call_keys_def)
    then show ?thesis using that same by (simp add: cmd_def command_payload_def pget_given_call pget_Cons)
  qed
  have ex: "extract_pending_action (PDict (normalize_agent_result_for_ui r)) = Some q"
    unfolding extract_pending_action_def py.case u(1) by (simp add: nr)
  show ?thesis using u rd keys ex by blast
qed

definition demo_observation :: pydict where
  "demo_observation = [(''status'', PStr ''confirmation_required''), (''pending_action'', PDict demo_pending)]"

definition demo_result :: pydict where
  "demo_result = [(''output'', PStr ''Potvrdte.''), (''intermediate_steps'', PList [PDict [(''tool'', PStr ''crm_action_tool''),
     (''observation'', PStr (json_text json_readable (PDict demo_observation)))]])]"

theorem pending_command_faithful_witness:
  "\<exists>q t cmd. extract_pending_action (PDict (normalize_agent_result_for_ui demo_result)) = Some q
     \<and> pget (normalize_agent_result_for_ui demo_result) ''output'' = PStr t \<and> json_loads t = Inr (PDict cmd)
     \<and> pget cmd ''confirmation_token'' = PStr ''t1''"
proof -
  let ?step = "[(''tool'', PStr ''crm_action_tool''), (''observation'', PStr (json_text json_readable (PDict demo_observation)))]"
  obtain q where q: "normalize_pending_action_envelope (PDict demo_pending) = Some q"
    by (rule option.exhaust [of "normalize_pending_action_envelope (PDict demo_pending)"]) (code_simp, blast)
  have st: "steps_backwards demo_result = [?step]" by (simp add: steps_backwards_def demo_result_def pget_Cons dicts_of_def)
  have wf: "json_wf (PDict demo_observation)" by code_simp
  have ok: "status_of demo_observation = ''confirmation_required''" by code_simp
  have d: "pget ?step ''observation'' = PStr (json_text json_readable (PDict demo_observation))"
    "pget demo_observation ''pending_action'' = PDict demo_pending" "truthy (pget demo_pending ''tool'')"
    "pget demo_pending ''confirmation_token'' = PStr ''t1''"
    by (simp_all add: pget_Cons demo_observation_def demo_pending_def)
  from pending_command_faithful [OF st d(1) wf ok d(2) q d(3)] d(4) show ?thesis
    unfolding tool_call_keys_def by (metis list.set_intros)
qed

end
