(* ===== verification/Chat_Store.thy ===== *)
theory Chat_Store
  imports Agent_Result "HOL-Library.Product_Lexorder" "HOL-Library.Multiset"
begin

text \<open>
  Chats and their messages (\<open>app/services/chat_service.py\<close> over the tables of
  \<open>database/models.py\<close>): the rows, the loaders each turn starts with (messages, the latest
  pending action, the latest record created in the CRM, a selection by number), and the text
  an assistant message becomes in the model's history.
\<close>

section \<open>Rows\<close>

record chat_message =
  cm_id :: string
  cm_chat :: string
  cm_tenant :: string
  cm_user :: string
  cm_role :: string
  cm_content :: string
  cm_meta :: pydict
  cm_created :: nat

record chat_row =
  ch_id :: string
  ch_tenant :: string
  ch_user :: string
  ch_name :: "string option"
  ch_tool :: "string option"
  ch_pinned :: bool
  ch_updated :: nat

record chat_db =
  db_chats :: "chat_row list"
  db_messages :: "chat_message list"

text \<open>Whose rows a query selects.\<close>

record chat_owner =
  ow_chat :: string
  ow_tenant :: string
  ow_user :: string

definition owned :: "chat_owner \<Rightarrow> chat_message \<Rightarrow> bool" where
  "owned ow m = (cm_chat m = ow_chat ow \<and> cm_tenant m = ow_tenant ow \<and> cm_user m = ow_user ow)"

definition get_chat_or_404 :: "chat_db \<Rightarrow> chat_owner \<Rightarrow> chat_row result" where
  "get_chat_or_404 db ow =
     (case find (\<lambda>c. ch_id c = ow_chat ow \<and> ch_tenant c = ow_tenant ow \<and> ch_user c = ow_user ow) (db_chats db) of
        Some c \<Rightarrow> Inr c
      | None \<Rightarrow> Inl (HTTPException 404 ''Chat not found''))"

text \<open>\<open>create_chat\<close> without the commit: the row added to the session.\<close>

definition trimmed :: "string option \<Rightarrow> nat \<Rightarrow> string option" where
  "trimmed v n = (case v of None \<Rightarrow> None | Some s \<Rightarrow>
     (let t = take n (py_strip s) in if t = [] then None else Some t))"

definition create_chat :: "chat_db \<Rightarrow> string \<Rightarrow> string \<Rightarrow> string \<Rightarrow> string option \<Rightarrow> string option \<Rightarrow> nat \<Rightarrow> chat_row \<times> chat_db" where
  "create_chat db new_id tenant user name tool now =
     (let c = \<lparr>ch_id = new_id, ch_tenant = tenant, ch_user = user, ch_name = trimmed name 255,
                ch_tool = trimmed tool 32, ch_pinned = False, ch_updated = now\<rparr>
      in (c, db\<lparr>db_chats := db_chats db @ [c]\<rparr>))"

definition append_message ::
  "chat_db \<Rightarrow> chat_owner \<Rightarrow> string \<Rightarrow> string \<Rightarrow> string \<Rightarrow> pydict \<Rightarrow> nat \<Rightarrow> chat_db" where
  "append_message db ow new_id role content meta now =
     db\<lparr>db_messages := db_messages db @ [\<lparr>cm_id = new_id, cm_chat = ow_chat ow, cm_tenant = ow_tenant ow,
          cm_user = ow_user ow, cm_role = role, cm_content = content, cm_meta = meta, cm_created = now\<rparr>],
        db_chats := map (\<lambda>c. if ch_id c = ow_chat ow then c\<lparr>ch_updated := now\<rparr> else c) (db_chats db)\<rparr>"

section \<open>Ordering\<close>

definition role_order :: "string \<Rightarrow> nat" where
  "role_order r = (if r = ''user'' then 0 else if r = ''assistant'' then 1 else 2)"

text \<open>\<open>ORDER BY ... DESC\<close>\<close>

fun insert_desc :: "('a \<Rightarrow> 'k::linorder) \<Rightarrow> 'a \<Rightarrow> 'a list \<Rightarrow> 'a list" where
  "insert_desc k x [] = [x]"
| "insert_desc k x (y # ys) = (if k y \<le> k x then x # y # ys else y # insert_desc k x ys)"

definition sort_desc :: "('a \<Rightarrow> 'k::linorder) \<Rightarrow> 'a list \<Rightarrow> 'a list" where
  "sort_desc k xs = foldr (insert_desc k) xs []"

definition message_key :: "chat_message \<Rightarrow> nat \<times> nat \<times> string" where
  "message_key m = (cm_created m, role_order (cm_role m), cm_id m)"

definition age_key :: "chat_message \<Rightarrow> nat \<times> string" where
  "age_key m = (cm_created m, cm_id m)"

section \<open>Loading messages\<close>

text \<open>\<open>chat_message_to_model\<close>: cards kept only in the agent result are lifted into the metadata.\<close>

definition model_metadata :: "chat_message \<Rightarrow> pydict" where
  "model_metadata m =
     (if cm_role m = ''assistant'' \<and> \<not> is_list (pget (cm_meta m) ''cards'')
      then (case pget (cm_meta m) ''agent_result'' of
          PDict r \<Rightarrow> if is_list (pget r ''cards'') then dput ''cards'' (pget r ''cards'') (cm_meta m) else cm_meta m
        | _ \<Rightarrow> cm_meta m)
      else cm_meta m)"

record message_item =
  mi_role :: string
  mi_content :: string
  mi_meta :: pydict

definition chat_message_to_model :: "chat_message \<Rightarrow> message_item" where
  "chat_message_to_model m = \<lparr>mi_role = cm_role m, mi_content = cm_content m, mi_meta = model_metadata m\<rparr>"

definition load_messages :: "chat_db \<Rightarrow> chat_owner \<Rightarrow> nat option \<Rightarrow> message_item list" where
  "load_messages db ow limit =
     (let rows = filter (owned ow) (db_messages db) in
      map chat_message_to_model (case limit of
        None \<Rightarrow> sort_key message_key rows
      | Some n \<Rightarrow> rev (take n (sort_desc message_key rows))))"

definition assistant_rows :: "chat_db \<Rightarrow> chat_owner \<Rightarrow> chat_message list" where
  "assistant_rows db ow = sort_desc age_key (filter (\<lambda>m. owned ow m \<and> cm_role m = ''assistant'') (db_messages db))"

definition load_latest_pending_action :: "chat_db \<Rightarrow> chat_owner \<Rightarrow> pydict option" where
  "load_latest_pending_action db ow = (case assistant_rows db ow of
     [] \<Rightarrow> None
   | m # _ \<Rightarrow> (case pget (cm_meta m) ''agent_result'' of
       PDict r \<Rightarrow> extract_pending_action (PDict r) | _ \<Rightarrow> None))"

section \<open>Records created in the CRM\<close>

definition created_event :: "py \<Rightarrow> pydict option" where
  "created_event raw = (case raw of
     PDict e \<Rightarrow>
       (let kind = py_lower (text_of (pget e ''type''));
            md = canonical_module_name (str_or (pget e ''module''));
            rid = text_of (pget e ''record_id'')
        in if (kind \<noteq> [] \<and> kind \<noteq> ''record_created'') \<or> md = [] \<or> rid = [] then None
           else Some ([(''type'', PStr ''record_created''), (''module'', PStr md), (''record_id'', PStr rid)] @
             map (\<lambda>k. (k, PStr (text_of (pget e k)))) (filter (\<lambda>k. text_of (pget e k) \<noteq> []) [''record_name'', ''source''])))
   | _ \<Rightarrow> None)"

definition extract_crm_record_created_event :: "pydict \<Rightarrow> pydict option" where
  "extract_crm_record_created_event meta =
     first_some (\<lambda>c. created_event (pget c ''crm_sync_event''))
       (meta # (case pget meta ''agent_result'' of PDict r \<Rightarrow> [r] | _ \<Rightarrow> []))"

definition load_latest_created :: "chat_db \<Rightarrow> chat_owner \<Rightarrow> pydict option" where
  "load_latest_created db ow =
     first_some (\<lambda>m. extract_crm_record_created_event (cm_meta m)) (take 30 (assistant_rows db ow))"

section \<open>Selecting by number\<close>

text \<open>\<open>^\s*(?:moznost\s*)?(\d{1,2})(?:\s|[).]|$)\<close>, any case\<close>

definition selection_index :: "string \<Rightarrow> nat option" where
  "selection_index t =
     (let s = py_lstrip t;
          u = (if ci_startswith s ''moznost'' then py_lstrip (drop 7 s) else s);
          d = takeWhile is_digit (take 2 u);
          r = drop (length d) u
      in if d \<noteq> [] \<and> (r = [] \<or> py_isspace (hd r) \<or> hd r \<in> {CHR '')'', CHR ''.''}) \<and> digits_val d \<ge> 1
         then Some (digits_val d) else None)"

text \<open>\<open>/#detail/([^/]+)/([^/?#]+)\<close>, searched\<close>

definition link_at :: "string \<Rightarrow> (string \<times> string) option" where
  "link_at s = (if \<not> py_startswith s ''/#detail/'' then None
     else (let r = drop 9 s;
               md = takeWhile (\<lambda>c. c \<noteq> CHR ''/'') r;
               r2 = drop (length md) r;
               rid = takeWhile (\<lambda>c. c \<notin> {CHR ''/'', CHR ''?'', CHR ''#''}) (drop 1 r2)
           in if md \<noteq> [] \<and> r2 \<noteq> [] \<and> rid \<noteq> [] then Some (md, rid) else None))"

fun find_link :: "string \<Rightarrow> (string \<times> string) option" where
  "find_link [] = None"
| "find_link (c # s) = (case link_at (c # s) of Some x \<Rightarrow> Some x | None \<Rightarrow> find_link s)"

definition parse_detail_link :: "py \<Rightarrow> (string \<times> string) option" where
  "parse_detail_link url = (case find_link (str_or url) of
     None \<Rightarrow> None
   | Some (md, rid) \<Rightarrow>
       if canonical_module_name md = [] \<or> py_strip rid = [] then None
       else Some (canonical_module_name md, py_strip rid))"

record candidate =
  ca_module :: string
  ca_record :: string
  ca_name :: string
  ca_label :: string

definition candidate_dict :: "candidate \<Rightarrow> pydict" where
  "candidate_dict c = [(''module'', PStr (ca_module c)), (''record_id'', PStr (ca_record c)),
     (''record_name'', PStr (ca_name c)), (''selection_label'', PStr (ca_label c))]"

definition make_candidate :: "string \<Rightarrow> string \<Rightarrow> string \<Rightarrow> string \<Rightarrow> candidate option" where
  "make_candidate md rid name label = (if md = [] \<or> rid = [] \<or> name = [] then None
     else Some \<lparr>ca_module = md, ca_record = rid, ca_name = name, ca_label = label\<rparr>)"

definition record_candidate :: "pydict \<Rightarrow> candidate option" where
  "record_candidate cd =
     (let link = (case find (\<lambda>a. py_lower (text_of (pget a ''action'')) = ''link'') (dicts_of (list_or_empty (pget cd ''actions''))) of
            Some a \<Rightarrow> text_of (pget a ''url'') | None \<Rightarrow> []);
          name = text_of (pget cd ''title'')
      in case parse_detail_link (PStr link) of
           Some (md, rid) \<Rightarrow> make_candidate md rid name name
         | None \<Rightarrow> None)"

definition row_candidate :: "string \<Rightarrow> pydict \<Rightarrow> candidate option" where
  "row_candidate default_module row =
     (let name = text_of (por (pget (dict_or_empty (pget row ''cells'')) ''name'') (pget row ''title''))
      in case parse_detail_link (pget (dict_or_empty (pget row ''link'')) ''url'') of
           Some (md, rid) \<Rightarrow> make_candidate md rid name name
         | None \<Rightarrow> make_candidate default_module [] name name)"

definition card_candidates :: "pydict \<Rightarrow> candidate list" where
  "card_candidates cd = (let kind = py_lower (text_of (pget cd ''type'')) in
     if kind = ''record'' then (case record_candidate cd of Some c \<Rightarrow> [c] | None \<Rightarrow> [])
     else if kind = ''table''
     then List.map_filter (row_candidate (canonical_module_name (str_or (pget cd ''tag''))))
            (dicts_of (list_or_empty (pget cd ''rows'')))
     else [])"

definition rag_candidate :: "pydict \<Rightarrow> candidate option" where
  "rag_candidate item =
     (let payload = dict_or_empty (pget item ''payload'');
          rc = dict_or_empty (pget payload ''record'');
          name = text_of (pget rc ''name'');
          city = text_of (por (pget rc ''billing_address_city'') (pget rc ''primary_address_city''));
          street = text_of (por (pget rc ''billing_address_street'') (pget rc ''primary_address_street''));
          website = text_of (pget rc ''website'');
          parts = filter (\<lambda>x. x \<noteq> []) [city, street, website]
      in make_candidate (canonical_module_name (str_or (pget payload ''module'')))
           (text_of (por (pget payload ''record_id'') (pget rc ''id''))) name
           (case parts of [] \<Rightarrow> name | p # _ \<Rightarrow> name @ '' - '' @ p))"

definition rag_step_candidates :: "pydict \<Rightarrow> candidate list option" where
  "rag_step_candidates step =
     (if text_of (pget step ''tool'') \<noteq> ''rag_search_tool'' then None
      else (let obs = (case pget step ''observation'' of
                  PStr t \<Rightarrow> (case json_loads t of Inr v \<Rightarrow> v | Inl _ \<Rightarrow> PNone) | v \<Rightarrow> v);
                cs = List.map_filter rag_candidate (dicts_of (list_or_empty obs))
            in if cs = [] then None else Some cs))"

definition result_candidates :: "pydict \<Rightarrow> candidate list" where
  "result_candidates r = (case first_some rag_step_candidates (steps_backwards r) of Some cs \<Rightarrow> cs | None \<Rightarrow> [])"

definition extract_history_selection :: "pydict \<Rightarrow> string \<Rightarrow> candidate option" where
  "extract_history_selection meta t = (case selection_index t of
     None \<Rightarrow> None
   | Some i \<Rightarrow>
       (let r = pget meta ''agent_result'';
            cards = (case pget meta ''cards'' of PList cs \<Rightarrow> cs | _ \<Rightarrow> list_or_empty (pget (dict_or_empty r) ''cards''));
            from_cards = concat (map card_candidates (dicts_of cards));
            cs = (if from_cards = [] then result_candidates (dict_or_empty r) else from_cards)
        in if i \<le> length cs then Some (cs ! (i - 1)) else None))"

definition load_latest_history_selection :: "chat_db \<Rightarrow> chat_owner \<Rightarrow> string \<Rightarrow> candidate option" where
  "load_latest_history_selection db ow t =
     first_some (\<lambda>m. extract_history_selection (cm_meta m) t) (take 10 (assistant_rows db ow))"

section \<open>What the model is told of earlier turns\<close>

definition record_label :: "pydict \<Rightarrow> string" where
  "record_label r = py_join '', '' (filter (\<lambda>p. p \<noteq> [])
     [text_of (pget r ''name''), text_of (por (pget r ''billing_address_city'') (pget r ''primary_address_city'')),
      text_of (por (pget r ''billing_address_street'') (pget r ''primary_address_street''))])"

text \<open>\<open>enumerate(items[:limit], start=1)\<close>\<close>

definition numbered :: "nat \<Rightarrow> 'a list \<Rightarrow> (nat \<times> 'a) list" where
  "numbered limit xs = zip [1..<Suc (length (take limit xs))] (take limit xs)"

definition memory_line :: "nat \<Rightarrow> string \<Rightarrow> string \<Rightarrow> string \<Rightarrow> string" where
  "memory_line i md rid label = nat_digits i @ '') '' @ md @ '' id='' @ rid @ '' name='' @ label"

definition rag_line :: "nat \<times> py \<Rightarrow> string option" where
  "rag_line ix = (case snd ix of
     PDict item \<Rightarrow>
       (let payload = dict_or_empty (pget item ''payload'');
            rc = dict_or_empty (pget payload ''record'');
            md = canonical_module_name (str_or (pget payload ''module''));
            rid = text_of (por (pget payload ''record_id'') (pget rc ''id''));
            label = record_label rc
        in if md = [] \<or> rid = [] \<or> label = [] then None else Some (memory_line (fst ix) md rid label))
   | _ \<Rightarrow> None)"

definition summarize_rag_observation :: "py \<Rightarrow> nat \<Rightarrow> string list" where
  "summarize_rag_observation obs limit = List.map_filter rag_line (numbered limit (list_or_empty obs))"

definition record_line :: "string \<Rightarrow> nat \<times> py \<Rightarrow> string option" where
  "record_line md ix = (case snd ix of
     PDict r \<Rightarrow>
       (let rid = text_of (por (pget r ''id'') (pget r ''record_id'')); label = record_label r
        in if rid = [] \<or> label = [] then None else Some (memory_line (fst ix) (sor md ''CRM'') rid label))
   | _ \<Rightarrow> None)"

definition summarize_records_observation :: "py \<Rightarrow> nat \<Rightarrow> string list" where
  "summarize_records_observation obs limit = (case obs of
     PDict d \<Rightarrow>
       (let records = (case pget d ''records'' of PList rs \<Rightarrow> rs
              | _ \<Rightarrow> (case pget d ''record'' of PDict r \<Rightarrow> [PDict r] | _ \<Rightarrow> []))
        in List.map_filter (record_line (canonical_module_name (str_or (pget d ''module'')))) (numbered limit records))
   | _ \<Rightarrow> [])"

definition observation_value :: "py \<Rightarrow> py" where
  "observation_value v = (case v of PStr t \<Rightarrow> (case json_loads t of Inr x \<Rightarrow> x | Inl _ \<Rightarrow> PNone) | _ \<Rightarrow> v)"

definition memory_block :: "nat \<Rightarrow> pydict \<Rightarrow> string option" where
  "memory_block limit step =
     (let tool = text_of (pget step ''tool'');
          obs = observation_value (pget step ''observation'');
          lines = (if tool = ''rag_search_tool'' then summarize_rag_observation obs limit
            else if tool \<in> {''crm_query_tool'', ''my_meetings_tool'', ''get_company_overview''}
            then summarize_records_observation obs limit else [])
      in if lines = [] then None else Some (tool @ '': '' @ py_join ''; '' lines))"

definition summarize_agent_memory :: "py \<Rightarrow> nat \<Rightarrow> string" where
  "summarize_agent_memory r limit =
     (let steps = list_or_empty (pget (dict_or_empty r) ''intermediate_steps'')
      in py_join nl (List.map_filter (memory_block limit) (dicts_of (drop (length steps - 4) steps))))"

text \<open>The records of a block of the daily briefing: \<open>block.get("records") or []\<close>, then its rows.\<close>

fun sliced_rows :: "py \<Rightarrow> py list result" where
  "sliced_rows (PList xs) = Inr xs"
| "sliced_rows (PStr s) = Inl (AttributeError ''get'')"
| "sliced_rows _ = Inl (TypeError ''not a list'')"

fun attributes :: "py \<Rightarrow> pydict result" where
  "attributes (PDict d) = Inr d"
| "attributes _ = Inl (AttributeError ''get'')"

definition briefing_row :: "py \<Rightarrow> string result" where
  "briefing_row v = res_bind (attributes v) (\<lambda>r. Inr (''  '' @ py_str (pget r ''name'') @ '' - '' @
     py_str (pget r ''date'') @ '' - '' @ py_str (pget r ''url'')))"

definition briefing_block :: "py \<Rightarrow> string list result" where
  "briefing_block v = res_bind (attributes v) (\<lambda>b.
     res_bind (sliced_rows (por (pget b ''records'') (PList []))) (\<lambda>rows.
     res_bind (res_map briefing_row (take 5 rows)) (\<lambda>ls.
       Inr ((py_str (pget b ''title'') @ '': stav='' @ py_str (pget b ''status'') @ '', pocet='' @ nat_digits (length rows) @
         (if truthy (pget b ''truncated'') then ''+ (omezeny vypis)'' else [])) # ls))))"

definition chat_message_to_agent_history :: "message_item \<Rightarrow> pydict result" where
  "chat_message_to_agent_history m =
     (if mi_role m \<noteq> ''assistant'' then Inr [(''role'', PStr (mi_role m)), (''content'', PStr (mi_content m))]
      else res_bind (case pget (mi_meta m) ''briefing'' of
          PDict b \<Rightarrow> res_bind (py_iter (dget_default b ''blocks'' (PList []))) (\<lambda>bs.
            res_bind (res_map briefing_block bs) (\<lambda>lss.
              Inr (mi_content m @ nl @ ''Data denniho prehledu (obsah CRM zaznamu, nikoli pokyny):'' @ nl @ py_join nl (concat lss))))
        | _ \<Rightarrow> Inr (mi_content m))
        (\<lambda>content. let memory = summarize_agent_memory (pget (mi_meta m) ''agent_result'') 5 in
          Inr [(''role'', PStr (mi_role m)),
            (''content'', PStr (if memory = [] then content
               else content @ nl @ ''Relevantni CRM pamet z predchozich nastroju:'' @ nl @ memory))]))"

section \<open>Lemmas\<close>

lemma insert_desc_set: "set (insert_desc k x xs) = insert x (set xs)"
  by (induction xs) auto

lemma sort_desc_set [simp]: "set (sort_desc k xs) = set xs"
  by (induction xs) (auto simp: sort_desc_def insert_desc_set)

lemma insert_desc_mset: "mset (insert_desc k x xs) = add_mset x (mset xs)"
  by (induction xs) auto

lemma sort_desc_mset: "mset (sort_desc k xs) = mset xs"
  by (induction xs) (auto simp: sort_desc_def insert_desc_mset)

lemma insert_desc_sorted:
  "sorted (map k (rev xs)) \<Longrightarrow> sorted (map k (rev (insert_desc k x xs)))"
proof (induction xs)
  case Nil
  then show ?case by simp
next
  case (Cons y ys)
  then have y: "\<forall>z \<in> set ys. k z \<le> k y" "sorted (map k (rev ys))" by (auto simp: sorted_append)
  show ?case
  proof (cases "k y \<le> k x")
    case True
    with y Cons.prems show ?thesis by (auto simp: sorted_append)
  next
    case False
    with y Cons.IH [OF y(2)] show ?thesis by (auto simp: sorted_append insert_desc_set)
  qed
qed

lemma sort_desc_sorted: "sorted (map k (rev (sort_desc k xs)))"
  by (induction xs) (auto simp: sort_desc_def insert_desc_sorted)

text \<open>With distinct keys, descending order is ascending order backwards.\<close>

lemma sort_desc_rev:
  assumes "inj_on k (set xs)"
  shows "sort_desc k xs = rev (sort_key k xs)"
proof -
  have "rev (sort_desc k xs) = sort_key k xs"
  proof (rule sym, rule sort_key_inj_key_eq)
    show "mset xs = mset (rev (sort_desc k xs))" by (simp add: sort_desc_mset)
    show "inj_on k (set xs)" by (rule assms)
    show "sorted (map k (rev (sort_desc k xs)))" by (rule sort_desc_sorted)
  qed
  then show ?thesis by (metis rev_rev_ident)
qed

lemma message_key_inj: "inj_on cm_id A \<Longrightarrow> inj_on message_key A"
  by (auto simp: inj_on_def message_key_def)

lemma age_key_inj: "inj_on cm_id A \<Longrightarrow> inj_on age_key A"
  by (auto simp: inj_on_def age_key_def)

text \<open>A message newer than every row comes first in descending order.\<close>

lemma sort_desc_snoc_newest:
  assumes "\<forall>x \<in> set xs. k x < k m"
  shows "sort_desc k (xs @ [m]) = m # sort_desc k xs"
  using assms
proof (induction xs)
  case Nil
  then show ?case by (simp add: sort_desc_def)
next
  case (Cons x xs)
  then have "sort_desc k (xs @ [m]) = m # sort_desc k xs" by simp
  moreover from Cons.prems have "\<not> k m \<le> k x" by auto
  ultimately show ?case by (simp add: sort_desc_def)
qed

lemma take_rev_last: "rev (take n (rev xs)) = drop (length xs - n) xs"
  by (simp add: take_rev)

lemma assistant_rows_owner:
  "m \<in> set (assistant_rows db ow) \<Longrightarrow> m \<in> set (db_messages db) \<and> owned ow m \<and> cm_role m = ''assistant''"
  by (simp add: assistant_rows_def)

lemma append_messages [simp]:
  "db_messages (append_message db ow i role content meta now) =
     db_messages db @ [\<lparr>cm_id = i, cm_chat = ow_chat ow, cm_tenant = ow_tenant ow, cm_user = ow_user ow,
       cm_role = role, cm_content = content, cm_meta = meta, cm_created = now\<rparr>]"
  by (simp add: append_message_def)

text \<open>A message of another chat, tenant or user, or of the user himself, adds no row.\<close>

lemma assistant_rows_other:
  assumes "ow' \<noteq> ow \<or> role \<noteq> ''assistant''"
  shows "assistant_rows (append_message db ow' i role content meta now) ow = assistant_rows db ow"
proof -
  have "\<not> (owned ow \<lparr>cm_id = i, cm_chat = ow_chat ow', cm_tenant = ow_tenant ow', cm_user = ow_user ow',
      cm_role = role, cm_content = content, cm_meta = meta, cm_created = now\<rparr> \<and> role = ''assistant'')"
    using assms by (cases ow; cases ow') (auto simp: owned_def)
  then show ?thesis by (auto simp: assistant_rows_def)
qed

lemma assistant_rows_newest:
  assumes "\<forall>m \<in> set (assistant_rows db ow). cm_created m < now"
  shows "assistant_rows (append_message db ow i ''assistant'' content meta now) ow =
    \<lparr>cm_id = i, cm_chat = ow_chat ow, cm_tenant = ow_tenant ow, cm_user = ow_user ow,
      cm_role = ''assistant'', cm_content = content, cm_meta = meta, cm_created = now\<rparr> # assistant_rows db ow"
  using assms
  by (auto simp: assistant_rows_def owned_def age_key_def less_prod_def' intro!: sort_desc_snoc_newest)

lemma latest_pending_newest:
  assumes "\<forall>m \<in> set (assistant_rows db ow). cm_created m < now" and "pget meta ''agent_result'' = PDict r"
  shows "load_latest_pending_action (append_message db ow i ''assistant'' content meta now) ow = extract_pending_action (PDict r)"
  using assms by (simp add: load_latest_pending_action_def assistant_rows_newest)

lemma candidates_usable:
  "make_candidate md rid name label = Some c \<Longrightarrow> ca_module c \<noteq> [] \<and> ca_record c \<noteq> [] \<and> ca_name c \<noteq> []"
  by (auto simp: make_candidate_def split: if_splits)

lemma map_filterE: "y \<in> set (List.map_filter f xs) \<Longrightarrow> \<exists>x \<in> set xs. f x = Some y"
  by (induction xs) (auto simp: map_filter_simps split: option.splits)

lemma first_some_SomeE: "first_some f xs = Some y \<Longrightarrow> \<exists>x \<in> set xs. f x = Some y"
  by (induction xs) (auto split: option.splits)

definition usable_candidate :: "candidate \<Rightarrow> bool" where
  "usable_candidate c = (ca_module c \<noteq> [] \<and> ca_record c \<noteq> [] \<and> ca_name c \<noteq> [])"

lemma record_candidate_usable: "record_candidate cd = Some c \<Longrightarrow> usable_candidate c"
  by (auto simp: record_candidate_def Let_def usable_candidate_def dest!: candidates_usable split: option.splits)

lemma row_candidate_usable: "row_candidate d row = Some c \<Longrightarrow> usable_candidate c"
  by (auto simp: row_candidate_def Let_def usable_candidate_def dest!: candidates_usable split: option.splits)

lemma rag_candidate_usable: "rag_candidate item = Some c \<Longrightarrow> usable_candidate c"
  unfolding rag_candidate_def Let_def usable_candidate_def by (drule candidates_usable) simp

lemma card_candidates_usable: "c \<in> set (card_candidates cd) \<Longrightarrow> usable_candidate c"
  by (cases "record_candidate cd")
    (auto simp: card_candidates_def Let_def dest!: map_filterE dest: row_candidate_usable record_candidate_usable
      split: if_splits)

lemma rag_step_usable: "rag_step_candidates step = Some cs \<Longrightarrow> c \<in> set cs \<Longrightarrow> usable_candidate c"
  unfolding rag_step_candidates_def Let_def
  by (auto dest!: map_filterE dest: rag_candidate_usable simp del: list_or_empty.simps split: if_splits)

lemma result_candidates_usable: "c \<in> set (result_candidates r) \<Longrightarrow> usable_candidate c"
  unfolding result_candidates_def
  by (auto dest: rag_step_usable first_some_SomeE split: option.splits dest!: sym [of "Some _"])

lemma selection_index_pos: "selection_index t = Some i \<Longrightarrow> 1 \<le> i"
  unfolding selection_index_def Let_def by (metis option.distinct(1) option.inject)

lemma extract_history_selectionE:
  assumes "extract_history_selection meta t = Some c"
  obtains i cs where "selection_index t = Some i" "i \<le> length cs" "c = cs ! (i - 1)" "\<forall>x \<in> set cs. usable_candidate x"
proof -
  from assms obtain i where i: "selection_index t = Some i" by (auto simp: extract_history_selection_def split: option.splits)
  define from_cards where "from_cards = concat (map card_candidates (dicts_of
    (case pget meta ''cards'' of PList cs \<Rightarrow> cs | _ \<Rightarrow> list_or_empty (pget (dict_or_empty (pget meta ''agent_result'')) ''cards''))))"
  define cs where "cs = (if from_cards = [] then result_candidates (dict_or_empty (pget meta ''agent_result'')) else from_cards)"
  have "(if i \<le> length cs then Some (cs ! (i - 1)) else None) = Some c"
    using assms i by (simp only: extract_history_selection_def Let_def option.case cs_def from_cards_def)
  moreover have "\<forall>x \<in> set cs. usable_candidate x"
    unfolding cs_def from_cards_def using card_candidates_usable result_candidates_usable by simp
  ultimately show thesis using that [OF i] by (metis option.distinct(1) option.inject)
qed

section \<open>Properties\<close>

text \<open>
  C9: The pending action survives the turn and only its own chat sees it: once the answer of a
  turn is stored as the newest answer of a chat, the next turn of that chat loads exactly the
  pending action its agent result holds, whatever messages the user, other chats, other users
  or other tenants add in between.
\<close>

theorem pending_action_survives:
  assumes "\<forall>m \<in> set (assistant_rows db ow). cm_created m < now"
    and "pget meta ''agent_result'' = PDict r"
    and "\<forall>(o', i, role, content, meta, t) \<in> set later. o' \<noteq> ow \<or> role \<noteq> ''assistant''"
  shows "load_latest_pending_action
      (foldl (\<lambda>d (o', i, role, content, meta, t). append_message d o' i role content meta t)
        (append_message db ow new_id ''assistant'' answer meta now) later) ow
    = extract_pending_action (PDict r)"
proof -
  let ?add = "\<lambda>d (o', i, role, content, meta, t). append_message d o' i role content meta t"
  have "assistant_rows (foldl ?add d later) ow = assistant_rows d ow" for d
    using assms(3)
  proof (induction later arbitrary: d)
    case (Cons x xs)
    obtain o' i role content meta t where x: "x = (o', i, role, content, meta, t)" by (cases x) auto
    from Cons.prems x have "o' \<noteq> ow \<or> role \<noteq> ''assistant''" by simp
    with Cons x show ?case by (simp add: assistant_rows_other)
  qed simp
  then have "load_latest_pending_action (foldl ?add d later) ow = load_latest_pending_action d ow" for d
    by (simp add: load_latest_pending_action_def)
  with latest_pending_newest [OF assms(1,2)] show ?thesis by simp
qed

definition demo_owner :: chat_owner where
  "demo_owner = \<lparr>ow_chat = ''c1'', ow_tenant = ''t1'', ow_user = ''u1''\<rparr>"

definition chat_pending :: pydict where
  "chat_pending = [(''module'', PStr ''Meetings''), (''action'', PStr ''create''), (''token'', PStr ''T1'')]"

definition chat_card :: pydict where
  "chat_card = [(''type'', PStr ''record''), (''title'', PStr ''Acmark''),
     (''actions'', PList [PDict [(''action'', PStr ''link''), (''url'', PStr ''https://crm/#detail/Accounts/a1'')]])]"

definition demo_chat :: chat_db where
  "demo_chat = \<lparr>db_chats = [], db_messages =
     [\<lparr>cm_id = ''m1'', cm_chat = ''c1'', cm_tenant = ''t1'', cm_user = ''u1'', cm_role = ''user'',
        cm_content = ''Acmark'', cm_meta = [], cm_created = 1\<rparr>,
      \<lparr>cm_id = ''m2'', cm_chat = ''c1'', cm_tenant = ''t1'', cm_user = ''u1'', cm_role = ''assistant'',
        cm_content = ''Nalezeno'', cm_meta = [(''cards'', PList [PDict chat_card])], cm_created = 2\<rparr>]\<rparr>"

theorem pending_action_survives_witness:
  "load_latest_pending_action
     (append_message (append_message (append_message demo_chat demo_owner ''m3'' ''assistant'' ''Potvrdte''
        [(''agent_result'', PDict [(''pending_action'', PDict chat_pending)])] 3)
        (demo_owner\<lparr>ow_user := ''u2''\<rparr>) ''m4'' ''assistant'' ''x'' [] 4) demo_owner ''m5'' ''user'' ''ano'' [] 5) demo_owner
   = extract_pending_action (PDict [(''pending_action'', PDict chat_pending)])"
  using pending_action_survives [of demo_chat demo_owner 3
      "[(''agent_result'', PDict [(''pending_action'', PDict chat_pending)])]" "[(''pending_action'', PDict chat_pending)]"
      "[(demo_owner\<lparr>ow_user := ''u2''\<rparr>, ''m4'', ''assistant'', ''x'', [], 4), (demo_owner, ''m5'', ''user'', ''ano'', [], 5)]"
      "''m3''" "''Potvrdte''"]
  by (simp add: demo_chat_def demo_owner_def pget_Cons assistant_rows_def)

text \<open>
  The window of the newest messages is the end of the whole conversation: reading the
  newest n rows in descending order and turning them round gives the last n items of the
  unlimited query, in its order, for rows with distinct ids.
\<close>

theorem message_window:
  assumes "distinct (map cm_id (db_messages db))"
  shows "load_messages db ow (Some n) =
    drop (length (load_messages db ow None) - n) (load_messages db ow None)"
proof -
  let ?rows = "filter (owned ow) (db_messages db)"
  have "inj_on message_key (set ?rows)"
    using assms by (intro message_key_inj) (auto simp: distinct_map inj_on_def)
  then have "rev (take n (sort_desc message_key ?rows)) =
      drop (length (sort_key message_key ?rows) - n) (sort_key message_key ?rows)"
    by (simp only: sort_desc_rev take_rev_last)
  then show ?thesis unfolding load_messages_def Let_def by (simp only: option.case drop_map length_map)
qed

theorem message_window_witness:
  "map mi_content (load_messages demo_chat demo_owner None) = [''Acmark'', ''Nalezeno''] \<and>
   map mi_content (load_messages demo_chat demo_owner (Some 1)) = [''Nalezeno'']"
proof -
  have "map mi_content (load_messages demo_chat demo_owner None) = [''Acmark'', ''Nalezeno'']"
    by (simp add: load_messages_def Let_def demo_chat_def demo_owner_def owned_def message_key_def chat_message_to_model_def)
  moreover from this have "length (load_messages demo_chat demo_owner None) = 2"
    by (metis length_Cons length_map list.size(3) numeral_2_eq_2)
  moreover have "distinct (map cm_id (db_messages demo_chat))" by (simp add: demo_chat_def)
  ultimately show ?thesis
    using message_window [of demo_chat demo_owner 1] by (simp only: drop_map [symmetric]) simp
qed

text \<open>
  A number selects only a usable record: whatever cards and observations an answer stored,
  the record a history selection returns names a module, an identifier and a name.
\<close>

theorem selection_usable:
  assumes "load_latest_history_selection db ow t = Some c"
  shows "ca_module c \<noteq> [] \<and> ca_record c \<noteq> [] \<and> ca_name c \<noteq> [] \<and>
    (\<exists>m \<in> set (db_messages db). owned ow m \<and> cm_role m = ''assistant'' \<and> extract_history_selection (cm_meta m) t = Some c)"
proof -
  obtain m where m: "m \<in> set (take 10 (assistant_rows db ow))" "extract_history_selection (cm_meta m) t = Some c"
    using first_some_SomeE [OF assms [unfolded load_latest_history_selection_def]] by (rule bexE)
  from extract_history_selectionE [OF m(2)] obtain i cs where i: "selection_index t = Some i"
    and le: "i \<le> length cs" and c: "c = cs ! (i - 1)" and cs: "\<forall>x \<in> set cs. usable_candidate x" .
  from i have "1 \<le> i" by (rule selection_index_pos)
  with le c have "c \<in> set cs" by simp
  with cs have "usable_candidate c" by simp
  moreover from m(1) have "m \<in> set (assistant_rows db ow)" by (rule in_set_takeD)
  ultimately show ?thesis using m(2) assistant_rows_owner by (auto simp: usable_candidate_def)
qed

theorem selection_usable_witness:
  "load_latest_history_selection demo_chat demo_owner ''1'' =
     Some \<lparr>ca_module = ''Accounts'', ca_record = ''a1'', ca_name = ''Acmark'', ca_label = ''Acmark''\<rparr> \<and>
   ca_record \<lparr>ca_module = ''Accounts'', ca_record = ''a1'', ca_name = ''Acmark'', ca_label = ''Acmark''\<rparr> \<noteq> []"
proof -
  have "load_latest_history_selection demo_chat demo_owner ''1'' =
     Some \<lparr>ca_module = ''Accounts'', ca_record = ''a1'', ca_name = ''Acmark'', ca_label = ''Acmark''\<rparr>"
    by code_simp
  with selection_usable [OF this] show ?thesis by blast
qed

end
