(* ===== verification/Turn_Context.thy ===== *)
theory Turn_Context
  imports Chat_Store
begin

text \<open>
  The context of a turn (\<open>app/engine/pipeline.py\<close>, its first half): what the form sends is
  completed from the chat's pending action, the record the chat created last and the record
  picked by number, and gets a hint on the open record.
\<close>

section \<open>Completing a context\<close>

definition first_nonempty_from_map :: "pydict \<Rightarrow> string list \<Rightarrow> string option" where
  "first_nonempty_from_map data ks =
     first_some (\<lambda>k. let v = safe_text (pget data k) in if v \<noteq> [] then Some v else None) ks"

text \<open>\<open>if value and not str(d.get(key) or "").strip(): d[key] = value\<close>\<close>

definition fill :: "string \<Rightarrow> string \<Rightarrow> pydict \<Rightarrow> pydict" where
  "fill k v d = (if v \<noteq> [] \<and> text_of (pget d k) = [] then dput k (PStr v) d else d)"

text \<open>\<open>if entities: merged["entities"] = entities\<close>\<close>

definition put_entities :: "pydict \<Rightarrow> pydict \<Rightarrow> pydict" where
  "put_entities es d = (if es = [] then d else dput ''entities'' (PDict es) d)"

definition contact_name_keys :: "string list" where
  "contact_name_keys = [''contact_name'', ''related_contact_name'', ''invite_contact_name'', ''participant_name'']"

definition account_name_keys :: "string list" where
  "account_name_keys = [''account_name'', ''related_account_name'', ''company'', ''company_name'']"

definition name_in :: "string list \<Rightarrow> pydict \<Rightarrow> pydict \<Rightarrow> string" where
  "name_in ks flds data = (case first_nonempty_from_map flds ks of
     Some v \<Rightarrow> v
   | None \<Rightarrow> (case first_nonempty_from_map data ks of Some v \<Rightarrow> v | None \<Rightarrow> []))"

definition pending_entities :: "string \<Rightarrow> string \<Rightarrow> pydict \<Rightarrow> pydict \<Rightarrow> pydict \<Rightarrow> pydict" where
  "pending_entities ptype pid flds data es =
     (let e1 = fill ''account_name'' (name_in account_name_keys flds data)
                 (fill ''contact_name'' (name_in contact_name_keys flds data) es);
          e2 = (if py_contains ''contact'' (py_lower ptype) then fill ''contact_id'' pid e1 else e1)
      in if py_contains ''account'' (py_lower ptype) then fill ''account_id'' pid e2 else e2)"

definition merge_context_with_pending_action :: "pydict \<Rightarrow> pydict \<Rightarrow> pydict" where
  "merge_context_with_pending_action context pending =
     (let m0 = (if has_key ''pending_action'' context then context else dput ''pending_action'' (PDict pending) context);
          m1 = fill ''module'' (text_of (por (pget pending ''module'') (pget pending ''effective_module''))) m0;
          data = dict_or_empty (pget pending ''data'');
          flds = dict_or_empty (pget data ''fields'');
          ptype = text_of (por (pget flds ''parent_type'') (pget data ''parent_type''));
          pid = text_of (por (pget flds ''parent_id'') (pget data ''parent_id''));
          m2 = fill ''record_module'' ptype (fill ''record'' pid m1)
      in put_entities (pending_entities ptype pid flds data (dict_or_empty (pget m2 ''entities''))) m2)"

definition merge_context_with_created_record :: "pydict \<Rightarrow> pydict \<Rightarrow> pydict" where
  "merge_context_with_created_record context event =
     (let md = canonical_module_name (str_or (pget event ''module''));
          rid = text_of (pget event ''record_id'');
          m = fill ''record_name'' (text_of (pget event ''record_name'')) (fill ''record_id'' rid (fill ''record'' rid
                (fill ''record_module'' md (fill ''module'' md context))));
          e0 = dict_or_empty (pget m ''entities'');
          e1 = (if py_lower md = ''meetings'' then fill ''meeting_id'' rid e0 else e0);
          e2 = (if py_lower md = ''calls'' then fill ''call_id'' rid e1 else e1)
      in put_entities e2 m)"

text \<open>\<open>if value: d[key] = value\<close>\<close>

definition put_text :: "string \<Rightarrow> string \<Rightarrow> pydict \<Rightarrow> pydict" where
  "put_text k v d = (if v = [] then d else dput k (PStr v) d)"

definition selection_entities :: "string \<Rightarrow> string \<Rightarrow> string \<Rightarrow> pydict \<Rightarrow> pydict" where
  "selection_entities ml rid name es =
     (if ml = ''accounts'' then put_text ''account_name'' name (dput ''account_id'' (PStr rid) es)
      else if ml = ''contacts'' then put_text ''contact_name'' name (dput ''contact_id'' (PStr rid) es)
      else if ml = ''leads'' then put_text ''lead_name'' name (dput ''lead_id'' (PStr rid) es)
      else es)"

definition merge_context_with_history_selection :: "pydict \<Rightarrow> pydict \<Rightarrow> pydict" where
  "merge_context_with_history_selection context sel =
     (let md = canonical_module_name (str_or (pget sel ''module''));
          rid = text_of (pget sel ''record_id'');
          name = text_of (pget sel ''record_name'');
          lbl = text_of (por (pget sel ''selection_label'') (PStr name))
      in if md = [] \<or> rid = [] then context
         else (let m = dput ''selection_source'' (PStr ''history_selection'')
                    (put_text ''selected_option_label'' lbl (put_text ''record_name'' name
                    (dput ''record_id'' (PStr rid) (dput ''record'' (PStr rid)
                    (dput ''record_module'' (PStr md) (dput ''module'' (PStr md) context))))))
               in put_entities (selection_entities (py_lower md) rid name (dict_or_empty (pget m ''entities''))) m))"

section \<open>Questions that change nothing\<close>

definition mutation_tokens :: "string list" where
  "mutation_tokens = [''vytvor'', ''zaloz'', ''naplanuj'', ''pridej'', ''uprav'', ''zmen'', ''smaz'', ''odstran'',
     ''delete'', ''update'', ''create'', ''patch'']"

definition question_markers :: "string list" where
  "question_markers = [''kdo '', ''jake '', ''jaky '', ''co '', ''kde '', ''kdy '', ''kolik '', ''?'']"

definition data_tokens :: "string list" where
  "data_tokens = [''schuzk'', ''meeting'', ''kontakt'', ''contact'', ''firma'', ''spolecnost'', ''account'',
     ''zaznam'', ''records'']"

definition is_read_only_data_query :: "string \<Rightarrow> bool" where
  "is_read_only_data_query t =
     (let n = py_join '' '' (py_split_ws (map unaccent_char (py_lower (py_strip t)))) in
      n \<noteq> [] \<and> \<not> list_ex (\<lambda>w. py_contains w n) mutation_tokens
      \<and> list_ex (\<lambda>w. py_contains w n) question_markers \<and> list_ex (\<lambda>w. py_contains w n) data_tokens)"

section \<open>The hint on the open record\<close>

definition focus_labels :: "(string \<times> string) list" where
  "focus_labels = [(''meetings'', ''schuzky''), (''calls'', ''hovoru''), (''contacts'', ''kontaktu''),
     (''accounts'', ''firmy''), (''tasks'', ''ukolu''), (''notes'', ''poznamky'')]"

definition build_soft_ui_focus_hint :: "pydict \<Rightarrow> string option" where
  "build_soft_ui_focus_hint context =
     (let md = canonical_module_name (str_or (por (pget context ''record_module'') (pget context ''module'')));
          name = text_of (pget context ''record_name'');
          rid = text_of (por (pget context ''record_id'') (pget context ''record''));
          lbl = (if md = [] then ''zaznamu'' else dget_default focus_labels (py_lower md) ''zaznamu'')
      in if md = [] \<and> name = [] \<and> rid = [] then None
         else Some (py_join '' '' ([''Uzivatel ma v CRM prave otevren DetailView '' @ lbl @ ''.''] @
           (if name = [] then [] else [''Nazev: '' @ [CHR 0x27] @ name @ [CHR 0x27] @ ''.'']) @
           (if rid = [] then [] else [''ID: '' @ rid @ ''.'']) @
           [''Ber to jako orientacni kontext (napovedu), ne jako zavazny fakt.''])))"

definition with_soft_ui_focus_hint :: "pydict \<Rightarrow> pydict" where
  "with_soft_ui_focus_hint context =
     (if text_of (pget context ''ui_focus_hint_cz'') \<noteq> [] then context
      else (case build_soft_ui_focus_hint context of
          Some h \<Rightarrow> dput ''ui_focus_hint_cz'' (PStr h) context | None \<Rightarrow> context))"

section \<open>The context of a turn\<close>

definition merge_created :: "pydict \<Rightarrow> pydict option \<Rightarrow> pydict" where
  "merge_created context created = (case created of
     None \<Rightarrow> context
   | Some ev \<Rightarrow>
       (let incoming = canonical_module_name (str_or (pget context ''module''));
            created_md = canonical_module_name (str_or (pget ev ''module''))
        in if incoming = [] \<or> py_lower incoming = py_lower created_md
           then merge_context_with_created_record context ev else context))"

definition merge_pending :: "string \<Rightarrow> pydict \<Rightarrow> pydict option \<Rightarrow> pydict" where
  "merge_pending t context pending = (case pending of
     None \<Rightarrow> context
   | Some p \<Rightarrow> if p \<noteq> [] \<and> (truthy (pget context ''confirm_action'') \<or> \<not> is_read_only_data_query t)
       then merge_context_with_pending_action context p else context)"

definition effective_context :: "chat_db \<Rightarrow> chat_owner \<Rightarrow> string \<Rightarrow> pydict \<Rightarrow> pydict" where
  "effective_context db ow t context =
     (let c1 = merge_created context (load_latest_created db ow);
          c2 = merge_pending t c1 (load_latest_pending_action db ow);
          c3 = (case load_latest_history_selection db ow t of
            Some c \<Rightarrow> merge_context_with_history_selection c2 (candidate_dict c) | None \<Rightarrow> c2)
      in with_soft_ui_focus_hint c3)"

text \<open>The pending action a turn works on: the context's own, else the chat's.\<close>

definition pending_of_turn :: "pydict \<Rightarrow> pydict option \<Rightarrow> pydict option" where
  "pending_of_turn context latest = (case pget context ''pending_action'' of
     PDict p \<Rightarrow> if p = [] then latest else Some p
   | _ \<Rightarrow> latest)"

section \<open>Lemmas\<close>

text \<open>Completing fills gaps: the entries a context comes with keep their values.\<close>

lemma pget_fill [dict_simps]: "pget (fill k v d) k' = (if k' = k \<and> v \<noteq> [] \<and> text_of (pget d k) = [] then PStr v else pget d k')"
  by (simp add: fill_def)

lemma pget_put_entities [dict_simps]: "k \<noteq> ''entities'' \<Longrightarrow> pget (put_entities es d) k = pget d k"
  by (simp add: put_entities_def)

lemma pget_put_text [dict_simps]: "pget (put_text k v d) k' = (if k' = k \<and> v \<noteq> [] then PStr v else pget d k')"
  by (simp add: put_text_def)

definition filled_keys :: "string list" where
  "filled_keys = [''pending_action'', ''entities'', ''module'', ''record'', ''record_module'', ''record_id'',
     ''record_name'', ''selected_option_label'', ''selection_source'', ''ui_focus_hint_cz'']"

lemma pending_merge_keeps: "k \<notin> set filled_keys \<Longrightarrow> pget (merge_context_with_pending_action c p) k = pget c k"
  by (simp add: merge_context_with_pending_action_def Let_def filled_keys_def dict_simps)

lemma created_merge_keeps:
  "k \<notin> set filled_keys \<or> k = ''pending_action'' \<Longrightarrow> pget (merge_context_with_created_record c e) k = pget c k"
  by (auto simp: merge_context_with_created_record_def Let_def filled_keys_def dict_simps)

lemma selection_merge_keeps:
  "k \<notin> set filled_keys \<or> k = ''pending_action'' \<Longrightarrow> pget (merge_context_with_history_selection c s) k = pget c k"
  by (auto simp: merge_context_with_history_selection_def Let_def filled_keys_def dict_simps)

lemma hint_keeps: "k \<noteq> ''ui_focus_hint_cz'' \<Longrightarrow> pget (with_soft_ui_focus_hint c) k = pget c k"
  by (auto simp: with_soft_ui_focus_hint_def split: option.splits)

lemma merge_created_keeps: "k \<notin> set filled_keys \<or> k = ''pending_action'' \<Longrightarrow> pget (merge_created c e) k = pget c k"
  using created_merge_keeps by (auto simp: merge_created_def Let_def split: option.splits)

lemma merge_pending_keeps: "k \<notin> set filled_keys \<Longrightarrow> pget (merge_pending t c p) k = pget c k"
  using pending_merge_keeps by (auto simp: merge_pending_def split: option.splits)

lemma effective_context_keeps:
  assumes "k \<notin> set filled_keys"
  shows "pget (effective_context db ow t c) k = pget c k"
proof -
  have "k \<noteq> ''ui_focus_hint_cz''" using assms by (auto simp: filled_keys_def)
  with assms show ?thesis
    by (auto simp: effective_context_def Let_def hint_keeps selection_merge_keeps merge_pending_keeps
        merge_created_keeps split: option.split)
qed

lemma confirm_action_kept: "pget (effective_context db ow t c) ''confirm_action'' = pget c ''confirm_action''"
  by (rule effective_context_keeps) (simp add: filled_keys_def)

lemma pending_merge_adds:
  "\<not> has_key ''pending_action'' c \<Longrightarrow> pget (merge_context_with_pending_action c p) ''pending_action'' = PDict p"
  by (simp add: merge_context_with_pending_action_def Let_def dict_simps)

lemma pending_merge_given:
  "has_key ''pending_action'' c \<Longrightarrow> pget (merge_context_with_pending_action c p) ''pending_action'' = pget c ''pending_action''"
  by (simp add: merge_context_with_pending_action_def Let_def dict_simps)

text \<open>Without a pending action of its own, a turn works on the chat's.\<close>

lemma pending_of_effective:
  assumes "\<not> has_key ''pending_action'' c"
  shows "pending_of_turn (effective_context db ow t c) (load_latest_pending_action db ow) = load_latest_pending_action db ow"
proof -
  let ?c1 = "merge_created c (load_latest_created db ow)"
  let ?l = "load_latest_pending_action db ow"
  have n: "pget c ''pending_action'' = PNone"
    using assms by (simp add: has_key_def pget_def dget_default_def)
  have e: "pget (effective_context db ow t c) ''pending_action'' = pget (merge_pending t ?c1 ?l) ''pending_action''"
    by (auto simp: effective_context_def Let_def hint_keeps selection_merge_keeps split: option.split)
  have g: "pget (merge_context_with_pending_action ?c1 p) ''pending_action'' \<in> {PNone, PDict p}" for p
    using pending_merge_adds pending_merge_given merge_created_keeps [of "''pending_action''" c] n
    by (cases "has_key ''pending_action'' ?c1") auto
  show ?thesis
  proof (cases ?l)
    case None
    then show ?thesis using n merge_created_keeps [of "''pending_action''" c]
      by (simp add: pending_of_turn_def e merge_pending_def)
  next
    case (Some p)
    then have "pget (merge_pending t ?c1 ?l) ''pending_action'' \<in> {PNone, PDict p}"
      using g [of p] n merge_created_keeps [of "''pending_action''" c] by (auto simp: merge_pending_def)
    with Some show ?thesis by (auto simp: pending_of_turn_def e)
  qed
qed

section \<open>Properties\<close>

text \<open>
  The context of a turn is only completed. Whatever the chat remembers, a value the form
  sent that says something keeps it: every entry outside the ones the turn fills is untouched,
  the confirmation flag and a pending action sent by the form among them, and without a record
  picked by number the form's own module, record and record name stay.
\<close>

theorem context_only_completed:
  assumes "load_latest_history_selection db ow t = None"
  shows "(k \<notin> set filled_keys \<longrightarrow> pget (effective_context db ow t c) k = pget c k)
    \<and> (k \<in> {''module'', ''record'', ''record_module'', ''record_id'', ''record_name''} \<and> text_of (pget c k) \<noteq> []
        \<longrightarrow> pget (effective_context db ow t c) k = pget c k)
    \<and> (has_key ''pending_action'' c
        \<longrightarrow> pget (effective_context db ow t c) ''pending_action'' = pget c ''pending_action'')"
proof (intro conjI impI)
  show "pget (effective_context db ow t c) k = pget c k" if "k \<notin> set filled_keys"
    using that by (rule effective_context_keeps)
next
  assume k: "k \<in> {''module'', ''record'', ''record_module'', ''record_id'', ''record_name''} \<and> text_of (pget c k) \<noteq> []"
  then have cr: "pget (merge_created c e) k = pget c k" for e
    by (auto simp: merge_created_def merge_context_with_created_record_def Let_def dict_simps split: option.splits)
  have "pget (merge_context_with_pending_action d p) k = pget d k" if "pget d k = pget c k" for d p
    using k that by (auto simp: merge_context_with_pending_action_def Let_def dict_simps)
  with cr have "pget (merge_pending t (merge_created c e) p) k = pget c k" for e p
    by (auto simp: merge_pending_def split: option.splits)
  with k assms show "pget (effective_context db ow t c) k = pget c k"
    by (auto simp: effective_context_def Let_def hint_keeps)
next
  assume h: "has_key ''pending_action'' c"
  have hf: "has_key ''pending_action'' (fill j v d) = has_key ''pending_action'' d" if "j \<noteq> ''pending_action''" for j v d
    using that by (simp add: fill_def has_key_def)
  have hp: "has_key ''pending_action'' (put_entities es d) = has_key ''pending_action'' d" for es d
    by (simp add: put_entities_def has_key_def)
  have "has_key ''pending_action'' (merge_created c e)" for e
    using h by (auto simp: merge_created_def merge_context_with_created_record_def Let_def hf hp split: option.splits)
  then have "pget (merge_pending t (merge_created c e) p) ''pending_action'' = pget c ''pending_action''" for e p
    using pending_merge_given merge_created_keeps [of "''pending_action''" c]
    by (auto simp: merge_pending_def split: option.splits)
  with assms show "pget (effective_context db ow t c) ''pending_action'' = pget c ''pending_action''"
    by (auto simp: effective_context_def Let_def hint_keeps)
qed

theorem context_only_completed_witness:
  "pget (effective_context demo_chat demo_owner ''Kdy?'' [(''module'', PStr ''Calls''), (''confirm_action'', PBool True)])
     ''module'' = PStr ''Calls''"
proof -
  have "load_latest_history_selection demo_chat demo_owner ''Kdy?'' = None" by code_simp
  from context_only_completed [OF this, of "''module''" "[(''module'', PStr ''Calls''), (''confirm_action'', PBool True)]"]
  moreover have "py_strip ''Calls'' \<noteq> []" by code_simp
  ultimately show ?thesis by (simp add: pget_Cons)
qed

end
