(* ===== verification/Pipeline.thy ===== *)
theory Pipeline
  imports Agent_Turn Pending_Patch Turn_Context
begin

text \<open>
  One request of a chat (\<open>process_input_core\<close> of \<open>app/engine/pipeline.py\<close>): load what the chat
  remembers, complete the context, then run the confirmed call, or patch the proposal, or run
  the agent; store both messages. An exception leaves the transaction uncommitted, but not the
  requests that already left the gateway.
\<close>

section \<open>What a turn is given\<close>

text \<open>
  When the deadline of the agent strikes: never, while the model answers after some rounds of
  the loop, or inside a tool call, which it cancels.
\<close>

datatype deadline = NoDeadline | AfterRounds nat | InToolCall

record pipeline_env =
  pe_libs :: turn_libs
  pe_calls :: "nat \<Rightarrow> call_env"
  pe_schema :: "string \<Rightarrow> string option \<Rightarrow> py result"
  pe_natives :: "pydict \<Rightarrow> string set \<Rightarrow> (string \<times> native_tool) list"
  pe_manifest :: "manifest option"
  pe_prompt :: string
  pe_streaming :: bool
  pe_limit :: nat
  pe_deadline :: deadline
  pe_now :: datetime
  pe_time :: nat
  pe_chat_id :: string
  pe_user_id :: string
  pe_answer_id :: string

record turn_input =
  ti_tenant :: string
  ti_user :: string
  ti_chat :: "string option"
  ti_text :: string
  ti_context :: pydict

datatype execution_mode = AgentMode | ConfirmedMode | PatchMode

record turn_output =
  out_mode :: execution_mode
  out_result :: pydict
  out_text :: string
  out_chat :: string
  out_history :: "message_item list"
  out_cards :: "py list"
  out_capabilities :: "string list"
  out_unknown :: "string list"
  out_form_patch :: "pydict option"

definition turn_toolset :: "pipeline_env \<Rightarrow> turn_input \<Rightarrow> pydict \<Rightarrow> toolset" where
  "turn_toolset env inp ctx =
     build_toolset (ti_tenant inp) ctx (pe_schema env) (pe_natives env ctx) None (pe_manifest env)"

section \<open>Calls the pipeline makes itself\<close>

definition cancelled :: py_exc where
  "cancelled = OtherError ''CancelledError''"

definition crm_step ::
  "invoke_end \<times> call_request list \<times> provider_state \<Rightarrow> turn_world \<Rightarrow> pydict result \<times> turn_world" where
  "crm_step x w = (case x of (e, rqs, p) \<Rightarrow>
     (case e of Observed v \<Rightarrow> Inr (dict_or_empty v) | Raised ex \<Rightarrow> Inl ex | CallCancelled \<Rightarrow> Inl cancelled,
      w\<lparr>tw_provider := p, tw_requests := tw_requests w @ rqs, tw_calls := Suc (tw_calls w)\<rparr>))"

definition tool_step_result :: "string \<Rightarrow> pydict \<Rightarrow> pydict" where
  "tool_step_result tool obs =
     (let message = text_of (por (por (pget obs ''message_to_user'') (pget obs ''message'')) (pget obs ''summary''))
      in normalize_agent_result_for_ui [(''output'', PStr message), (''intermediate_steps'', PList [PDict
           [(''tool'', PStr tool), (''tool_input'', PDict []),
            (''observation'', PStr (json_text json_readable (PDict obs))), (''log'', PNone)]])])"

definition confirmed_call ::
  "pipeline_env \<Rightarrow> toolset \<Rightarrow> pydict \<Rightarrow> turn_world \<Rightarrow> pydict result \<times> turn_world" where
  "confirmed_call env ts p w =
     (case crm_step (execute_pending (pe_calls env (tw_calls w)) ts p (tw_provider w)) w of (r, w') \<Rightarrow>
        (res_bind r (\<lambda>obs. Inr (tool_step_result (str_or (pget p ''tool'')) obs)), w'))"

text \<open>A patched proposal of a tool call is previewed again, with the message of the patch.\<close>

definition patched_call ::
  "pipeline_env \<Rightarrow> toolset \<Rightarrow> pydict \<Rightarrow> pydict \<Rightarrow> turn_world \<Rightarrow> pydict result \<times> turn_world" where
  "patched_call env ts p patch w = (case pget patch ''pending_action'' of
     PDict patched \<Rightarrow>
       if truthy (pget p ''tool'')
       then (case crm_step (repreview_pending (pe_calls env (tw_calls w)) ts p
               (dict_or_empty (pget patched ''data'')) (tw_provider w)) w of (r, w') \<Rightarrow>
         (res_bind r (\<lambda>obs. let ar = tool_step_result (py_str (pget p ''tool'')) obs in
            Inr (if pget ar ''status'' = PStr ''confirmation_required''
                 then dput ''message_to_user'' (por (pget patch ''message_to_user'') (pget ar ''message_to_user'')) ar
                 else ar)), w'))
       else (Inr patch, w)
   | _ \<Rightarrow> (Inr patch, w))"

section \<open>The agent\<close>

definition timeout_message :: string where
  "timeout_message = ''Zpracovani dotazu trvalo prilis dlouho a bylo preruseno. Zkuste to prosim znovu nebo dotaz zjednoduste.''"

definition agent_error_message :: string where
  "agent_error_message = ''Nastala chyba pri provedeni akce v CRM. Akce nebyla provedena. Zkontrolujte povinna pole a potvrdte akci znovu.''"

definition failed_turn :: "string \<Rightarrow> string \<Rightarrow> pydict" where
  "failed_turn code message = [(''output'', PStr message), (''error'', PStr code), (''status'', PStr code),
     (''message_to_user'', PStr message)]"

definition step_dict :: "agent_step \<Rightarrow> py" where
  "step_dict s = PDict [(''tool'', PStr (as_tool s)), (''tool_input'', PDict (as_input s)),
     (''observation'', PStr (as_observation s)), (''log'', PNone)]"

text \<open>The raw end of the agent: an answer, a deadline, or an exception.\<close>

datatype agent_end = AgentAnswer string | AgentTimeout | AgentRaised py_exc

definition run_with_deadline ::
  "deadline \<Rightarrow> turn_world agent_env \<Rightarrow> message list \<Rightarrow> turn_world \<Rightarrow> agent_end \<times> turn_world agent_state" where
  "run_with_deadline dl aenv ms w =
     (let st0 = emit_event aenv (AgentStarted (ag_max_iterations aenv))
                  \<lparr>st_world = w, st_messages = ms, st_steps = [], st_events = [], st_llm_calls = 0\<rparr>;
          full = (case run_agent aenv ms w of (r, st) \<Rightarrow>
            ((case r of Inr a \<Rightarrow> AgentAnswer a
              | Inl e \<Rightarrow> if e = cancelled \<and> dl = InToolCall then AgentTimeout else AgentRaised e), st))
      in case dl of
           AfterRounds k \<Rightarrow> (case agent_loop aenv (min k (ag_max_iterations aenv)) 0 st0 of
               (Again, st) \<Rightarrow> (AgentTimeout, st)
             | _ \<Rightarrow> full)
         | _ \<Rightarrow> full)"

text \<open>\<open>except asyncio.TimeoutError\<close> and \<open>except Exception\<close>; a cancellation is neither.\<close>

definition agent_result_of :: "agent_end \<Rightarrow> agent_step list \<Rightarrow> pydict result" where
  "agent_result_of x steps = (case x of
     AgentAnswer a \<Rightarrow> Inr (normalize_agent_result_for_ui
       [(''output'', PStr a), (''intermediate_steps'', PList (map step_dict steps))])
   | AgentTimeout \<Rightarrow> Inr (failed_turn ''agent_timeout'' timeout_message)
   | AgentRaised e \<Rightarrow> if e = cancelled then Inl e else Inr (failed_turn ''agent_error'' agent_error_message))"

definition agent_history :: "chat_db \<Rightarrow> chat_owner \<Rightarrow> py list result" where
  "agent_history db ow = res_bind (res_map chat_message_to_agent_history (load_messages db ow (Some 20)))
     (\<lambda>hs. Inr (map PDict hs))"

definition agent_call ::
  "pipeline_env \<Rightarrow> turn_input \<Rightarrow> toolset \<Rightarrow> pydict \<Rightarrow> chat_db \<Rightarrow> chat_owner \<Rightarrow> turn_world \<Rightarrow> pydict result \<times> turn_world" where
  "agent_call env inp ts ctx db ow w = (case agent_history db ow of
     Inl e \<Rightarrow> (Inl e, w)
   | Inr history \<Rightarrow>
       (case run_with_deadline (pe_deadline env)
           (turn_env (pe_libs env) (pe_calls env) ctx (ti_text inp) ts (pe_streaming env) (pe_limit env))
           (initial_messages (pe_prompt env) history (ti_text inp) ctx (ti_user inp)) w of
         (x, st) \<Rightarrow> (agent_result_of x (st_steps st), st_world st)))"

section \<open>The turn\<close>

text \<open>What the turn does, given its context, the pending action it works on and the rows of the chat.\<close>

definition decide ::
  "pipeline_env \<Rightarrow> turn_input \<Rightarrow> toolset \<Rightarrow> pydict \<Rightarrow> pydict option \<Rightarrow> chat_db \<Rightarrow> chat_owner \<Rightarrow> turn_world
     \<Rightarrow> (execution_mode \<times> pydict) result \<times> turn_world" where
  "decide env inp ts ctx pending db ow w =
     (let confirm = truthy (pget ctx ''confirm_action'');
          token = (case pending of Some p \<Rightarrow> truthy (pget p ''confirmation_token'') | None \<Rightarrow> False);
          in_mode = (\<lambda>m (r, w'). (res_bind r (\<lambda>ar. Inr (m, ar)), w'))
      in if confirm \<and> token then in_mode ConfirmedMode (confirmed_call env ts (the pending) w)
         else (case (if confirm then Inr None
                else (case pending of None \<Rightarrow> Inr None
                  | Some p \<Rightarrow> try_patch_pending_action (pe_now env) (ti_text inp) p)) of
             Inl e \<Rightarrow> (Inl e, w)
           | Inr (Some patch) \<Rightarrow> in_mode PatchMode (patched_call env ts (the pending) patch w)
           | Inr None \<Rightarrow> in_mode AgentMode (agent_call env inp ts ctx db ow w)))"

definition fallback_user_message :: string where
  "fallback_user_message = ''Omlouvam se, tady se mi nepodarilo pripravit odpoved. Zkuste prosim dotaz zopakovat nebo preformulovat.''"

definition raw_answer :: "pydict \<Rightarrow> string" where
  "raw_answer ar = str_or (por (pget ar ''message_to_user'') (pget ar ''output''))"

definition assistant_text :: "pydict \<Rightarrow> string" where
  "assistant_text ar = (let t = to_user_message (raw_answer ar) in if t = [] then fallback_user_message else t)"

definition capability_tag :: "toolset \<Rightarrow> string option" where
  "capability_tag ts = (let t = py_join '','' (sorted_list_of_set (st_enabled ts - {''crm''})) in
     if t = [] then None else Some t)"

definition store_answer ::
  "pipeline_env \<Rightarrow> chat_owner \<Rightarrow> toolset \<Rightarrow> pydict \<Rightarrow> chat_db \<Rightarrow> chat_db" where
  "store_answer env ow ts ar db =
     (let db1 = db\<lparr>db_chats := map (\<lambda>c. if ch_id c = ow_chat ow then c\<lparr>ch_tool := capability_tag ts\<rparr> else c) (db_chats db)\<rparr>
      in append_message db1 ow (pe_answer_id env) ''assistant'' (assistant_text ar)
           [(''agent_result'', PDict ar), (''raw_output'', PStr (raw_answer ar))] (pe_time env))"

text \<open>The chat of the request: an existing one of the user, or a new one.\<close>

definition open_chat :: "pipeline_env \<Rightarrow> turn_input \<Rightarrow> chat_db \<Rightarrow> (chat_row \<times> chat_db) result" where
  "open_chat env inp db = (case ti_chat inp of
     Some cid \<Rightarrow> if cid = [] then Inr (create_chat db (pe_chat_id env) (ti_tenant inp) (ti_user inp) None None (pe_time env))
       else res_bind (get_chat_or_404 db \<lparr>ow_chat = cid, ow_tenant = ti_tenant inp, ow_user = ti_user inp\<rparr>)
         (\<lambda>c. Inr (c, db))
   | None \<Rightarrow> Inr (create_chat db (pe_chat_id env) (ti_tenant inp) (ti_user inp) None None (pe_time env)))"

definition process_input ::
  "pipeline_env \<Rightarrow> turn_input \<Rightarrow> chat_db \<Rightarrow> turn_world \<Rightarrow> turn_output result \<times> chat_db \<times> turn_world" where
  "process_input env inp db w = (case open_chat env inp db of
     Inl e \<Rightarrow> (Inl e, db, w)
   | Inr (chat, db0) \<Rightarrow>
       (let ow = \<lparr>ow_chat = ch_id chat, ow_tenant = ti_tenant inp, ow_user = ti_user inp\<rparr>;
            latest = load_latest_pending_action db0 ow;
            ctx = effective_context db0 ow (ti_text inp) (ti_context inp);
            ts = turn_toolset env inp ctx;
            db1 = append_message db0 ow (pe_user_id env) ''user'' (ti_text inp) [] (pe_time env)
        in case decide env inp ts ctx (pending_of_turn ctx latest) db1 ow w of
             (Inl e, w') \<Rightarrow> (Inl e, db, w')
           | (Inr (mode, ar), w') \<Rightarrow>
               (let db2 = store_answer env ow ts ar db1 in
                (Inr \<lparr>out_mode = mode, out_result = ar, out_text = assistant_text ar, out_chat = ch_id chat,
                      out_history = load_messages db2 ow None, out_cards = list_or_empty (pget ar ''cards''),
                      out_capabilities = sorted_list_of_set (st_enabled ts), out_unknown = st_unknown ts,
                      out_form_patch = extract_form_patch ar\<rparr>, db2, w'))))"

section \<open>Lemmas\<close>

text \<open>A request that writes nothing: no token, and executed only if the manifest says read-only.\<close>

definition safe_request :: "toolset \<Rightarrow> call_request \<Rightarrow> bool" where
  "safe_request ts rq = (rq_token rq = None \<and> (rq_mode rq = Execute \<longrightarrow>
     (\<exists>n spec. map_of (st_crm ts) n = Some spec \<and> rq_tool rq = ts_name spec \<and> read_only (ts_annotations spec))))"

definition safe_world :: "toolset \<Rightarrow> turn_world \<Rightarrow> bool" where
  "safe_world ts w = (\<forall>rq \<in> set (tw_requests w). safe_request ts rq)"

lemma harmless_safe: "harmless ts rq \<Longrightarrow> safe_request ts rq"
  by (auto simp: harmless_def safe_request_def)

text \<open>The request a confirmed pending action stands for.\<close>

definition confirmed_request :: "pydict \<Rightarrow> call_request" where
  "confirmed_request p = \<lparr>rq_tool = str_or (pget p ''tool''), rq_mode = Execute,
     rq_args = dict_or_empty (pget p ''arguments''), rq_token = Some (str_or (pget p ''confirmation_token''))\<rparr>"

lemma crm_step_world: "snd (crm_step (e, rqs, p) w) = w\<lparr>tw_provider := p, tw_requests := tw_requests w @ rqs, tw_calls := Suc (tw_calls w)\<rparr>"
  by (simp add: crm_step_def)

lemma pending_spec_name:
  assumes "pending_spec (build_toolset tenant ctx sch nat_tools caps m) p = Some spec"
  shows "ts_name spec = str_or (pget p ''tool'')"
proof -
  let ?ts = "build_toolset tenant ctx sch nat_tools caps m"
  from build_toolset_specs(1) [OF refl, of tenant ctx sch nat_tools caps m] obtain d0 where
    c: "collect_specs (map fst (st_native ?ts)) (st_enabled ?ts) (case m of None \<Rightarrow> [] | Some mf \<Rightarrow> mf_tools mf) ([], []) = (st_crm ?ts, d0)"
    by blast
  show ?thesis
  proof (cases "map_of (st_crm ?ts) (str_or (pget p ''tool''))")
    case (Some s)
    with assms collect_specs_sound [OF c Some] show ?thesis by (auto simp: pending_spec_def)
  next
    case None
    with assms show ?thesis by (auto simp: pending_spec_def find_Some_iff split: option.splits)
  qed
qed

lemma max_attempts_le: "max_attempts spec \<le> 2"
  by (simp add: max_attempts_def)

lemma execute_pending_requests:
  assumes "execute_pending cenv (build_toolset tenant ctx sch nat_tools caps m) p st = (e, rqs, st')"
  shows "\<exists>n \<le> 2. rqs = replicate n (confirmed_request p)"
proof (cases "pending_spec (build_toolset tenant ctx sch nat_tools caps m) p")
  case None
  with assms show ?thesis by (auto simp: execute_pending_def)
next
  case (Some spec)
  with assms have r: "run_call cenv (build_toolset tenant ctx sch nat_tools caps m) spec (dict_or_empty (pget p ''arguments''))
      Execute (Some (str_or (pget p ''confirmation_token''))) st = (e, rqs, st')"
    by (simp add: execute_pending_def)
  have "rq = confirmed_request p" if "rq \<in> set rqs" for rq
    using run_call_requests [OF r that] pending_spec_name [OF Some] by (simp add: confirmed_request_def)
  then have "rqs = replicate (length rqs) (confirmed_request p)" by (metis replicate_length_same)
  with run_call_bounded [OF r] max_attempts_le [of spec] show ?thesis by (metis le_trans)
qed

lemma repreview_pending_safe:
  assumes "repreview_pending cenv ts p data st = (e, rqs, st')" and "rq \<in> set rqs"
  shows "safe_request ts rq"
  using assms by (auto simp: repreview_pending_def safe_request_def dest!: run_call_requests split: option.splits)

lemma run_with_deadline_world:
  assumes "keeps_world aenv I" and "I w"
  shows "I (st_world (snd (run_with_deadline dl aenv ms w)))"
proof -
  let ?st0 = "emit_event aenv (AgentStarted (ag_max_iterations aenv))
    \<lparr>st_world = w, st_messages = ms, st_steps = [], st_events = [], st_llm_calls = 0\<rparr>"
  have f: "I (st_world (snd (run_agent aenv ms w)))" using assms by (rule run_agent_world)
  have l: "I (st_world (snd (agent_loop aenv k 0 ?st0)))" for k
    by (rule agent_loop_world [OF assms(1)]) (use assms(2) in simp)
  show ?thesis
  proof (cases dl)
    case (AfterRounds k)
    obtain x st where x: "agent_loop aenv (min k (ag_max_iterations aenv)) 0 ?st0 = (x, st)" by fastforce
    from l [of "min k (ag_max_iterations aenv)"] x have "I (st_world st)" by simp
    with f AfterRounds x show ?thesis
      by (cases x; cases "run_agent aenv ms w") (simp_all add: run_with_deadline_def Let_def)
  qed (use f in \<open>cases "run_agent aenv ms w"; simp add: run_with_deadline_def Let_def\<close>)+
qed

lemma agent_call_safe:
  assumes "tw_requests w = []"
  shows "safe_world ts (snd (agent_call env inp ts ctx db ow w))"
proof -
  have "harmless_world ts w" using assms by (simp add: harmless_world_def)
  from run_with_deadline_world [OF turn_env_keeps this]
  have h: "harmless_world ts (st_world (snd (run_with_deadline dl (turn_env libs calls ctx u ts s n) ms w)))"
    for dl libs calls u s n ms .
  have "harmless_world ts (snd (agent_call env inp ts ctx db ow w))"
  proof (cases "agent_history db ow")
    case (Inl e)
    with assms show ?thesis by (simp add: agent_call_def harmless_world_def)
  next
    case (Inr hs)
    then show ?thesis
      using h by (auto simp: agent_call_def case_prod_unfold)
  qed
  then show ?thesis by (auto simp: harmless_world_def safe_world_def intro: harmless_safe)
qed

lemma patched_call_safe:
  assumes "tw_requests w = []"
  shows "safe_world ts (snd (patched_call env ts p patch w))"
proof -
  have r: "safe_world ts (snd (crm_step (repreview_pending cenv ts p data st) w))" for cenv data st
  proof -
    obtain e rqs st' where x: "repreview_pending cenv ts p data st = (e, rqs, st')" by (rule prod_cases3)
    from repreview_pending_safe [OF x] assms show ?thesis by (simp add: x crm_step_world safe_world_def)
  qed
  have w: "safe_world ts w" using assms by (simp add: safe_world_def)
  show ?thesis
  proof (cases "pget patch ''pending_action''")
    case (PDict patched)
    obtain x w' where c: "crm_step (repreview_pending (pe_calls env (tw_calls w)) ts p
        (dict_or_empty (pget patched ''data'')) (tw_provider w)) w = (x, w')" by fastforce
    with r [of "pe_calls env (tw_calls w)"] have "safe_world ts w'" by (metis snd_conv)
    with PDict c w show ?thesis by (simp add: patched_call_def)
  qed (use w in \<open>simp_all add: patched_call_def\<close>)
qed

lemma confirmed_call_requests:
  assumes "confirmed_call env (build_toolset tenant ctx sch nat_tools caps m) p w = (r, w')"
  shows "(\<exists>n \<le> 2. tw_requests w' = tw_requests w @ replicate n (confirmed_request p)) \<and>
    tw_model_calls w' = tw_model_calls w"
proof -
  obtain e rqs st' where x: "execute_pending (pe_calls env (tw_calls w)) (build_toolset tenant ctx sch nat_tools caps m) p
      (tw_provider w) = (e, rqs, st')" by (rule prod_cases3)
  from assms have "w' = snd (crm_step (e, rqs, st') w)" by (auto simp: confirmed_call_def x split: prod.splits)
  with execute_pending_requests [OF x] show ?thesis by (simp add: crm_step_world)
qed

text \<open>The three ways a turn goes.\<close>

lemma decide_cases:
  assumes "decide env inp ts ctx pending db ow w = (r, w')"
  obtains (confirmed) p where "truthy (pget ctx ''confirm_action'')" "pending = Some p" "truthy (pget p ''confirmation_token'')"
      "w' = snd (confirmed_call env ts p w)"
      "r = res_bind (fst (confirmed_call env ts p w)) (\<lambda>ar. Inr (ConfirmedMode, ar))"
    | (patched) p patch where "\<not> truthy (pget ctx ''confirm_action'')" "pending = Some p"
      "w' = snd (patched_call env ts p patch w)"
      "r = res_bind (fst (patched_call env ts p patch w)) (\<lambda>ar. Inr (PatchMode, ar))"
    | (failed) e where "w' = w" "r = Inl e"
    | (agent) "w' = snd (agent_call env inp ts ctx db ow w)"
      "r = res_bind (fst (agent_call env inp ts ctx db ow w)) (\<lambda>ar. Inr (AgentMode, ar))"
  using assms by (fastforce simp: decide_def Let_def case_prod_unfold split: option.splits if_splits sum.splits)

text \<open>The chat a turn runs in, with the rows it reads.\<close>

definition turn_owner :: "turn_input \<Rightarrow> chat_row \<Rightarrow> chat_owner" where
  "turn_owner inp chat = \<lparr>ow_chat = ch_id chat, ow_tenant = ti_tenant inp, ow_user = ti_user inp\<rparr>"

definition turn_pending :: "turn_input \<Rightarrow> chat_db \<Rightarrow> chat_owner \<Rightarrow> pydict option" where
  "turn_pending inp db ow = pending_of_turn (effective_context db ow (ti_text inp) (ti_context inp))
     (load_latest_pending_action db ow)"

lemma process_input_cases:
  assumes "process_input env inp db w = (r, db', w')"
  obtains (no_chat) e where "open_chat env inp db = Inl e" "r = Inl e" "db' = db" "w' = w"
    | (failed) chat db0 ow ctx db1 e where "open_chat env inp db = Inr (chat, db0)" "ow = turn_owner inp chat"
      "ctx = effective_context db0 ow (ti_text inp) (ti_context inp)"
      "db1 = append_message db0 ow (pe_user_id env) ''user'' (ti_text inp) [] (pe_time env)"
      "decide env inp (turn_toolset env inp ctx) ctx (turn_pending inp db0 ow) db1 ow w = (Inl e, w')" "r = Inl e" "db' = db"
    | (completed) chat db0 ow ctx db1 mode ar out where "open_chat env inp db = Inr (chat, db0)" "ow = turn_owner inp chat"
      "ctx = effective_context db0 ow (ti_text inp) (ti_context inp)"
      "db1 = append_message db0 ow (pe_user_id env) ''user'' (ti_text inp) [] (pe_time env)"
      "decide env inp (turn_toolset env inp ctx) ctx (turn_pending inp db0 ow) db1 ow w = (Inr (mode, ar), w')"
      "r = Inr out" "db' = store_answer env ow (turn_toolset env inp ctx) ar db1"
      "out_mode out = mode" "out_result out = ar" "out_text out = assistant_text ar" "out_chat out = ch_id chat"
proof (cases "open_chat env inp db")
  case (Inl e)
  have "(r, db', w') = (Inl e, db, w)" using assms unfolding process_input_def Inl sum.case by simp
  then show thesis using no_chat [OF Inl] by blast
next
  case (Inr c)
  obtain chat db0 where c: "c = (chat, db0)" by fastforce
  define ow where "ow = turn_owner inp chat"
  define ctx where "ctx = effective_context db0 ow (ti_text inp) (ti_context inp)"
  define db1 where "db1 = append_message db0 ow (pe_user_id env) ''user'' (ti_text inp) [] (pe_time env)"
  obtain d v where d: "decide env inp (turn_toolset env inp ctx) ctx (turn_pending inp db0 ow) db1 ow w = (d, v)" by fastforce
  note p = assms [unfolded process_input_def Inr c sum.case prod.case Let_def, folded turn_owner_def, folded ow_def,
      folded ctx_def db1_def, folded turn_pending_def [of inp db0 ow, folded ctx_def]]
  show thesis
  proof (cases d)
    case (Inl e)
    with p d show thesis using failed [OF Inr [unfolded c] ow_def ctx_def db1_def] by simp
  next
    case (Inr x)
    obtain mode ar where x: "x = (mode, ar)" by fastforce
    from p d Inr x show thesis using completed [OF \<open>open_chat env inp db = Inr c\<close> [unfolded c] ow_def ctx_def db1_def] by fastforce
  qed
qed

lemma assistant_text_nonempty: "assistant_text ar \<noteq> []"
  by (simp add: assistant_text_def Let_def fallback_user_message_def)

lemma store_answer_messages [simp]:
  "db_messages (store_answer env ow ts ar db) = db_messages db @
     [\<lparr>cm_id = pe_answer_id env, cm_chat = ow_chat ow, cm_tenant = ow_tenant ow, cm_user = ow_user ow,
       cm_role = ''assistant'', cm_content = assistant_text ar,
       cm_meta = [(''agent_result'', PDict ar), (''raw_output'', PStr (raw_answer ar))], cm_created = pe_time env\<rparr>]"
  by (simp add: store_answer_def Let_def)

lemma open_chat_messages: "open_chat env inp db = Inr (chat, db0) \<Longrightarrow> db_messages db0 = db_messages db"
  by (auto simp: open_chat_def create_chat_def Let_def res_bind_Inr split: option.splits if_splits)

lemma assistant_rows_messages: "db_messages d = db_messages e \<Longrightarrow> assistant_rows d ow = assistant_rows e ow"
  by (simp add: assistant_rows_def)

text \<open>What the next turn of the chat finds pending.\<close>

lemma pending_after_turn:
  assumes "\<forall>m \<in> set (assistant_rows db ow). cm_created m < pe_time env"
  shows "load_latest_pending_action (store_answer env ow ts ar db) ow = extract_pending_action (PDict ar)"
proof -
  have "\<forall>m \<in> set (assistant_rows (db\<lparr>db_chats := cs\<rparr>) ow). cm_created m < pe_time env" for cs
    using assms by (simp add: assistant_rows_def)
  then show ?thesis
    unfolding store_answer_def Let_def by (rule latest_pending_newest) (simp add: pget_Cons)
qed

lemma pending_after_user_message:
  "assistant_rows (append_message db ow i ''user'' t m now) ow = assistant_rows db ow"
  by (rule assistant_rows_other) simp

lemma process_input_pending:
  assumes "process_input env inp db w = (Inr out, db', w')"
    and "ow = \<lparr>ow_chat = out_chat out, ow_tenant = ti_tenant inp, ow_user = ti_user inp\<rparr>"
    and "\<forall>m \<in> set (assistant_rows db ow). cm_created m < pe_time env"
  shows "load_latest_pending_action db' ow = extract_pending_action (PDict (out_result out))"
  using assms(1)
proof (cases rule: process_input_cases)
  case (completed chat db0 ow' ctx db1 mode ar out')
  then have o: "ow' = ow" "out' = out" using assms(2) by (simp_all add: turn_owner_def)
  have "assistant_rows db1 ow = assistant_rows db ow"
    using completed(4) o pending_after_user_message assistant_rows_messages [OF open_chat_messages [OF completed(1)]] by simp
  with assms(3) have "\<forall>m \<in> set (assistant_rows db1 ow). cm_created m < pe_time env" by simp
  from pending_after_turn [OF this] completed o show ?thesis by simp
qed simp_all

lemma failed_result_keeps:
  "k \<notin> {''status'', ''message_to_user'', ''output'', ''cards''} \<Longrightarrow> pget (failed_result s obs n) k = pget n k"
  by (simp add: failed_result_def Let_def)

lemma shown_step_keeps:
  assumes "shown_step a n step = Some r" and "k \<notin> {''status'', ''message_to_user'', ''output'', ''cards''}"
  shows "pget r k = pget n k"
  using assms unfolding shown_step_def Let_def by (auto split: if_splits)

text \<open>The result of the pipeline's own call: one step, decided by its observation.\<close>

definition own_step :: "string \<Rightarrow> pydict \<Rightarrow> pydict" where
  "own_step tool obs = [(''tool'', PStr tool), (''tool_input'', PDict []),
     (''observation'', PStr (json_text json_readable (PDict obs))), (''log'', PNone)]"

definition own_result :: "string \<Rightarrow> pydict \<Rightarrow> pydict" where
  "own_result tool obs = [(''output'', PStr (text_of (por (por (pget obs ''message_to_user'') (pget obs ''message'')) (pget obs ''summary'')))),
     (''intermediate_steps'', PList [PDict (own_step tool obs)])]"

lemma tool_step_result_own: "tool_step_result tool obs = normalize_agent_result_for_ui (own_result tool obs)"
  by (simp add: tool_step_result_def Let_def own_result_def own_step_def)

lemma own_steps [simp]: "steps_backwards (own_result tool obs) = [own_step tool obs]"
  by (simp add: steps_backwards_def own_result_def pget_Cons dicts_of_def)

lemma own_pget [simp]: "k \<notin> {''output'', ''intermediate_steps''} \<Longrightarrow> pget (own_result tool obs) k = PNone"
  by (simp add: own_result_def pget_Cons)

text \<open>It holds a pending action only if it asks for one.\<close>

lemma tool_step_result_settled:
  assumes "pget (tool_step_result tool obs) ''status'' \<notin> {PStr ''confirmation_required'', PStr ''resolution_required''}"
  shows "extract_pending_action (PDict (tool_step_result tool obs)) = None"
proof -
  let ?step = "own_step tool obs" and ?ar = "own_result tool obs"
  let ?o = "step_observation ?step"
  have st: "status_of ?o \<notin> {''confirmation_required'', ''resolution_required''}"
  proof
    assume c: "status_of ?o \<in> {''confirmation_required'', ''resolution_required''}"
    then have "?o \<noteq> []" by (auto simp: status_of_def py_lower_def)
    with c have "decided_step ?ar ?step = Some (pending_result (status_of ?o) ?o ?ar)" by (simp add: decided_step_def Let_def)
    then have "normalize_agent_result_for_ui ?ar = pending_result (status_of ?o) ?o ?ar"
      by (simp add: normalize_agent_result_for_ui_def Let_def)
    with assms tool_step_result_own [of tool obs] c show False by (auto simp: pending_result_def Let_def)
  qed
  then have p: "pending_step ?step = None" by (auto simp: pending_step_def Let_def split: py.splits)
  have ui: "pget (normalize_agent_result_for_ui ?ar) k = pget ?ar k"
    if k: "k \<notin> {''status'', ''message_to_user'', ''output'', ''cards''}" for k
  proof (cases "decided_step ?ar ?step")
    case (Some x)
    with st have "x = failed_result (status_of ?o) ?o ?ar" by (auto simp: decided_step_def Let_def split: if_splits)
    with Some k show ?thesis by (simp add: normalize_agent_result_for_ui_def Let_def failed_result_keeps)
  next
    case None
    then show ?thesis using k shown_step_keeps [of _ ?ar ?step]
      by (auto simp: normalize_agent_result_for_ui_def Let_def split: option.splits)
  qed
  have "steps_backwards (normalize_agent_result_for_ui ?ar) = [?step]"
    using own_steps [of tool obs] ui [of "''intermediate_steps''"] by (simp add: steps_backwards_def)
  moreover have "pget (normalize_agent_result_for_ui ?ar) ''pending_action'' = PNone"
    using ui [of "''pending_action''"] by simp
  ultimately show ?thesis using p by (simp add: extract_pending_action_def tool_step_result_own)
qed

text \<open>An observation that asks for a confirmation is the pending action of the result.\<close>

lemma tool_step_result_asks:
  assumes "json_wf (PDict obs)" and "status_of obs = ''confirmation_required''" and "pget obs ''pending_action'' = PDict p"
    and "normalize_pending_action_envelope (PDict p) = Some q"
  shows "extract_pending_action (PDict (tool_step_result tool obs)) = Some q"
proof -
  have o: "step_observation (own_step tool obs) = obs"
    by (rule step_observation_dumps [OF _ assms(1)]) (simp add: own_step_def pget_Cons)
  have "obs \<noteq> []" using assms(3) by auto
  with o assms(2) have ui: "tool_step_result tool obs = pending_result ''confirmation_required'' obs (own_result tool obs)"
    by (simp add: tool_step_result_own normalize_agent_result_for_ui_def decided_step_def Let_def)
  have "normalized_or_raw (dict_or_empty (pget obs ''pending_action'')) = q"
    using assms(3) normalized_or_raw_Some [OF assms(4)] by simp
  from pending_result_fields(1) [OF this] ui
  have "pget (tool_step_result tool obs) ''pending_action'' = PDict q" by simp
  then show ?thesis
    using normalized_or_raw_Some [OF conjunct1 [OF normalize_normal [OF assms(4)]]]
    by (simp add: extract_pending_action_def)
qed

text \<open>A plain observation of a tool that shows no results leaves the result without a status.\<close>

lemma tool_step_result_plain:
  assumes "json_wf (PDict obs)" and "tool \<notin> set result_tools" and "py_strip tool = tool" and "\<not> is_list (pget obs ''cards'')"
    and "status_of obs \<notin> {''confirmation_required'', ''resolution_required'', ''crm_http_error'', ''crm_action_error''}"
  shows "pget (tool_step_result tool obs) ''status'' = PNone"
proof -
  have o: "step_observation (own_step tool obs) = obs"
    by (rule step_observation_dumps [OF _ assms(1)]) (simp add: own_step_def pget_Cons)
  have t: "text_of (pget (own_step tool obs) ''tool'') = tool" using assms(3) by (simp add: own_step_def pget_Cons)
  have "decided_step (own_result tool obs) (own_step tool obs) = None"
    using assms(5) by (simp add: decided_step_def o Let_def)
  moreover have "shown_step a (own_result tool obs) (own_step tool obs) = None" for a
    using assms(2,4) by (simp add: shown_step_def o t Let_def)
  ultimately show ?thesis
    by (auto simp: tool_step_result_own normalize_agent_result_for_ui_def Let_def split: option.split)
qed

text \<open>A chat whose form confirms a pending action; the CRM asks again, with a new token.\<close>

definition demo_pipeline :: "py \<Rightarrow> nat \<Rightarrow> pipeline_env" where
  "demo_pipeline reply now = \<lparr>pe_libs = demo_turn_libs,
     pe_calls = (\<lambda>_. demo_env\<lparr>en_transport := (\<lambda>rq i. Reply reply)\<rparr>), pe_schema = (\<lambda>m r. Inl (OtherError ''x'')),
     pe_natives = (\<lambda>_. demo_natives), pe_manifest = Some demo_parsed, pe_prompt = ''s'', pe_streaming = False,
     pe_limit = 3, pe_deadline = NoDeadline, pe_now = demo_now, pe_time = now, pe_chat_id = ''c9'',
     pe_user_id = ''m8'', pe_answer_id = ''m9''\<rparr>"

definition old_pending :: pydict where
  "old_pending = [(''tool'', PStr ''crm_action_tool''), (''arguments'', PDict [(''action'', PStr ''update'')]),
     (''confirmation_token'', PStr ''t0'')]"

definition demo_input :: turn_input where
  "demo_input = \<lparr>ti_tenant = ''t1'', ti_user = ''u1'', ti_chat = None, ti_text = ''ano'',
     ti_context = [(''confirm_action'', PBool True), (''pending_action'', PDict old_pending)]\<rparr>"

definition demo_again :: turn_input where
  "demo_again = demo_input\<lparr>ti_chat := Some ''c9'', ti_context := [(''confirm_action'', PBool True)]\<rparr>"

definition no_chats :: chat_db where
  "no_chats = \<lparr>db_chats = [], db_messages = []\<rparr>"

definition done_reply :: py where
  "done_reply = PDict [(''content'', PList []), (''structuredContent'', PDict [(''status'', PStr ''ok'')])]"

definition demo_first_turn :: "py \<Rightarrow> turn_output result \<times> chat_db \<times> turn_world" where
  "demo_first_turn reply = process_input (demo_pipeline reply 1) demo_input no_chats demo_world"

definition demo_first_call :: "py \<Rightarrow> pydict result \<times> turn_world" where
  "demo_first_call reply = confirmed_call (demo_pipeline reply 1)
     (turn_toolset (demo_pipeline reply 1) demo_input (ti_context demo_input)) old_pending demo_world"

definition demo_step :: "py \<Rightarrow> pydict result \<times> turn_world" where
  "demo_step reply = crm_step (execute_pending (demo_env\<lparr>en_transport := (\<lambda>rq i. Reply reply)\<rparr>)
     (turn_toolset (demo_pipeline reply 1) demo_input (ti_context demo_input)) old_pending demo_state) demo_world"

definition demo_observed :: "py \<Rightarrow> pydict" where
  "demo_observed reply = (case fst (demo_step reply) of Inr d \<Rightarrow> d | Inl e \<Rightarrow> [])"

lemma demo_first_call_run:
  "demo_first_call reply = (res_bind (fst (demo_step reply)) (\<lambda>obs. Inr (tool_step_result ''crm_action_tool'' obs)), snd (demo_step reply))"
proof -
  have "str_or (pget old_pending ''tool'') = ''crm_action_tool''" by (simp add: old_pending_def pget_Cons str_or_def)
  then show ?thesis
    by (simp add: demo_first_call_def confirmed_call_def demo_step_def demo_world_def demo_pipeline_def case_prod_unfold)
qed

lemma demo_context: "effective_context no_chats demo_owner ''ano'' (ti_context demo_input) = ti_context demo_input"
  by code_simp

lemma demo_first_turn_run:
  assumes "\<not> isl (fst (demo_step reply))"
  shows "\<exists>out db'. demo_first_turn reply = (Inr out, db', snd (demo_step reply))
    \<and> out_result out = tool_step_result ''crm_action_tool'' (demo_observed reply) \<and> out_chat out = ''c9''
    \<and> out_mode out = ConfirmedMode"
proof -
  define ar where "ar = tool_step_result ''crm_action_tool'' (demo_observed reply)"
  have fc: "demo_first_call reply = (Inr ar, snd (demo_step reply))"
    using assms by (cases "fst (demo_step reply)") (simp_all add: demo_first_call_run demo_observed_def ar_def)
  let ?env = "demo_pipeline reply 1"
  obtain r db' w' where t: "demo_first_turn reply = (r, db', w')" by (rule prod_cases3)
  have o: "open_chat ?env demo_input no_chats = Inr (\<lparr>ch_id = ''c9'', ch_tenant = ''t1'', ch_user = ''u1'', ch_name = None,
      ch_tool = None, ch_pinned = False, ch_updated = 1\<rparr>, no_chats\<lparr>db_chats := [\<lparr>ch_id = ''c9'', ch_tenant = ''t1'', ch_user = ''u1'',
      ch_name = None, ch_tool = None, ch_pinned = False, ch_updated = 1\<rparr>]\<rparr>)"
    by (simp add: open_chat_def demo_input_def demo_pipeline_def create_chat_def trimmed_def no_chats_def Let_def)
  have d: "decide ?env demo_input (turn_toolset ?env demo_input (ti_context demo_input)) (ti_context demo_input) (Some old_pending) db ow demo_world
      = (Inr (ConfirmedMode, ar), snd (demo_step reply))" for db ow
  proof -
    have "truthy (pget (ti_context demo_input) ''confirm_action'')" "truthy (pget old_pending ''confirmation_token'')"
      by (simp_all add: demo_input_def old_pending_def pget_Cons)
    then show ?thesis using fc by (simp add: decide_def demo_first_call_def)
  qed
  have c: "effective_context db (turn_owner demo_input chat) (ti_text demo_input) (ti_context demo_input) = ti_context demo_input"
      "turn_pending demo_input db (turn_owner demo_input chat) = Some old_pending"
    if "db_messages db = []" for db chat
  proof -
    have r: "assistant_rows db ow = []" for ow using that by (simp add: assistant_rows_def sort_desc_def)
    then have "effective_context db ow t c = effective_context no_chats demo_owner t c" for ow t c
      by (simp add: effective_context_def load_latest_created_def load_latest_pending_action_def
          load_latest_history_selection_def assistant_rows_def no_chats_def sort_desc_def)
    then show "effective_context db (turn_owner demo_input chat) (ti_text demo_input) (ti_context demo_input) = ti_context demo_input"
      using demo_context by (simp add: demo_input_def)
    then show "turn_pending demo_input db (turn_owner demo_input chat) = Some old_pending"
      by (simp add: turn_pending_def pending_of_turn_def) (simp add: demo_input_def pget_Cons old_pending_def)
  qed
  from t [unfolded demo_first_turn_def] show ?thesis
  proof (cases rule: process_input_cases)
    case (no_chat e)
    with o show ?thesis by simp
  next
    case (failed chat db0 ow ctx db1 e)
    then have "db_messages db0 = []" using o by (simp add: no_chats_def)
    with failed c d show ?thesis by simp
  next
    case (completed chat db0 ow ctx db1 mode ar' out)
    then have "db_messages db0 = []" "ch_id chat = ''c9''" using o by (auto simp: no_chats_def)
    with completed c d t show ?thesis by (simp add: ar_def)
  qed
qed

definition preview_pending :: pydict where
  "preview_pending = [(''module'', PStr ''Accounts''), (''requested_module'', PStr ''Accounts''),
     (''effective_module'', PStr ''Accounts''), (''action'', PStr ''update''), (''data'', PDict [(''action'', PStr ''update'')]),
     (''adjustments'', PList []), (''ambiguities'', PList []), (''requires_confirmation'', PBool True),
     (''tool'', PStr ''crm_action_tool''), (''tool_version'', PStr ''0.0.0''),
     (''arguments'', PDict [(''action'', PStr ''update'')]), (''confirmation_token'', PStr ''t1''), (''expires_at'', PNone)]"

definition preview_observed :: pydict where
  "preview_observed = [(''status'', PStr ''confirmation_required''), (''message'', PStr ''Nahled''),
     (''pending_action'', PDict preview_pending), (''adjustments'', PList [])]"

lemma demo_previewed: "fst (demo_step demo_reply) = Inr preview_observed" by code_simp

section \<open>Properties\<close>

text \<open>
  C1: The CRM is written only on the user's word. Whatever the client sends, the chat holds,
  the model answers and the CRM returns, and whether the turn ends well, times out or fails,
  every request that left the gateway either writes nothing, or the form sent
  \<open>confirm_action\<close>, the pending action of the turn has a token, and the request is exactly its
  tool, arguments and token, sent at most twice.
\<close>

theorem written_only_when_confirmed:
  assumes "process_input env inp db w = (r, db', w')" and "tw_requests w = []" and "rq \<in> set (tw_requests w')"
  shows "\<exists>chat db0 p. open_chat env inp db = Inr (chat, db0)
    \<and> (safe_request (turn_toolset env inp (effective_context db0 (turn_owner inp chat) (ti_text inp) (ti_context inp))) rq
      \<or> truthy (pget (ti_context inp) ''confirm_action'') \<and> turn_pending inp db0 (turn_owner inp chat) = Some p
        \<and> truthy (pget p ''confirmation_token'') \<and> rq = confirmed_request p \<and> length (tw_requests w') \<le> 2)"
proof -
  have main: "safe_request (turn_toolset env inp ctx) rq
      \<or> (\<exists>p. truthy (pget (ti_context inp) ''confirm_action'') \<and> pend = Some p
        \<and> truthy (pget p ''confirmation_token'') \<and> rq = confirmed_request p \<and> length (tw_requests w') \<le> 2)"
    if d: "decide env inp (turn_toolset env inp ctx) ctx pend db1 ow w = (x, w')"
      and c: "ctx = effective_context db0 ow (ti_text inp) (ti_context inp)" for x ctx pend db0 db1 ow
    using d
  proof (cases rule: decide_cases)
    case (confirmed p)
    obtain y where y: "confirmed_call env (turn_toolset env inp ctx) p w = (y, w')" using confirmed(4) by (cases "confirmed_call env (turn_toolset env inp ctx) p w") simp
    from confirmed_call_requests [OF y [unfolded turn_toolset_def]] assms(2)
    obtain n where "n \<le> 2" "tw_requests w' = replicate n (confirmed_request p)" by auto
    with assms(3) confirmed(1-3) c show ?thesis by (simp add: confirm_action_kept)
  next
    case (patched p patch)
    with patched_call_safe [OF assms(2)] assms(3) show ?thesis by (auto simp: safe_world_def)
  next
    case (failed e)
    with assms(2,3) show ?thesis by simp
  next
    case agent
    with agent_call_safe [OF assms(2)] assms(3) show ?thesis by (auto simp: safe_world_def)
  qed
  from assms(1) show ?thesis
  proof (cases rule: process_input_cases)
    case (no_chat e)
    with assms(2,3) show ?thesis by simp
  next
    case (failed chat db0 ow ctx db1 e)
    from main [OF failed(5,3)] failed(1,2,3) show ?thesis by auto
  next
    case (completed chat db0 ow ctx db1 mode ar out)
    from main [OF completed(5,3)] completed(1,2,3) show ?thesis by auto
  qed
qed

theorem written_only_when_confirmed_witness:
  "map rq_token (tw_requests (snd (snd (demo_first_turn demo_reply)))) = [Some ''t0''] \<and>
   truthy (pget (ti_context demo_input) ''confirm_action'')"
proof -
  have "\<not> isl (fst (demo_step demo_reply))" by (simp add: demo_previewed)
  from demo_first_turn_run [OF this] obtain out db' where t: "demo_first_turn demo_reply = (Inr out, db', snd (demo_step demo_reply))"
    by blast
  have tk: "map rq_token (tw_requests (snd (demo_step demo_reply))) = [Some ''t0'']" by code_simp
  then obtain rq where rq: "tw_requests (snd (demo_step demo_reply)) = [rq]" "rq_token rq = Some ''t0''" by auto
  from written_only_when_confirmed [OF t [unfolded demo_first_turn_def], of rq] rq
  have "truthy (pget (ti_context demo_input) ''confirm_action'')" by (auto simp: safe_request_def demo_world_def)
  with t tk show ?thesis by simp
qed

text \<open>
  Every turn is recorded or leaves no trace. A turn that answers stores exactly two
  messages, the user's text and a non-empty answer with the agent result it shows, both under
  the chat, tenant and user of the request; a turn that fails stores nothing.
\<close>

theorem turn_recorded:
  "case process_input env inp db w of
     (Inl e, db', w') \<Rightarrow> db' = db
   | (Inr out, db', w') \<Rightarrow> out_text out \<noteq> [] \<and>
       (\<exists>u a. db_messages db' = db_messages db @ [u, a]
         \<and> owned \<lparr>ow_chat = out_chat out, ow_tenant = ti_tenant inp, ow_user = ti_user inp\<rparr> u
         \<and> owned \<lparr>ow_chat = out_chat out, ow_tenant = ti_tenant inp, ow_user = ti_user inp\<rparr> a
         \<and> cm_role u = ''user'' \<and> cm_content u = ti_text inp \<and> cm_role a = ''assistant'' \<and> cm_content a = out_text out
         \<and> pget (cm_meta a) ''agent_result'' = PDict (out_result out))"
proof -
  obtain r db' w' where p: "process_input env inp db w = (r, db', w')" by (rule prod_cases3)
  then show ?thesis
  proof (cases rule: process_input_cases)
    case (completed chat db0 ow ctx db1 mode ar out)
    have "db_messages db' = db_messages db @
      [\<lparr>cm_id = pe_user_id env, cm_chat = ow_chat ow, cm_tenant = ow_tenant ow, cm_user = ow_user ow, cm_role = ''user'',
         cm_content = ti_text inp, cm_meta = [], cm_created = pe_time env\<rparr>,
       \<lparr>cm_id = pe_answer_id env, cm_chat = ow_chat ow, cm_tenant = ow_tenant ow, cm_user = ow_user ow,
         cm_role = ''assistant'', cm_content = assistant_text ar,
         cm_meta = [(''agent_result'', PDict ar), (''raw_output'', PStr (raw_answer ar))], cm_created = pe_time env\<rparr>]"
      using completed(4,7) open_chat_messages [OF completed(1)] by simp
    then show ?thesis
      using completed p by (auto simp: assistant_text_nonempty owned_def turn_owner_def pget_Cons)
  qed (simp_all add: p)
qed

text \<open>
  C2: What was previewed is what the next turn executes. When the answer of a turn shows a
  pending action with a token and the user of that chat then sends a confirmation, the second
  turn sends nothing but that action's tool with its arguments and token, at most twice, and
  never asks the model.
\<close>

theorem preview_then_confirm:
  assumes "process_input env1 inp1 db w = (Inr out1, db1, w1)"
    and "\<forall>m \<in> set (assistant_rows db \<lparr>ow_chat = out_chat out1, ow_tenant = ti_tenant inp1, ow_user = ti_user inp1\<rparr>).
           cm_created m < pe_time env1"
    and "extract_pending_action (PDict (out_result out1)) = Some q" and "truthy (pget q ''confirmation_token'')"
    and "ti_chat inp2 = Some (out_chat out1)" and "out_chat out1 \<noteq> []"
    and "ti_tenant inp2 = ti_tenant inp1" and "ti_user inp2 = ti_user inp1"
    and "truthy (pget (ti_context inp2) ''confirm_action'')" and "\<not> has_key ''pending_action'' (ti_context inp2)"
    and "process_input env2 inp2 db1 w2 = (r2, db2, w3)"
  shows "(\<exists>n \<le> 2. tw_requests w3 = tw_requests w2 @ replicate n (confirmed_request q))
    \<and> tw_model_calls w3 = tw_model_calls w2"
proof -
  let ?ow = "\<lparr>ow_chat = out_chat out1, ow_tenant = ti_tenant inp1, ow_user = ti_user inp1\<rparr>"
  have latest: "load_latest_pending_action db1 ?ow = Some q"
    using process_input_pending [OF assms(1) refl assms(2)] assms(3) by simp
  have main: "(\<exists>n \<le> 2. tw_requests w3 = tw_requests w2 @ replicate n (confirmed_request q)) \<and> tw_model_calls w3 = tw_model_calls w2"
    if o: "open_chat env2 inp2 db1 = Inr (chat, db0)" and ow: "ow = turn_owner inp2 chat"
      and c: "ctx = effective_context db0 ow (ti_text inp2) (ti_context inp2)"
      and d: "decide env2 inp2 (turn_toolset env2 inp2 ctx) ctx (turn_pending inp2 db0 ow) dbu ow w2 = (x, w3)"
    for chat db0 ow ctx dbu x
  proof -
    from o assms(5,6) have "db0 = db1" and "ch_id chat = out_chat out1"
      by (auto simp: open_chat_def res_bind_Inr get_chat_or_404_def find_Some_iff split: option.splits)
    with ow assms(7,8) have "ow = ?ow" by (simp add: turn_owner_def)
    with latest \<open>db0 = db1\<close> pending_of_effective [OF assms(10), of db1 ?ow "ti_text inp2"]
    have p: "turn_pending inp2 db0 ow = Some q" by (simp add: turn_pending_def)
    from c assms(9) have cf: "truthy (pget ctx ''confirm_action'')" by (simp add: confirm_action_kept)
    from d p cf assms(4) have "w3 = snd (confirmed_call env2 (turn_toolset env2 inp2 ctx) q w2)"
      by (auto simp: decide_def Let_def split: prod.splits)
    then show ?thesis
      using confirmed_call_requests [unfolded turn_toolset_def [symmetric]]
      by (metis prod.collapse turn_toolset_def)
  qed
  from assms(11) show ?thesis
  proof (cases rule: process_input_cases)
    case (no_chat e)
    then show ?thesis by (intro conjI exI [of _ 0]) simp_all
  next
    case (failed chat db0 ow ctx dbu e)
    from main [OF failed(1-3,5)] show ?thesis .
  next
    case (completed chat db0 ow ctx dbu mode ar out)
    from main [OF completed(1-3,5)] show ?thesis .
  qed
qed

theorem preview_then_confirm_witness:
  "\<exists>db1 q n. fst (snd (demo_first_turn demo_reply)) = db1 \<and> n \<le> 2
     \<and> tw_requests (snd (snd (process_input (demo_pipeline done_reply 2) demo_again db1 demo_world))) = replicate n (confirmed_request q)
     \<and> rq_token (confirmed_request q) = Some ''t1''"
proof -
  have "\<not> isl (fst (demo_step demo_reply))" by (simp add: demo_previewed)
  from demo_first_turn_run [OF this] obtain out db' where t: "demo_first_turn demo_reply = (Inr out, db', snd (demo_step demo_reply))"
    and o: "out_result out = tool_step_result ''crm_action_tool'' (demo_observed demo_reply)" "out_chat out = ''c9''" by blast
  have po: "demo_observed demo_reply = preview_observed" by (simp add: demo_observed_def demo_previewed)
  have p: "pget (demo_observed demo_reply) ''pending_action'' = PDict preview_pending"
    by (simp add: po preview_observed_def pget_Cons)
  have wf: "json_wf (PDict (demo_observed demo_reply))" "status_of (demo_observed demo_reply) = ''confirmation_required''"
    unfolding po by code_simp+
  define q where "q = normalized_or_raw preview_pending"
  have "normalize_pending_action_envelope (PDict preview_pending) \<noteq> None" by code_simp
  then have n: "normalize_pending_action_envelope (PDict preview_pending) = Some q" by (auto simp: q_def normalized_or_raw_def)
  have qt: "pget q ''confirmation_token'' = PStr ''t1''" unfolding q_def by code_simp
  have e: "extract_pending_action (PDict (out_result out)) = Some q"
    using tool_step_result_asks [OF wf p n] o by simp
  obtain r2 db2 w3 where t2: "process_input (demo_pipeline done_reply 2) demo_again db' demo_world = (r2, db2, w3)" by (rule prod_cases3)
  have "(\<exists>n \<le> 2. tw_requests w3 = tw_requests demo_world @ replicate n (confirmed_request q)) \<and> tw_model_calls w3 = tw_model_calls demo_world"
    by (rule preview_then_confirm [OF t [unfolded demo_first_turn_def] _ e _ _ _ _ _ _ _ t2])
      (use o qt in \<open>simp_all add: demo_again_def demo_input_def pget_Cons has_key_def no_chats_def assistant_rows_def sort_desc_def\<close>)
  then obtain n where "n \<le> 2" "tw_requests w3 = replicate n (confirmed_request q)" by (auto simp: demo_world_def)
  moreover have "rq_token (confirmed_request q) = Some ''t1''" using qt by (simp add: confirmed_request_def str_or_def)
  moreover have "fst (snd (demo_first_turn demo_reply)) = db'" "snd (snd (process_input (demo_pipeline done_reply 2) demo_again db' demo_world)) = w3"
    using t t2 by simp_all
  ultimately show ?thesis by blast
qed

text \<open>
  C5: A confirmation is used up. After a turn that executed a confirmed call, unless the CRM
  asks for another confirmation, the chat has no pending action, so saying yes again executes
  nothing.
\<close>

theorem confirmed_once:
  assumes "process_input env inp db w = (Inr out, db', w')" and "out_mode out = ConfirmedMode"
    and "pget (out_result out) ''status'' \<notin> {PStr ''confirmation_required'', PStr ''resolution_required''}"
    and "\<forall>m \<in> set (assistant_rows db \<lparr>ow_chat = out_chat out, ow_tenant = ti_tenant inp, ow_user = ti_user inp\<rparr>).
           cm_created m < pe_time env"
  shows "load_latest_pending_action db' \<lparr>ow_chat = out_chat out, ow_tenant = ti_tenant inp, ow_user = ti_user inp\<rparr> = None"
proof -
  have "\<exists>tool obs. out_result out = tool_step_result tool obs"
    using assms(1)
  proof (cases rule: process_input_cases)
    case (completed chat db0 ow ctx db1 mode ar out')
    then have o: "out' = out" "mode = ConfirmedMode" using assms(2) by simp_all
    from completed(5) show ?thesis
    proof (cases rule: decide_cases)
      case (confirmed p)
      then have "fst (confirmed_call env (turn_toolset env inp ctx) p w) = Inr ar"
        by (cases "fst (confirmed_call env (turn_toolset env inp ctx) p w)") simp_all
      then obtain tool obs where "tool_step_result tool obs = ar"
        by (auto simp: confirmed_call_def res_bind_Inr split: prod.splits)
      with completed o show ?thesis by (metis (no_types))
    qed (use o in \<open>auto simp: res_bind_Inr dest!: sym [of "Inr _"]\<close>)
  qed simp_all
  with assms(3) have "extract_pending_action (PDict (out_result out)) = None" using tool_step_result_settled by metis
  with process_input_pending [OF assms(1) refl assms(4)] show ?thesis by simp
qed

theorem confirmed_once_witness:
  "\<exists>db1. fst (snd (demo_first_turn done_reply)) = db1
     \<and> load_latest_pending_action db1 \<lparr>ow_chat = ''c9'', ow_tenant = ''t1'', ow_user = ''u1''\<rparr> = None"
proof -
  have ran: "fst (demo_step done_reply) = Inr [(''status'', PStr ''ok'')]" by code_simp
  then have "\<not> isl (fst (demo_step done_reply))" by simp
  from demo_first_turn_run [OF this] obtain out db' where t: "demo_first_turn done_reply = (Inr out, db', snd (demo_step done_reply))"
    and o: "out_result out = tool_step_result ''crm_action_tool'' (demo_observed done_reply)" "out_chat out = ''c9''"
      "out_mode out = ConfirmedMode" by blast
  have "demo_observed done_reply = [(''status'', PStr ''ok'')]" by (simp add: demo_observed_def ran)
  with o have ar': "out_result out = tool_step_result ''crm_action_tool'' [(''status'', PStr ''ok'')]" by simp
  have "pget (out_result out) ''status'' = PNone"
    unfolding ar' by (rule tool_step_result_plain; code_simp)
  then have "load_latest_pending_action db' \<lparr>ow_chat = out_chat out, ow_tenant = ti_tenant demo_input, ow_user = ti_user demo_input\<rparr> = None"
    using o by (intro confirmed_once [OF t [unfolded demo_first_turn_def]])
      (simp_all add: no_chats_def assistant_rows_def sort_desc_def)
  with t o show ?thesis by (simp add: demo_input_def)
qed

text \<open>
  The history given to the model already ends with the input of the turn, which the prompt then
  repeats: the user's row is added before the rows are read, so the turns do not alternate.
\<close>

theorem input_given_twice:
  assumes "\<forall>m \<in> set (db_messages db). owned ow m \<longrightarrow> cm_created m < now"
    and "agent_history (append_message db ow i ''user'' t [] now) ow = Inr hs"
  shows "hs \<noteq> [] \<and> last hs = PDict [(''role'', PStr ''user''), (''content'', PStr t)]"
proof -
  let ?m = "\<lparr>cm_id = i, cm_chat = ow_chat ow, cm_tenant = ow_tenant ow, cm_user = ow_user ow,
    cm_role = ''user'', cm_content = t, cm_meta = [], cm_created = now\<rparr>"
  let ?rows = "filter (owned ow) (db_messages db)"
  have "\<forall>x \<in> set ?rows. message_key x < message_key ?m"
    using assms(1) by (simp add: message_key_def less_prod_def')
  then have "sort_desc message_key (?rows @ [?m]) = ?m # sort_desc message_key ?rows" by (rule sort_desc_snoc_newest)
  then obtain ms where "load_messages (append_message db ow i ''user'' t [] now) ow (Some 20) = ms @ [chat_message_to_model ?m]"
    by (simp add: load_messages_def owned_def Let_def)
  with assms(2) obtain hs' where "hs = hs' @ [PDict [(''role'', PStr ''user''), (''content'', PStr t)]]"
    by (auto simp: agent_history_def res_bind_Inr res_map_Inr list_all2_append1 list_all2_Cons1
        chat_message_to_agent_history_def chat_message_to_model_def)
  then show ?thesis by simp
qed

theorem input_given_twice_witness:
  "agent_history (append_message demo_chat demo_owner ''m3'' ''user'' ''Kdy?'' [] 3) demo_owner =
     Inr [PDict [(''role'', PStr ''user''), (''content'', PStr ''Acmark'')],
          PDict [(''role'', PStr ''assistant''), (''content'', PStr ''Nalezeno'')],
          PDict [(''role'', PStr ''user''), (''content'', PStr ''Kdy?'')]]"
  by code_simp

end
