(* ===== verification/Web_Tools.thy ===== *)
theory Web_Tools
  imports Tool_Args Pending_Action
begin

text \<open>
  What the agent may read from the web: one page by its address (\<open>app/engine/web_fetch.py\<close>) and
  the results of the gateway's own search service (\<open>app/engine/web_search.py\<close>), with the checks
  of \<open>app/engine/tool_validator.py\<close>. Parsers of addresses and of HTML, name resolution and the
  connection are arguments; every connection is recorded with what was validated for it.
\<close>

section \<open>Public addresses\<close>

text \<open>
  \<open>wl_split\<close> is \<open>urlsplit\<close> (scheme and host name), \<open>wl_join\<close> \<open>urljoin\<close>, \<open>wl_host\<close> host and
  explicit port as \<open>httpx.URL\<close> reads them, \<open>wl_pin\<close> \<open>copy_with(host=ip)\<close>. \<open>wl_ip\<close> is
  \<open>ipaddress.ip_address(text).is_global\<close>, \<open>None\<close> when the text is no address. \<open>wl_resolve i\<close> is what
  \<open>getaddrinfo\<close> answers at hop \<open>i\<close> (\<open>None\<close> for an \<open>OSError\<close>).
\<close>

datatype html_event = StartTag string | EndTag string | StartEndTag string | TextData string

record web_libs =
  wl_split :: "string \<Rightarrow> (string \<times> string option) result"
  wl_join :: "string \<Rightarrow> string \<Rightarrow> string result"
  wl_host :: "string \<Rightarrow> (string \<times> int option) result"
  wl_pin :: "string \<Rightarrow> string \<Rightarrow> string"
  wl_ip :: "string \<Rightarrow> bool option"
  wl_resolve :: "nat \<Rightarrow> string \<Rightarrow> string list option result"
  wl_decode :: "string \<Rightarrow> string \<Rightarrow> string result"
  wl_events :: "string \<Rightarrow> html_event list"

definition web_fetch_error :: "string \<Rightarrow> py_exc" where
  "web_fetch_error m = OtherError (''WebFetchError: '' @ m)"

definition is_global_ip :: "web_libs \<Rightarrow> string \<Rightarrow> bool" where
  "is_global_ip L ip = (wl_ip L (fst (split_first (CHR ''%'') ip)) = Some True)"

text \<open>The addresses of a name, only if all are public.\<close>

definition resolve_public_ips :: "web_libs \<Rightarrow> nat \<Rightarrow> string \<Rightarrow> string list option result" where
  "resolve_public_ips L i host = (case wl_ip L host of
     Some _ \<Rightarrow> Inr (if is_global_ip L host then Some [host] else None)
   | None \<Rightarrow> res_bind (wl_resolve L i host) (\<lambda>found. Inr (case found of
       None \<Rightarrow> None
     | Some ips \<Rightarrow> if \<not> list_all (is_global_ip L) ips \<or> ips = [] then None else Some (dedup ips))))"

definition validate_url :: "web_libs \<Rightarrow> nat \<Rightarrow> string \<Rightarrow> (string \<times> string \<times> string list) result" where
  "validate_url L i url = res_bind (wl_split L url) (\<lambda>(scheme, host).
     if scheme \<notin> {''http'', ''https''} then Inl (web_fetch_error ''Only http/https URLs are supported.'')
     else (case host of
         None \<Rightarrow> Inl (web_fetch_error ''URL has no host.'')
       | Some h \<Rightarrow> if h = [] then Inl (web_fetch_error ''URL has no host.'')
           else res_bind (resolve_public_ips L i h) (\<lambda>found. case found of
               None \<Rightarrow> Inl (web_fetch_error ''This host is not reachable (private/internal address).'')
             | Some ips \<Rightarrow> Inr (url, h, ips))))"

record web_request =
  wq_url :: string
  wq_host :: "string option"
  wq_sni :: "string option"

definition pin_request :: "web_libs \<Rightarrow> string \<Rightarrow> string \<Rightarrow> string \<Rightarrow> web_request result" where
  "pin_request L url host ip = res_bind (wl_host L url) (\<lambda>(h, port).
     if h \<noteq> host then Inr \<lparr>wq_url = url, wq_host = None, wq_sni = None\<rparr>
     else Inr \<lparr>wq_url = wl_pin L url ip,
       wq_host = Some (case port of None \<Rightarrow> host | Some p \<Rightarrow> host @ '':'' @ int_str p), wq_sni = Some host\<rparr>)"

section \<open>Reading a response\<close>

definition max_redirects :: nat where "max_redirects = 5"
definition max_bytes :: nat where "max_bytes = 2000000"

record web_response =
  ws_status :: int
  ws_location :: string
  ws_type :: string
  ws_length :: string
  ws_chunks :: "string result list"
  ws_encoding :: string

definition is_redirect :: "web_response \<Rightarrow> bool" where
  "is_redirect r = (ws_status r \<in> {301, 302, 303, 307, 308} \<and> ws_location r \<noteq> [])"

text \<open>The chunks of the body as they arrive (reading may fail), given up once they exceed the limit.\<close>

fun read_chunks :: "nat \<Rightarrow> string result list \<Rightarrow> string result" where
  "read_chunks received [] = Inr []"
| "read_chunks received (v # cs) = res_bind v (\<lambda>c.
     if received + length c > max_bytes then Inl (web_fetch_error ''Page is too large to read.'')
     else res_bind (read_chunks (received + length c) cs) (\<lambda>b. Inr (c @ b)))"

definition read_response :: "web_response \<Rightarrow> string result" where
  "read_response r =
     (if ws_status r < 200 \<or> ws_status r > 299 then Inl (OtherError ''HTTPStatusError'')
      else if \<not> py_contains ''html'' (ws_type r) \<and> \<not> py_contains ''text'' (ws_type r)
      then Inl (web_fetch_error (''Unsupported content type: '' @ sor (ws_type r) ''unknown''))
      else res_bind (if py_isdigit (ws_length r) then py_int (PStr (ws_length r)) else Inr 0)
        (\<lambda>n. if n > int max_bytes then Inl (web_fetch_error ''Page is too large to read.'')
             else read_chunks 0 (ws_chunks r)))"

section \<open>The text of a page\<close>

definition skip_tags :: "string list" where
  "skip_tags = [''script'', ''style'', ''noscript'', ''template'', ''svg'', ''nav'', ''footer'', ''header'']"

definition block_tags :: "string list" where
  "block_tags = [''p'', ''div'', ''br'', ''li'', ''tr'', ''h1'', ''h2'', ''h3'', ''h4'', ''h5'', ''h6'',
     ''section'', ''article'', ''table'', ''ul'', ''ol'', ''blockquote'']"

record extractor =
  ex_skip :: nat
  ex_chunks :: "string list"
  ex_title :: string
  ex_in_title :: bool

definition new_extractor :: extractor where
  "new_extractor = \<lparr>ex_skip = 0, ex_chunks = [], ex_title = [], ex_in_title = False\<rparr>"

definition add_break :: "string \<Rightarrow> extractor \<Rightarrow> extractor" where
  "add_break tag x = (if tag \<in> set block_tags then x\<lparr>ex_chunks := ex_chunks x @ [nl]\<rparr> else x)"

fun handle_event :: "html_event \<Rightarrow> extractor \<Rightarrow> extractor" where
  "handle_event (StartTag tag) x =
     (let x1 = (if tag \<in> set skip_tags then x\<lparr>ex_skip := Suc (ex_skip x)\<rparr> else x);
          x2 = (if tag = ''title'' then x1\<lparr>ex_in_title := True\<rparr> else x1)
      in add_break tag x2)"
| "handle_event (StartEndTag tag) x = add_break tag x"
| "handle_event (EndTag tag) x =
     (let x1 = (if tag \<in> set skip_tags \<and> ex_skip x > 0 then x\<lparr>ex_skip := ex_skip x - 1\<rparr> else x);
          x2 = (if tag = ''title'' then x1\<lparr>ex_in_title := False\<rparr> else x1)
      in add_break tag x2)"
| "handle_event (TextData t) x =
     (if ex_skip x > 0 then x
      else if ex_in_title x \<and> ex_title x = [] then x\<lparr>ex_title := py_join '' '' (py_split_ws t)\<rparr>
      else x\<lparr>ex_chunks := ex_chunks x @ [t]\<rparr>)"

text \<open>\<open>str.splitlines\<close>; the empty line between CR and LF has no words and is dropped anyway.\<close>

definition is_linebreak :: "char \<Rightarrow> bool" where
  "is_linebreak c = ((of_char c :: nat) \<in> {10, 11, 12, 13, 28, 29, 30, 133})"

definition page_lines :: "string \<Rightarrow> string list" where
  "page_lines s = split_all (CHR 0x0A) (map (\<lambda>c. if is_linebreak c then CHR 0x0A else c) s)"

definition extracted_text :: "extractor \<Rightarrow> string" where
  "extracted_text x = py_join nl (filter (\<lambda>l. l \<noteq> [])
     (map (\<lambda>l. py_join '' '' (py_split_ws l)) (page_lines (concat (ex_chunks x)))))"

section \<open>Fetching a page\<close>

text \<open>A connection with the address, host and addresses that were validated for it.\<close>

record web_hop =
  hp_url :: string
  hp_host :: string
  hp_ips :: "string list"
  hp_request :: web_request

record web_page =
  wp_title :: string
  wp_url :: string
  wp_text :: string

definition page_of :: "web_libs \<Rightarrow> int \<Rightarrow> string \<Rightarrow> web_response \<Rightarrow> web_page result" where
  "page_of L limit url r = res_bind (read_response r) (\<lambda>body.
     res_bind (wl_decode L (sor (ws_encoding r) ''utf-8'') body) (\<lambda>html.
       let x = fold handle_event (wl_events L html) new_extractor in
       Inr \<lparr>wp_title = ex_title x, wp_url = url, wp_text = take (nat limit) (extracted_text x)\<rparr>))"

fun fetch_hops ::
  "web_libs \<Rightarrow> (nat \<Rightarrow> web_request \<Rightarrow> web_response result) \<Rightarrow> int \<Rightarrow> nat \<Rightarrow> nat \<Rightarrow> string \<times> string \<times> string list
     \<Rightarrow> web_page result \<times> web_hop list" where
  "fetch_hops L send limit 0 i target = (Inl (web_fetch_error ''Too many redirects.''), [])"
| "fetch_hops L send limit (Suc n) i (url, host, ips) = (case pin_request L url host (hd ips) of
     Inl e \<Rightarrow> (Inl e, [])
   | Inr rq \<Rightarrow>
       (let hop = \<lparr>hp_url = url, hp_host = host, hp_ips = ips, hp_request = rq\<rparr> in
        case send i rq of
          Inl e \<Rightarrow> (Inl e, [hop])
        | Inr r \<Rightarrow>
            if is_redirect r
            then (case res_bind (wl_join L url (ws_location r)) (validate_url L (Suc i)) of
                Inl e \<Rightarrow> (Inl e, [hop])
              | Inr target \<Rightarrow> (case fetch_hops L send limit n (Suc i) target of (p, hops) \<Rightarrow> (p, hop # hops)))
            else (page_of L limit url r, [hop])))"

lemma fetch_hops_code [code]:
  "fetch_hops L send limit n i (url, host, ips) =
     (if n = 0 then (Inl (web_fetch_error ''Too many redirects.''), [])
      else (case pin_request L url host (hd ips) of
        Inl e \<Rightarrow> (Inl e, [])
      | Inr rq \<Rightarrow>
          (let hop = \<lparr>hp_url = url, hp_host = host, hp_ips = ips, hp_request = rq\<rparr> in
           case send i rq of
             Inl e \<Rightarrow> (Inl e, [hop])
           | Inr r \<Rightarrow>
               if is_redirect r
               then (case res_bind (wl_join L url (ws_location r)) (validate_url L (Suc i)) of
                   Inl e \<Rightarrow> (Inl e, [hop])
                 | Inr target \<Rightarrow> (case fetch_hops L send limit (n - 1) (Suc i) target of (p, hops) \<Rightarrow> (p, hop # hops)))
               else (page_of L limit url r, [hop]))))"
proof (cases n)
  case (Suc m)
  show ?thesis unfolding Suc by (simp only: fetch_hops.simps diff_Suc_1 nat.distinct if_False)
qed simp

definition fetch_limit :: "int option \<Rightarrow> int \<Rightarrow> int" where
  "fetch_limit max_chars setting =
     (let wanted = (case max_chars of Some n \<Rightarrow> if n \<noteq> 0 then n else setting | None \<Rightarrow> setting)
      in max 500 (min wanted 20000))"

definition fetch_page ::
  "web_libs \<Rightarrow> (nat \<Rightarrow> web_request \<Rightarrow> web_response result) \<Rightarrow> int \<Rightarrow> string \<Rightarrow> int option \<Rightarrow> web_page result \<times> web_hop list" where
  "fetch_page L send setting url max_chars = (case validate_url L 0 url of
     Inl e \<Rightarrow> (Inl e, [])
   | Inr target \<Rightarrow> fetch_hops L send (fetch_limit max_chars setting) (Suc max_redirects) 0 target)"

section \<open>Search results\<close>

definition clean_text :: "py \<Rightarrow> nat \<Rightarrow> string" where
  "clean_text v n = take n (py_join '' '' (py_split_ws (str_or v)))"

definition search_row :: "pydict \<Rightarrow> pydict" where
  "search_row row = [(''title'', PStr (clean_text (pget row ''title'') 200)),
     (''url'', PStr (clean_text (pget row ''url'') 512)), (''content'', PStr (clean_text (pget row ''content'') 600))]"

fun collect_results :: "nat \<Rightarrow> string list \<Rightarrow> py list \<Rightarrow> pydict list" where
  "collect_results left seen [] = []"
| "collect_results left seen (v # vs) = (case v of
     PDict row \<Rightarrow>
       (let url = clean_text (pget row ''url'') 512 in
        if url = [] \<or> url \<in> set seen then collect_results left seen vs
        else search_row row # (if left \<le> 1 then [] else collect_results (left - 1) (url # seen) vs))
   | _ \<Rightarrow> collect_results left seen vs)"

definition normalize_searxng_results :: "py \<Rightarrow> nat \<Rightarrow> pydict list result" where
  "normalize_searxng_results payload max_results =
     res_bind (iter_or_empty (pget (dict_or_empty payload) ''results'')) (\<lambda>rows. Inr (collect_results max_results [] rows))"

section \<open>The tools\<close>

definition validate_web_search_call :: "string \<Rightarrow> int \<Rightarrow> string option" where
  "validate_web_search_call query max_results =
     (if py_strip query = [] then Some ''Query is required.''
      else if max_results < 1 \<or> max_results > 20 then Some ''max_results must be between 1 and 20.'' else None)"

definition validate_web_fetch_call :: "string \<Rightarrow> string option" where
  "validate_web_fetch_call url = (let v = py_strip url in
     if v = [] then Some ''URL is required.''
     else if \<not> (py_startswith v ''http://'' \<or> py_startswith v ''https://'') then Some ''Only http/https URLs are supported.''
     else None)"

text \<open>Only the module's own messages are shown; anything else may leak internals.\<close>

definition fetch_message :: "py_exc \<Rightarrow> string" where
  "fetch_message e = (case e of
     OtherError m \<Rightarrow> if py_startswith m ''WebFetchError: '' then drop 15 m else ''Stranku se nepodarilo nacist.''
   | _ \<Rightarrow> ''Stranku se nepodarilo nacist.'')"

definition web_fetch_tool ::
  "web_libs \<Rightarrow> (nat \<Rightarrow> web_request \<Rightarrow> web_response result) \<Rightarrow> int \<Rightarrow> string \<Rightarrow> pydict \<times> web_hop list" where
  "web_fetch_tool L send setting url = (case validate_web_fetch_call url of
     Some m \<Rightarrow> ([(''status'', PStr ''tool_validation_error''), (''message'', PStr m)], [])
   | None \<Rightarrow> (case fetch_page L send setting (py_strip url) None of
       (Inl e, hops) \<Rightarrow> ([(''status'', PStr ''web_fetch_unavailable''), (''message'', PStr (fetch_message e))], hops)
     | (Inr p, hops) \<Rightarrow> ([(''status'', PStr ''ok''), (''title'', PStr (wp_title p)), (''url'', PStr (wp_url p)),
         (''text'', PStr (wp_text p))], hops)))"

definition web_search_tool ::
  "(string \<Rightarrow> nat \<Rightarrow> py result) \<Rightarrow> string \<Rightarrow> int \<Rightarrow> pydict" where
  "web_search_tool search query max_results = (case validate_web_search_call query max_results of
     Some m \<Rightarrow> [(''status'', PStr ''tool_validation_error''), (''message'', PStr m), (''results'', PList [])]
   | None \<Rightarrow> (case res_bind (search (py_strip query) (nat max_results))
         (\<lambda>payload. normalize_searxng_results payload (nat max_results)) of
       Inl _ \<Rightarrow> [(''status'', PStr ''web_search_unavailable''),
         (''message'', PStr ''Webove vyhledavani je momentalne nedostupne.''), (''results'', PList [])]
     | Inr rs \<Rightarrow> [(''status'', PStr ''ok''), (''query'', PStr (py_strip query)), (''results'', PList (map PDict rs))]))"

section \<open>Lemmas\<close>

lemma dedup_Nil [simp]: "dedup xs = [] \<longleftrightarrow> xs = []"
  by (metis set_dedup set_empty)

lemma resolve_public:
  "resolve_public_ips L i host = Inr (Some ips) \<Longrightarrow> ips \<noteq> [] \<and> list_all (is_global_ip L) ips"
  by (auto simp: resolve_public_ips_def res_bind_Inr list_all_iff split: option.splits if_splits)

text \<open>What holds of an address that was validated: a web scheme and only public addresses.\<close>

definition validated :: "web_libs \<Rightarrow> string \<times> string \<times> string list \<Rightarrow> bool" where
  "validated L t = (case t of (url, host, ips) \<Rightarrow>
     (\<exists>scheme \<in> {''http'', ''https''}. wl_split L url = Inr (scheme, Some host))
     \<and> ips \<noteq> [] \<and> list_all (is_global_ip L) ips)"

lemma validate_url_validated:
  assumes "validate_url L i url = Inr t"
  shows "validated L t"
proof -
  from assms obtain scheme host where sp: "wl_split L url = Inr (scheme, host)"
    and sc: "scheme \<in> {''http'', ''https''}"
    by (cases "wl_split L url") (auto simp: validate_url_def simp del: insert_iff split: if_split_asm)
  with assms obtain h ips where "host = Some h" and ips: "resolve_public_ips L i h = Inr (Some ips)"
    and t: "t = (url, h, ips)"
    by (cases host) (auto simp: validate_url_def res_bind_Inr simp del: insert_iff
        split: if_split_asm option.split_asm)
  with sp sc resolve_public [OF ips] show ?thesis by (simp add: validated_def)
qed

definition hop_ok :: "web_libs \<Rightarrow> web_hop \<Rightarrow> bool" where
  "hop_ok L h = (validated L (hp_url h, hp_host h, hp_ips h)
     \<and> pin_request L (hp_url h) (hp_host h) (hd (hp_ips h)) = Inr (hp_request h))"

text \<open>One hop: it ends the fetch, or the target it redirects to was validated.\<close>

lemma fetch_hops_Suc:
  assumes "fetch_hops L send limit (Suc n) i (url, host, ips) = (p, hops)"
  obtains (unsent) e where "p = Inl e" "hops = []"
  | (last) rq where "pin_request L url host (hd ips) = Inr rq"
      "hops = [\<lparr>hp_url = url, hp_host = host, hp_ips = ips, hp_request = rq\<rparr>]"
      "\<And>q. p = Inr q \<Longrightarrow> \<exists>r. page_of L limit url r = Inr q"
  | (redirect) rq target hops' where "pin_request L url host (hd ips) = Inr rq" "validated L target"
      "fetch_hops L send limit n (Suc i) target = (p, hops')"
      "hops = \<lparr>hp_url = url, hp_host = host, hp_ips = ips, hp_request = rq\<rparr> # hops'"
proof (cases "pin_request L url host (hd ips)")
  case (Inl e)
  with assms unsent show thesis by auto
next
  case (Inr rq)
  note pin = Inr
  show thesis
  proof (cases "send i rq")
    case (Inl e)
    with assms pin last show thesis by auto
  next
    case (Inr r)
    note sent = Inr
    show thesis
    proof (cases "is_redirect r")
      case False
      with assms pin sent last show thesis by auto
    next
      case True
      show thesis
      proof (cases "res_bind (wl_join L url (ws_location r)) (validate_url L (Suc i))")
        case (Inl e)
        with assms pin sent True last show thesis by auto
      next
        case (Inr t)
        then have "validated L t" by (auto simp: res_bind_Inr dest: validate_url_validated)
        with assms pin sent True Inr redirect show thesis by (auto split: prod.splits)
      qed
    qed
  qed
qed

lemma fetch_hops_ok:
  "validated L target \<Longrightarrow> fetch_hops L send limit n i target = (p, hops) \<Longrightarrow>
     list_all (hop_ok L) hops \<and> length hops \<le> n"
proof (induction n arbitrary: i target p hops)
  case (Suc n)
  obtain url host ips where t: "target = (url, host, ips)" by (cases target)
  from Suc.prems(2) [unfolded t] show ?case
    by (cases rule: fetch_hops_Suc) (use Suc.prems(1) Suc.IH t in \<open>auto simp: hop_ok_def\<close>)
qed simp

lemma page_of_text: "page_of L limit url r = Inr p \<Longrightarrow> length (wp_text p) \<le> nat limit"
  by (auto simp: page_of_def res_bind_Inr Let_def)

lemma fetch_hops_text:
  "fetch_hops L send limit n i target = (Inr p, hops) \<Longrightarrow> length (wp_text p) \<le> nat limit"
proof (induction n arbitrary: i target hops)
  case (Suc n)
  obtain url host ips where t: "target = (url, host, ips)" by (cases target)
  from Suc.prems [unfolded t] show ?case
    by (cases rule: fetch_hops_Suc) (use Suc.IH page_of_text in blast)+
qed simp

lemma fetch_page_hops:
  "list_all (hop_ok L) (snd (fetch_page L send setting url mc)) \<and>
   length (snd (fetch_page L send setting url mc)) \<le> 6"
proof (cases "validate_url L 0 url")
  case (Inl e)
  then show ?thesis by (simp add: fetch_page_def)
next
  case (Inr t)
  obtain p hops where f: "fetch_hops L send (fetch_limit mc setting) (Suc max_redirects) 0 t = (p, hops)"
    by fastforce
  from fetch_hops_ok [OF validate_url_validated [OF Inr] f] Inr f show ?thesis
    by (simp add: fetch_page_def max_redirects_def)
qed

lemma read_chunks_bound: "read_chunks n cs = Inr b \<Longrightarrow> n \<le> max_bytes \<Longrightarrow> n + length b \<le> max_bytes"
proof (induction n cs arbitrary: b rule: read_chunks.induct)
  case (2 n v cs)
  from 2(2) obtain c b' where v: "v = Inr c" and c: "\<not> n + length c > max_bytes"
    and b': "read_chunks (n + length c) cs = Inr b'" "b = c @ b'"
    by (auto simp: res_bind_Inr split: if_splits)
  from "2.IH" [OF c b'(1)] c b'(2) show ?case by simp
qed simp

lemma read_response_bound: "read_response r = Inr b \<Longrightarrow> length b \<le> max_bytes"
  using read_chunks_bound [of 0]
  by (fastforce simp: read_response_def res_bind_Inr split: if_splits)

lemma fetch_limit_bounds: "500 \<le> fetch_limit mc setting \<and> fetch_limit mc setting \<le> 20000"
  by (auto simp: fetch_limit_def Let_def)

lemma py_startswith_split: "py_startswith s p \<Longrightarrow> p @ drop (length p) s = s"
  by (metis append_take_drop_id py_startswith_def)

lemma collect_results_spec:
  "distinct (map (\<lambda>r. pget r ''url'') (collect_results n seen vs)) \<and>
   length (collect_results n seen vs) \<le> max 1 n \<and>
   list_all (\<lambda>r. \<exists>u. pget r ''url'' = PStr u \<and> u \<noteq> [] \<and> u \<notin> set seen \<and> length u \<le> 512)
     (collect_results n seen vs)"
proof (induction vs arbitrary: n seen)
  case (Cons v vs)
  show ?case
  proof (cases v)
    case (PDict row)
    let ?u = "clean_text (pget row ''url'') 512"
    have "length ?u \<le> 512" by (simp add: clean_text_def)
    with Cons [of n seen] Cons [of "n - 1" "?u # seen"] PDict show ?thesis
      by (auto simp: search_row_def pget_Cons Let_def list_all_iff max_def split: if_splits)
  qed (use Cons in auto)
qed simp

section \<open>Properties\<close>


definition demo_web :: web_libs where
  "demo_web = \<lparr>wl_split = (\<lambda>u. Inr (''https'', Some (if u = ''https://a/'' then ''a'' else if u = ''https://b/'' then ''xn--b'' else ''lan''))),
     wl_join = (\<lambda>u l. Inr l), wl_host = (\<lambda>u. Inr (if u = ''https://a/'' then ''a'' else ''b'', None)),
     wl_pin = (\<lambda>u ip. ''https://'' @ ip @ ''/''), wl_ip = (\<lambda>t. if t = ''8.8.8.8'' then Some True else if t = ''10.0.0.1'' then Some False else None),
     wl_resolve = (\<lambda>i h. Inr (Some [if h = ''lan'' then ''10.0.0.1'' else ''8.8.8.8''])),
     wl_decode = (\<lambda>enc b. Inr b), wl_events = (\<lambda>t. [StartTag ''p'', TextData t])\<rparr>"

definition demo_reply :: "int \<Rightarrow> string \<Rightarrow> web_response" where
  "demo_reply status location = \<lparr>ws_status = status, ws_location = location, ws_type = ''text/html'',
     ws_length = [], ws_chunks = [Inr ''Hi''], ws_encoding = ''utf-8''\<rparr>"

definition demo_send :: "string \<Rightarrow> nat \<Rightarrow> web_request \<Rightarrow> web_response result" where
  "demo_send target i rq = Inr (if i = 0 then demo_reply 302 target else demo_reply 200 [])"


text \<open>
  what a fetch costs is bounded whatever the server does: at most six connections (the first and
  five redirects), a response body of more than 2,000,000 bytes or of a declared larger length is
  given up, and the text handed to the model has at most 20,000 characters, within the limit asked
  for when that is at least 500.
\<close>

theorem web_fetch_bounded:
  "length (snd (fetch_page L send setting url max_chars)) \<le> 6 \<and>
   (case fst (fetch_page L send setting url max_chars) of
      Inl _ \<Rightarrow> True | Inr p \<Rightarrow> length (wp_text p) \<le> nat (fetch_limit max_chars setting)) \<and>
   nat (fetch_limit max_chars setting) \<le> 20000 \<and>
   (case read_response r of Inl _ \<Rightarrow> True | Inr body \<Rightarrow> length body \<le> 2000000)"
proof -
  have "length body \<le> 2000000" if "read_response r = Inr body" for body
    using read_response_bound [OF that] by (simp add: max_bytes_def)
  moreover have "length (wp_text p) \<le> nat (fetch_limit max_chars setting)"
    if "fst (fetch_page L send setting url max_chars) = Inr p" for p
  proof -
    from that obtain t where "fst (fetch_hops L send (fetch_limit max_chars setting) (Suc max_redirects) 0 t) = Inr p"
      by (cases "validate_url L 0 url") (auto simp: fetch_page_def)
    then show ?thesis by (cases "fetch_hops L send (fetch_limit max_chars setting) (Suc max_redirects) 0 t")
        (auto dest: fetch_hops_text)
  qed
  moreover have "nat (fetch_limit max_chars setting) \<le> 20000"
    using fetch_limit_bounds [of max_chars setting] by arith
  ultimately show ?thesis
    using fetch_page_hops [of L send setting url max_chars] by (simp split: sum.splits)
qed

text \<open>
  The results of a web search are usable references: at most the number asked for (never
  more than 20), every one with an address of at most 512 characters, and no address twice;
  a failing search service or a payload of another shape gives a status, never an exception.
\<close>

theorem web_search_results_distinct:
  assumes "web_search_tool search query n = out" and "pget out ''status'' = PStr ''ok''"
  shows "\<exists>rs. pget out ''results'' = PList (map PDict rs) \<and> length rs \<le> nat n \<and> n \<le> 20 \<and>
    distinct (map (\<lambda>r. pget r ''url'') rs) \<and>
    list_all (\<lambda>r. \<exists>u. pget r ''url'' = PStr u \<and> u \<noteq> [] \<and> length u \<le> 512) rs"
proof -
  from assms have v: "validate_web_search_call query n = None"
    by (auto simp: web_search_tool_def pget_Cons split: option.splits)
  with assms obtain rs where rs: "res_bind (search (py_strip query) (nat n))
        (\<lambda>payload. normalize_searxng_results payload (nat n)) = Inr rs"
    and out: "out = [(''status'', PStr ''ok''), (''query'', PStr (py_strip query)), (''results'', PList (map PDict rs))]"
    by (cases "res_bind (search (py_strip query) (nat n)) (\<lambda>payload. normalize_searxng_results payload (nat n))")
       (auto simp: web_search_tool_def pget_Cons)
  from rs obtain vs where "rs = collect_results (nat n) [] vs"
    by (auto simp: normalize_searxng_results_def res_bind_Inr)
  with collect_results_spec [of "nat n" "[]" vs] v out show ?thesis
    by (auto simp: pget_Cons validate_web_search_call_def list_all_iff max_def split: if_splits)
qed

theorem web_search_results_distinct_witness:
  "pget (web_search_tool (\<lambda>q k. Inr (PDict [(''results'', PList [PDict [(''url'', PStr ''u'')], PDict [(''url'', PStr '' u '')], PNone])]))
      ''x'' 5) ''results'' = PList [PDict [(''title'', PStr []), (''url'', PStr ''u''), (''content'', PStr [])]] \<and>
   (\<exists>rs. PList [PDict [(''title'', PStr []), (''url'', PStr ''u''), (''content'', PStr [])]] = PList (map PDict rs) \<and> length rs \<le> 5)"
proof -
  let ?out = "web_search_tool (\<lambda>q k. Inr (PDict [(''results'', PList [PDict [(''url'', PStr ''u'')], PDict [(''url'', PStr '' u '')], PNone])])) ''x'' 5"
  have s: "pget ?out ''status'' = PStr ''ok''" and r: "pget ?out ''results'' =
      PList [PDict [(''title'', PStr []), (''url'', PStr ''u''), (''content'', PStr [])]]" by code_simp+
  from web_search_results_distinct [OF refl s] obtain rs
    where "pget ?out ''results'' = PList (map PDict rs)" "length rs \<le> nat 5" by blast
  with r show ?thesis by (intro conjI exI [of _ rs]) simp_all
qed

text \<open>
  A host that the HTTP library reads otherwise than \<open>urlsplit\<close> (it decodes \<open>xn--\<close> labels) is fetched
  without the pin: the connection resolves the name again, which the module's comment excludes
  (\<open>the validated IP is pinned for the connection against DNS rebinding\<close>).
\<close>

theorem idna_host_unpinned:
  "snd (fetch_page demo_web (demo_send []) 8000 ''https://b/'' None) =
     [\<lparr>hp_url = ''https://b/'', hp_host = ''xn--b'', hp_ips = [''8.8.8.8''],
       hp_request = \<lparr>wq_url = ''https://b/'', wq_host = None, wq_sni = None\<rparr>\<rparr>]"
  by code_simp

text \<open>
  The fetch tool answers every call, and a failure never shows the text of an exception
  other than the module's own: the message is a fixed one or that of a \<open>WebFetchError\<close>.
\<close>

theorem web_fetch_tool_messages:
  assumes "pget (fst (web_fetch_tool L send setting url)) ''status'' = PStr ''web_fetch_unavailable''"
  shows "\<exists>e. fst (fetch_page L send setting (py_strip url) None) = Inl e \<and>
    pget (fst (web_fetch_tool L send setting url)) ''message'' = PStr (fetch_message e) \<and>
    (fetch_message e = ''Stranku se nepodarilo nacist.'' \<or> e = web_fetch_error (fetch_message e))"
proof -
  have len: "length ''WebFetchError: '' = 15" by simp
  have m: "fetch_message e = ''Stranku se nepodarilo nacist.'' \<or> e = web_fetch_error (fetch_message e)" for e
  proof (cases e)
    case (OtherError x)
    have "''WebFetchError: '' @ drop 15 x = x" if "py_startswith x ''WebFetchError: ''"
      using py_startswith_split [OF that] unfolding len .
    with OtherError show ?thesis by (simp add: fetch_message_def web_fetch_error_def del: append.simps)
  qed (simp_all add: fetch_message_def)
  from assms show ?thesis
    using m
    by (cases "fetch_page L send setting (py_strip url) None")
       (auto simp: web_fetch_tool_def pget_Cons split: option.splits sum.splits)
qed

end
