(* ===== verification/Record_Extract.thy ===== *)
theory Record_Extract
  imports Cards Json Form_Fields
begin

text \<open>
  Records out of the payloads of the CRM and of the vector index (\<open>app/engine/record_extract.py\<close>):
  the walk that finds entity rows wherever a reply nests them, the flattening of name-value
  lists, and the removal of duplicates. SHA-1 is an argument.
\<close>

section \<open>Ids and scalars\<close>

text \<open>\<open>UUID_RE\<close> and \<open>CRM_ID_RE\<close> on a stripped text.\<close>

definition matches_uuid :: "string \<Rightarrow> bool" where
  "matches_uuid s = hex_groups [8, 4, 4, 4, 12] s"

definition is_record_id :: "string \<Rightarrow> bool" where
  "is_record_id s = (hex_groups [32] s \<or> matches_uuid s)"

definition ascii_letter :: "char \<Rightarrow> bool" where
  "ascii_letter c = (is_az c \<or> is_AZ c)"

text \<open>\<open>SCOPED_RECORD_ID_RE\<close>: letters, one separator, an id of 32 or 36 characters.\<close>

definition scoped_id :: "nat \<Rightarrow> string \<Rightarrow> string option" where
  "scoped_id n s = (let m = length s - n - 1; p = take m s; i = drop (Suc m) s in
     if n + 2 \<le> length s \<and> list_all ascii_letter p \<and> s ! m \<in> set ''-:/'' \<and> is_record_id i then Some i else None)"

definition canonical_record_id :: "py \<Rightarrow> string" where
  "canonical_record_id v = (let t = safe_text v in
     if t = [] \<or> is_record_id t then t
     else (case scoped_id 32 t of
         Some i \<Rightarrow> i
       | None \<Rightarrow> (case scoped_id 36 t of Some i \<Rightarrow> i | None \<Rightarrow> t)))"

definition extract_name_value_scalar :: "py \<Rightarrow> py" where
  "extract_name_value_scalar raw = (case raw of
     PDict d \<Rightarrow> if has_key ''value'' d then pget d ''value''
       else if has_key ''name'' d \<and> length d = 1 then pget d ''name'' else raw
   | _ \<Rightarrow> raw)"

section \<open>Flattening\<close>

definition add_missing :: "pydict \<Rightarrow> pydict \<Rightarrow> pydict" where
  "add_missing extra d = fold (\<lambda>(k, v) acc. if has_key k acc then acc else dput k (extract_name_value_scalar v) acc) extra d"

definition flatten_record :: "pydict \<Rightarrow> pydict" where
  "flatten_record record =
     (let d = add_missing (dict_or_empty (pget record ''name_value_list'')) record
      in add_missing (dict_or_empty (pget d ''attributes'')) d)"

section \<open>The walk\<close>

definition record_list_keys :: "string list" where
  "record_list_keys = [''records'', ''entry_list'', ''items'', ''results'']"

definition ignored_parent_keys :: "string list" where
  "ignored_parent_keys = [''fields'', ''field_defs'', ''defs'', ''columns'', ''column_defs'', ''labels'',
     ''module_defs'', ''layout'', ''metadata'', ''menu'']"

definition is_record_candidate :: "pydict \<Rightarrow> bool" where
  "is_record_candidate item =
     (if matches_uuid (safe_text (pget item ''id'')) then True
      else (let person = (safe_text (pget item ''first_name'') \<noteq> [] \<and> safe_text (pget item ''last_name'') \<noteq> []);
                company = (safe_text (por (pget item ''account_name'') (pget item ''company'')) \<noteq> []);
                dates = (safe_text (por (pget item ''date_modified'') (pget item ''date_entered'')) \<noteq> []);
                field_def = (has_key ''vname'' item \<and> has_key ''type'' item \<and> (has_key ''name'' item \<or> has_key ''rname'' item))
            in person \<and> (company \<or> dates) \<and> \<not> field_def))"

fun walk_records :: "string \<Rightarrow> py \<Rightarrow> pydict list"
  and walk_items :: "string \<Rightarrow> py list \<Rightarrow> pydict list"
  and walk_entries :: "(string \<times> py) list \<Rightarrow> pydict list" where
  "walk_records key (PList xs) =
     (if key \<in> set record_list_keys then map flatten_record (filter is_record_candidate (dicts_of xs)) else [])
     @ walk_items key xs"
| "walk_records key (PDict d) =
     (let flat = flatten_record d in
      if key \<in> set record_list_keys \<and> is_record_candidate flat \<and> key \<notin> set ignored_parent_keys then [flat] else [])
     @ walk_entries d"
| "walk_records key _ = []"
| "walk_items key [] = []"
| "walk_items key (x # xs) = walk_records key x @ walk_items key xs"
| "walk_entries [] = []"
| "walk_entries ((k, v) # d) = walk_records k v @ walk_entries d"

text \<open>The rows whose key was not seen before; rows that are always kept leave no trace.\<close>

fun keep_first :: "('a \<Rightarrow> 'b) \<Rightarrow> ('a \<Rightarrow> bool) \<Rightarrow> 'b list \<Rightarrow> 'a list \<Rightarrow> 'a list" where
  "keep_first key always seen [] = []"
| "keep_first key always seen (x # xs) =
     (if always x then x # keep_first key always seen xs
      else if key x \<in> set seen then keep_first key always seen xs
      else x # keep_first key always (key x # seen) xs)"

definition row_id_text :: "pydict \<Rightarrow> string" where
  "row_id_text r = safe_text (pget r ''id'')"

definition extract_records :: "py \<Rightarrow> pydict list" where
  "extract_records v = keep_first row_id_text (\<lambda>r. row_id_text r = []) [] (walk_records [] v)"

definition merge_records_by_id :: "pydict list list \<Rightarrow> pydict list" where
  "merge_records_by_id sets =
     keep_first row_id_text (\<lambda>_. False) [] (filter (\<lambda>r. row_id_text r \<noteq> []) (concat sets))"

text \<open>The loop stops after the row that reaches the limit, so one row is kept whatever the limit.\<close>

definition dedupe_and_limit :: "pydict list \<Rightarrow> int \<Rightarrow> pydict list" where
  "dedupe_and_limit records limit =
     take (nat (max 1 limit)) (keep_first (\<lambda>r. row_id_text r @ ''|'' @ normalize_text (record_name r)) (\<lambda>_. False) [] records)"

section \<open>Matching\<close>

definition filter_valid_contact_records :: "pydict list \<Rightarrow> pydict list" where
  "filter_valid_contact_records records = filter (\<lambda>r. matches_uuid (row_id_text r) \<and>
     list_ex (\<lambda>v. safe_text v \<noteq> [])
       [pget r ''name'', pget r ''first_name'', pget r ''last_name'', pget r ''email1'',
        por (pget r ''phone_mobile'') (pget r ''phone_work''), por (pget r ''account_name'') (pget r ''company'')]) records"

definition match_score :: "string \<Rightarrow> string \<Rightarrow> nat" where
  "match_score search candidate =
     (if candidate = search then 100
      else if py_startswith candidate search then 85
      else if py_contains search candidate then 75
      else if py_contains candidate search then 60 else 0)"

fun best_match_loop :: "string \<Rightarrow> (nat \<times> pydict) option \<Rightarrow> pydict list \<Rightarrow> (nat \<times> pydict) option" where
  "best_match_loop search best [] = best"
| "best_match_loop search best (r # rs) =
     (let candidate = normalize_text (record_name r); score = match_score search candidate in
      if candidate = [] then best_match_loop search best rs
      else best_match_loop search
        (case best of None \<Rightarrow> Some (score, r) | Some (b, _) \<Rightarrow> if score > b then Some (score, r) else best) rs)"

definition best_record_match :: "pydict list \<Rightarrow> string \<Rightarrow> pydict option" where
  "best_record_match records search = (let s = normalize_text search in
     if records = [] \<or> s = [] then None
     else (case best_match_loop s None records of
         Some (score, r) \<Rightarrow> if score \<ge> 70 then Some r else None | None \<Rightarrow> None))"

definition score_text_match :: "string \<Rightarrow> string \<Rightarrow> nat" where
  "score_text_match search candidate = (let s = normalize_text search; c = normalize_text candidate in
     if s = [] \<or> c = [] then 0
     else if match_score s c > 0 then match_score s c
     else (let st = dedup (py_split_ws s); ct = py_split_ws c in
           if st = [] then 0 else 55 * length (filter (\<lambda>t. t \<in> set ct) st) div length st))"

definition filter_records_by_company :: "pydict list \<Rightarrow> string \<Rightarrow> bool \<Rightarrow> pydict list" where
  "filter_records_by_company records company fallback_to_original =
     (let wanted = normalize_text company;
          account = (\<lambda>r. normalize_text (safe_text (por (pget r ''account_name'') (pget r ''company''))));
          kept = filter (\<lambda>r. py_contains wanted (account r) \<or> py_contains (account r) wanted) records
      in if wanted = [] then records
         else if kept \<noteq> [] then kept else if fallback_to_original then records else [])"

section \<open>Hits of the vector index\<close>

definition record_primary_name :: "pydict \<Rightarrow> string" where
  "record_primary_name r =
     (let direct = safe_text (por (pget r ''name'') (pget r ''NAME''));
          alt = safe_text (por (por (pget r ''account_name'') (pget r ''company'')) (pget r ''ACCOUNT_NAME''))
      in if direct \<noteq> [] then direct else if alt \<noteq> [] then alt
         else py_strip (safe_text (por (pget r ''first_name'') (pget r ''FIRST_NAME'')) @ '' '' @
           safe_text (por (pget r ''last_name'') (pget r ''LAST_NAME''))))"

definition compact_rag_payload :: "pydict \<Rightarrow> pydict" where
  "compact_rag_payload payload =
     (if is_dict (pget payload ''text'') \<and> is_dict (pget payload ''record'') \<and> pget payload ''text'' = pget payload ''record''
      then ddel ''text'' payload else payload)"

text \<open>\<open>json.dumps(..., sort_keys=True)\<close>: the entries of every dict by key.\<close>

fun sort_keys :: "py \<Rightarrow> py"
  and sort_items :: "py list \<Rightarrow> py list"
  and sort_pairs :: "(string \<times> py) list \<Rightarrow> (string \<times> py) list" where
  "sort_keys (PList xs) = PList (sort_items xs)"
| "sort_keys (PDict d) = PDict (sort_key fst (sort_pairs d))"
| "sort_keys v = v"
| "sort_items [] = []"
| "sort_items (x # xs) = sort_keys x # sort_items xs"
| "sort_pairs [] = []"
| "sort_pairs ((k, v) # d) = (k, sort_keys v) # sort_pairs d"

definition rag_result_identity :: "(string \<Rightarrow> string) \<Rightarrow> pydict \<Rightarrow> string" where
  "rag_result_identity sha1 item = (case pget item ''payload'' of
     PDict payload \<Rightarrow>
       (let md = py_lower (safe_text (pget payload ''module''));
            record = dict_or_empty (pget payload ''record''); text = dict_or_empty (pget payload ''text'');
            rid = canonical_record_id (por (por (pget payload ''record_id'') (pget record ''id'')) (pget text ''id''));
            merged = dupdate text record; field = (\<lambda>k. pget merged k);
            parts = [normalize_text (record_primary_name merged),
              normalize_text (safe_text (por (field ''account_name'') (field ''company''))),
              normalize_text (safe_text (por (field ''primary_address_city'') (field ''billing_address_city''))),
              normalize_text (safe_text (por (field ''primary_address_street'') (field ''billing_address_street''))),
              safe_text (por (por (por (field ''phone_work'') (field ''phone_mobile'')) (field ''phone_office'')) (field ''phone_home'')),
              normalize_text (safe_text (por (field ''email1'') (field ''email'')))]
        in if rid \<noteq> [] then ''id:'' @ md @ '':'' @ py_lower rid
           else if list_ex (\<lambda>p. p \<noteq> []) parts then ''shape:'' @ py_join ''|'' (md # parts)
           else ''raw:'' @ sha1 (json_text json_readable (sort_keys (PDict payload))))
   | _ \<Rightarrow> [])"

definition rag_result_score :: "pydict \<Rightarrow> num" where
  "rag_result_score item = (case py_float (por (pget item ''score'') (PFloat ''0.0'')) of Inr x \<Rightarrow> x | Inl _ \<Rightarrow> Fin 0)"

definition compact_hit :: "pydict \<Rightarrow> pydict" where
  "compact_hit item = (case pget item ''payload'' of
     PDict payload \<Rightarrow> dput ''payload'' (PDict (compact_rag_payload payload)) item | _ \<Rightarrow> item)"

definition rag_identity :: "(string \<Rightarrow> string) \<Rightarrow> pydict \<Rightarrow> string" where
  "rag_identity sha1 c = (let i = rag_result_identity sha1 c in
     if i = [] then ''raw_item:'' @ sha1 (json_text json_readable (sort_keys (PDict c))) else i)"

text \<open>A later hit of the same identity takes the place of an earlier one when it scores higher.\<close>

definition dedupe_step :: "(string \<Rightarrow> string) \<Rightarrow> pydict \<Rightarrow> (string \<times> pydict) list \<Rightarrow> (string \<times> pydict) list" where
  "dedupe_step sha1 item acc = (let c = compact_hit item; i = rag_identity sha1 c in
     case map_of acc i of
       None \<Rightarrow> acc @ [(i, c)]
     | Some old \<Rightarrow> if num_less (rag_result_score old) (rag_result_score c) then dput i c acc else acc)"

definition dedupe_rag_results :: "(string \<Rightarrow> string) \<Rightarrow> py list \<Rightarrow> pydict list" where
  "dedupe_rag_results sha1 results = map snd (fold (dedupe_step sha1) (dicts_of results) [])"

section \<open>Lemmas\<close>

lemma set_keep_first: "set (keep_first key always seen xs) \<subseteq> set xs"
  by (induction key always seen xs rule: keep_first.induct) auto

lemma keep_first_distinct:
  "distinct (map key (filter (\<lambda>x. \<not> always x) (keep_first key always seen xs))) \<and>
   (\<forall>x \<in> set (keep_first key always seen xs). always x \<or> key x \<notin> set seen)"
  by (induction key always seen xs rule: keep_first.induct) auto

lemma keep_first_complete:
  "x \<in> set xs \<Longrightarrow> \<not> always x \<Longrightarrow> key x \<notin> set seen \<Longrightarrow> key x \<in> key ` set (keep_first key always seen xs)"
  by (induction key always seen xs rule: keep_first.induct) auto

lemma keep_first_id:
  "distinct (map key xs) \<Longrightarrow> set (map key xs) \<inter> set seen = {} \<Longrightarrow> keep_first key always seen xs = xs"
  by (induction key always seen xs rule: keep_first.induct) auto

lemma keep_first_seen_cong:
  "set seen = set seen' \<Longrightarrow> keep_first key always seen xs = keep_first key always seen' xs"
proof (induction xs arbitrary: seen seen')
  case (Cons x xs)
  from Cons.IH [OF Cons.prems] Cons.IH [of "key x # seen" "key x # seen'"] Cons.prems
  show ?case by simp
qed simp

lemma keep_first_append:
  "keep_first key (\<lambda>_. False) seen (xs @ ys) =
     keep_first key (\<lambda>_. False) seen xs @ keep_first key (\<lambda>_. False) (map key xs @ seen) ys"
proof (induction xs arbitrary: seen)
  case (Cons x xs)
  have "keep_first key (\<lambda>_. False) (map key xs @ seen) ys = keep_first key (\<lambda>_. False) (key x # map key xs @ seen) ys"
    if "key x \<in> set seen" using that by (intro keep_first_seen_cong) auto
  moreover have "keep_first key (\<lambda>_. False) (map key xs @ key x # seen) ys
      = keep_first key (\<lambda>_. False) (key x # map key xs @ seen) ys"
    by (intro keep_first_seen_cong) auto
  ultimately show ?case using Cons [of seen] Cons [of "key x # seen"] by simp
qed simp

text \<open>A row whose values are scalars is its own flattening and holds no other row.\<close>

definition scalar :: "py \<Rightarrow> bool" where
  "scalar v = (\<not> is_list v \<and> \<not> is_dict v)"

definition flat_row :: "pydict \<Rightarrow> bool" where
  "flat_row r = list_all (\<lambda>kv. scalar (snd kv)) r"

lemma walk_scalar [simp]: "scalar v \<Longrightarrow> walk_records k v = []"
  by (cases v) (auto simp: scalar_def)

lemma walk_entries_flat: "flat_row r \<Longrightarrow> walk_entries r = []"
  by (induction r) (auto simp: flat_row_def)

lemma walk_entries_append: "walk_entries (xs @ ys) = walk_entries xs @ walk_entries ys"
  by (induction xs) auto

lemma pget_scalar: "flat_row r \<Longrightarrow> scalar (pget r k)"
  by (induction r) (auto simp: flat_row_def pget_Cons scalar_def split: if_splits)

lemma dict_or_empty_scalar [simp]: "scalar v \<Longrightarrow> dict_or_empty v = []"
  by (cases v) (auto simp: scalar_def)

lemma flatten_flat: "flat_row r \<Longrightarrow> flatten_record r = r"
  by (simp add: flatten_record_def add_missing_def pget_scalar)

definition proper_row :: "pydict \<Rightarrow> bool" where
  "proper_row r = (flat_row r \<and> matches_uuid (row_id_text r))"

lemma proper_candidate: "proper_row r \<Longrightarrow> is_record_candidate r"
  by (simp add: proper_row_def is_record_candidate_def row_id_text_def)

lemma dicts_of_map [simp]: "dicts_of (map PDict rows) = rows"
  by (induction rows) (simp_all add: dicts_of_def)

lemma walk_items_proper:
  "list_all proper_row rows \<Longrightarrow> walk_items ''records'' (map PDict rows) = rows"
proof (induction rows)
  case (Cons r rows)
  then have r: "flat_row r" "is_record_candidate r" by (auto simp: proper_row_def proper_candidate)
  have "''records'' \<in> set record_list_keys" "''records'' \<notin> set ignored_parent_keys" by code_simp+
  with r Cons show ?case by (simp add: Let_def flatten_flat walk_entries_flat)
qed simp

lemma uuid_not_empty: "matches_uuid s \<Longrightarrow> s \<noteq> []"
  by (auto simp: matches_uuid_def)

text \<open>A list reply: rows under \<open>records\<close>, and nothing else that holds a record.\<close>

definition list_reply :: "pydict \<Rightarrow> pydict list \<Rightarrow> pydict \<Rightarrow> py" where
  "list_reply pre rows post = PDict (pre @ (''records'', PList (map PDict rows)) # post)"

lemma walk_list_reply:
  assumes "list_all proper_row rows" and "walk_entries pre = []" and "walk_entries post = []"
  shows "walk_records [] (list_reply pre rows post) = rows @ rows"
proof -
  have k: "[] \<notin> set record_list_keys" "''records'' \<in> set record_list_keys" by code_simp+
  have "map flatten_record (filter is_record_candidate rows) = rows"
    using assms(1)
    by (simp add: filter_id_conv [THEN iffD2] list_all_iff proper_candidate)
       (simp add: map_idI proper_row_def flatten_flat)
  with assms k show ?thesis
    by (simp add: list_reply_def walk_entries_append walk_entries_flat walk_items_proper)
qed

lemma extract_list_reply:
  assumes rows: "list_all proper_row rows" and d: "distinct (map row_id_text rows)"
    and flat: "walk_entries pre = []" "walk_entries post = []"
  shows "extract_records (list_reply pre rows post) = rows"
proof -
  let ?al = "\<lambda>r. row_id_text r = []"
  have ne: "row_id_text r \<noteq> []" if "r \<in> set rows" for r
    using rows that by (auto simp: list_all_iff proper_row_def dest: uuid_not_empty)
  have al: "keep_first row_id_text ?al s xs = keep_first row_id_text (\<lambda>_. False) s xs"
    if "set xs \<subseteq> set rows" for s xs
    using that ne by (induction xs arbitrary: s) auto
  have none: "keep_first row_id_text (\<lambda>_. False) s xs = []" if "row_id_text ` set xs \<subseteq> set s" for s xs
    using that by (induction xs) auto
  have "extract_records (list_reply pre rows post) = keep_first row_id_text (\<lambda>_. False) [] (rows @ rows)"
    by (simp add: extract_records_def walk_list_reply [OF rows flat] al)
  also have "\<dots> = rows"
    using d by (simp add: keep_first_append keep_first_id none)
  finally show ?thesis .
qed

text \<open>The hits kept so far: each under its identity, and none beaten by a hit already seen.\<close>

lemma num_less_trans: "num_less a b \<Longrightarrow> num_less b c \<Longrightarrow> num_less a c"
  by (cases a; cases b; cases c) auto

lemma num_less_irrefl [simp]: "\<not> num_less a a"
  by (cases a) auto

definition hits_ok :: "(string \<Rightarrow> string) \<Rightarrow> pydict list \<Rightarrow> (string \<times> pydict) list \<Rightarrow> bool" where
  "hits_ok sha1 seen acc = (distinct (map fst acc) \<and>
     (\<forall>i c. (i, c) \<in> set acc \<longrightarrow> i = rag_identity sha1 c) \<and>
     fst ` set acc = (\<lambda>h. rag_identity sha1 (compact_hit h)) ` set seen \<and>
     (\<forall>i c h. (i, c) \<in> set acc \<longrightarrow> h \<in> set seen \<longrightarrow> rag_identity sha1 (compact_hit h) = i \<longrightarrow>
        \<not> num_less (rag_result_score c) (rag_result_score (compact_hit h))))"

lemma set_dput_distinct:
  "distinct (map fst d) \<Longrightarrow> set (dput k v d) = insert (k, v) {e \<in> set d. fst e \<noteq> k}"
  by (induction k v d rule: dput.induct) (auto simp: image_iff)

lemma hits_ok_step:
  assumes ok: "hits_ok sha1 seen acc"
  shows "hits_ok sha1 (h # seen) (dedupe_step sha1 h acc)"
proof -
  let ?c = "compact_hit h" and ?id = "\<lambda>h. rag_identity sha1 (compact_hit h)"
  let ?i = "rag_identity sha1 ?c"
  note o = ok [unfolded hits_ok_def]
  show ?thesis
  proof (cases "map_of acc ?i")
    case None
    then have new: "dedupe_step sha1 h acc = acc @ [(?i, ?c)]" by (simp add: dedupe_step_def Let_def)
    from None have fresh: "?i \<notin> fst ` set acc" by (simp add: map_of_eq_None_iff)
    from fresh o have "?i \<notin> ?id ` set seen" by simp
    then have none: "?id h' \<noteq> ?i" if "h' \<in> set seen" for h' using that by (auto simp: image_iff)
    from fresh have other: "fst e \<noteq> ?i" if "e \<in> set acc" for e using that by (auto simp: image_iff)
    have "distinct (map fst (acc @ [(?i, ?c)]))" using o fresh by simp
    moreover have "fst ` set (acc @ [(?i, ?c)]) = ?id ` set (h # seen)" using o by simp
    moreover have "\<not> num_less (rag_result_score c) (rag_result_score (compact_hit h'))"
      if "(i, c) \<in> set (acc @ [(?i, ?c)])" "h' \<in> set (h # seen)" "?id h' = i" for i c h'
      using that o none other by (cases "h' = h") fastforce+
    moreover have "i = rag_identity sha1 c" if "(i, c) \<in> set (acc @ [(?i, ?c)])" for i c
      using that o by auto
    ultimately show ?thesis unfolding new hits_ok_def by (intro conjI allI impI) fast+
  next
    case (Some old)
    then have mem: "(?i, old) \<in> set acc" by (rule map_of_SomeD)
    with o have old: "?i = rag_identity sha1 old"
      "\<And>h'. h' \<in> set seen \<Longrightarrow> ?id h' = ?i \<Longrightarrow> \<not> num_less (rag_result_score old) (rag_result_score (compact_hit h'))"
      by auto
    have uniq: "c = old" if "(?i, c) \<in> set acc" for c
    proof -
      from o have "distinct (map fst acc)" by blast
      from map_of_is_SomeI [OF this that] Some show ?thesis by simp
    qed
    from imageI [OF mem, of fst] have "?i \<in> fst ` set acc" by simp
    with o have ids: "insert ?i (?id ` set seen) = fst ` set acc" by (simp add: insert_absorb)
    show ?thesis
    proof (cases "num_less (rag_result_score old) (rag_result_score ?c)")
      case True
      then have new: "dedupe_step sha1 h acc = dput ?i ?c acc"
        using Some by (simp add: dedupe_step_def Let_def)
      have "\<not> num_less (rag_result_score ?c) (rag_result_score (compact_hit h'))"
        if "h' \<in> set seen" "?id h' = ?i" for h'
        using old(2) [OF that] num_less_trans [OF True] by blast
      moreover have "fst ` set (dput ?i ?c acc) = ?id ` set (h # seen)" using o by simp
      moreover have "set (dput ?i ?c acc) = insert (?i, ?c) {e \<in> set acc. fst e \<noteq> ?i}"
        using o by (simp add: set_dput_distinct)
      ultimately show ?thesis
        using o unfolding hits_ok_def new by (intro conjI allI impI) auto
    next
      case False
      then have "dedupe_step sha1 h acc = acc" using Some by (simp add: dedupe_step_def Let_def)
      with o ids False uniq show ?thesis by (auto simp: hits_ok_def)
    qed
  qed
qed

lemma hits_ok_fold: "hits_ok sha1 seen acc \<Longrightarrow> hits_ok sha1 (rev hs @ seen) (fold (dedupe_step sha1) hs acc)"
proof (induction hs arbitrary: seen acc)
  case (Cons h hs)
  from Cons.IH [OF hits_ok_step [OF Cons.prems, of h]] show ?case by simp
qed simp

section \<open>Properties\<close>

text \<open>
  no two records taken out of a payload have the same id, and none is lost: every row the walk
  meets that has an id is represented by a record of that id.
\<close>

theorem extract_records_ids:
  "distinct (filter (\<lambda>i. i \<noteq> []) (map row_id_text (extract_records v))) \<and>
   row_id_text ` set (walk_records [] v) = row_id_text ` set (extract_records v)"
proof
  let ?al = "\<lambda>r. row_id_text r = []"
  show "distinct (filter (\<lambda>i. i \<noteq> []) (map row_id_text (extract_records v)))"
    using keep_first_distinct [of row_id_text ?al "[]" "walk_records [] v"]
    by (simp add: extract_records_def filter_map comp_def)
  have emp: "x \<in> set (keep_first key al seen xs)" if "x \<in> set xs" "al x"
    for x :: pydict and key :: "pydict \<Rightarrow> string" and al seen xs
    using that by (induction key al seen xs rule: keep_first.induct) auto
  show "row_id_text ` set (walk_records [] v) = row_id_text ` set (extract_records v)"
    using set_keep_first [of row_id_text ?al "[]" "walk_records [] v"]
      keep_first_complete [of _ "walk_records [] v" ?al row_id_text "[]"]
      emp [of _ "walk_records [] v" ?al row_id_text "[]"]
    by (auto simp: extract_records_def)
qed

text \<open>
  removing duplicates from search hits keeps exactly one hit per record and never a worse one:
  the identities of the kept hits are distinct and are those of all hits, and no hit of the same
  identity scores higher than the kept one.
\<close>

theorem rag_hits_best:
  assumes "kept \<in> set (dedupe_rag_results sha1 results)" and "PDict hit \<in> set results"
    and "rag_identity sha1 (compact_hit hit) = rag_identity sha1 kept"
  shows "\<not> num_less (rag_result_score kept) (rag_result_score (compact_hit hit)) \<and>
    distinct (map (rag_identity sha1) (dedupe_rag_results sha1 results)) \<and>
    rag_identity sha1 ` set (dedupe_rag_results sha1 results)
      = (\<lambda>h. rag_identity sha1 (compact_hit h)) ` set (dicts_of results)"
proof -
  let ?acc = "fold (dedupe_step sha1) (dicts_of results) []"
  have "hits_ok sha1 [] []" by (simp add: hits_ok_def)
  from hits_ok_fold [OF this, of "dicts_of results"]
  have ok: "hits_ok sha1 (rev (dicts_of results)) ?acc" by simp
  have keys: "map (rag_identity sha1) (map snd ?acc) = map fst ?acc"
    using ok by (auto simp: hits_ok_def)
  from assms(1) obtain i where "(i, kept) \<in> set ?acc" by (auto simp: dedupe_rag_results_def)
  with ok assms(2,3) have "\<not> num_less (rag_result_score kept) (rag_result_score (compact_hit hit))"
    by (fastforce simp: hits_ok_def)
  moreover have "rag_identity sha1 ` set (map snd ?acc) = fst ` set ?acc"
    using keys by (metis list.set_map)
  moreover have "distinct (map (rag_identity sha1) (map snd ?acc))"
    unfolding keys using ok by (simp add: hits_ok_def)
  ultimately show ?thesis
    using ok unfolding dedupe_rag_results_def hits_ok_def by simp
qed

definition demo_hit :: "string \<Rightarrow> pydict" where
  "demo_hit score = [(''score'', PFloat score), (''payload'', PDict [(''module'', PStr ''Accounts''), (''record_id'', PStr ''a1'')])]"

theorem rag_hits_best_witness:
  "dedupe_rag_results (\<lambda>s. s) [PDict (demo_hit ''0.5''), PDict (demo_hit ''0.9'')] = [demo_hit ''0.9''] \<and>
   \<not> num_less (rag_result_score (demo_hit ''0.9'')) (rag_result_score (compact_hit (demo_hit ''0.5'')))"
proof -
  have v: "dedupe_rag_results (\<lambda>s. s) [PDict (demo_hit ''0.5''), PDict (demo_hit ''0.9'')] = [demo_hit ''0.9'']"
    by code_simp
  have "rag_identity (\<lambda>s. s) (compact_hit (demo_hit ''0.5'')) = rag_identity (\<lambda>s. s) (demo_hit ''0.9'')"
    by code_simp
  from rag_hits_best [OF _ _ this, of "[PDict (demo_hit ''0.5''), PDict (demo_hit ''0.9'')]"] v show ?thesis by simp
qed

text \<open>
  A contact row without an id is returned twice: the walk takes it from the list and again when it
  enters the row, and only rows with an id are compared with what was already taken.
\<close>

theorem idless_row_twice:
  "extract_records (PDict [(''records'', PList [PDict
     [(''first_name'', PStr ''Jan''), (''last_name'', PStr ''Novak''), (''company'', PStr ''Acmark'')]])])
   = [[(''first_name'', PStr ''Jan''), (''last_name'', PStr ''Novak''), (''company'', PStr ''Acmark'')],
      [(''first_name'', PStr ''Jan''), (''last_name'', PStr ''Novak''), (''company'', PStr ''Acmark'')]]"
  by code_simp

text \<open>
  A contact with no company at all belongs to every company: the empty account name is contained in
  any wanted name.
\<close>

theorem blank_account_matches:
  "filter_records_by_company [[(''id'', PStr ''1'')], [(''id'', PStr ''2''), (''account_name'', PStr ''Beta'')]] ''Acmark'' False
   = [[(''id'', PStr ''1'')]]"
  by code_simp

end
