(* ===== verification/Crm_Read.thy ===== *)
theory Crm_Read
  imports Record_Extract Filter_Builder
begin

text \<open>
  Reading lists of CRM records (\<open>app/services/crm_read_service.py\<close>): the normalisation of amounts,
  the purity of a scope, and the paging loop of \<open>list_module\<close>. The CRM is an argument: what it
  answers to the \<open>i\<close>-th list request of a module with a payload. The loop returns its requests
  with its result.
\<close>

type_synonym list_server = "nat \<Rightarrow> string \<Rightarrow> pydict \<Rightarrow> py result"

section \<open>Records\<close>

definition normalize_amount_field :: "pydict \<Rightarrow> pydict" where
  "normalize_amount_field record =
     (if \<not> has_key ''amount_usdollar'' record then record
      else (let raw = pget record ''amount_usdollar'';
                n = dput ''_raw_amount_usdollar'' raw (ddel ''amount_usdollar'' record);
                n1 = (if has_key ''amount'' n then n else dput ''amount'' raw n)
            in if has_key ''amount_currency'' n1 then n1 else dput ''amount_currency'' (PStr ''CZK'') n1))"

definition read_records :: "py \<Rightarrow> pydict list" where
  "read_records payload = map normalize_amount_field (extract_records payload)"

definition scope_aliases :: "string \<Rightarrow> string list" where
  "scope_aliases scope = (let key = py_lower (py_strip scope) in
     dget_default [(''accounts'', [''accounts'', ''account'']), (''contacts'', [''contacts'', ''contact'']),
       (''meetings'', [''meetings'', ''meeting''])] key (if key = [] then [] else [key]))"

definition id_prefix_modules :: "string list" where
  "id_prefix_modules = [''accounts'', ''account'', ''contacts'', ''contact'', ''meetings'', ''meeting'', ''calls'', ''tasks'', ''notes'']"

definition record_module_name :: "pydict \<Rightarrow> string" where
  "record_module_name r =
     (case find (\<lambda>v. v \<noteq> []) (map (\<lambda>k. py_lower (safe_text (pget r k)))
         [''_module_hint'', ''_module'', ''module'', ''record_module'', ''tag'']) of
        Some v \<Rightarrow> v
      | None \<Rightarrow>
          (let rid = safe_text (pget r ''id'') in
           if CHR ''-'' \<in> set rid \<and> \<not> matches_uuid rid
           then (let prefix = py_lower (py_strip (fst (split_first (CHR ''-'') rid)))
                 in if prefix \<in> set id_prefix_modules then prefix else [])
           else []))"

definition enforce_scope_purity :: "pydict list \<Rightarrow> string \<Rightarrow> pydict list" where
  "enforce_scope_purity records scope = (let aliases = scope_aliases scope in
     if aliases = [] then records
     else filter (\<lambda>r. record_module_name r = [] \<or> record_module_name r \<in> set aliases) records)"

definition execute_structured_list :: "list_server \<Rightarrow> nat \<Rightarrow> string \<Rightarrow> py \<Rightarrow> py result" where
  "execute_structured_list srv i md payload = srv i md (dict_or_empty payload)"

section \<open>Paging\<close>

record list_query =
  lq_module :: string
  lq_filter :: pydict
  lq_order :: "py list"
  lq_fields :: "string list"
  lq_names :: bool
  lq_all :: bool

definition page_payload :: "list_query \<Rightarrow> nat \<Rightarrow> int \<Rightarrow> pydict" where
  "page_payload q limit offset =
     [(''limit'', PInt (int limit)), (''offset'', PInt offset), (''filter'', PDict (lq_filter q)),
      (''include_field_names'', PBool (lq_names q))] @
     (if lq_fields q \<noteq> [] then [(''response_fields'', PList (map PStr (lq_fields q)))] else []) @
     (if lq_order q \<noteq> [] then [(''order'', PList (lq_order q))] else [])"

text \<open>\<open>int((raw or {}).get("source_record_count") or len(batch))\<close>\<close>

definition fetched_count :: "py \<Rightarrow> nat \<Rightarrow> int result" where
  "fetched_count raw n =
     (if truthy raw \<and> \<not> is_dict raw then Inl (AttributeError ''get'')
      else py_int (por (pget (dict_or_empty raw) ''source_record_count'') (PInt (int n))))"

definition page_limit :: "nat \<Rightarrow> nat \<Rightarrow> nat" where
  "page_limit tot have_now = min (min tot 500) (tot - have_now)"

lemma page_progress:
  "n < tot \<Longrightarrow> batch \<noteq> [] \<Longrightarrow> tot - (n + min (length batch) (tot - n)) < tot - n"
  by (cases batch) auto

function list_pages ::
  "list_server \<Rightarrow> list_query \<Rightarrow> nat \<Rightarrow> nat \<Rightarrow> int \<Rightarrow> pydict list \<Rightarrow> pydict list result \<times> pydict list" where
  "list_pages srv q tot i offset records =
     (if length records < tot then
        (let lim = page_limit tot (length records);
             payload = page_payload q lim offset
         in case srv i (lq_module q) payload of
              Inl e \<Rightarrow> (Inl e, [payload])
            | Inr raw \<Rightarrow>
                (let batch = read_records raw;
                     records' = records @ take (tot - length records) batch
                 in if batch = [] then (Inr records, [payload])
                    else (case fetched_count raw (length batch) of
                        Inl e \<Rightarrow> (Inl e, [payload])
                      | Inr n \<Rightarrow>
                          if \<not> lq_all q \<or> length batch < lim \<or> n < int lim then (Inr records', [payload])
                          else (case list_pages srv q tot (Suc i) (offset + n) records' of
                              (res, ps) \<Rightarrow> (res, payload # ps)))))
      else (Inr records, []))"
  by pat_completeness auto
termination
  by (relation "measure (\<lambda>(srv, q, tot, i, offset, records). tot - length records)") (auto intro: page_progress)

declare list_pages.simps [simp del]

definition list_limit :: "int \<Rightarrow> bool \<Rightarrow> nat" where
  "list_limit limit fetch_all =
     nat (max 1 (min (if limit = 0 then 500 else limit) (if fetch_all then 10000 else 500)))"

definition list_module ::
  "list_server \<Rightarrow> string \<Rightarrow> string option \<Rightarrow> filter_spec list \<Rightarrow> string option \<Rightarrow> string option \<Rightarrow> string option
     \<Rightarrow> string option \<Rightarrow> int \<Rightarrow> bool \<Rightarrow> string list \<Rightarrow> bool \<Rightarrow> pydict list result \<times> pydict list" where
  "list_module srv md search specs date_from date_to date_field order_by limit fetch_all cols names =
     (case build_filter md search specs date_from date_to date_field of
        Inl e \<Rightarrow> (Inl e, [])
      | Inr f \<Rightarrow> list_pages srv \<lparr>lq_module = md, lq_filter = f, lq_order = build_order order_by, lq_fields = cols,
            lq_names = names, lq_all = fetch_all\<rparr> (list_limit limit fetch_all) 0 0 [])"

section \<open>Lemmas\<close>

lemma page_limit_eq: "page_limit tot n = min 500 (tot - n)"
  by (simp add: page_limit_def)

lemma page_arith:
  assumes "m < t" and "g \<le> t" and "500 * k \<le> t - g + 499" and "m + min 500 (t - m) \<le> g \<or> g = t"
  shows "500 * Suc k \<le> t - m + (499 :: nat)"
proof (cases "g = t")
  case True
  with assms(3) have "k = 0" by simp
  with assms(1) show ?thesis by simp
next
  case False
  with assms(2,4) have "t - g + 500 \<le> t - m" by (auto simp: min_def split: if_splits)
  with assms(3) show ?thesis by simp
qed

text \<open>A page that is followed by another one brought as many records as were asked for.\<close>

lemma list_pages_bounds:
  "length records \<le> tot \<Longrightarrow> list_pages srv q tot i offset records = (res, ps) \<Longrightarrow>
     500 * length ps \<le> tot - length records + 499 \<and>
     (\<forall>rs. res = Inr rs \<longrightarrow> length rs \<le> tot)"
proof (induction srv q tot i offset records arbitrary: res ps rule: list_pages.induct)
  case (1 srv q tot i offset records)
  show ?case
  proof (cases "length records < tot")
    case False
    with "1.prems" show ?thesis by (auto simp: list_pages.simps [of srv q tot i offset records])
  next
    case lt: True
    let ?lim = "page_limit tot (length records)"
    let ?p = "page_payload q ?lim offset"
    note unf = list_pages.simps [of srv q tot i offset records]
    show ?thesis
    proof (cases "srv i (lq_module q) ?p")
      case (Inl e)
      with "1.prems" lt show ?thesis by (auto simp: unf Let_def)
    next
      case (Inr raw)
      let ?b = "read_records raw"
      let ?rs = "records @ take (tot - length records) ?b"
      show ?thesis
      proof (cases "?b = [] \<or> (\<exists>e. fetched_count raw (length ?b) = Inl e)")
        case True
        with "1.prems" lt Inr show ?thesis by (auto simp: unf Let_def split: if_split_asm)
      next
        case False
        then obtain n where b: "?b \<noteq> []" and n: "fetched_count raw (length ?b) = Inr n"
          by (cases "fetched_count raw (length ?b)") auto
        show ?thesis
        proof (cases "\<not> lq_all q \<or> length ?b < ?lim \<or> n < int ?lim")
          case True
          with "1.prems" lt Inr b n show ?thesis by (auto simp: unf Let_def)
        next
          case go: False
          obtain res' ps' where rec: "list_pages srv q tot (Suc i) (offset + n) ?rs = (res', ps')"
            by fastforce
          with "1.prems" lt Inr b n go have eq: "res = res'" "ps = ?p # ps'" by (auto simp: unf Let_def)
          from go have gr: "length records + ?lim \<le> length ?rs \<or> length ?rs = tot" by (auto simp: page_limit_eq)
          have le: "length ?rs \<le> tot" using lt by simp
          have ih: "500 * length ps' \<le> tot - length ?rs + 499 \<and> (\<forall>rs. res' = Inr rs \<longrightarrow> length rs \<le> tot)"
            by (rule "1.IH" [OF lt refl refl Inr refl refl b n go le rec])
          from page_arith [OF lt le conjunct1 [OF ih] gr [unfolded page_limit_eq]] eq ih show ?thesis by simp
        qed
      qed
    qed
  qed
qed

text \<open>
  A CRM that holds \<open>rows\<close> (reduced to \<open>cols\<close>, where they are given) and answers every request for one to 500
  rows with the slice asked for, and with nothing else that holds a record; among it the number of rows of the
  slice, when it gives one.
\<close>

definition serves_query :: "list_server \<Rightarrow> list_query \<Rightarrow> pydict list \<Rightarrow> bool" where
  "serves_query srv q rows \<longleftrightarrow> (\<forall>i l k. 0 < l \<longrightarrow> l \<le> 500 \<longrightarrow>
     (\<exists>post. walk_entries post = [] \<and> pget post ''source_record_count'' \<in> {PNone, PInt (int (length (take l (drop k rows))))} \<and>
        srv i (lq_module q) (page_payload q l (int k)) = Inr (list_reply [] (take l (drop k rows)) post)))"

definition serves_rows :: "list_server \<Rightarrow> string list \<Rightarrow> pydict list \<Rightarrow> bool" where
  "serves_rows srv cols rows \<longleftrightarrow> (\<forall>q. lq_fields q = cols \<longrightarrow> serves_query srv q rows)"

lemma page_payload_fields [simp]:
  "pget (page_payload q l k) ''limit'' = PInt (int l)"
  "pget (page_payload q l k) ''offset'' = PInt k"
  by (simp_all add: page_payload_def pget_Cons)

lemma fetched_count_reply:
  assumes "pget post ''source_record_count'' \<in> {PNone, PInt (int (length rows))}" and "rows \<noteq> []"
  shows "fetched_count (list_reply [] rows post) (length rows) = Inr (int (length rows))"
proof -
  have "pget ((''records'', PList (map PDict rows)) # post) ''source_record_count'' = pget post ''source_record_count''"
    by (simp add: pget_Cons)
  with assms show ?thesis by (auto simp: fetched_count_def list_reply_def por_def)
qed

lemma list_pages_serves:
  assumes srv: "serves_query srv q rows" and rows: "list_all proper_row rows" "distinct (map row_id_text rows)"
    and all: "lq_all q"
  shows "k \<le> tot \<Longrightarrow> k \<le> length rows \<Longrightarrow>
    fst (list_pages srv q tot i (int k) (map normalize_amount_field (take k rows)))
      = Inr (map normalize_amount_field (take tot rows))"
proof (induction "tot - k" arbitrary: k i rule: less_induct)
  case less
  let ?n = "normalize_amount_field"
  let ?rec = "map ?n (take k rows)"
  note unf = list_pages.simps [of srv q tot i "int k" ?rec]
  have len: "length ?rec = k" using less.prems by simp
  show ?case
  proof (cases "k < tot")
    case False
    with less.prems len show ?thesis by (subst unf) simp
  next
    case True
    define l where "l = page_limit tot k"
    define bs where "bs = take l (drop k rows)"
    have l: "0 < l" "l \<le> tot - k" "l \<le> 500" using True by (auto simp: l_def page_limit_eq)
    from srv obtain post where post: "walk_entries post = []"
        "pget post ''source_record_count'' \<in> {PNone, PInt (int (length bs))}"
        and reply: "srv i (lq_module q) (page_payload q l (int k)) = Inr (list_reply [] bs post)"
      using l unfolding serves_query_def bs_def by blast
    have bs: "list_all proper_row bs" "distinct (map row_id_text bs)"
      using rows by (auto simp: bs_def list_all_iff distinct_map dest!: in_set_takeD in_set_dropD
          intro: inj_on_subset [of row_id_text "set rows"])
    then have read: "read_records (list_reply [] bs post) = map ?n bs"
      using extract_list_reply [OF bs _ post(1), of "[]"] by (simp add: read_records_def)
    have grow: "?rec @ take (tot - k) (map ?n bs) = map ?n (take (k + length bs) rows)"
      using l by (simp add: bs_def take_add take_map min_def)
    show ?thesis
    proof (cases "bs = []")
      case True
      then have "length rows \<le> k" using l by (auto simp: bs_def)
      with \<open>k < tot\<close> reply read len have "fst (list_pages srv q tot i (int k) ?rec) = Inr ?rec"
        by (subst unf) (simp add: True Let_def l_def [symmetric] del: length_map length_take)
      with \<open>length rows \<le> k\<close> \<open>k < tot\<close> show ?thesis by simp
    next
      case ne: False
      note fc = fetched_count_reply [OF post(2) ne]
      show ?thesis
      proof (cases "length bs < l")
        case True
        then have "length rows \<le> k + length bs" by (auto simp: bs_def)
        moreover from this True l have "length rows \<le> tot" by simp
        ultimately show ?thesis using True \<open>k < tot\<close> reply read len ne fc grow
          by (simp add: unf Let_def l_def [symmetric])
      next
        case False
        then have lb: "length bs = l" by (auto simp: bs_def)
        then have "l \<le> length rows - k" by (simp add: bs_def)
        with l(1) have "k + l \<le> length rows" by simp
        with less.hyps [of "k + l" "Suc i"] l True
        have "fst (list_pages srv q tot (Suc i) (int (k + l)) (map ?n (take (k + l) rows))) = Inr (map ?n (take tot rows))"
          by simp
        with True reply read len ne fc grow lb all show ?thesis
          by (simp add: unf Let_def l_def [symmetric] split: prod.splits) (metis fst_conv)
      qed
    qed
  qed
qed

lemma list_module_length:
  assumes "list_module srv md search specs date_from date_to date_field order_by limit fetch_all cols names = (res, requests)"
  shows "500 * length requests \<le> list_limit limit fetch_all + 499 \<and>
    (\<forall>rs. res = Inr rs \<longrightarrow> length rs \<le> list_limit limit fetch_all)"
proof (cases "build_filter md search specs date_from date_to date_field")
  case (Inl e)
  with assms show ?thesis by (auto simp: list_module_def)
next
  case (Inr f)
  with assms obtain q where "list_pages srv q (list_limit limit fetch_all) 0 0 [] = (res, requests)"
    by (auto simp: list_module_def)
  from list_pages_bounds [OF _ this] show ?thesis by simp
qed

lemma list_limit_bound: "list_limit limit fetch_all \<le> (if fetch_all then 10000 else 500)"
  by (auto simp: list_limit_def)

lemma list_module_query:
  assumes "build_filter md search specs date_from date_to date_field = Inr f"
    and "serves_query srv \<lparr>lq_module = md, lq_filter = f, lq_order = build_order order_by, lq_fields = cols,
      lq_names = names, lq_all = True\<rparr> rows"
    and "list_all proper_row rows" and "distinct (map row_id_text rows)"
  shows "fst (list_module srv md search specs date_from date_to date_field order_by limit True cols names)
    = Inr (map normalize_amount_field (take (list_limit limit True) rows))"
  using list_pages_serves [OF assms(2-4), where k = 0 and i = 0] assms(1)
  by (simp add: list_module_def)

lemma list_module_serves:
  assumes "serves_rows srv cols rows" and "list_all proper_row rows" and "distinct (map row_id_text rows)"
    and "build_filter md search specs date_from date_to date_field = Inr f"
  shows "fst (list_module srv md search specs date_from date_to date_field order_by limit True cols names)
    = Inr (map normalize_amount_field (take (list_limit limit True) rows))"
  using list_module_query [OF assms(4) _ assms(2,3)] assms(1) by (simp add: serves_rows_def)

section \<open>Properties\<close>


definition demo_uuid :: "char \<Rightarrow> string" where
  "demo_uuid c = replicate 8 c @ ''-'' @ replicate 4 c @ ''-'' @ replicate 4 c @ ''-'' @ replicate 4 c @ ''-'' @ replicate 12 c"

definition demo_rows :: "pydict list" where
  "demo_rows = [[(''id'', PStr (demo_uuid (CHR ''a''))), (''amount_usdollar'', PInt 5)], [(''id'', PStr (demo_uuid (CHR ''b'')))]]"

definition demo_list_server :: "pydict list \<Rightarrow> list_server" where
  "demo_list_server rows i md p = (case (pget p ''limit'', pget p ''offset'') of
     (PInt l, PInt k) \<Rightarrow> Inr (list_reply [] (take (nat l) (drop (nat k) rows)) [])
   | _ \<Rightarrow> Inr PNone)"


text \<open>
  reading everything gives everything: against a CRM that answers each request with the slice of its
  rows that was asked for, the paging loop of \<open>list_module\<close> returns exactly the first rows up to its
  limit, in order, each once, with the amounts normalised; pages neither overlap nor leave a gap.
\<close>

theorem list_module_complete:
  assumes "serves_rows srv cols rows" and "list_all proper_row rows" and "distinct (map row_id_text rows)"
    and "build_filter md search specs date_from date_to date_field = Inr f"
  shows "fst (list_module srv md search specs date_from date_to date_field order_by limit True cols names)
    = Inr (map normalize_amount_field (take (list_limit limit True) rows))"
  using assms by (rule list_module_serves)

lemma demo_server_serves: "serves_rows (demo_list_server rows) cols rows"
  by (auto simp: serves_rows_def serves_query_def demo_list_server_def intro!: exI [of _ "[]"])

theorem list_module_complete_witness:
  "fst (list_module (demo_list_server demo_rows) ''Contacts'' None [] None None None None 1 True [] False)
    = Inr [[(''id'', PStr (demo_uuid (CHR ''a''))), (''_raw_amount_usdollar'', PInt 5), (''amount'', PInt 5),
        (''amount_currency'', PStr ''CZK'')]]"
proof -
  have rows: "list_all proper_row demo_rows" "distinct (map row_id_text demo_rows)" by code_simp+
  have f: "build_filter ''Contacts'' None [] None None None = Inr (conjunction [])" by code_simp
  have "map normalize_amount_field (take (list_limit 1 True) demo_rows) =
      [[(''id'', PStr (demo_uuid (CHR ''a''))), (''_raw_amount_usdollar'', PInt 5), (''amount'', PInt 5),
        (''amount_currency'', PStr ''CZK'')]]" by code_simp
  with list_module_complete [OF demo_server_serves rows f, where limit = 1 and order_by = None and cols = "[]" and names = False]
  show ?thesis by simp
qed

text \<open>
  A full page with a row that does not look like a record ends the reading: the loop compares the rows
  it recognised with the page size and never looks at the number of rows the CRM says it sent.
\<close>

theorem unrecognised_row_ends_paging:
  assumes "build_filter md search specs date_from date_to date_field = Inr f"
    and "srv 0 md (page_payload \<lparr>lq_module = md, lq_filter = f, lq_order = build_order order_by, lq_fields = cols,
        lq_names = names, lq_all = True\<rparr> 500 0) = Inr raw"
    and "500 \<le> list_limit limit True" and "length (read_records raw) = 499"
    and "pget (dict_or_empty raw) ''source_record_count'' = PInt 500" and "is_dict raw"
  shows "list_module srv md search specs date_from date_to date_field order_by limit True cols names
    = (Inr (read_records raw), [page_payload \<lparr>lq_module = md, lq_filter = f, lq_order = build_order order_by,
        lq_fields = cols, lq_names = names, lq_all = True\<rparr> 500 0])"
proof -
  have "fetched_count raw 499 = Inr 500"
    using assms(5,6) by (simp add: fetched_count_def por_def)
  moreover have "read_records raw \<noteq> []" using assms(4) by auto
  ultimately show ?thesis
    using assms by (simp add: list_module_def list_pages.simps [where records = "[]"] page_limit_eq Let_def)
qed

text \<open>
  The scope \<open>opportunites\<close>, which the code accepts for Opportunities, rejects every record that says it
  is an opportunity.
\<close>

theorem misspelt_scope_drops:
  "enforce_scope_purity [[(''module'', PStr ''Opportunities'')]] ''opportunites'' = []"
  by code_simp

end
