(* ===== verification/Decimals.thy ===== *)
theory Decimals
  imports Json Py_Datetime
begin

text \<open>
  The \<open>Decimal\<close> amounts of \<open>app/services/crm_aggregate_service.py\<close>: reading an amount of the CRM, sums
  and extremes with the invalid operations of the module \<open>decimal\<close>, and the text of an amount. Values
  are exact: the 28 digits of Python's decimal context are not modelled.
\<close>

section \<open>Decimals\<close>

datatype decimal = DFin rat | DInf bool | DNaN | DSNaN

definition decimal_neg :: "decimal \<Rightarrow> decimal" where
  "decimal_neg d = (case d of DFin q \<Rightarrow> DFin (- q) | DInf neg \<Rightarrow> DInf (\<not> neg) | _ \<Rightarrow> d)"

text \<open>
  \<open>Decimal(text)\<close>: like \<open>float\<close>, but underscores are dropped anywhere and a NaN may be signalling and
  carry digits.
\<close>

definition decimal_unsigned :: "string \<Rightarrow> decimal option" where
  "decimal_unsigned s =
     (if py_startswith s ''nan'' \<and> list_all is_digit (drop 3 s) then Some DNaN
      else if py_startswith s ''snan'' \<and> list_all is_digit (drop 4 s) then Some DSNaN
      else (case parse_unsigned s of
          Some (Fin q) \<Rightarrow> Some (DFin q) | Some PosInf \<Rightarrow> Some (DInf False) | _ \<Rightarrow> None))"

definition decimal_of_text :: "string \<Rightarrow> decimal option" where
  "decimal_of_text t = (case filter (\<lambda>c. c \<noteq> CHR ''_'') (py_lower (py_strip t)) of
     [] \<Rightarrow> None
   | c # r \<Rightarrow> if c = CHR ''-'' then map_option decimal_neg (decimal_unsigned r)
              else if c = CHR ''+'' then decimal_unsigned r
              else decimal_unsigned (c # r))"

text \<open>An operation that \<open>decimal\<close> signals as invalid raises.\<close>

definition invalid_operation :: py_exc where
  "invalid_operation = OtherError ''InvalidOperation''"

fun decimal_add :: "decimal \<Rightarrow> decimal \<Rightarrow> decimal result" where
  "decimal_add DSNaN _ = Inl invalid_operation"
| "decimal_add _ DSNaN = Inl invalid_operation"
| "decimal_add DNaN _ = Inr DNaN"
| "decimal_add _ DNaN = Inr DNaN"
| "decimal_add (DInf a) (DInf b) = (if a = b then Inr (DInf a) else Inl invalid_operation)"
| "decimal_add (DInf a) (DFin _) = Inr (DInf a)"
| "decimal_add (DFin _) (DInf b) = Inr (DInf b)"
| "decimal_add (DFin a) (DFin b) = Inr (DFin (a + b))"

fun decimal_less :: "decimal \<Rightarrow> decimal \<Rightarrow> bool result" where
  "decimal_less (DFin a) (DFin b) = Inr (a < b)"
| "decimal_less (DFin _) (DInf neg) = Inr (\<not> neg)"
| "decimal_less (DInf neg) (DFin _) = Inr neg"
| "decimal_less (DInf a) (DInf b) = Inr (a \<and> \<not> b)"
| "decimal_less _ _ = Inl invalid_operation"

definition decimal_div_count :: "decimal \<Rightarrow> nat \<Rightarrow> decimal" where
  "decimal_div_count d n = (case d of DFin q \<Rightarrow> DFin (q / of_nat n) | _ \<Rightarrow> d)"

fun decimal_sum :: "decimal \<Rightarrow> decimal list \<Rightarrow> decimal result" where
  "decimal_sum acc [] = Inr acc"
| "decimal_sum acc (v # vs) = res_bind (decimal_add acc v) (\<lambda>a. decimal_sum a vs)"

text \<open>\<open>min\<close> and \<open>max\<close>: a later value wins when it is strictly better.\<close>

fun decimal_best :: "(decimal \<Rightarrow> decimal \<Rightarrow> bool result) \<Rightarrow> decimal \<Rightarrow> decimal list \<Rightarrow> decimal result" where
  "decimal_best better m [] = Inr m"
| "decimal_best better m (v # vs) = res_bind (better v m) (\<lambda>b. decimal_best better (if b then v else m) vs)"

section \<open>Reading and writing amounts\<close>

definition parse_decimal :: "py \<Rightarrow> decimal option" where
  "parse_decimal raw =
     (let text = filter (\<lambda>c. c \<noteq> CHR 0xA0 \<and> c \<noteq> CHR '' '') (py_strip (py_str raw));
          comma = (CHR '','' \<in> set text)
      in if text = [] then None
         else decimal_of_text
           (if comma \<and> CHR ''.'' \<in> set text then filter (\<lambda>c. c \<noteq> CHR '','') text
            else if comma then replace_char (CHR '','') ''.'' text else text))"

text \<open>\<open>f"{value:,.2f}"\<close> with blanks between the thousands and a decimal comma; ties go to the even cent.\<close>

definition round_half_even :: "rat \<Rightarrow> int" where
  "round_half_even q = (let f = \<lfloor>q\<rfloor>; d = q - of_int f in
     if d < 1 / 2 then f else if d > 1 / 2 then f + 1 else if even f then f else f + 1)"

fun group_thousands :: "string \<Rightarrow> string" where
  "group_thousands s = (if length s \<le> 3 then s
     else group_thousands (take (length s - 3) s) @ '' '' @ drop (length s - 3) s)"

declare group_thousands.simps [simp del]

definition fmt_cents :: "int \<Rightarrow> string" where
  "fmt_cents c = (let n = nat c in group_thousands (nat_digits (n div 100)) @ '','' @ pad2 (n mod 100))"

definition fmt_decimal :: "decimal \<Rightarrow> string" where
  "fmt_decimal d = (case d of
     DFin q \<Rightarrow> (if q < 0 then ''-'' else []) @ fmt_cents (round_half_even (100 * \<bar>q\<bar>))
   | DInf neg \<Rightarrow> (if neg then ''-'' else []) @ ''Infinity''
   | DNaN \<Rightarrow> ''NaN'' | DSNaN \<Rightarrow> ''sNaN'')"

section \<open>Lemmas\<close>

lemma decimal_sum_fin: "decimal_sum (DFin a) (map DFin qs) = Inr (DFin (a + sum_list qs))"
  by (induction qs arbitrary: a) (simp_all add: algebra_simps)

lemma decimal_min_fin: "decimal_best decimal_less (DFin m) (map DFin qs) = Inr (DFin (Min (set (m # qs))))"
proof (induction qs arbitrary: m)
  case (Cons q qs)
  have "Min (insert m (insert q (set qs))) = Min (insert (if q < m then q else m) (set qs))"
    by (cases "qs = []") (auto simp: min_def)
  with Cons show ?case by simp
qed simp

lemma decimal_max_fin: "decimal_best (\<lambda>a b. decimal_less b a) (DFin m) (map DFin qs) = Inr (DFin (Max (set (m # qs))))"
proof (induction qs arbitrary: m)
  case (Cons q qs)
  have "Max (insert m (insert q (set qs))) = Max (insert (if m < q then q else m) (set qs))"
    by (cases "qs = []") (auto simp: max_def)
  with Cons show ?case by simp
qed simp

lemma decimal_sum_raises: "decimal_sum a vs = Inl e \<Longrightarrow> e = invalid_operation"
proof (induction vs arbitrary: a)
  case (Cons v vs)
  then show ?case by (cases a; cases v) (auto split: if_splits)
qed simp

lemma decimal_best_raises:
  "(\<And>a b e. better a b = Inl e \<Longrightarrow> e = invalid_operation) \<Longrightarrow> decimal_best better m vs = Inl e \<Longrightarrow> e = invalid_operation"
  by (induction vs arbitrary: m) (auto simp: res_bind_Inl)

lemma decimal_less_raises: "decimal_less a b = Inl e \<Longrightarrow> e = invalid_operation"
  by (cases a; cases b) auto

text \<open>What \<open>fmt_cents\<close> writes is read back.\<close>

lemma group_thousands_filter: "CHR '' '' \<notin> set s \<Longrightarrow> filter (\<lambda>c. c \<noteq> CHR 0xA0 \<and> c \<noteq> CHR '' '') (group_thousands s)
    = filter (\<lambda>c. c \<noteq> CHR 0xA0) s"
proof (induction s rule: group_thousands.induct)
  case (1 s)
  show ?case
  proof (cases "length s \<le> 3")
    case True
    with 1 show ?thesis by (subst group_thousands.simps) (auto intro: filter_cong)
  next
    case False
    let ?a = "take (length s - 3) s" and ?b = "drop (length s - 3) s"
    from 1(2) have "CHR '' '' \<notin> set ?a" "CHR '' '' \<notin> set ?b" by (auto dest: in_set_takeD in_set_dropD)
    with 1(1) [OF False] have "filter (\<lambda>c. c \<noteq> CHR 0xA0 \<and> c \<noteq> CHR '' '') (group_thousands s)
        = filter (\<lambda>c. c \<noteq> CHR 0xA0) ?a @ filter (\<lambda>c. c \<noteq> CHR 0xA0) ?b"
      by (subst group_thousands.simps) (auto simp: False intro: filter_cong)
    also have "\<dots> = filter (\<lambda>c. c \<noteq> CHR 0xA0) s" by (metis append_take_drop_id filter_append)
    finally show ?thesis .
  qed
qed

lemma span_digits_all: "list_all is_digit s \<Longrightarrow> \<not> is_digit c \<Longrightarrow> c \<noteq> CHR ''_'' \<Longrightarrow>
    span_digits (s @ c # r) = (s, c # r) \<and> span_digits s = (s, [])"
  by (induction s) auto

lemma digit_props:
  assumes "is_digit c"
  shows "c \<notin> {CHR '' '', CHR '','', CHR ''.'', CHR ''_'', CHR ''-'', CHR ''+'', CHR ''n'', CHR ''s'', CHR ''i'', CHR 0xA0}"
    and "\<not> py_isspace c" and "lower_char c = c"
proof -
  from assms have c: "48 \<le> (of_char c :: nat)" "(of_char c :: nat) \<le> 57" by (auto simp: is_digit_def Let_def)
  show "c \<notin> {CHR '' '', CHR '','', CHR ''.'', CHR ''_'', CHR ''-'', CHR ''+'', CHR ''n'', CHR ''s'', CHR ''i'', CHR 0xA0}"
    using c by auto
  show "\<not> py_isspace c" using c by (auto simp: py_isspace_def Let_def)
  show "lower_char c = c" using c by (auto simp: lower_char_def Let_def)
qed


lemma digits_cents: "list_all is_digit (pad2 n)" "n < 100 \<Longrightarrow> length (pad2 n) = 2" "digits_val (pad2 n) = n"
proof -
  have z: "is_digit (CHR ''0'')" by code_simp
  show "list_all is_digit (pad2 n)" using nat_digits_digits [of n] z by (auto simp: pad2_def)
  have one: "nat_digits n = [char_of (48 + n)]" if "n < 10" for n using that by (subst nat_digits.simps) simp
  show "length (pad2 n) = 2" if "n < 100"
  proof (cases "n < 10")
    case True
    then show ?thesis by (simp add: pad2_def one)
  next
    case False
    with that have "n div 10 < 10" by simp
    with False have "nat_digits n = [char_of (48 + n div 10), char_of (48 + n mod 10)]"
      by (subst nat_digits.simps) (simp add: one)
    with False show ?thesis by (simp add: pad2_def)
  qed
  have "digit_val (CHR ''0'') = 0" by code_simp
  then have "digits_val (''0'' @ nat_digits n) = digits_val (nat_digits n)" by (simp add: digits_val_def)
  then show "digits_val (pad2 n) = n" by (simp add: pad2_def digits_val_nat_digits)
qed

lemma digits_val_append: "digits_val (a @ b) = digits_val a * 10 ^ length b + digits_val b"
proof (induction b rule: rev_induct)
  case (snoc c b)
  have "digits_val (a @ b @ [c]) = 10 * digits_val (a @ b) + digit_val c"
    using digits_val_snoc [of "a @ b" c] by simp
  with snoc show ?case by (simp add: digits_val_snoc algebra_simps)
qed (simp add: digits_val_def)

lemma decimal_unsigned_cents:
  assumes ip: "list_all is_digit ip" "ip \<noteq> []" and fp: "list_all is_digit fp" "fp \<noteq> []"
  shows "decimal_unsigned (ip @ ''.'' @ fp) = Some (DFin (of_nat (digits_val (ip @ fp)) / 10 ^ length fp))"
proof -
  obtain c r where c: "ip = c # r" "is_digit c" using ip by (cases ip) auto
  obtain d t where d: "fp = d # t" "is_digit d" using fp by (cases fp) auto
  from digit_props(1) [OF c(2)] have n: "c \<noteq> CHR ''n''" "c \<noteq> CHR ''s''" "c \<noteq> CHR ''i''" by auto
  have dot: "\<not> is_digit (CHR ''.'')" by code_simp
  have ti: "take_digits (ip @ ''.'' @ fp) = (ip, ''.'' @ fp)"
    using span_digits_all [OF ip(1) dot, of fp] c by (simp add: take_digits_def)
  have tf: "take_digits fp = (fp, [])"
    using span_digits_all [OF fp(1) dot] d by (simp add: take_digits_def)
  have "parse_unsigned (ip @ ''.'' @ fp) = Some (Fin (of_nat (digits_val (ip @ fp)) * pow10 (- int (length fp))))"
    using ti tf n c(1) ip(2) by (simp add: parse_unsigned_def parse_exponent_def)
  moreover have "pow10 (- int (length fp)) = 1 / 10 ^ length fp"
    using fp(2) by (simp add: pow10_def)
  ultimately show ?thesis
    using n c(1) by (simp add: decimal_unsigned_def py_startswith_def)
qed

lemma hd_group_thousands: "s \<noteq> [] \<Longrightarrow> hd (group_thousands s) = hd s \<and> group_thousands s \<noteq> []"
proof (induction s rule: group_thousands.induct)
  case (1 s)
  show ?case
  proof (cases "length s \<le> 3")
    case True
    with 1 show ?thesis by (subst (1 2) group_thousands.simps) simp
  next
    case False
    then have ne: "take (length s - 3) s \<noteq> []" by auto
    with 1(1) [OF False ne] False show ?thesis
      by (subst (1 2) group_thousands.simps) (simp add: hd_take)
  qed
qed

lemma decimal_of_plain:
  assumes ip: "list_all is_digit ip" "ip \<noteq> []" and fp: "list_all is_digit fp" "fp \<noteq> []" and sg: "sg \<in> {[], ''-''}"
  shows "decimal_of_text (sg @ ip @ ''.'' @ fp) =
    Some ((if sg = [] then id else decimal_neg) (DFin (of_nat (digits_val (ip @ fp)) / 10 ^ length fp)))"
proof -
  let ?t = "sg @ ip @ ''.'' @ fp"
  obtain c r where c: "ip = c # r" "is_digit c" using ip by (cases ip) auto
  have odd: "\<not> py_isspace (CHR ''-'')" "lower_char (CHR ''-'') = CHR ''-''" "lower_char (CHR ''.'') = CHR ''.''" by code_simp+
  have "is_digit (last fp)" using fp by (auto simp: list_all_iff)
  then have "\<not> py_isspace (last ?t)" using fp(2) by (simp add: digit_props(2))
  moreover have "\<not> py_isspace (hd ?t)" using sg c odd digit_props(2) [OF c(2)] by auto
  ultimately have strip: "py_strip ?t = ?t" by (intro py_strip_id) simp_all
  have ch: "is_digit x \<or> x = CHR ''-'' \<or> x = CHR ''.''" if "x \<in> set ?t" for x
    using that ip(1) fp(1) sg by (auto simp: list_all_iff)
  have "lower_char x = x" if "x \<in> set ?t" for x
    using ch [OF that] odd digit_props(3) [of x] by auto
  then have low: "py_lower ?t = ?t" by (simp only: py_lower_def map_idI)
  have "x \<noteq> CHR ''_''" if "x \<in> set ?t" for x
    using ch [OF that] digit_props(1) [of x] by auto
  then have flt: "filter (\<lambda>c. c \<noteq> CHR ''_'') ?t = ?t" by simp
  from digit_props(1) [OF c(2)] have n: "c \<noteq> CHR ''-''" "c \<noteq> CHR ''+''" by auto
  note u = decimal_unsigned_cents [OF ip fp]
  have dot: "decimal_of_text ?t = (case ?t of [] \<Rightarrow> None
     | c # r \<Rightarrow> if c = CHR ''-'' then map_option decimal_neg (decimal_unsigned r)
              else if c = CHR ''+'' then decimal_unsigned r else decimal_unsigned (c # r))"
    by (simp only: decimal_of_text_def strip low flt)
  show ?thesis
  proof (cases "sg = []")
    case True
    with dot u c n show ?thesis by simp
  next
    case False
    with sg have "sg = ''-''" by simp
    with dot u show ?thesis by simp
  qed
qed

lemma parse_decimal_cents:
  assumes sg: "sg \<in> {[], ''-''}"
  shows "parse_decimal (PStr (sg @ fmt_cents c)) =
    Some ((if sg = [] then id else decimal_neg) (DFin (of_nat (nat c) / 100)))"
proof -
  define ip where "ip = nat_digits (nat c div 100)"
  define fp where "fp = pad2 (nat c mod 100)"
  have ip: "list_all is_digit ip" "ip \<noteq> []" by (simp_all add: ip_def nat_digits_digits nat_digits_lead)
  have len: "length fp = 2" by (simp add: fp_def digits_cents(2))
  then have fp: "list_all is_digit fp" "fp \<noteq> []" by (auto simp: fp_def digits_cents(1))
  have val: "digits_val (ip @ fp) = nat c"
    by (simp add: digits_val_append len) (simp add: ip_def fp_def digits_val_nat_digits digits_cents(3))
  have d: "x \<noteq> CHR '' '' \<and> x \<noteq> CHR 0xA0 \<and> x \<noteq> CHR '','' \<and> x \<noteq> CHR ''.''" if "x \<in> set ip \<union> set fp" for x
    using that ip(1) fp(1) by (auto simp: list_all_iff dest!: digit_props(1))
  let ?t = "sg @ group_thousands ip @ '','' @ fp"
  obtain h r where h: "ip = h # r" "is_digit h" using ip by (cases ip) auto
  have "hd (group_thousands ip) = h" "group_thousands ip \<noteq> []"
    using hd_group_thousands [OF ip(2)] h by auto
  moreover have "is_digit (last fp)" using fp by (auto simp: list_all_iff)
  moreover have "\<not> py_isspace (CHR ''-'')" by code_simp
  ultimately have strip: "py_strip ?t = ?t"
    using sg fp(2) h by (intro py_strip_id) (auto dest: digit_props(2))
  have "filter (\<lambda>c. c \<noteq> CHR 0xA0 \<and> c \<noteq> CHR '' '') (group_thousands ip) = ip"
    using d by (subst group_thousands_filter) (auto intro!: filter_True)
  moreover have "filter (\<lambda>c. c \<noteq> CHR 0xA0 \<and> c \<noteq> CHR '' '') fp = fp"
    using d by (intro filter_True) auto
  ultimately have flt: "filter (\<lambda>c. c \<noteq> CHR 0xA0 \<and> c \<noteq> CHR '' '') ?t = sg @ ip @ '','' @ fp"
    using sg by auto
  have plain: "replace_char (CHR '','') ''.'' s = s" if "CHR '','' \<notin> set s" for s
    using that by (induction s) (auto simp: replace_char_def)
  have app: "replace_char (CHR '','') ''.'' (a @ b) = replace_char (CHR '','') ''.'' a @ replace_char (CHR '','') ''.'' b" for a b
    by (simp add: replace_char_def)
  have nc: "CHR '','' \<notin> set ip" "CHR '','' \<notin> set fp" using d [of "CHR '',''"] by auto
  have "replace_char (CHR '','') ''.'' (sg @ ip @ '','' @ fp) = sg @ ip @ ''.'' @ fp"
    using plain [OF nc(1)] plain [OF nc(2)] sg
    by (simp only: app) (auto simp: replace_char_def)
  moreover have "CHR ''.'' \<notin> set (sg @ ip @ '','' @ fp)" using d sg by auto
  ultimately show ?thesis
    using decimal_of_plain [OF ip fp sg] strip flt
    by (simp add: parse_decimal_def fmt_cents_def Let_def ip_def [symmetric] fp_def [symmetric] val len)
qed

lemma round_half_even_bound: "\<bar>of_int (round_half_even q) - q\<bar> \<le> 1 / 2" and round_half_even_nonneg: "0 \<le> q \<Longrightarrow> 0 \<le> round_half_even q"
proof -
  have f: "of_int \<lfloor>q\<rfloor> \<le> q" "q < of_int \<lfloor>q\<rfloor> + 1" by linarith+
  then show "\<bar>of_int (round_half_even q) - q\<bar> \<le> 1 / 2" by (auto simp: round_half_even_def Let_def)
  show "0 \<le> q \<Longrightarrow> 0 \<le> round_half_even q" by (auto simp: round_half_even_def Let_def)
qed

section \<open>Properties\<close>

text \<open>
  the amount in the agent's sentence is read back as what was computed: for every amount, parsing the
  formatted text gives the amount rounded to cents, at most half a cent away.
\<close>

theorem amount_roundtrip:
  "\<exists>c. parse_decimal (PStr (fmt_decimal (DFin q))) = Some (DFin (of_int c / 100)) \<and> \<bar>of_int c / 100 - q\<bar> \<le> 1 / 200"
proof -
  let ?n = "round_half_even (100 * \<bar>q\<bar>)"
  have nn: "0 \<le> ?n" by (rule round_half_even_nonneg) simp
  have b: "\<bar>of_int ?n - 100 * \<bar>q\<bar>\<bar> \<le> 1 / 2" by (rule round_half_even_bound)
  show ?thesis
  proof (cases "q < 0")
    case True
    have "parse_decimal (PStr (fmt_decimal (DFin q))) = Some (DFin (of_int (- ?n) / 100))"
      using parse_decimal_cents [of "''-''" ?n] True nn by (simp add: fmt_decimal_def decimal_neg_def)
    moreover have "\<bar>of_int (- ?n) / 100 - q\<bar> \<le> 1 / 200" using b True by (simp add: abs_if split: if_splits)
    ultimately show ?thesis by blast
  next
    case False
    have "parse_decimal (PStr (fmt_decimal (DFin q))) = Some (DFin (of_int ?n / 100))"
      using parse_decimal_cents [of "[]" ?n] False nn by (simp add: fmt_decimal_def)
    moreover have "\<bar>of_int ?n / 100 - q\<bar> \<le> 1 / 200" using b False by (simp add: abs_if split: if_splits)
    ultimately show ?thesis by blast
  qed
qed

text \<open>An amount written with a dot between the thousands and a decimal comma is read a thousand times too small.\<close>

theorem czech_thousands_misread:
  "parse_decimal (PStr ''1.234,56'') = Some (DFin (123456 / 100000))"
  by code_simp

end
