(* ===== verification/Crm_Aggregate.thy ===== *)
theory Crm_Aggregate
  imports Crm_Read Decimals
begin

text \<open>
  Sums, averages, extremes and counts over business records (\<open>app/services/crm_aggregate_service.py\<close>,
  \<open>app/domain/aggregate_contracts.py\<close>): which records count, which of their fields is the amount, how
  it is read, and the sentence the agent gets. Texts are given without diacritics; the marker with a letter
  outside Latin-1 is left out.
\<close>

section \<open>Requests and results\<close>

datatype agg_operation = AggSum | AggAvg | AggMin | AggMax | AggCount

record agg_filters =
  af_account :: "string option"
  af_from :: "string option"
  af_to :: "string option"
  af_date_field :: string
  af_statuses :: "string list option"
  af_exclude_cancelled :: bool
  af_user :: "string option"

record agg_request =
  ar_module :: string
  ar_operation :: agg_operation
  ar_metric :: string
  ar_filters :: agg_filters

record agg_result =
  ag_success :: bool
  ag_operation :: agg_operation
  ag_module :: string
  ag_value :: "decimal option"
  ag_count :: nat
  ag_assumptions :: "string list"
  ag_error :: "string option"

section \<open>Tables\<close>

definition aggregate_modules :: "(string \<times> string list) list" where
  "aggregate_modules = [(''invoices'', [''acm_invoices'', ''AOS_Invoices'']), (''invoice_items'', [''AOS_Invoices_Quotes'']),
     (''quotes'', [''Quotes'']), (''quote_items'', [''AOS_Products_Quotes'']), (''opportunities'', [''Opportunities''])]"

definition metric_fields :: "(string \<times> string list) list" where
  "metric_fields =
     [(''amount'', [''amount'', ''cena_s_dph_celkem'', ''grand_total'', ''_raw_amount_usdollar'', ''amount_usdollar'',
        ''cena_bez_dph_celkem'']),
      (''amount_total'', [''amount_total'', ''cena_s_dph_celkem'', ''grand_total'', ''total_amount'', ''amount'']),
      (''amount_without_vat'', [''amount_without_vat'', ''cena_bez_dph_celkem'', ''subtotal_amount'', ''amount'']),
      (''vat_amount'', [''vat_amount'', ''cena_dph_celkem'', ''tax_amount'']),
      (''quantity'', [''quantity'']), (''unit_price'', [''unit_price'', ''price'']),
      (''discount'', [''discount'', ''discount_amount'']), (''margin'', [''margin'', ''gross_margin''])]"

definition status_table :: "(string \<times> (string \<times> string) list) list" where
  "status_table =
     [(''invoices'', [(''uhrazeno'', ''uhrazeno''), (''zaplaceno'', ''uhrazeno''), (''paid'', ''uhrazeno''),
        (''neuhrazeno'', ''neuhrazeno''), (''unpaid'', ''neuhrazeno''), (''po splatnosti'', ''po splatnosti''),
        (''overdue'', ''po splatnosti''), (''storno'', ''storno''), (''cancelled'', ''storno''), (''canceled'', ''storno'')]),
      (''quotes'', []), (''quote_items'', []),
      (''opportunities'', [(''closed won'', ''closed won''), (''won'', ''closed won''),
        (''closed lost'', ''closed lost''), (''lost'', ''closed lost'')])]"

definition same_dates :: "string \<Rightarrow> string \<Rightarrow> string \<Rightarrow> (string \<times> string) list" where
  "same_dates issued paid due = [(''date_issued'', issued), (''date_paid'', paid), (''due_date'', due),
     (''date_entered'', ''date_entered''), (''date_modified'', ''date_modified'')]"

definition date_field_map :: "(string \<times> (string \<times> string) list) list" where
  "date_field_map =
     [(''acm_invoices'', same_dates ''datum_vystaveni'' ''datum_uhrazeni'' ''datum_splatnosti''),
      (''Quotes'', same_dates ''date_quote_expected_closed'' ''date_quote_expected_closed'' ''date_quote_expected_closed''),
      (''Opportunities'', same_dates ''date_closed'' ''date_closed'' ''date_closed''),
      (''AOS_Invoices_Quotes'', same_dates ''date_entered'' ''date_entered'' ''date_entered''),
      (''AOS_Products_Quotes'', same_dates ''date_entered'' ''date_entered'' ''date_entered'')]"

definition cancelled_statuses :: "string list" where
  "cancelled_statuses = [''cancelled'', ''storno'', ''void'', ''draft_cancelled'']"

definition turnover_markers :: "string list" where
  "turnover_markers = [''obrat'', ''trzby'', ''revenue'', ''turnover'']"

section \<open>Fetching\<close>

definition is_iso_date :: "string \<Rightarrow> bool" where
  "is_iso_date s = (length s = 10 \<and> s ! 4 = CHR ''-'' \<and> s ! 7 = CHR ''-'' \<and>
     list_all is_digit (take 4 s) \<and> list_all is_digit (take 2 (drop 5 s)) \<and> list_all is_digit (drop 8 s))"

definition sanitize_date :: "string \<Rightarrow> string option \<Rightarrow> string option \<times> string list" where
  "sanitize_date label v = (case map_option py_strip v of
     None \<Rightarrow> (None, [])
   | Some t \<Rightarrow> if t \<noteq> [] \<and> \<not> is_iso_date t then (None, [''ignorovan neplatny '' @ label @ '': '' @ t]) else (Some t, []))"

definition resolve_date_field :: "string \<Rightarrow> string \<Rightarrow> string" where
  "resolve_date_field md f = (let m = dget_default date_field_map md [] in
     dget_default m f (dget_default m ''date_issued'' ''date_entered''))"

definition id_specs :: "agg_filters \<Rightarrow> filter_spec list" where
  "id_specs f =
     (case af_account f of Some a \<Rightarrow> if a = [] then [] else [\<lparr>fs_field = ''account_id'', fs_op = OpEq, fs_value = OneValue a\<rparr>] | None \<Rightarrow> []) @
     (case af_user f of Some u \<Rightarrow> if u = [] then [] else [\<lparr>fs_field = ''assigned_user_id'', fs_op = OpEq, fs_value = OneValue u\<rparr>] | None \<Rightarrow> [])"

definition fetch_records :: "list_server \<Rightarrow> string \<Rightarrow> agg_filters \<Rightarrow> (pydict list \<times> string \<times> string list) result \<times> pydict list" where
  "fetch_records srv md f =
     (let date_field = resolve_date_field md (af_date_field f);
          (dfrom, n1) = sanitize_date ''date_from'' (af_from f);
          (dto, n2) = sanitize_date ''date_to'' (af_to f)
      in case list_module srv md None (id_specs f) dfrom dto (Some date_field) None 10000 True [] False of
           (Inl e, reqs) \<Rightarrow> (Inl e, reqs)
         | (Inr records, reqs) \<Rightarrow> (Inr (records, date_field, n1 @ n2), reqs))"

text \<open>The modules of a kind in order, until one has records; the notes of all of them.\<close>

fun fetch_modules ::
  "list_server \<Rightarrow> nat \<Rightarrow> string list \<Rightarrow> agg_filters \<Rightarrow> pydict list \<times> string \<times> string list
     \<Rightarrow> (pydict list \<times> string \<times> string list) result \<times> (string \<times> pydict) list" where
  "fetch_modules srv i [] f st = (Inr st, [])"
| "fetch_modules srv i (md # mds) f (records, date_field, notes) =
     (case fetch_records (\<lambda>j. srv (i + j)) md f of
        (Inl e, reqs) \<Rightarrow> (Inl e, map (Pair md) reqs)
      | (Inr (rs, df, ns), reqs) \<Rightarrow>
          if rs \<noteq> [] then (Inr (rs, df, notes @ ns), map (Pair md) reqs)
          else (case fetch_modules srv (i + length reqs) mds f (rs, df, notes @ ns) of
              (res, extra) \<Rightarrow> (res, map (Pair md) reqs @ extra)))"

definition overview_records :: "py result \<Rightarrow> (pydict list \<times> string list) result" where
  "overview_records reply = res_bind reply (\<lambda>raw.
     let related = dict_or_empty (pget (dict_or_empty raw) ''related_records'');
         rows = (\<lambda>key. map normalize_amount_field (dicts_of (list_or_empty (pget related key))))
     in Inr (case find (\<lambda>key. rows key \<noteq> []) [''AOS_Invoices'', ''acm_invoices''] of
          Some key \<Rightarrow> (rows key, [''zdroj: company_overview/'' @ key])
        | None \<Rightarrow> ([], [])))"

section \<open>Which records count\<close>

definition implied_status_filter :: "string \<Rightarrow> agg_request \<Rightarrow> string list \<Rightarrow> string list \<times> string list" where
  "implied_status_filter input_text rq allowed =
     (let text = py_lower (py_strip input_text) in
      if ar_module rq \<noteq> ''invoices'' \<or> text = [] \<or> \<not> list_ex (\<lambda>m. py_contains m text) turnover_markers then ([], [])
      else if allowed \<noteq> [] \<and> set allowed \<noteq> {''uhrazeno''} then (allowed, [])
      else ([''uhrazeno''], [''vyklad obratu: zapocteny pouze uhrazene faktury'']))"

definition record_status :: "(string \<times> string) list \<Rightarrow> pydict \<Rightarrow> string" where
  "record_status aliases row =
     (let s = py_lower (text_of (por (por (pget row ''status'') (pget row ''invoice_status'')) (pget row ''stav_uhrazeni'')))
      in if aliases = [] then s else dget_default aliases s s)"

definition allowed_statuses :: "string \<Rightarrow> agg_request \<Rightarrow> string list \<times> string list" where
  "allowed_statuses input_text rq =
     (let aliases = dget_default status_table (ar_module rq) [];
          requested = map (\<lambda>s. py_lower (py_strip s)) (filter (\<lambda>s. py_strip s \<noteq> [])
            (case af_statuses (ar_filters rq) of Some xs \<Rightarrow> xs | None \<Rightarrow> []));
          allowed = filter (\<lambda>s. s \<in> set (map snd aliases) \<or> aliases = []) (map (\<lambda>s. dget_default aliases s s) requested);
          notes = (if requested \<noteq> [] \<and> aliases \<noteq> [] \<and> allowed = []
            then [''ignorovan neplatny status filtr pro tento modul''] else []);
          (implied, extra) = implied_status_filter input_text rq allowed
      in (if implied \<noteq> [] then implied else allowed, notes @ extra))"

definition keeps_status :: "agg_request \<Rightarrow> string list \<Rightarrow> pydict \<Rightarrow> bool" where
  "keeps_status rq allowed row = (let s = record_status (dget_default status_table (ar_module rq) []) row in
     \<not> (af_exclude_cancelled (ar_filters rq) \<and> s \<in> set cancelled_statuses) \<and>
     \<not> (allowed \<noteq> [] \<and> s \<noteq> [] \<and> s \<notin> set allowed))"

definition apply_status_filter :: "string \<Rightarrow> pydict list \<Rightarrow> agg_request \<Rightarrow> pydict list \<times> string list" where
  "apply_status_filter input_text records rq = (case allowed_statuses input_text rq of
     (allowed, notes) \<Rightarrow> (filter (keeps_status rq allowed) records, notes))"

section \<open>Values\<close>

definition selected_field :: "string list \<Rightarrow> pydict \<Rightarrow> (string \<times> py) option" where
  "selected_field candidates row =
     map_option (\<lambda>k. (k, pget row k)) (find (\<lambda>k. has_key k row \<and> pget row k \<noteq> PNone) candidates)"

fun extract_loop :: "string list \<Rightarrow> pydict list \<Rightarrow> decimal list \<times> nat \<times> string \<Rightarrow> decimal list \<times> nat \<times> string" where
  "extract_loop candidates [] st = st"
| "extract_loop candidates (row # rows) (vs, skipped, used) =
     extract_loop candidates rows (case selected_field candidates row of
         None \<Rightarrow> (vs, Suc skipped, used)
       | Some (k, raw) \<Rightarrow> (case parse_decimal raw of
           None \<Rightarrow> (vs, Suc skipped, used)
         | Some d \<Rightarrow> (vs @ [d], skipped, k)))"

definition extract_values :: "pydict list \<Rightarrow> string \<Rightarrow> decimal list \<times> nat \<times> string" where
  "extract_values rows metric = (let candidates = dget_default metric_fields metric [metric] in
     extract_loop candidates rows ([], 0, hd candidates))"

definition agg_compute :: "decimal list \<Rightarrow> agg_operation \<Rightarrow> decimal option result" where
  "agg_compute vs op = (case vs of
     [] \<Rightarrow> Inr None
   | v # rest \<Rightarrow> (case op of
       AggSum \<Rightarrow> res_bind (decimal_sum (DFin 0) vs) (\<lambda>s. Inr (Some s))
     | AggAvg \<Rightarrow> res_bind (decimal_sum (DFin 0) vs) (\<lambda>s. Inr (Some (decimal_div_count s (length vs))))
     | AggMin \<Rightarrow> res_bind (decimal_best decimal_less v rest) (\<lambda>m. Inr (Some m))
     | AggMax \<Rightarrow> res_bind (decimal_best (\<lambda>a b. decimal_less b a) v rest) (\<lambda>m. Inr (Some m))
     | AggCount \<Rightarrow> Inr (Some (DFin (of_nat (length vs))))))"

definition build_assumptions :: "agg_request \<Rightarrow> string \<Rightarrow> nat \<Rightarrow> nat \<Rightarrow> string \<Rightarrow> string list \<Rightarrow> string list" where
  "build_assumptions rq field_used skipped filtered date_field notes =
     [''pole: '' @ field_used, ''datum: '' @ date_field] @
     (if af_exclude_cancelled (ar_filters rq) then [''stornovane zaznamy vynechany''] else []) @
     (case af_statuses (ar_filters rq) of
        Some (s # ss) \<Rightarrow> [''stavy: '' @ py_join '', '' (s # ss)] | _ \<Rightarrow> []) @
     dedup notes @
     (if ar_operation rq = AggCount then [''count pocita zaznamy po filtrovani bez ohledu na metriku'']
      else if skipped > 0 then [nat_digits skipped @ '' z '' @ nat_digits filtered @
        '' zaznamu vynechano (chybejici nebo neciselna hodnota)''] else [])"

section \<open>The aggregate\<close>

definition agg_failure :: "agg_request \<Rightarrow> string \<Rightarrow> agg_result" where
  "agg_failure rq msg = \<lparr>ag_success = False, ag_operation = ar_operation rq, ag_module = ar_module rq, ag_value = None,
     ag_count = 0, ag_assumptions = [], ag_error = Some msg\<rparr>"

definition fetch_all_records ::
  "list_server \<Rightarrow> (string \<Rightarrow> py result) \<Rightarrow> agg_request \<Rightarrow> string list
     \<Rightarrow> (pydict list \<times> string \<times> string list) result \<times> (string \<times> pydict) list" where
  "fetch_all_records srv overview rq modules =
     (case fetch_modules srv 0 modules (ar_filters rq) ([], ''date_entered'', []) of
        (Inl e, reqs) \<Rightarrow> (Inl e, reqs)
      | (Inr (records, date_field, notes), reqs) \<Rightarrow>
          (case (records = [] \<and> ar_module rq = ''invoices'', af_account (ar_filters rq)) of
             (True, Some a) \<Rightarrow>
               if a = [] then (Inr (records, date_field, notes), reqs)
               else (res_bind (overview_records (overview a)) (\<lambda>(rs, extra). Inr (rs, date_field, notes @ extra)), reqs)
           | _ \<Rightarrow> (Inr (records, date_field, notes), reqs)))"

definition aggregate ::
  "list_server \<Rightarrow> (string \<Rightarrow> py result) \<Rightarrow> string \<Rightarrow> agg_request \<Rightarrow> agg_result result \<times> (string \<times> pydict) list" where
  "aggregate srv overview input_text rq = (case map_of aggregate_modules (ar_module rq) of
     None \<Rightarrow> (Inr (agg_failure rq (''Unknown module: '' @ ar_module rq)), [])
   | Some modules \<Rightarrow>
       (case fetch_all_records srv overview rq modules of
          (Inl e, reqs) \<Rightarrow> (Inr (agg_failure rq ''CRM data se nepodarilo nacist''), reqs)
        | (Inr (records, date_field, notes), reqs) \<Rightarrow>
            (case apply_status_filter input_text records rq of (filtered, extra) \<Rightarrow>
             (case extract_values filtered (ar_metric rq) of (vs, skipped, used) \<Rightarrow>
               (res_bind (if ar_operation rq = AggCount
                   then Inr (if filtered = [] then None else Some (DFin (of_nat (length filtered))), length filtered)
                   else res_bind (agg_compute vs (ar_operation rq)) (\<lambda>v. Inr (v, length vs)))
                 (\<lambda>(v, n). Inr \<lparr>ag_success = True, ag_operation = ar_operation rq, ag_module = ar_module rq, ag_value = v,
                    ag_count = n, ag_assumptions = build_assumptions rq used skipped (length filtered) date_field (notes @ extra),
                    ag_error = None\<rparr>), reqs)))))"

section \<open>The sentence\<close>

definition operation_label :: "agg_operation \<Rightarrow> string" where
  "operation_label op = (case op of AggSum \<Rightarrow> ''Soucet'' | AggAvg \<Rightarrow> ''Prumer'' | AggMin \<Rightarrow> ''Minimum'' | AggMax \<Rightarrow> ''Maximum''
     | AggCount \<Rightarrow> ''Pocet'')"

definition to_agent_string :: "agg_result \<Rightarrow> string" where
  "to_agent_string r =
     (if \<not> ag_success r then ''Chyba pri vypoctu: '' @ (case ag_error r of Some e \<Rightarrow> e | None \<Rightarrow> ''None'')
      else if ag_count r = 0 then ''Zadne zaznamy neodpovidaji zadanym filtrum.''
      else operation_label (ag_operation r) @ '': '' @
        (if ag_operation r = AggCount then nat_digits (ag_count r) @ '' zaznamu''
         else (case ag_value r of Some d \<Rightarrow> fmt_decimal d | None \<Rightarrow> []) @ '' CZK'') @
        '' - z '' @ nat_digits (ag_count r) @ '' zaznamu modulu '' @ ag_module r @
        (if ag_assumptions r = [] then [] else '' ('' @ py_join ''; '' (ag_assumptions r) @ '')''))"

section \<open>Lemmas\<close>

lemma extract_loop_values:
  "extract_loop c rows (vs, n, u) = (vs', n', u') \<Longrightarrow>
     vs' = vs @ List.map_filter (\<lambda>r. Option.bind (selected_field c r) (\<lambda>(k, raw). parse_decimal raw)) rows \<and>
     length vs' + n' = length vs + n + length rows"
  by (induction c rows "(vs, n, u)" arbitrary: vs n u rule: extract_loop.induct)
     (auto simp: List.map_filter_simps split: option.splits prod.splits)

lemma agg_compute_raises:
  assumes "agg_compute vs op = Inl e"
  shows "e = invalid_operation"
proof (cases vs)
  case Nil
  with assms show ?thesis by (simp add: agg_compute_def)
next
  case (Cons v rest)
  with assms consider "decimal_sum (DFin 0) vs = Inl e" | "decimal_best decimal_less v rest = Inl e"
    | "decimal_best (\<lambda>a b. decimal_less b a) v rest = Inl e"
    by (cases op) (simp_all add: agg_compute_def res_bind_Inl)
  then show ?thesis
    by cases (rule decimal_sum_raises decimal_best_raises [OF decimal_less_raises]; assumption)+
qed

lemma fetch_records_requests: "fetch_records srv md f = (res, reqs) \<Longrightarrow> length reqs \<le> 20"
  using list_limit_bound [of 10000 True]
  by (auto simp: fetch_records_def Let_def split: prod.splits sum.splits dest!: list_module_length)

lemma fetch_modules_requests:
  "fetch_modules srv i mds f st = (res, reqs) \<Longrightarrow> length reqs \<le> 20 * length mds \<and> fst ` set reqs \<subseteq> set mds"
proof (induction mds arbitrary: i st res reqs)
  case (Cons md mds)
  obtain records df ns where st: "st = (records, df, ns)" by (cases st)
  obtain r rs where fr: "fetch_records (\<lambda>j. srv (i + j)) md f = (r, rs)" by fastforce
  note le = fetch_records_requests [OF fr]
  from Cons.prems st fr consider "reqs = map (Pair md) rs"
    | res' others st' where "fetch_modules srv (i + length rs) mds f st' = (res', others)" "reqs = map (Pair md) rs @ others"
    by (auto split: sum.splits prod.splits if_splits)
  then show ?case
  proof cases
    case 1
    with le show ?thesis by auto
  next
    case (2 res' others st')
    from Cons.IH [OF 2(1)] 2(2) le show ?thesis by auto
  qed
qed simp

lemma build_filter_id_specs: "\<exists>f. build_filter md None (id_specs fl) dfrom dto (Some df) = Inr f"
proof -
  have "\<exists>ops. res_map (spec_operand m) (id_specs fl) = Inr ops" for m
    by (auto simp: id_specs_def spec_operand_def op_map_def Let_def split: option.splits)
  then obtain ops where "res_map (spec_operand (py_lower (py_strip md))) (id_specs fl) = Inr ops" by blast
  then show ?thesis by (simp add: build_filter_def Let_def)
qed

lemma fetch_records_serves:
  assumes "serves_rows srv [] rows" and "list_all proper_row rows" and "distinct (map row_id_text rows)"
    and "length rows \<le> 10000"
  shows "\<exists>df ns. fst (fetch_records srv md f) = Inr (map normalize_amount_field rows, df, ns)"
proof -
  obtain dfrom n1 where d1: "sanitize_date ''date_from'' (af_from f) = (dfrom, n1)" by fastforce
  obtain dto n2 where d2: "sanitize_date ''date_to'' (af_to f) = (dto, n2)" by fastforce
  let ?df = "resolve_date_field md (af_date_field f)"
  obtain flt where flt: "build_filter md None (id_specs f) dfrom dto (Some ?df) = Inr flt"
    using build_filter_id_specs by blast
  have "list_limit 10000 True = 10000" by (simp add: list_limit_def)
  with list_module_serves [OF assms(1-3) flt, of None 10000 False] assms(4)
  have "fst (list_module srv md None (id_specs f) dfrom dto (Some ?df) None 10000 True [] False)
      = Inr (map normalize_amount_field rows)" by simp
  then show ?thesis
    by (cases "list_module srv md None (id_specs f) dfrom dto (Some ?df) None 10000 True [] False")
       (simp add: fetch_records_def Let_def d1 d2)
qed

section \<open>Properties\<close>

definition row_amount :: "string \<Rightarrow> pydict \<Rightarrow> decimal option" where
  "row_amount metric row = Option.bind (selected_field (dget_default metric_fields metric [metric]) row)
     (\<lambda>(k, raw). parse_decimal raw)"

text \<open>
  no amount is lost or counted twice: the values the aggregate works on are, in order, those of
  the counted records (the first field of the metric that is not empty, when it reads as a number),
  and every other record is reported as skipped.
\<close>

theorem extract_values_reference:
  "fst (extract_values rows metric) = List.map_filter (row_amount metric) rows \<and>
   length (fst (extract_values rows metric)) + fst (snd (extract_values rows metric)) = length rows"
proof -
  obtain vs n u where e: "extract_values rows metric = (vs, n, u)" by (cases "extract_values rows metric")
  then have "extract_loop (dget_default metric_fields metric [metric]) rows
      ([], 0, hd (dget_default metric_fields metric [metric])) = (vs, n, u)"
    by (simp add: extract_values_def Let_def)
  from extract_loop_values [OF this] e show ?thesis by (auto simp: row_amount_def [abs_def])
qed

text \<open>
  the aggregates are the mathematical ones: over finite amounts the sum is the sum, the average times
  the number of amounts is the sum, and minimum and maximum are the least and greatest of them; no
  amounts give no value.
\<close>

theorem aggregate_values:
  assumes "qs \<noteq> []"
  shows "agg_compute (map DFin qs) AggSum = Inr (Some (DFin (sum_list qs)))
    \<and> (\<exists>a. agg_compute (map DFin qs) AggAvg = Inr (Some (DFin a)) \<and> a * of_nat (length qs) = sum_list qs)
    \<and> agg_compute (map DFin qs) AggMin = Inr (Some (DFin (Min (set qs))))
    \<and> agg_compute (map DFin qs) AggMax = Inr (Some (DFin (Max (set qs))))
    \<and> agg_compute [] AggSum = Inr None"
proof -
  obtain q rest where qs: "qs = q # rest" using assms by (cases qs) auto
  have "agg_compute (map DFin qs) AggAvg = Inr (Some (DFin (sum_list qs / of_nat (length qs))))"
    using decimal_sum_fin [of 0 qs] by (simp add: agg_compute_def qs decimal_div_count_def)
  moreover have "agg_compute (map DFin qs) AggSum = Inr (Some (DFin (sum_list qs)))"
    using decimal_sum_fin [of 0 qs] by (simp add: agg_compute_def qs)
  ultimately show ?thesis
    using decimal_min_fin [of q rest] decimal_max_fin [of q rest]
    by (simp add: agg_compute_def qs)
qed

theorem aggregate_values_witness:
  "agg_compute (map DFin [3, 1]) AggSum = Inr (Some (DFin 4)) \<and> agg_compute (map DFin [3, 1]) AggMin = Inr (Some (DFin 1))"
  using aggregate_values [of "[3, 1]"] by (simp add: min_def)

text \<open>
  an aggregate costs at most 40 list requests, all of them to the modules of its kind, and the CRM
  cannot make it raise: whatever the CRM answers (errors included), the result is a value or a failure
  message, and the one exception that leaves is the invalid operation of \<open>decimal\<close>, never for a count.
\<close>

theorem aggregate_contained:
  assumes "aggregate srv overview input_text rq = (res, reqs)"
  shows "length reqs \<le> 40 \<and>
    fst ` set reqs \<subseteq> set (case map_of aggregate_modules (ar_module rq) of Some ms \<Rightarrow> ms | None \<Rightarrow> []) \<and>
    (case res of Inr _ \<Rightarrow> True | Inl e \<Rightarrow> e = invalid_operation \<and> ar_operation rq \<noteq> AggCount)"
proof (cases "map_of aggregate_modules (ar_module rq)")
  case None
  with assms show ?thesis by (auto simp: aggregate_def)
next
  case (Some ms)
  have "list_all (\<lambda>(m, ms). length ms \<le> 2) aggregate_modules" by code_simp
  with map_of_SomeD [OF Some] have two: "length ms \<le> 2" by (auto simp: list_all_iff)
  obtain fr rs where fr: "fetch_all_records srv overview rq ms = (fr, rs)" by fastforce
  obtain r0 rs0 where f0: "fetch_modules srv 0 ms (ar_filters rq) ([], ''date_entered'', []) = (r0, rs0)" by fastforce
  from fr f0 have "rs = rs0"
    by (auto simp: fetch_all_records_def split: sum.splits prod.splits option.splits bool.splits if_splits)
  moreover have "reqs = rs"
    using assms Some fr by (auto simp: aggregate_def split: sum.splits prod.splits)
  moreover note fetch_modules_requests [OF f0]
  moreover have "e = invalid_operation \<and> ar_operation rq \<noteq> AggCount" if "res = Inl e" for e
    using assms Some fr that
    by (auto simp: aggregate_def res_bind_Inl dest: agg_compute_raises split: sum.splits prod.splits if_splits)
  ultimately show ?thesis using two Some by (auto split: sum.splits)
qed

definition demo_request :: "agg_operation \<Rightarrow> agg_request" where
  "demo_request op = \<lparr>ar_module = ''invoices'', ar_operation = op, ar_metric = ''amount'', ar_filters =
     \<lparr>af_account = Some ''a1'', af_from = Some ''2025-01-01'', af_to = Some ''2025-12-31'', af_date_field = ''date_issued'',
       af_statuses = None, af_exclude_cancelled = True, af_user = None\<rparr>\<rparr>"

theorem aggregate_contained_witness:
  "length (snd (aggregate (\<lambda>i md p. Inl (OtherError ''down'')) (\<lambda>a. Inr PNone) [] (demo_request AggSum))) \<le> 40"
proof -
  obtain res reqs where r: "aggregate (\<lambda>i md p. Inl (OtherError ''down'')) (\<lambda>a. Inr PNone) [] (demo_request AggSum) = (res, reqs)"
    by fastforce
  from aggregate_contained [OF r] r show ?thesis by simp
qed


definition demo_deal :: "char \<Rightarrow> py \<Rightarrow> string \<Rightarrow> pydict" where
  "demo_deal c v status = [(''id'', PStr (demo_uuid c)), (''amount'', v), (''status'', PStr status)]"

definition demo_deals :: "pydict list" where
  "demo_deals = [demo_deal (CHR ''a'') (PStr ''1 200,50'') ''Won'', demo_deal (CHR ''b'') (PInt 10) ''storno'',
     demo_deal (CHR ''c'') (PInt 100) []]"

definition demo_deal_request :: agg_request where
  "demo_deal_request = demo_request AggSum\<lparr>ar_module := ''opportunities''\<rparr>"


text \<open>
  When no invoice of the period is found, the invoices of the whole company overview are summed, of
  any date: an invoice of 2019 is the answer to a question about 2025.
\<close>

theorem overview_ignores_dates:
  "(case fst (aggregate (\<lambda>i md p. Inr (PDict [(''records'', PList [])]))
      (\<lambda>a. Inr (PDict [(''related_records'', PDict [(''acm_invoices'',
         PList [PDict [(''amount'', PInt 700), (''datum_vystaveni'', PStr ''2019-05-01'')]])])]))
      [] (demo_request AggSum)) of Inr r \<Rightarrow> ag_value r | Inl _ \<Rightarrow> None) = Some (DFin 700)"
  by code_simp

text \<open>
  A question about the turnover is said to count paid invoices only; an invoice without a status
  counts too.
\<close>

theorem turnover_counts_unknown_status:
  "allowed_statuses ''obrat'' (demo_request AggSum) = ([''uhrazeno''], [''vyklad obratu: zapocteny pouze uhrazene faktury'']) \<and>
   keeps_status (demo_request AggSum) [''uhrazeno''] [(''amount'', PInt 5)]"
  by code_simp

text \<open>A field that holds \<open>nan\<close> is taken for an amount, and the minimum raises.\<close>

theorem nan_amount_raises:
  "parse_decimal (PStr ''nan'') = Some DNaN \<and> agg_compute [DFin 1, DNaN] AggMin = Inl invalid_operation"
  by code_simp

end
