(* ===== verification/Rag_Index.thy ===== *)
theory Rag_Index
  imports Record_Extract
begin

text \<open>
  The vector index of a tenant (\<open>app/engine/rag.py\<close>): the name of its collection, the points written
  for CRM records, and the paginated, incremental ingest from the CRM. The vector database, the
  embedding service, the hash functions and the CRM are arguments; what a write or a read of the
  database does to its state is a function of that state.
\<close>

section \<open>Collections\<close>

definition segment_char :: "char \<Rightarrow> bool" where
  "segment_char c = (is_az c \<or> is_AZ c \<or> is_digit c \<or> c = CHR ''_'' \<or> c = CHR ''-'')"

text \<open>\<open>re.sub(r"[^A-Za-z0-9_-]+", "_", s)\<close>\<close>

fun replace_runs :: "bool \<Rightarrow> string \<Rightarrow> string" where
  "replace_runs in_run [] = []"
| "replace_runs in_run (c # s) =
     (if segment_char c then c # replace_runs False s
      else if in_run then replace_runs True s else CHR ''_'' # replace_runs True s)"

definition strip_underscores :: "string \<Rightarrow> string" where
  "strip_underscores s = (let u = (\<lambda>c. c = CHR ''_'') in rev (dropWhile u (rev (dropWhile u s))))"

definition sanitize_collection_segment :: "string \<Rightarrow> string" where
  "sanitize_collection_segment v = (let t = strip_underscores (replace_runs False (py_strip v)) in if t = [] then ''tenant'' else t)"

definition tenant_collection :: "(string \<Rightarrow> string) \<Rightarrow> string \<Rightarrow> string \<Rightarrow> string" where
  "tenant_collection sha1 prefix tenant_id =
     (let p = sanitize_collection_segment prefix; t = sanitize_collection_segment tenant_id; candidate = p @ ''__'' @ t
      in if length candidate > 190 then p @ ''__'' @ take 150 t @ ''__'' @ take 10 (sha1 t) else candidate)"

section \<open>Texts\<close>

text \<open>\<open>_strip_diacritics\<close>: NFD, then ASCII only, lower case.\<close>

definition fold_char :: "char \<Rightarrow> string" where
  "fold_char c = (if (of_char c :: nat) < 128 then [lower_char c]
     else case map_of base_letters (of_char (lower_char c)) of Some b \<Rightarrow> [b] | None \<Rightarrow> [])"

definition strip_diacritics :: "string \<Rightarrow> string" where
  "strip_diacritics s = concat (map fold_char s)"

definition normalize_search_text :: "string \<Rightarrow> string" where
  "normalize_search_text s = py_strip (collapse_other False (strip_diacritics s))"

definition teams_url :: string where "teams_url = ''https://teams.microsoft.com/''"

definition url_tail_char :: "char \<Rightarrow> bool" where
  "url_tail_char c = (\<not> py_isspace c \<and> c \<noteq> CHR 0x22 \<and> c \<noteq> CHR 0x27)"

lemma length_dropWhile_drop: "length (dropWhile P (drop n xs)) \<le> length xs - n"
  using length_dropWhile_le [of P "drop n xs"] by simp

function clean_embed_text :: "string \<Rightarrow> string" where
  "clean_embed_text s = (case s of
     [] \<Rightarrow> []
   | c # r \<Rightarrow>
       (let tail = drop (length teams_url) s in
        if py_startswith s teams_url \<and> tail \<noteq> [] \<and> url_tail_char (hd tail)
        then ''teams.microsoft.com'' @ clean_embed_text (dropWhile url_tail_char tail)
        else c # clean_embed_text r))"
  by pat_completeness auto

termination
proof (relation "measure length", simp_all)
  fix s r :: string and c x
  assume "s = c # r"
  show "length (dropWhile url_tail_char (drop (length teams_url) (c # r))) < Suc (length r)"
    using length_dropWhile_drop [of url_tail_char "length teams_url" "c # r"] by (simp add: teams_url_def)
qed

declare clean_embed_text.simps [simp del]

definition record_search_name :: "pydict \<Rightarrow> string" where
  "record_search_name r =
     (let name = text_of (pget r ''name''); full = py_strip (text_of (pget r ''first_name'') @ '' '' @ text_of (pget r ''last_name''))
      in if name \<noteq> [] then name else if full \<noteq> [] then full
         else text_of (por (pget r ''account_name'') (pget r ''company'')))"

section \<open>Instants\<close>

text \<open>A UTC instant in microseconds since the year 1; outside the years 1 to 9999 the conversion raises.\<close>

definition instant_of :: "datetime \<Rightarrow> int" where
  "instant_of t = ((int (ymd_to_ord (dt_year t) (dt_month t) (dt_day t)) - 1) * 86400
     + int (dt_hour t * 3600 + dt_minute t * 60 + dt_second t)) * 1000000 + int (dt_micro t)"

definition instant_limit :: int where "instant_limit = 3652059 * 86400 * 1000000"

definition zone_micros :: "string \<Rightarrow> int" where
  "zone_micros tm = (case split_zone tm of
     (_, Some z) \<Rightarrow> (case iso_hms z of
        Some (h, mi, sec, us) \<Rightarrow> (if CHR ''-'' \<in> set tm then -1 else 1) * (int (h * 3600 + mi * 60 + sec) * 1000000 + int us)
      | None \<Rightarrow> 0)
   | _ \<Rightarrow> 0)"

definition utc_of_iso :: "string \<Rightarrow> int option" where
  "utc_of_iso s = (case (fromisoformat s, iso_separator s) of
     (Some t, Some sep) \<Rightarrow> (let u = instant_of t - zone_micros (drop (Suc sep) s) in
        if 0 \<le> u \<and> u < instant_limit then Some u else None)
   | _ \<Rightarrow> None)"

definition parse_instant :: "py \<Rightarrow> int option" where
  "parse_instant v = (let raw = text_of v in
     if raw = [] then None
     else case first_some (strptime raw) [''%Y-%m-%d %H:%M:%S'', ''%Y-%m-%dT%H:%M:%S'', ''%Y-%m-%d''] of
            Some t \<Rightarrow> Some (instant_of t)
          | None \<Rightarrow> utc_of_iso (replace_char (CHR ''Z'') ''+00:00'' raw))"

definition pad_to :: "nat \<Rightarrow> nat \<Rightarrow> string" where
  "pad_to k n = replicate (k - length (nat_digits n)) (CHR ''0'') @ nat_digits n"

definition iso_utc :: "int \<Rightarrow> string" where
  "iso_utc u = (let us = nat (u mod 1000000); total_s = u div 1000000; sec = nat (total_s mod 86400); day = nat (total_s div 86400)
     in case ord_to_ymd (day + 1) of (y, m, d) \<Rightarrow>
        pad_to 4 y @ ''-'' @ pad_to 2 m @ ''-'' @ pad_to 2 d @ ''T'' @ pad_to 2 (sec div 3600) @ '':'' @
        pad_to 2 (sec mod 3600 div 60) @ '':'' @ pad_to 2 (sec mod 60) @
        (if us = 0 then [] else ''.'' @ pad_to 6 us) @ ''+00:00'')"

definition record_modified_at :: "pydict \<Rightarrow> int option" where
  "record_modified_at r = first_some (\<lambda>k. parse_instant (pget r k)) [''date_modified'', ''modified_at'', ''date_entered'', ''created_at'']"

definition payload_modified_at :: "pydict \<Rightarrow> int option" where
  "payload_modified_at payload = (case parse_instant (pget payload ''modified_at'') of
     Some u \<Rightarrow> Some u
   | None \<Rightarrow> (case pget payload ''record'' of PDict r \<Rightarrow> record_modified_at r | _ \<Rightarrow> None))"

section \<open>Points\<close>

record index_libs =
  xl_sha1 :: "string \<Rightarrow> string"
  xl_sha256 :: "string \<Rightarrow> string"
  xl_uuid5 :: "string \<Rightarrow> string"
  xl_fresh :: "nat \<Rightarrow> string"
  xl_embed :: "string \<Rightarrow> rat list"

record index_point =
  pt_id :: string
  pt_vector :: "rat list"
  pt_payload :: pydict

record 's index_store =
  st_upsert :: "string \<Rightarrow> index_point list \<Rightarrow> 's \<Rightarrow> 's result"
  st_retrieve :: "string \<Rightarrow> string list \<Rightarrow> 's \<Rightarrow> (string \<times> pydict) list result"
  st_scroll :: "string \<Rightarrow> nat \<Rightarrow> string option \<Rightarrow> 's \<Rightarrow> (pydict list \<times> string option) result"

record index_item =
  ii_record :: pydict
  ii_record_id :: string
  ii_point_id :: string
  ii_name :: string
  ii_text :: string
  ii_modified :: "int option"
  ii_hash :: string

definition hash_style :: json_style where
  "hash_style = \<lparr>js_ascii = False, js_item_sep = '','', js_key_sep = '':''\<rparr>"

definition record_hash :: "index_libs \<Rightarrow> pydict \<Rightarrow> string" where
  "record_hash X r = (if truthy (pget r ''_record_hash'') then py_str (pget r ''_record_hash'')
     else xl_sha256 X (json_text hash_style (sort_keys (PDict (ddel ''_record_hash'' r)))))"

text \<open>\<open>i\<close> numbers the records of one call: a record without an id gets a random one.\<close>

definition prepare_item :: "index_libs \<Rightarrow> string \<Rightarrow> string \<Rightarrow> nat \<Rightarrow> pydict \<Rightarrow> index_item" where
  "prepare_item X tenant_id md i raw =
     (let r = ddel ''_record_hash'' raw;
          rid = py_str (por (pget r ''id'') (PStr (xl_fresh X i)))
      in \<lparr>ii_record = r, ii_record_id = rid, ii_point_id = xl_uuid5 X (tenant_id @ '':'' @ md @ '':'' @ rid),
          ii_name = record_search_name r, ii_text = clean_embed_text (json_text json_readable (sort_keys (PDict r))),
          ii_modified = record_modified_at r, ii_hash = record_hash X raw\<rparr>)"

definition item_point :: "index_libs \<Rightarrow> string \<Rightarrow> string \<Rightarrow> index_item \<Rightarrow> index_point" where
  "item_point X tenant_id md it = \<lparr>pt_id = ii_point_id it, pt_vector = xl_embed X (ii_text it), pt_payload =
     [(''tenant_id'', PStr tenant_id), (''module'', PStr md), (''record_id'', PStr (ii_record_id it)),
      (''record_hash'', PStr (ii_hash it)),
      (''modified_at'', case ii_modified it of Some u \<Rightarrow> PStr (iso_utc u) | None \<Rightarrow> PNone),
      (''name'', PStr (ii_name it)), (''name_ascii'', PStr (strip_diacritics (ii_name it))),
      (''text'', PStr (ii_text it)), (''text_ascii'', PStr (strip_diacritics (ii_text it))),
      (''record'', PDict (ii_record it))]\<rparr>"

section \<open>Writing records\<close>

function chunks :: "nat \<Rightarrow> 'a list \<Rightarrow> 'a list list" where
  "chunks n xs = (if xs = [] then [] else take (max 1 n) xs # chunks n (drop (max 1 n) xs))"
  by pat_completeness auto
termination by (relation "measure (\<lambda>(n, xs). length xs)") auto

declare chunks.simps [simp del]

definition note_hash :: "string \<times> pydict \<Rightarrow> (string \<times> string) list \<Rightarrow> (string \<times> string) list" where
  "note_hash ip known = (case ip of (pid, payload) \<Rightarrow>
     (let h = str_or (pget payload ''record_hash'') in
      if pid \<noteq> [] \<and> h \<noteq> [] \<and> list_all (\<lambda>k. has_key k payload) [''text_ascii'', ''name'', ''name_ascii'']
      then dput pid h known else known))"

text \<open>A failing read ends the lookup: what is not known is written again.\<close>

fun load_hashes :: "'s index_store \<Rightarrow> string \<Rightarrow> 's \<Rightarrow> string list list \<Rightarrow> (string \<times> string) list \<Rightarrow> (string \<times> string) list" where
  "load_hashes S coll s [] known = known"
| "load_hashes S coll s (c # cs) known = (case st_retrieve S coll c s of
     Inl _ \<Rightarrow> known
   | Inr found \<Rightarrow> load_hashes S coll s cs (fold note_hash found known))"

definition unchanged_item :: "(string \<times> string) list \<Rightarrow> index_item \<Rightarrow> bool" where
  "unchanged_item known it = (map_of known (ii_point_id it) = Some (ii_hash it))"

fun write_items ::
  "'s index_store \<Rightarrow> string \<Rightarrow> nat \<Rightarrow> (index_item \<Rightarrow> index_point) \<Rightarrow> (string \<times> string) list \<Rightarrow> index_item list
     \<Rightarrow> index_point list \<Rightarrow> nat \<Rightarrow> 's \<Rightarrow> nat result \<times> 's" where
  "write_items S coll batch mk known [] points inserted s =
     (if points = [] then (Inr inserted, s)
      else (case st_upsert S coll points s of
          Inl e \<Rightarrow> (Inl e, s) | Inr s' \<Rightarrow> (Inr (inserted + length points), s')))"
| "write_items S coll batch mk known (it # its) points inserted s =
     (if unchanged_item known it then write_items S coll batch mk known its points inserted s
      else (let points' = points @ [mk it] in
        if length points' \<ge> batch
        then (case st_upsert S coll points' s of
            Inl e \<Rightarrow> (Inl e, s)
          | Inr s' \<Rightarrow> write_items S coll batch mk known its [] (inserted + length points') s')
        else write_items S coll batch mk known its points' inserted s))"

definition prepare_items :: "index_libs \<Rightarrow> string \<Rightarrow> string \<Rightarrow> pydict list \<Rightarrow> index_item list" where
  "prepare_items X tenant_id md records = map (\<lambda>(i, r). prepare_item X tenant_id md i r) (enumerate 0 records)"

definition ingest_records ::
  "index_libs \<Rightarrow> 's index_store \<Rightarrow> string \<Rightarrow> nat \<Rightarrow> string \<Rightarrow> string \<Rightarrow> pydict list \<Rightarrow> 's \<Rightarrow> nat result \<times> 's" where
  "ingest_records X S prefix batch tenant_id md records s =
     (let coll = tenant_collection (xl_sha1 X) prefix tenant_id;
          items = prepare_items X tenant_id md records;
          known = load_hashes S coll s (chunks batch (map ii_point_id items)) []
      in write_items S coll (max 1 batch) (item_point X tenant_id md) known items [] 0 s)"

section \<open>Reading the index\<close>

text \<open>
  \<open>iter_payloads\<close>: page after page until the database gives no further offset or enough points were
  read; a database that never stops giving offsets is the case without a result.
\<close>

fun iter_payloads ::
  "nat \<Rightarrow> 's index_store \<Rightarrow> string \<Rightarrow> string \<Rightarrow> nat \<Rightarrow> nat option \<Rightarrow> string option \<Rightarrow> nat \<Rightarrow> 's \<Rightarrow> pydict list result option" where
  "iter_payloads 0 S coll md page max_scanned offset scanned s = None"
| "iter_payloads (Suc fuel) S coll md page max_scanned offset scanned s =
     (case st_scroll S coll (max 1 page) offset s of
        Inl e \<Rightarrow> Some (Inl e)
      | Inr (points, next_offset) \<Rightarrow>
          (let wanted = py_lower (py_strip md); scanned' = scanned + length points;
               mine = filter (\<lambda>p. wanted = [] \<or> py_lower (text_of (pget p ''module'')) = wanted) points
           in if points = [] then Some (Inr [])
              else if next_offset = None \<or> (case max_scanned of None \<Rightarrow> False | Some m \<Rightarrow> m \<le> scanned') then Some (Inr mine)
              else map_option (\<lambda>r. res_bind r (\<lambda>rest. Inr (mine @ rest)))
                (iter_payloads fuel S coll md page max_scanned next_offset scanned' s)))"

definition latest_modified :: "pydict list \<Rightarrow> int option" where
  "latest_modified payloads = fold (\<lambda>p latest. case payload_modified_at p of
     None \<Rightarrow> latest
   | Some u \<Rightarrow> (case latest of None \<Rightarrow> Some u | Some l \<Rightarrow> if u > l then Some u else latest)) payloads None"

section \<open>Ingest from the CRM\<close>

definition index_records :: "py \<Rightarrow> pydict list" where
  "index_records v = (case v of
     PDict d \<Rightarrow>
       (let nested = (\<lambda>k. pget (dict_or_empty (pget d k)) ''records'') in
        if is_list (pget d ''records'') then dicts_of (list_or_empty (pget d ''records''))
        else if is_list (pget d ''entry_list'') then dicts_of (list_or_empty (pget d ''entry_list''))
        else if is_list (nested ''result'') then dicts_of (list_or_empty (nested ''result''))
        else dicts_of (list_or_empty (nested ''data'')))
   | PList xs \<Rightarrow> dicts_of xs
   | _ \<Rightarrow> [])"

definition ingest_payload :: "int \<Rightarrow> int \<Rightarrow> pydict" where
  "ingest_payload offset sz = [(''query'', PStr []), (''q'', PStr []), (''offset'', PInt offset), (''max_results'', PInt sz),
     (''order'', PList []), (''clean_records'', PBool False), (''include_field_names'', PBool False),
     (''include_hash'', PBool True), (''hash_algorithm'', PStr ''sha256'')]"

definition source_count :: "py \<Rightarrow> nat \<Rightarrow> int" where
  "source_count reply n = (let c = (case pget (dict_or_empty reply) ''source_record_count'' of
       PInt i \<Rightarrow> i | PBool b \<Rightarrow> (if b then 1 else 0) | _ \<Rightarrow> int n)
     in if c < 0 then int n else c)"

text \<open>The records at or after the watermark, or without a time; whether an older one was met.\<close>

definition select_changed :: "int option \<Rightarrow> pydict list \<Rightarrow> pydict list \<times> bool" where
  "select_changed watermark records = (case watermark of
     None \<Rightarrow> (records, False)
   | Some w \<Rightarrow> (let fresh = (\<lambda>r. case record_modified_at r of None \<Rightarrow> True | Some u \<Rightarrow> w \<le> u)
       in (filter fresh records, list_ex (\<lambda>r. \<not> fresh r) records)))"

definition crm_error :: "py \<Rightarrow> bool" where
  "crm_error reply = (is_dict reply \<and> py_lower (str_or (pget (dict_or_empty reply) ''status'')) = ''error'')"

text \<open>The result, the state of the index and the number of requests made.\<close>

fun ingest_pages ::
  "nat \<Rightarrow> (pydict list \<Rightarrow> 's \<Rightarrow> nat result \<times> 's) \<Rightarrow> (nat \<Rightarrow> pydict \<Rightarrow> py result) \<Rightarrow> int \<Rightarrow> int option
     \<Rightarrow> nat \<Rightarrow> int \<Rightarrow> int option \<Rightarrow> nat \<Rightarrow> 's \<Rightarrow> (nat result \<times> 's \<times> nat) option" where
  "ingest_pages 0 ingest srv page_size watermark i offset remaining done_now s = None"
| "ingest_pages (Suc fuel) ingest srv page_size watermark i offset remaining done_now s =
     (if remaining = Some 0 then Some (Inr done_now, s, i)
      else (let sz = (case remaining of None \<Rightarrow> page_size | Some r \<Rightarrow> min page_size r) in
        case srv i (ingest_payload offset sz) of
          Inl e \<Rightarrow> Some (Inl e, s, Suc i)
        | Inr reply \<Rightarrow>
            (let records = index_records reply; fetched = source_count reply (length records);
                 (selected, reached) = select_changed watermark records
             in if records = [] then Some (if crm_error reply then Inl (OtherError ''RuntimeError'') else Inr done_now, s, Suc i)
                else (case (if selected = [] then (Inr 0, s) else ingest selected s) of
                    (Inl e, s') \<Rightarrow> Some (Inl e, s', Suc i)
                  | (Inr n, s') \<Rightarrow>
                      if (watermark \<noteq> None \<and> reached) \<or> fetched < sz then Some (Inr (done_now + n), s', Suc i)
                      else ingest_pages fuel ingest srv page_size watermark (Suc i) (offset + fetched)
                        (map_option (\<lambda>r. r - int n) remaining) (done_now + n) s'))))"

definition ingest_from_crm ::
  "nat \<Rightarrow> index_libs \<Rightarrow> 's index_store \<Rightarrow> string \<Rightarrow> nat \<Rightarrow> (nat \<Rightarrow> pydict \<Rightarrow> py result) \<Rightarrow> string \<Rightarrow> string
     \<Rightarrow> int option \<Rightarrow> int \<Rightarrow> bool \<Rightarrow> 's \<Rightarrow> (nat result \<times> 's \<times> nat) option" where
  "ingest_from_crm fuel X S prefix batch srv tenant_id md limit page_size incremental s =
     Option.bind (if incremental
         then map_option (\<lambda>r. res_bind r (\<lambda>ps. Inr (latest_modified ps)))
           (iter_payloads fuel S (tenant_collection (xl_sha1 X) prefix tenant_id) md 512 None None 0 s)
         else Some (Inr None))
       (\<lambda>w. case w of
          Inl e \<Rightarrow> Some (Inl e, s, 0)
        | Inr watermark \<Rightarrow> ingest_pages fuel (ingest_records X S prefix batch tenant_id md) srv (max 1 (min page_size 500)) watermark
            0 0 (map_option (max 0) limit) 0 s)"

section \<open>Lemmas\<close>

text \<open>
  The documented behaviour of the database: a write replaces the points with the ids it names and
  leaves all others, and a read finds exactly the points of the ids asked for that are there. \<open>look\<close>
  is the content of a collection.
\<close>

definition points_map :: "index_point list \<Rightarrow> string \<Rightarrow> pydict option" where
  "points_map ps = map_of (rev (map (\<lambda>p. (pt_id p, pt_payload p)) ps))"

definition store_ok :: "'s index_store \<Rightarrow> (string \<Rightarrow> 's \<Rightarrow> string \<Rightarrow> pydict option) \<Rightarrow> bool" where
  "store_ok S look \<longleftrightarrow>
     (\<forall>c ps s s'. st_upsert S c ps s = Inr s' \<longrightarrow> look c s' = look c s ++ points_map ps \<and> (\<forall>c'. c' \<noteq> c \<longrightarrow> look c' s' = look c' s)) \<and>
     (\<forall>c ids s found. st_retrieve S c ids s = Inr found \<longrightarrow>
        (\<forall>i p. (i, p) \<in> set found \<longleftrightarrow> i \<in> set ids \<and> look c s i = Some p))"

lemma points_map_append: "points_map (a @ b) = points_map a ++ points_map b"
  by (simp add: points_map_def)

lemma points_map_Nil [simp]: "points_map [] = Map.empty"
  by (simp add: points_map_def)

lemma write_items_effect:
  assumes ok: "store_ok S look"
  shows "write_items S c batch mk known its points n s = (Inr m, s') \<Longrightarrow>
    look c s' = look c s ++ points_map (points @ map mk (filter (\<lambda>it. \<not> unchanged_item known it) its)) \<and>
    (\<forall>c'. c' \<noteq> c \<longrightarrow> look c' s' = look c' s) \<and>
    m = n + length points + length (filter (\<lambda>it. \<not> unchanged_item known it) its)"
proof (induction its arbitrary: points n s)
  case Nil
  with ok show ?case by (auto simp: store_ok_def split: if_splits sum.splits)
next
  case (Cons it its)
  show ?case
  proof (cases "unchanged_item known it")
    case True
    with Cons show ?thesis by simp
  next
    case False
    let ?ps = "points @ [mk it]"
    show ?thesis
    proof (cases "length ?ps \<ge> batch")
      case True
      with False Cons.prems obtain s1 where up: "st_upsert S c ?ps s = Inr s1"
        and rest: "write_items S c batch mk known its [] (n + length ?ps) s1 = (Inr m, s')"
        by (auto simp: Let_def split: sum.splits)
      from ok up have l: "look c s1 = look c s ++ points_map ?ps" "\<And>c'. c' \<noteq> c \<Longrightarrow> look c' s1 = look c' s"
        by (auto simp: store_ok_def)
      from Cons.IH [OF rest] l False show ?thesis
        by (simp add: points_map_append points_map_append [of "[mk it]" "map mk (filter (\<lambda>it. \<not> unchanged_item known it) its)", simplified])
    next
      case less: False
      with False Cons.prems have "write_items S c batch mk known its ?ps n s = (Inr m, s')"
        by (simp add: Let_def)
      from Cons.IH [OF this] False show ?thesis by simp
    qed
  qed
qed

text \<open>A known hash is the hash of a complete point of the collection.\<close>

definition complete_point :: "pydict \<Rightarrow> string \<Rightarrow> bool" where
  "complete_point payload h \<longleftrightarrow> str_or (pget payload ''record_hash'') = h \<and> h \<noteq> [] \<and>
     list_all (\<lambda>k. has_key k payload) [''text_ascii'', ''name'', ''name_ascii'']"

lemma note_hash_sound:
  "(\<And>i h. map_of known i = Some h \<Longrightarrow> \<exists>p. look i = Some p \<and> complete_point p h) \<Longrightarrow>
   (\<And>i p. (i, p) \<in> set found \<Longrightarrow> look i = Some p) \<Longrightarrow>
   map_of (fold note_hash found known) i = Some h \<Longrightarrow> \<exists>p. look i = Some p \<and> complete_point p h"
proof (induction found arbitrary: known)
  case (Cons ip found)
  show ?case
  proof (rule Cons.IH [OF _ _ Cons.prems(3) [simplified]])
    fix j g
    assume "map_of (note_hash ip known) j = Some g"
    with Cons.prems(1) Cons.prems(2) [of "fst ip" "snd ip"] show "\<exists>p. look j = Some p \<and> complete_point p g"
      by (cases ip) (auto simp: note_hash_def Let_def complete_point_def split: if_splits)
  next
    fix j p
    assume "(j, p) \<in> set found"
    with Cons.prems(2) show "look j = Some p" by simp
  qed
qed simp

lemma load_hashes_sound:
  assumes ok: "store_ok S look"
  shows "(\<And>i h. map_of known i = Some h \<Longrightarrow> \<exists>p. look c s i = Some p \<and> complete_point p h) \<Longrightarrow>
    map_of (load_hashes S c s cs known) i = Some h \<Longrightarrow> \<exists>p. look c s i = Some p \<and> complete_point p h"
proof (induction cs arbitrary: known)
  case (Cons ids cs)
  show ?case
  proof (cases "st_retrieve S c ids s")
    case (Inl e)
    with Cons.prems show ?thesis by simp
  next
    case (Inr found)
    with ok have f: "\<And>i p. (i, p) \<in> set found \<Longrightarrow> look c s i = Some p" by (auto simp: store_ok_def)
    from Inr Cons.prems(2) have m: "map_of (load_hashes S c s cs (fold note_hash found known)) i = Some h" by simp
    show ?thesis
      by (rule Cons.IH [OF _ m]) (rule note_hash_sound [OF Cons.prems(1) f])
  qed
qed simp

lemma concat_chunks: "concat (chunks n xs) = xs"
proof (induction n xs rule: chunks.induct)
  case (1 n xs)
  then show ?case by (subst chunks.simps) auto
qed

lemma note_hash_complete:
  assumes f: "\<And>i p. (i, p) \<in> set found \<Longrightarrow> look i = Some p"
    and i: "look i = Some p" "complete_point p h" "i \<noteq> []" and m: "map_of known i = Some h \<or> (i, p) \<in> set found"
  shows "map_of (fold note_hash found known) i = Some h"
  using f m
proof (induction found arbitrary: known)
  case (Cons ip found)
  obtain j q where ip: "ip = (j, q)" by (cases ip)
  have q: "j = i \<Longrightarrow> q = p" using Cons.prems(1) [of j q] i(1) ip by auto
  have "map_of (note_hash ip known) i = Some h" if "map_of known i = Some h \<or> j = i"
    using that q i(2,3) by (auto simp: ip note_hash_def Let_def complete_point_def)
  with Cons.IH [of "note_hash ip known"] Cons.prems ip show ?case by auto
qed simp

lemma load_hashes_complete:
  assumes ok: "store_ok S look" and reads: "\<And>ids. \<exists>found. st_retrieve S c ids s = Inr found"
    and i: "look c s i = Some p" "complete_point p h" "i \<noteq> []"
  shows "map_of known i = Some h \<or> i \<in> set (concat cs) \<Longrightarrow> map_of (load_hashes S c s cs known) i = Some h"
proof (induction cs arbitrary: known)
  case (Cons ids cs)
  obtain found where r: "st_retrieve S c ids s = Inr found" using reads by blast
  with ok have f: "\<And>j q. (j, q) \<in> set found \<longleftrightarrow> j \<in> set ids \<and> look c s j = Some q" by (auto simp: store_ok_def)
  have "map_of (fold note_hash found known) i = Some h" if "map_of known i = Some h \<or> i \<in> set ids"
    using that f i by (intro note_hash_complete [where look = "look c s" and p = p]) auto
  with Cons r show ?case by auto
qed simp

lemma points_map_distinct:
  "distinct (map pt_id ps) \<Longrightarrow> p \<in> set ps \<Longrightarrow> points_map ps (pt_id p) = Some (pt_payload p)"
  unfolding points_map_def
  by (rule map_of_is_SomeI) (auto simp: rev_map [symmetric] comp_def image_iff)

lemma points_map_other: "i \<notin> pt_id ` set ps \<Longrightarrow> points_map ps i = None"
  by (auto simp: points_map_def map_of_eq_None_iff image_iff)

definition point_fresh :: "pydict \<Rightarrow> string \<Rightarrow> bool" where
  "point_fresh payload h \<longleftrightarrow> str_or (pget payload ''record_hash'') = h \<and>
     list_all (\<lambda>k. has_key k payload) [''text_ascii'', ''name'', ''name_ascii'']"

lemma item_point_fresh: "point_fresh (pt_payload (item_point X t md it)) (ii_hash it)"
  by (cases "ii_hash it") (simp_all add: point_fresh_def item_point_def pget_Cons str_or_def has_key_def)

lemma item_point_id [simp]: "pt_id (item_point X t md it) = ii_point_id it"
  by (simp add: item_point_def)

lemma ingest_records_effect:
  assumes ok: "store_ok S look" and d: "distinct (map ii_point_id (prepare_items X tenant md records))"
    and run: "ingest_records X S prefix batch tenant md records s = (Inr m, s')"
  shows "\<And>it. it \<in> set (prepare_items X tenant md records) \<Longrightarrow>
      \<exists>p. look (tenant_collection (xl_sha1 X) prefix tenant) s' (ii_point_id it) = Some p \<and> point_fresh p (ii_hash it)"
    and "\<And>i. i \<notin> ii_point_id ` set (prepare_items X tenant md records) \<Longrightarrow>
      look (tenant_collection (xl_sha1 X) prefix tenant) s' i = look (tenant_collection (xl_sha1 X) prefix tenant) s i"
    and "\<And>c. c \<noteq> tenant_collection (xl_sha1 X) prefix tenant \<Longrightarrow> look c s' = look c s"
    and "m \<le> length records"
proof -
  let ?c = "tenant_collection (xl_sha1 X) prefix tenant" and ?its = "prepare_items X tenant md records"
  let ?known = "load_hashes S ?c s (chunks batch (map ii_point_id ?its)) []"
  let ?mk = "item_point X tenant md"
  let ?new = "map ?mk (filter (\<lambda>it. \<not> unchanged_item ?known it) ?its)"
  from run have "write_items S ?c (max 1 batch) ?mk ?known ?its [] 0 s = (Inr m, s')"
    by (simp add: ingest_records_def Let_def)
  from write_items_effect [OF ok this]
  have l: "look ?c s' = look ?c s ++ points_map ?new" and o: "\<forall>c'. c' \<noteq> ?c \<longrightarrow> look c' s' = look c' s"
    and m: "m = length (filter (\<lambda>it. \<not> unchanged_item ?known it) ?its)" by auto
  have dn: "distinct (map pt_id ?new)"
    using d by (simp add: comp_def distinct_map_filter)
  show "m \<le> length records" using m by (auto simp: prepare_items_def intro: le_trans [OF length_filter_le])
  show "\<And>c. c \<noteq> ?c \<Longrightarrow> look c s' = look c s" using o by blast
  show "look ?c s' i = look ?c s i" if "i \<notin> ii_point_id ` set ?its" for i
  proof -
    from that have "points_map ?new i = None" by (intro points_map_other) auto
    with l show ?thesis by (simp add: map_add_def)
  qed
  show "\<exists>p. look ?c s' (ii_point_id it) = Some p \<and> point_fresh p (ii_hash it)" if it: "it \<in> set ?its" for it
  proof (cases "unchanged_item ?known it")
    case False
    with it have "?mk it \<in> set ?new" by simp
    from points_map_distinct [OF dn this] l item_point_fresh show ?thesis by (auto simp: map_add_def)
  next
    case True
    then have "map_of ?known (ii_point_id it) = Some (ii_hash it)" by (simp add: unchanged_item_def)
    from load_hashes_sound [OF ok _ this] obtain p
      where p: "look ?c s (ii_point_id it) = Some p" "complete_point p (ii_hash it)" by auto
    have "ii_point_id it \<notin> pt_id ` set ?new"
      using True d it by (auto simp: distinct_map dest: inj_onD)
    then have "points_map ?new (ii_point_id it) = None" by (rule points_map_other)
    with l p show ?thesis by (auto simp: map_add_def point_fresh_def complete_point_def)
  qed
qed

text \<open>Records that come with an id are prepared the same way whatever random ids are drawn.\<close>

definition item_of :: "index_libs \<Rightarrow> string \<Rightarrow> string \<Rightarrow> pydict \<Rightarrow> index_item" where
  "item_of X tenant md r = prepare_item X tenant md 0 r"

lemma prepare_item_of: "truthy (pget r ''id'') \<Longrightarrow> prepare_item X tenant md i r = item_of X tenant md r"
  by (simp add: item_of_def prepare_item_def Let_def por_def)

lemma prepare_items_of:
  "list_all (\<lambda>r. truthy (pget r ''id'')) rows \<Longrightarrow> prepare_items X tenant md rows = map (item_of X tenant md) rows"
  by (auto simp: prepare_items_def list_all_length enumerate_eq_zip intro!: nth_equalityI prepare_item_of)

lemma item_of_fresh: "truthy (pget r ''id'') \<Longrightarrow> item_of (X\<lparr>xl_fresh := f\<rparr>) tenant md r = item_of X tenant md r"
  by (simp add: item_of_def prepare_item_def record_hash_def Let_def por_def)

definition proper_index_rows :: "index_libs \<Rightarrow> string \<Rightarrow> string \<Rightarrow> pydict list \<Rightarrow> bool" where
  "proper_index_rows X tenant md rows \<longleftrightarrow> list_all (\<lambda>r. truthy (pget r ''id'')) rows \<and>
     distinct (map (\<lambda>r. ii_point_id (item_of X tenant md r)) rows)"

lemma write_items_unchanged:
  "list_all (unchanged_item known) its \<Longrightarrow> write_items S c batch mk known its [] n s = (Inr n, s)"
  by (induction its) auto

lemma ingest_again:
  assumes ok: "store_ok S look" and reads: "\<And>c ids. \<exists>found. st_retrieve S c ids s' = Inr found"
    and rows: "proper_index_rows X tenant md rows"
    and ne: "list_all (\<lambda>r. ii_point_id (item_of X tenant md r) \<noteq> [] \<and> ii_hash (item_of X tenant md r) \<noteq> []) rows"
    and run: "ingest_records X S prefix batch tenant md rows s = (Inr m, s')"
  shows "ingest_records (X\<lparr>xl_fresh := f\<rparr>) S prefix batch tenant md rows s' = (Inr 0, s')"
proof -
  let ?c = "tenant_collection (xl_sha1 X) prefix tenant" and ?X = "X\<lparr>xl_fresh := f\<rparr>"
  let ?its = "map (item_of X tenant md) rows"
  from rows have ids: "list_all (\<lambda>r. truthy (pget r ''id'')) rows" and d: "distinct (map ii_point_id ?its)"
    by (simp_all add: proper_index_rows_def comp_def)
  have its: "prepare_items X tenant md rows = ?its" by (rule prepare_items_of [OF ids])
  have its': "prepare_items ?X tenant md rows = ?its"
    using ids by (simp add: prepare_items_of list_all_iff item_of_fresh)
  let ?known = "load_hashes S ?c s' (chunks batch (map ii_point_id ?its)) []"
  have "unchanged_item ?known it" if it: "it \<in> set ?its" for it
  proof -
    from ingest_records_effect(1) [OF ok _ run] d it obtain p
      where p: "look ?c s' (ii_point_id it) = Some p" "point_fresh p (ii_hash it)" unfolding its by blast
    from it ne have n: "ii_point_id it \<noteq> []" "ii_hash it \<noteq> []" by (auto simp: list_all_iff)
    with p have "complete_point p (ii_hash it)" by (simp add: complete_point_def point_fresh_def)
    moreover from it have "ii_point_id it \<in> set (concat (chunks batch (map ii_point_id ?its)))"
      by (simp only: concat_chunks set_map) (rule imageI)
    ultimately show ?thesis
      unfolding unchanged_item_def using load_hashes_complete [OF ok reads p(1) _ n(1)] by blast
  qed
  then have "list_all (unchanged_item ?known) ?its" by (simp add: list_all_iff)
  then show ?thesis
    using write_items_unchanged by (simp add: ingest_records_def Let_def its')
qed

text \<open>A CRM that serves the slices of its rows, and a database whose writes succeed.\<close>

definition serves_index :: "(nat \<Rightarrow> pydict \<Rightarrow> py result) \<Rightarrow> pydict list \<Rightarrow> bool" where
  "serves_index srv rows \<longleftrightarrow> (\<forall>i k l. 0 < l \<longrightarrow> l \<le> 500 \<longrightarrow> (\<exists>env. srv i (ingest_payload (int k) (int l)) = Inr (PDict env) \<and>
     pget env ''records'' = PList (map PDict (take l (drop k rows))) \<and>
     pget env ''source_record_count'' \<in> {PNone, PInt (int (length (take l (drop k rows))))} \<and>
     \<not> crm_error (PDict env)))"

lemma write_items_total:
  assumes up: "\<And>c ps s. \<exists>s'. st_upsert S c ps s = Inr s'"
  shows "\<exists>n s'. write_items S c batch mk known its points m s = (Inr n, s')"
proof (induction its arbitrary: points m s)
  case Nil
  from up [of c points s] show ?case by auto
next
  case (Cons it its)
  from up [of c "points @ [mk it]" s] obtain s' where "st_upsert S c (points @ [mk it]) s = Inr s'" by blast
  with Cons show ?case by (simp add: Let_def)
qed

lemma ingest_records_total:
  "(\<And>c ps s. \<exists>s'. st_upsert S c ps s = Inr s') \<Longrightarrow> \<exists>n s'. ingest_records X S prefix batch tenant md rows s = (Inr n, s')"
  by (simp add: ingest_records_def Let_def write_items_total)

lemma ingest_pages_serves:
  fixes prefix :: string
  assumes ok: "store_ok S look" and up: "\<And>c ps s. \<exists>s'. st_upsert S c ps s = Inr s'"
    and rows: "proper_index_rows X tenant md rows" and srv: "serves_index srv rows" and l: "0 < l" "l \<le> 500"
  defines "c \<equiv> tenant_collection (xl_sha1 X) prefix tenant"
  defines "up_to_date \<equiv> \<lambda>s r. \<exists>p. look c s (ii_point_id (item_of X tenant md r)) = Some p \<and> point_fresh p (ii_hash (item_of X tenant md r))"
  shows "list_all (up_to_date s) (take k rows) \<Longrightarrow> k \<le> length rows \<Longrightarrow> (length rows - k) div l < fuel \<Longrightarrow>
    \<exists>n s' j. ingest_pages fuel (ingest_records X S prefix batch tenant md) srv (int l) None i (int k) None m s = Some (Inr n, s', j)
      \<and> list_all (up_to_date s') rows \<and> j \<le> i + (length rows - k) div l + 1"
proof (induction fuel arbitrary: i k m s)
  case (Suc fuel)
  let ?bs = "take l (drop k rows)"
  from srv obtain env where env: "srv i (ingest_payload (int k) (int l)) = Inr (PDict env)"
      "pget env ''records'' = PList (map PDict ?bs)"
      "pget env ''source_record_count'' \<in> {PNone, PInt (int (length ?bs))}" "\<not> crm_error (PDict env)"
    using l unfolding serves_index_def by blast
  have recs: "index_records (PDict env) = ?bs" by (simp add: index_records_def Let_def env(2))
  have cnt: "source_count (PDict env) (length ?bs) = int (length ?bs)"
    using env(3) by (auto simp: source_count_def Let_def)
  have sel: "select_changed None ?bs = (?bs, False)" by (simp add: select_changed_def)
  show ?case
  proof (cases "?bs = []")
    case True
    then have "k = length rows" using l Suc.prems(2) by simp
    with True Suc.prems(1) env recs show ?thesis by (simp add: select_changed_def Let_def)
  next
    case ne: False
    obtain n s' where run: "ingest_records X S prefix batch tenant md ?bs s = (Inr n, s')"
      using ingest_records_total [OF up] by blast
    have sub: "set ?bs \<subseteq> set rows" by (auto dest: in_set_takeD in_set_dropD)
    have ids: "list_all (\<lambda>r. truthy (pget r ''id'')) ?bs"
      using rows sub by (auto simp: proper_index_rows_def list_all_iff)
    let ?pid = "\<lambda>r. ii_point_id (item_of X tenant md r)"
    have "rows = take k rows @ ?bs @ drop (k + l) rows"
      by (metis add.commute append_take_drop_id drop_drop)
    then have "distinct (map ?pid (take k rows @ ?bs @ drop (k + l) rows))"
      using rows by (simp add: proper_index_rows_def)
    then have db: "distinct (map ?pid ?bs)" and disj: "?pid ` set (take k rows) \<inter> ?pid ` set ?bs = {}" by auto
    have its: "prepare_items X tenant md ?bs = map (item_of X tenant md) ?bs" by (rule prepare_items_of [OF ids])
    have d: "distinct (map ii_point_id (prepare_items X tenant md ?bs))" using db by (simp add: its comp_def)
    have new: "up_to_date s' r" if "r \<in> set ?bs" for r
      using ingest_records_effect(1) [OF ok d run, of "item_of X tenant md r"] that
      by (simp add: its up_to_date_def c_def)
    have old: "up_to_date s' r" if "r \<in> set (take k rows)" for r
    proof -
      from disj that have "?pid r \<notin> ii_point_id ` set (prepare_items X tenant md ?bs)" by (auto simp: its)
      from ingest_records_effect(2) [OF ok d run this] Suc.prems(1) that
      show ?thesis by (auto simp: up_to_date_def c_def list_all_iff)
    qed
    have all: "list_all (up_to_date s') (take (k + length ?bs) rows)"
      using new old by (auto simp: list_all_iff take_add min_def dest: in_set_takeD split: if_splits)
    show ?thesis
    proof (cases "length ?bs < l")
      case True
      then have "length rows \<le> k + length ?bs" by simp
      with all have upd: "list_all (up_to_date s') rows" by simp
      from True cnt have "source_count (PDict env) (length ?bs) < int l" by linarith
      with ne env(1) recs run have "ingest_pages (Suc fuel) (ingest_records X S prefix batch tenant md) srv (int l) None i (int k) None m s
          = Some (Inr (m + n), s', Suc i)"
        by (simp add: select_changed_def Let_def del: length_take take_eq_Nil)
      with upd show ?thesis by auto
    next
      case False
      then have lb: "length ?bs = l" by simp
      with l have kl: "k + l \<le> length rows" by simp
      have dv: "(length rows - k) div l = Suc ((length rows - (k + l)) div l)"
        using kl l(1) by (metis add.commute diff_diff_left le_add_diff_inverse2 add_le_imp_le_diff div_add_self2 Suc_eq_plus1 less_not_refl)
      with Suc.prems(3) have fu: "(length rows - (k + l)) div l < fuel" by simp
      from Suc.IH [OF all [unfolded lb] kl fu, of "Suc i" "m + n"] obtain n' s2 j
        where "ingest_pages fuel (ingest_records X S prefix batch tenant md) srv (int l) None (Suc i) (int (k + l)) None (m + n) s'
            = Some (Inr n', s2, j)"
          "list_all (up_to_date s2) rows" "j \<le> Suc i + (length rows - (k + l)) div l + 1" by blast
      with ne env(1) recs cnt run lb dv show ?thesis by (simp add: select_changed_def Let_def)
    qed
  qed
qed simp

section \<open>Properties\<close>


text \<open>A database as a function of collection and point id, the newest write of an id first.\<close>

type_synonym demo_db = "(string \<times> string \<times> pydict) list"

definition demo_look :: "string \<Rightarrow> demo_db \<Rightarrow> string \<Rightarrow> pydict option" where
  "demo_look c db i = map_of (map (\<lambda>(c', i', p). ((c', i'), p)) db) (c, i)"

definition demo_store :: "demo_db index_store" where
  "demo_store = \<lparr>st_upsert = (\<lambda>c ps db. Inr (rev (map (\<lambda>p. (c, pt_id p, pt_payload p)) ps) @ db)),
     st_retrieve = (\<lambda>c ids db. Inr (List.map_filter (\<lambda>i. map_option (Pair i) (demo_look c db i)) ids)),
     st_scroll = (\<lambda>c n off db. Inr (map (\<lambda>(c', i, p). p) (filter (\<lambda>(c', i, p). c' = c) db), None))\<rparr>"

lemma demo_look_append:
  "demo_look c (rev (map (\<lambda>p. (d, pt_id p, pt_payload p)) ps) @ db) i =
     (if c = d then (demo_look c db ++ points_map ps) i else demo_look c db i)"
proof -
  have "map_of (map (\<lambda>(c', i', p). ((c', i'), p)) (rev (map (\<lambda>p. (d, pt_id p, pt_payload p)) ps))) (c, i)
      = (if c = d then points_map ps i else None)" for ps
    by (induction ps rule: rev_induct) (auto simp: points_map_def)
  then show ?thesis by (auto simp: demo_look_def map_add_def split: option.splits)
qed

lemma demo_store_ok: "store_ok demo_store demo_look"
  by (auto simp: store_ok_def demo_store_def demo_look_append fun_eq_iff List.map_filter_def image_iff; metis)

definition demo_libs :: index_libs where
  "demo_libs = \<lparr>xl_sha1 = (\<lambda>s. s), xl_sha256 = (\<lambda>s. s), xl_uuid5 = (\<lambda>s. s), xl_fresh = (\<lambda>i. nat_digits i), xl_embed = (\<lambda>_. [])\<rparr>"

definition demo_rows :: "pydict list" where
  "demo_rows = [[(''id'', PStr ''a1''), (''name'', PStr ''Acme'')], [(''id'', PStr ''a2''), (''name'', PStr ''Beta''), (''_record_hash'', PStr ''h2'')],
     [(''id'', PStr ''a3''), (''name'', PStr ''Gama'')]]"


text \<open>
  ingesting the same records a second time writes nothing: every record comes with an id, no two
  with the same point id, and neither ids nor hashes are empty, so that all are found unchanged in the
  state the first run left, whatever was in the collection before.
\<close>

theorem ingest_idempotent:
  assumes "store_ok S look" and "\<And>c ids. \<exists>found. st_retrieve S c ids s' = Inr found"
    and "proper_index_rows X tenant md rows"
    and "list_all (\<lambda>r. ii_point_id (item_of X tenant md r) \<noteq> [] \<and> ii_hash (item_of X tenant md r) \<noteq> []) rows"
    and "ingest_records X S prefix batch tenant md rows s = (Inr m, s')"
  shows "ingest_records (X\<lparr>xl_fresh := f\<rparr>) S prefix batch tenant md rows s' = (Inr 0, s')"
  by (rule ingest_again [OF assms])

lemma demo_rows_proper: "proper_index_rows demo_libs ''t1'' ''accounts'' demo_rows" by code_simp

theorem ingest_idempotent_witness:
  "(let s' = snd (ingest_records demo_libs demo_store ''crm'' 2 ''t1'' ''accounts'' demo_rows [])
    in ingest_records (demo_libs\<lparr>xl_fresh := (\<lambda>_. ''x'')\<rparr>) demo_store ''crm'' 2 ''t1'' ''accounts'' demo_rows s' = (Inr 0, s'))"
  unfolding Let_def
proof -
  let ?r = "ingest_records demo_libs demo_store ''crm'' 2 ''t1'' ''accounts'' demo_rows []"
  have ne: "list_all (\<lambda>r. ii_point_id (item_of demo_libs ''t1'' ''accounts'' r) \<noteq> [] \<and> ii_hash (item_of demo_libs ''t1'' ''accounts'' r) \<noteq> []) demo_rows"
    by code_simp
  have "fst ?r = Inr 3" by code_simp
  then have run: "?r = (Inr 3, snd ?r)" by (metis prod.collapse)
  have reads: "\<exists>found. st_retrieve demo_store c ids (snd ?r) = Inr found" for c ids by (simp add: demo_store_def)
  from ingest_idempotent [OF demo_store_ok reads demo_rows_proper ne run]
  show "ingest_records (demo_libs\<lparr>xl_fresh := (\<lambda>_. ''x'')\<rparr>) demo_store ''crm'' 2 ''t1'' ''accounts'' demo_rows (snd ?r) = (Inr 0, snd ?r)" .
qed

text \<open>
  a full ingest from a CRM that serves the slices of its rows ends, and then every row is in
  the index with its hash: one request for each full page and at most one more. The database only has
  to accept the writes.
\<close>

theorem full_ingest_complete:
  assumes "store_ok S look" and "\<And>c ps s. \<exists>s'. st_upsert S c ps s = Inr s'"
    and "proper_index_rows X tenant md rows" and "serves_index srv rows" and "0 < l" and "l \<le> 500"
    and "length rows div l < fuel"
  shows "\<exists>n s' j. ingest_from_crm fuel X S prefix batch srv tenant md None (int l) False s = Some (Inr n, s', j) \<and>
    j \<le> length rows div l + 1 \<and>
    list_all (\<lambda>r. \<exists>p. look (tenant_collection (xl_sha1 X) prefix tenant) s' (ii_point_id (item_of X tenant md r)) = Some p \<and>
      point_fresh p (ii_hash (item_of X tenant md r))) rows"
proof -
  have "max 1 (min (int l) 500) = int l" using assms(5,6) by simp
  with ingest_pages_serves [OF assms(1-6), where s = s and prefix = prefix and k = 0 and fuel = fuel and batch = batch and i = 0 and m = 0]
    assms(7) show ?thesis
    unfolding ingest_from_crm_def by auto
qed

definition demo_index_srv :: "nat \<Rightarrow> pydict \<Rightarrow> py result" where
  "demo_index_srv i payload = (let num = (\<lambda>v. case v of PInt i \<Rightarrow> nat i | _ \<Rightarrow> 0);
          k = num (pget payload ''offset''); n = num (pget payload ''max_results'')
     in Inr (PDict [(''records'', PList (map PDict (take n (drop k demo_rows))))]))"

theorem full_ingest_complete_witness:
  "\<exists>n s' j. ingest_from_crm 2 demo_libs demo_store ''crm'' 2 demo_index_srv ''t1'' ''accounts'' None 2 False [] = Some (Inr n, s', j) \<and>
    j \<le> 2 \<and> list_all (\<lambda>r. \<exists>p. demo_look (tenant_collection (xl_sha1 demo_libs) ''crm'' ''t1'') s'
      (ii_point_id (item_of demo_libs ''t1'' ''accounts'' r)) = Some p \<and> point_fresh p (ii_hash (item_of demo_libs ''t1'' ''accounts'' r))) demo_rows"
proof -
  have up: "\<exists>s'. st_upsert demo_store c ps s = Inr s'" for c ps s by (simp add: demo_store_def)
  have srv: "serves_index demo_index_srv demo_rows"
    by (simp add: serves_index_def demo_index_srv_def ingest_payload_def Let_def pget_Cons crm_error_def str_or_def py_lower_def)
  have "length demo_rows div 2 = 1" by (simp add: demo_rows_def)
  with full_ingest_complete [OF demo_store_ok up demo_rows_proper srv, of 2 2 "''crm''" 2 "[]"] show ?thesis
    by (simp add: numeral_2_eq_2)
qed

section \<open>Divergences\<close>

text \<open>
  Two tenants whose ids differ only in characters outside \<open>[A-Za-z0-9_-]\<close> share one collection, whatever
  the hash function.
\<close>

theorem collections_collide:
  "tenant_collection sha1 ''crm'' ''acme.cz'' = tenant_collection sha1 ''crm'' ''acme_cz''"
proof -
  have "sanitize_collection_segment ''acme.cz'' = ''acme_cz''" "sanitize_collection_segment ''acme_cz'' = ''acme_cz''" by code_simp+
  then show ?thesis by (simp add: tenant_collection_def)
qed

text \<open>
  The request asks for no order (\<open>"order": []\<close>), yet the incremental ingest ends with the first page
  that holds one record older than the watermark: whatever the later pages hold is not asked for.
\<close>

theorem incremental_ends_at_old_record:
  assumes "srv 0 (ingest_payload 0 l) = Inr reply" and "r \<in> set (index_records reply)"
    and "record_modified_at r = Some u" and "u < w"
  shows "\<exists>res s'. ingest_pages (Suc fuel) ingest srv l (Some w) 0 0 None 0 s = Some (res, s', 1)"
proof -
  have "list_ex (\<lambda>r. \<not> (case record_modified_at r of None \<Rightarrow> True | Some u \<Rightarrow> w \<le> u)) (index_records reply)"
    using assms(2-4) by (auto simp: list_ex_iff intro!: bexI [of _ r])
  with assms(1,2) show ?thesis
    by (auto simp: select_changed_def Let_def split: prod.splits sum.splits)
qed

end
