(* ===== verification/Fuzzy.thy ===== *)
theory Fuzzy
  imports Text_Utils
begin

text \<open>
  Lexical similarity tolerant to Czech inflection (\<open>app/utils/fuzzy.py\<close>), with
  \<open>difflib.SequenceMatcher\<close> of the standard library written out: the longest common block,
  the blocks left and right of it, and the share of matched characters. Floats are rationals.
  A Python set is a list without duplicates.
\<close>

section \<open>Stem variants\<close>

definition stem_suffixes :: "string list" where
  "stem_suffixes = [''skym'', ''skem'', ''ovou'', ''ove'', ''ova'', ''ovi'', ''ych'', ''ich'', ''ho'', ''mu'', ''ou'', ''em'', ''am'',
     ''um'', ''om'', ''m'', ''a'', ''u'', ''e'', ''y'', ''i'']"

definition token_variants :: "string \<Rightarrow> string list" where
  "token_variants token = filter (\<lambda>v. v \<noteq> []) (remdups (token #
     map (\<lambda>suf. take (length token - length suf) token)
       (filter (\<lambda>suf. length token > length suf + 2 \<and> py_endswith token suf) stem_suffixes)))"

definition fuzzy_tokens :: "string \<Rightarrow> string list" where
  "fuzzy_tokens v = remdups (concat (map token_variants (py_split_ws (normalize_text v))))"

section \<open>\<open>SequenceMatcher\<close>\<close>

text \<open>Characters so frequent in a long second text that no block starts with them.\<close>

definition popular_chars :: "string \<Rightarrow> string" where
  "popular_chars b = (if length b \<ge> 200
     then filter (\<lambda>c. count_list b c > length b div 100 + 1) (remdups b) else [])"

fun common_run :: "string \<Rightarrow> string \<Rightarrow> string \<Rightarrow> nat" where
  "common_run pop (x # xs) (y # ys) = (if x = y \<and> y \<notin> set pop then Suc (common_run pop xs ys) else 0)"
| "common_run pop xs ys = 0"

text \<open>The first longest block: the least start in the first text, then in the second.\<close>

definition best_block :: "string \<Rightarrow> string \<Rightarrow> string \<Rightarrow> nat \<times> nat \<times> nat" where
  "best_block pop a b = fold (\<lambda>(i, j) best. let k = common_run pop (drop i a) (drop j b) in
       if k > snd (snd best) then (i, j, k) else best)
     (List.product [0..<length a] [0..<length b]) (0, 0, 0)"

definition longest_match :: "string \<Rightarrow> string \<Rightarrow> string \<Rightarrow> nat \<times> nat \<times> nat" where
  "longest_match pop a b = (case best_block pop a b of (i, j, k) \<Rightarrow>
     (let l = common_run [] (rev (take i a)) (rev (take j b)); r = common_run [] (drop (i + k) a) (drop (j + k) b)
      in (i - l, j - l, l + k + r)))"

lemma common_run_le: "common_run pop a b \<le> length a \<and> common_run pop a b \<le> length b"
  by (induction pop a b rule: common_run.induct) auto

lemma best_block_fits:
  "\<forall>(i, j, k)\<in>{best}. i + k \<le> length a \<and> j + k \<le> length b \<Longrightarrow>
   case fold (\<lambda>(i, j) best. let k = common_run pop (drop i a) (drop j b) in if k > snd (snd best) then (i, j, k) else best)
     ps best of (i, j, k) \<Rightarrow> i + k \<le> length a \<and> j + k \<le> length b"
proof (induction ps arbitrary: best)
  case (Cons ij ps)
  obtain i j where ij: "ij = (i, j)" by (cases ij)
  have "i + common_run pop (drop i a) (drop j b) \<le> length a \<and> j + common_run pop (drop i a) (drop j b) \<le> length b"
    if "common_run pop (drop i a) (drop j b) > 0"
    using that common_run_le [of pop "drop i a" "drop j b"] by (cases "i \<le> length a"; cases "j \<le> length b") auto
  with Cons.prems show ?case
    unfolding ij fold_simps by (intro Cons.IH) (auto simp: Let_def split: prod.splits)
qed auto

lemma longest_match_fits:
  assumes "longest_match pop a b = (i, j, k)"
  shows "i + k \<le> length a \<and> j + k \<le> length b"
proof -
  obtain p q n where b: "best_block pop a b = (p, q, n)" by (cases "best_block pop a b")
  with best_block_fits [of "(0, 0, 0)" a b pop "List.product [0..<length a] [0..<length b]"]
  have f: "p + n \<le> length a" "q + n \<le> length b" by (simp_all add: best_block_def)
  let ?l = "common_run [] (rev (take p a)) (rev (take q b))"
  let ?r = "common_run [] (drop (p + n) a) (drop (q + n) b)"
  from common_run_le [of "[]" "rev (take p a)" "rev (take q b)"] f have l: "?l \<le> p" "?l \<le> q" by auto
  from common_run_le [of "[]" "drop (p + n) a" "drop (q + n) b"] f have r: "?r \<le> length a - (p + n)" "?r \<le> length b - (q + n)" by auto
  from assms b have "i = p - ?l" "j = q - ?l" "k = ?l + n + ?r" by (simp_all add: longest_match_def Let_def)
  with l r f show ?thesis by linarith
qed

function matched_chars :: "string \<Rightarrow> string \<Rightarrow> string \<Rightarrow> nat" where
  "matched_chars pop a b = (case longest_match pop a b of (i, j, k) \<Rightarrow>
     if k = 0 then 0
     else matched_chars pop (take i a) (take j b) + k + matched_chars pop (drop (i + k) a) (drop (j + k) b))"
  by pat_completeness auto
termination
  by (relation "measure (\<lambda>(pop, a, b). length a)") (auto dest!: longest_match_fits [OF sym])

declare matched_chars.simps [simp del]

definition sequence_ratio :: "string \<Rightarrow> string \<Rightarrow> rat" where
  "sequence_ratio a b = (if length a + length b = 0 then 1
     else 2 * of_nat (matched_chars (popular_chars b) a b) / of_nat (length a + length b))"

section \<open>The score\<close>

definition token_overlap :: "string list \<Rightarrow> string list \<Rightarrow> rat" where
  "token_overlap q c = of_nat (length (filter (\<lambda>t. t \<in> set c) q)) / of_nat (max 1 (length q))"

definition score_lexical_fuzzy :: "string \<Rightarrow> string \<Rightarrow> rat" where
  "score_lexical_fuzzy query candidate =
     (let q = normalize_text query; c = normalize_text candidate in
      if q = [] \<or> c = [] then 0
      else if q = c then 1
      else if py_contains q c then 96 / 100
      else if py_contains c q then 85 / 100
      else (let qt = fuzzy_tokens q; ct = fuzzy_tokens c in
        if qt = [] \<or> ct = [] then 0
        else (let overlap = token_overlap qt ct; ratio = sequence_ratio q c;
                  score = max (overlap * (95 / 100)) (ratio * (75 / 100))
              in min 1 (if overlap \<ge> 66 / 100 \<and> ratio \<ge> 55 / 100 then max score (82 / 100) else score))))"

section \<open>Lemmas\<close>

lemma matched_chars_le: "matched_chars pop a b \<le> length a \<and> matched_chars pop a b \<le> length b"
proof (induction pop a b rule: matched_chars.induct)
  case (1 pop a b)
  obtain i j k where m: "longest_match pop a b = (i, j, k)" by (cases "longest_match pop a b")
  show ?case
  proof (cases "k = 0")
    case True
    then show ?thesis by (subst (1 2) matched_chars.simps) (simp add: m)
  next
    case False
    from longest_match_fits [OF m] 1 [OF m [symmetric] refl False] show ?thesis
      by (subst (1 2) matched_chars.simps) (auto simp: m False)
  qed
qed

lemma sequence_ratio_bounds: "0 \<le> sequence_ratio a b \<and> sequence_ratio a b \<le> 1"
proof -
  have "2 * matched_chars (popular_chars b) a b \<le> length a + length b"
    using matched_chars_le [of "popular_chars b" a b] by simp
  then have "(2 * of_nat (matched_chars (popular_chars b) a b) :: rat) \<le> of_nat (length a + length b)"
    by (metis of_nat_le_iff of_nat_mult of_nat_numeral)
  then show ?thesis by (simp add: sequence_ratio_def divide_le_eq del: of_nat_add)
qed

lemma token_overlap_bounds: "0 \<le> token_overlap q c \<and> token_overlap q c \<le> 1"
proof -
  have "length (filter (\<lambda>t. t \<in> set c) q) \<le> max 1 (length q)"
    by (rule le_trans [OF length_filter_le]) simp
  then show ?thesis by (simp add: token_overlap_def divide_le_eq)
qed

section \<open>Properties\<close>

text \<open>
  the similarity is a score between 0 and 1, and it is 1 exactly for two names that are
  the same after normalisation and not empty; nothing short of that reaches more than 0.96.
\<close>

theorem fuzzy_score_bounds:
  "0 \<le> score_lexical_fuzzy q c \<and> score_lexical_fuzzy q c \<le> 1 \<and>
   (score_lexical_fuzzy q c = 1 \<longleftrightarrow> normalize_text q = normalize_text c \<and> normalize_text q \<noteq> []) \<and>
   (normalize_text q = normalize_text c \<or> score_lexical_fuzzy q c \<le> 96 / 100)"
proof -
  let ?q = "normalize_text q" and ?c = "normalize_text c"
  have o: "0 \<le> token_overlap (fuzzy_tokens ?q) (fuzzy_tokens ?c)" "token_overlap (fuzzy_tokens ?q) (fuzzy_tokens ?c) \<le> 1"
    using token_overlap_bounds by auto
  have r: "0 \<le> sequence_ratio ?q ?c" "sequence_ratio ?q ?c \<le> 1"
    using sequence_ratio_bounds by auto
  have "0 \<le> score_lexical_fuzzy q c \<and> (?q \<noteq> ?c \<longrightarrow> score_lexical_fuzzy q c \<le> 96 / 100)"
    unfolding score_lexical_fuzzy_def Let_def using o r by (auto simp: max_def min_def)
  moreover have "?q = ?c \<Longrightarrow> score_lexical_fuzzy q c = (if ?q = [] then 0 else 1)"
    by (simp add: score_lexical_fuzzy_def)
  ultimately show ?thesis by (cases "?q = ?c") (auto split: if_splits)
qed

text \<open>
  \<open>SequenceMatcher\<close> finds a common subsequence: the matched characters are at most those of
  the shorter text, so the ratio lies between 0 and 1, and no text is too long for it to end.
\<close>

theorem ratio_bounds:
  "matched_chars (popular_chars b) a b \<le> min (length a) (length b) \<and> 0 \<le> sequence_ratio a b \<and> sequence_ratio a b \<le> 1"
  using matched_chars_le [of "popular_chars b" a b] sequence_ratio_bounds [of a b] by simp

end
