(* ===== verification/Rag_Search.thy ===== *)
theory Rag_Search
  imports Rag_Index Fuzzy "HOL-Library.Multiset"
begin

text \<open>
  Searching the vector index of a tenant (\<open>app/engine/rag.py\<close>): text hits before vector hits, the
  scores of companies and contacts, and the tool the model calls (\<open>rag_search_tool\<close> of
  \<open>app/engine/tools.py\<close>). The database answers as it stands during one search; floats are rationals,
  and the rounded copies of the parts of a score (\<open>_match_debug\<close>) are left out.
\<close>

section \<open>Search\<close>

record found_point =
  fp_id :: string
  fp_score :: rat
  fp_payload :: pydict

record search_hit =
  sh_score :: rat
  sh_match :: string
  sh_payload :: pydict

text \<open>Collection, field, text, modules (none: no condition) and limit; the vector query has an attempt number.\<close>

record search_db =
  sd_text :: "string \<Rightarrow> string \<Rightarrow> string \<Rightarrow> string list \<Rightarrow> nat \<Rightarrow> found_point list result"
  sd_vector :: "nat \<Rightarrow> string \<Rightarrow> rat list \<Rightarrow> string list \<Rightarrow> nat \<Rightarrow> found_point list result"

definition module_priority :: "(string \<times> nat) list" where
  "module_priority = [(''Accounts'', 0), (''Contacts'', 1), (''Meetings'', 2)]"

definition canonical_modules :: "string list \<Rightarrow> string list" where
  "canonical_modules modules = dedup (List.map_filter (\<lambda>m. map_of module_aliases (py_lower (py_strip m))) modules)"

definition text_passes :: "string \<Rightarrow> (string \<times> string) list" where
  "text_passes query = (let ascii = strip_diacritics query in
     [(''name'', query), (''text'', query)] @
     (if ascii = py_lower query \<and> ascii \<noteq> [] then [(''name_ascii'', ascii), (''text_ascii'', ascii)] else []))"

definition add_hit :: "(found_point \<Rightarrow> search_hit) \<Rightarrow> found_point \<Rightarrow> (string \<times> search_hit) list \<Rightarrow> (string \<times> search_hit) list" where
  "add_hit mk p hits = (if fp_id p \<in> set (map fst hits) then hits else hits @ [(fp_id p, mk p)])"

definition text_hit :: "string \<Rightarrow> found_point \<Rightarrow> search_hit" where
  "text_hit field p = \<lparr>sh_score = 0, sh_match = field, sh_payload = fp_payload p\<rparr>"

definition vector_hit :: "found_point \<Rightarrow> search_hit" where
  "vector_hit p = \<lparr>sh_score = fp_score p, sh_match = ''vector'', sh_payload = fp_payload p\<rparr>"

text \<open>A pass that fails adds nothing: old collections may lack the text index.\<close>

definition text_hits :: "search_db \<Rightarrow> string \<Rightarrow> string list \<Rightarrow> nat \<Rightarrow> string \<Rightarrow> (string \<times> search_hit) list" where
  "text_hits db coll modules n query = fold (\<lambda>(field, q) hits. case sd_text db coll field q (canonical_modules modules) n of
      Inl _ \<Rightarrow> hits | Inr ps \<Rightarrow> fold (add_hit (text_hit field)) ps hits) (text_passes query) []"

definition hit_name :: "pydict \<Rightarrow> string" where
  "hit_name payload = str_or (por (pget payload ''name'') (pget (dict_or_empty (pget payload ''record'')) ''name''))"

text \<open>The pair of the module's priority and whether a word of the name matches, as one number.\<close>

definition text_rank :: "string \<Rightarrow> search_hit \<Rightarrow> nat" where
  "text_rank query h =
     (let prio = (case pget (sh_payload h) ''module'' of PStr m \<Rightarrow> dget_default module_priority m 99 | _ \<Rightarrow> 99);
          names = fuzzy_tokens (hit_name (sh_payload h))
      in 2 * prio + (if list_ex (\<lambda>t. t \<in> set names) (fuzzy_tokens query) then 0 else 1))"

definition sort_text_results :: "string \<Rightarrow> (string \<times> search_hit) list \<Rightarrow> (string \<times> search_hit) list" where
  "sort_text_results query hits = sort_key (\<lambda>ih. text_rank query (snd ih)) hits"

definition point_module :: "pydict \<Rightarrow> string" where
  "point_module payload = str_or (pget payload ''module'')"

definition vector_points :: "search_db \<Rightarrow> string \<Rightarrow> rat list \<Rightarrow> string list \<Rightarrow> nat \<Rightarrow> found_point list" where
  "vector_points db coll vec modules n =
     (let found = (case sd_vector db 0 coll vec (canonical_modules modules) n of
            Inr ps \<Rightarrow> ps
          | Inl _ \<Rightarrow> (case sd_vector db 1 coll vec [] n of Inr ps \<Rightarrow> ps | Inl _ \<Rightarrow> []))
      in if modules = [] then found
         else filter (\<lambda>p. point_module (fp_payload p) \<in> set (canonical_modules modules)) found)"

fun merge_vector :: "nat \<Rightarrow> found_point list \<Rightarrow> (string \<times> search_hit) list \<Rightarrow> (string \<times> search_hit) list" where
  "merge_vector limit [] hits = hits"
| "merge_vector limit (p # ps) hits = (let hits' = add_hit vector_hit p hits in
     if length hits' \<ge> limit then hits' else merge_vector limit ps hits')"

definition result_limit :: "int \<Rightarrow> nat" where
  "result_limit limit = nat (max 1 (if limit = 0 then 5 else limit))"

definition search_points ::
  "index_libs \<Rightarrow> search_db \<Rightarrow> string \<Rightarrow> string \<Rightarrow> string \<Rightarrow> int \<Rightarrow> string list \<Rightarrow> (string \<times> search_hit) list" where
  "search_points X db prefix tenant_id query limit modules =
     (let coll = tenant_collection (xl_sha1 X) prefix tenant_id; n = result_limit limit;
          texts = sort_text_results query (text_hits db coll modules (max 50 (n * 10)) query)
      in take n (merge_vector n (vector_points db coll (xl_embed X query) modules (max n (n * 2))) texts))"

definition index_search :: "index_libs \<Rightarrow> search_db \<Rightarrow> string \<Rightarrow> string \<Rightarrow> string \<Rightarrow> int \<Rightarrow> string list \<Rightarrow> search_hit list" where
  "index_search X db prefix tenant_id query limit modules = map snd (search_points X db prefix tenant_id query limit modules)"

section \<open>Entities\<close>

definition default_stopwords :: "string list" where
  "default_stopwords = [''call'', ''domluv'', ''do'', ''kontakt'', ''kontaktem'', ''meeting'', ''na'', ''naplanuj'', ''naplanovat'',
     ''pani'', ''pan'', ''panem'', ''pristi'', ''schuzka'', ''schuzku'', ''s'', ''se'', ''tyden'', ''utery'', ''u'', ''v'', ''ve'',
     ''vytvor'', ''zitra'']"

definition build_stopwords :: "string \<Rightarrow> string list" where
  "build_stopwords extra = default_stopwords @ filter (\<lambda>t. t \<noteq> []) (map normalize_search_text
     (py_split_ws (map (\<lambda>c. if c = CHR '','' \<or> c = CHR '';'' then CHR '' '' else c) extra)))"

definition entity_modules :: "string \<Rightarrow> string list" where
  "entity_modules entity_type = dget_default [(''contact'', [''Contacts'']), (''contacts'', [''Contacts'']),
     (''account'', [''Accounts'']), (''accounts'', [''Accounts'']), (''any'', [''Contacts'', ''Accounts''])]
     (py_lower (py_strip (if entity_type = [] then ''any'' else entity_type))) [''Contacts'', ''Accounts'']"

definition clean_entity_query :: "string list \<Rightarrow> string \<Rightarrow> string" where
  "clean_entity_query stopwords query =
     py_join '' '' (filter (\<lambda>t. t \<notin> set stopwords \<and> length t > 1) (py_split_ws (normalize_search_text query)))"

text \<open>The word of every token that is listed first by length: the longest of its variants.\<close>

definition longest_variant :: "string \<Rightarrow> string" where
  "longest_variant token = hd (rev (sort_key length (rev (token_variants token))))"

definition entity_query_variants :: "string \<Rightarrow> string list" where
  "entity_query_variants query =
     (let normalized = normalize_search_text query; tokens = py_split_ws normalized;
          variants = concat (map token_variants tokens) @
            (if tokens = [] then [] else [py_join '' '' (map longest_variant tokens)])
      in if normalized = [] then []
         else normalized # sort_key (\<lambda>v. - int (length v)) (sort (remdups (filter (\<lambda>v. v \<noteq> normalized) variants))))"

definition entity_score :: "search_hit \<Rightarrow> string \<Rightarrow> string list \<Rightarrow> rat" where
  "entity_score h query modules =
     (let payload = sh_payload h;
          name = str_or (por (pget payload ''name'') (PStr (record_search_name (dict_or_empty (pget payload ''record'')))));
          text = str_or (por (pget payload ''text_ascii'') (pget payload ''text''));
          q = normalize_search_text query; n = normalize_search_text name;
          canonical = canonical_modules modules; qt = fuzzy_tokens q; nt = fuzzy_tokens n
      in if q = [] \<or> n = [] then 0
         else (if canonical = [] then 0 else if point_module payload \<in> set canonical then 20 else -20)
            + (if q = n then 100 else if py_contains q n then 90 else if py_contains n q then 75 else 0)
            + score_lexical_fuzzy q n * 90
            + (if qt = [] \<or> nt = [] then 0 else token_overlap qt nt * 70)
            + score_lexical_fuzzy q text * 10
            + min (sh_score h) 1 * 5)"

text \<open>A candidate counts when it is of a wanted module and carries a record id; of one id the best is kept.\<close>

definition entity_step ::
  "string \<Rightarrow> string list \<Rightarrow> search_hit \<Rightarrow> (string \<times> search_hit \<times> rat) list \<Rightarrow> (string \<times> search_hit \<times> rat) list" where
  "entity_step query modules h cands =
     (let pid = str_or (pget (sh_payload h) ''record_id''); s = entity_score h query modules in
      if point_module (sh_payload h) \<notin> set modules \<or> pid = [] then cands
      else (case map_of cands pid of
          None \<Rightarrow> dput pid (h, s) cands
        | Some (_, old) \<Rightarrow> if s > old then dput pid (h, s) cands else cands))"

text \<open>By score, then by name, from the greatest down; equal ones keep their order.\<close>

definition sort_entity_results :: "(search_hit \<times> rat) list \<Rightarrow> (search_hit \<times> rat) list" where
  "sort_entity_results hits = rev (sort_key snd (sort_key (\<lambda>(h, s). hit_name (sh_payload h)) (rev hits)))"

definition entity_query :: "string list \<Rightarrow> string \<Rightarrow> string" where
  "entity_query stopwords query =
     (let clean = clean_entity_query stopwords query in if clean = [] then normalize_search_text query else clean)"

definition entity_candidates ::
  "index_libs \<Rightarrow> search_db \<Rightarrow> string \<Rightarrow> string \<Rightarrow> string \<Rightarrow> int \<Rightarrow> string list \<Rightarrow> search_hit list" where
  "entity_candidates X db prefix tenant_id clean limit modules = concat (map (\<lambda>q.
     index_search X db prefix tenant_id q (max 30 ((if limit = 0 then 5 else limit) * 10)) modules) (entity_query_variants clean))"

definition search_entities ::
  "index_libs \<Rightarrow> search_db \<Rightarrow> string \<Rightarrow> string list \<Rightarrow> rat \<Rightarrow> string \<Rightarrow> string \<Rightarrow> string \<Rightarrow> int \<Rightarrow> (search_hit \<times> rat) list" where
  "search_entities X db prefix stopwords min_score tenant_id query entity_type limit =
     (let modules = entity_modules entity_type; clean = entity_query stopwords query in
      if clean = [] then []
      else take (result_limit limit) (sort_entity_results (filter (\<lambda>hs. snd hs \<ge> min_score)
        (map snd (fold (entity_step clean modules) (entity_candidates X db prefix tenant_id clean limit modules) [])))))"

section \<open>The tool\<close>

definition rag_filter_modules :: "(string \<times> string) list" where
  "rag_filter_modules = [(''meetings'', ''Meetings''), (''calls'', ''Calls''), (''tasks'', ''Tasks''), (''notes'', ''Notes''),
     (''leads'', ''Leads''), (''opportunities'', ''Opportunities''), (''opportunites'', ''Opportunities''), (''quotes'', ''Quotes''),
     (''acm_invoices'', ''acm_invoices''), (''products'', ''ProductTemplates''), (''producttemplates'', ''ProductTemplates'')]"

definition default_rag_modules :: "string list" where
  "default_rag_modules = [[], ''contacts'', ''accounts'', ''meetings'', ''calls'', ''tasks'', ''notes'', ''leads'', ''opportunities'',
     ''opportunites'', ''quotes'', ''acm_invoices'', ''producttemplates'']"

text \<open>\<open>catalog\<close> is the set of searchable modules of the user, when the turn has one.\<close>

definition validate_rag_search_call :: "string list option \<Rightarrow> string \<Rightarrow> int \<Rightarrow> string \<Rightarrow> string option" where
  "validate_rag_search_call catalog query limit md =
     (if py_strip query = [] then Some ''Query is required.''
      else if limit < 1 \<or> limit > 100 then Some ''Limit must be between 1 and 100.''
      else if py_lower (py_strip md) \<notin> set (case catalog of Some ms \<Rightarrow> [] # ms | None \<Rightarrow> default_rag_modules)
        then Some (''Unsupported module filter '' @ [CHR 0x27] @ md @ [CHR 0x27, CHR ''.''])
      else None)"

definition hit_row :: "(rat \<Rightarrow> string) \<Rightarrow> search_hit \<Rightarrow> pydict" where
  "hit_row show_float h = [(''score'', PFloat (show_float (sh_score h))), (''match_type'', PStr (sh_match h)),
     (''payload'', PDict (sh_payload h))]"

definition entity_row :: "(rat \<Rightarrow> string) \<Rightarrow> search_hit \<times> rat \<Rightarrow> pydict" where
  "entity_row show_float hs = hit_row show_float (fst hs) @ [(''_entity_score'', PFloat (show_float (snd hs)))]"

definition top_name :: "pydict \<Rightarrow> py" where
  "top_name row = (let payload = dict_or_empty (pget row ''payload'') in
     por (dget_default (dict_or_empty (pget payload ''record'')) ''name'' (PStr []))
         (dget_default (dict_or_empty (pget payload ''text'')) ''name'' (PStr [])))"

definition name_warning :: "string \<Rightarrow> string \<Rightarrow> string" where
  "name_warning name query = ''POZOR: vraceny zaznam '' @ [CHR 0x27] @ name @ [CHR 0x27] @ '' se vyrazne lisi od hledaneho vyrazu '' @
     [CHR 0x27] @ query @ [CHR 0x27] @ ''. Over s uzivatelem, zda jde o spravny zaznam.''"

text \<open>A name that is not text has no \<open>lower\<close>: the call raises.\<close>

definition warn_top :: "string \<Rightarrow> pydict list \<Rightarrow> pydict list result" where
  "warn_top query rows = (case rows of
     [] \<Rightarrow> Inr []
   | row # rest \<Rightarrow>
       if query = [] \<or> \<not> truthy (top_name row) then Inr rows
       else (case top_name row of
           PStr name \<Rightarrow> Inr ((if sequence_ratio (py_lower query) (py_lower name) < 1 / 2
             then dput ''_name_warning'' (PStr (name_warning name query)) row else row) # rest)
         | _ \<Rightarrow> Inl (AttributeError ''lower'')))"

definition rag_rows ::
  "index_libs \<Rightarrow> search_db \<Rightarrow> (rat \<Rightarrow> string) \<Rightarrow> string \<Rightarrow> string list \<Rightarrow> rat \<Rightarrow> string \<Rightarrow> string \<Rightarrow> int \<Rightarrow> string \<Rightarrow> pydict list" where
  "rag_rows X db show_float prefix stopwords min_score tenant_id query limit md =
     (let filt = py_lower (py_strip md); wide = max 10 (limit * 4) in
      if filt \<in> {[], ''contacts'', ''accounts''}
      then map (entity_row show_float) (search_entities X db prefix stopwords min_score tenant_id query
        (if filt = ''contacts'' then ''contact'' else if filt = ''accounts'' then ''account'' else ''any'') wide)
      else map (hit_row show_float) (index_search X db prefix tenant_id query wide
        (case map_of rag_filter_modules filt of Some m \<Rightarrow> [m] | None \<Rightarrow> [])))"

text \<open>\<open>db\<close> is \<open>None\<close> when the index is not available.\<close>

definition rag_search_tool ::
  "index_libs \<Rightarrow> search_db option \<Rightarrow> (rat \<Rightarrow> string) \<Rightarrow> string list option \<Rightarrow> string \<Rightarrow> string list \<Rightarrow> rat
     \<Rightarrow> string \<Rightarrow> string \<Rightarrow> int \<Rightarrow> string \<Rightarrow> py result" where
  "rag_search_tool X db show_float catalog prefix stopwords min_score tenant_id query limit md =
     (case validate_rag_search_call catalog query limit md of
        Some m \<Rightarrow> Inr (PDict [(''status'', PStr ''tool_validation_error''), (''message'', PStr m), (''results'', PList [])])
      | None \<Rightarrow> (case db of
          None \<Rightarrow> Inr (PDict [(''warning'', PStr ''RAG unavailable''), (''results'', PList [])])
        | Some d \<Rightarrow> res_bind (warn_top query (dedupe_rag_results (xl_sha1 X)
              (map PDict (rag_rows X d show_float prefix stopwords min_score tenant_id query limit md))))
            (\<lambda>rows. Inr (PList (map PDict (take (result_limit limit) rows))))))"

section \<open>Lemmas\<close>

lemma add_hit_keys: "distinct (map fst hits) \<Longrightarrow> distinct (map fst (add_hit mk p hits))"
  by (simp add: add_hit_def)

lemma fold_add_hit_keys: "distinct (map fst hits) \<Longrightarrow> distinct (map fst (fold (add_hit mk) ps hits))"
  by (induction ps arbitrary: hits) (simp_all add: add_hit_keys)

lemma add_hit_kind: "list_all P hits \<Longrightarrow> P (fp_id p, mk p) \<Longrightarrow> list_all P (add_hit mk p hits)"
  by (simp add: add_hit_def)

lemma fold_add_hit_kind: "list_all P hits \<Longrightarrow> (\<And>p. P (fp_id p, mk p)) \<Longrightarrow> list_all P (fold (add_hit mk) ps hits)"
  by (induction ps arbitrary: hits) (simp_all add: add_hit_kind)

lemma text_passes_fields: "list_all (\<lambda>p. fst p \<noteq> ''vector'') (text_passes query)"
  by (simp add: text_passes_def Let_def)

lemma text_fold_ok:
  "list_all (\<lambda>p. fst p \<noteq> ''vector'') passes \<Longrightarrow> distinct (map fst hits) \<Longrightarrow> list_all (\<lambda>ih. sh_match (snd ih) \<noteq> ''vector'') hits \<Longrightarrow>
    distinct (map fst (fold (\<lambda>(field, q) hits. case f field q of Inl _ \<Rightarrow> hits | Inr ps \<Rightarrow> fold (add_hit (text_hit field)) ps hits) passes hits)) \<and>
    list_all (\<lambda>ih. sh_match (snd ih) \<noteq> ''vector'')
      (fold (\<lambda>(field, q) hits. case f field q of Inl _ \<Rightarrow> hits | Inr ps \<Rightarrow> fold (add_hit (text_hit field)) ps hits) passes hits)"
proof (induction passes arbitrary: hits)
  case (Cons p passes)
  obtain field q where p: "p = (field, q)" by (cases p)
  with Cons.prems(1) have v: "field \<noteq> ''vector''" by auto
  let ?h = "case f field q of Inl _ \<Rightarrow> hits | Inr ps \<Rightarrow> fold (add_hit (text_hit field)) ps hits"
  have "distinct (map fst ?h)" "list_all (\<lambda>ih. sh_match (snd ih) \<noteq> ''vector'') ?h"
    using Cons.prems(2,3) v by (auto simp: text_hit_def intro: fold_add_hit_keys fold_add_hit_kind split: sum.split)
  from Cons.IH [OF _ this] Cons.prems(1) show ?case by (simp add: p)
qed simp

lemma text_hits_ok:
  "distinct (map fst (text_hits db coll modules n query)) \<and>
   list_all (\<lambda>ih. sh_match (snd ih) \<noteq> ''vector'') (text_hits db coll modules n query)"
  unfolding text_hits_def by (rule text_fold_ok [OF text_passes_fields]) simp_all

lemma merge_vector_shape:
  "\<exists>vs. merge_vector limit ps hits = hits @ vs \<and> set (map snd vs) \<subseteq> vector_hit ` set ps \<and>
     (distinct (map fst hits) \<longrightarrow> distinct (map fst (hits @ vs)))"
proof (induction limit ps hits rule: merge_vector.induct)
  case (2 limit p ps hits)
  obtain v where v: "add_hit vector_hit p hits = hits @ v" "set (map snd v) \<subseteq> {vector_hit p}"
    by (cases "fp_id p \<in> set (map fst hits)") (auto simp: add_hit_def)
  show ?case
  proof (cases "length (add_hit vector_hit p hits) \<ge> limit")
    case True
    then have "merge_vector limit (p # ps) hits = hits @ v" by (simp add: Let_def v)
    with v add_hit_keys [of hits vector_hit p] show ?thesis by (intro exI [of _ v]) auto
  next
    case False
    from 2 [OF refl False] obtain vs where vs: "merge_vector limit ps (add_hit vector_hit p hits) = add_hit vector_hit p hits @ vs"
      "set (map snd vs) \<subseteq> vector_hit ` set ps"
      "distinct (map fst (add_hit vector_hit p hits)) \<longrightarrow> distinct (map fst (add_hit vector_hit p hits @ vs))" by auto
    from False vs(1) have "merge_vector limit (p # ps) hits = hits @ (v @ vs)" by (simp add: Let_def v(1))
    with vs v add_hit_keys [of hits vector_hit p] show ?thesis by (intro exI [of _ "v @ vs"]) auto
  qed
qed simp

lemma vector_points_module:
  "p \<in> set (vector_points db coll vec modules n) \<Longrightarrow> modules = [] \<or> point_module (fp_payload p) \<in> set (canonical_modules modules)"
  by (auto simp: vector_points_def Let_def split: if_splits)

text \<open>The candidates kept so far: each a wanted hit with its own score, and none beaten by a hit already seen.\<close>

definition record_of :: "search_hit \<Rightarrow> string" where
  "record_of h = str_or (pget (sh_payload h) ''record_id'')"

definition wanted_hit :: "string list \<Rightarrow> search_hit \<Rightarrow> bool" where
  "wanted_hit modules h \<longleftrightarrow> point_module (sh_payload h) \<in> set modules \<and> record_of h \<noteq> []"

definition cands_ok :: "string \<Rightarrow> string list \<Rightarrow> search_hit set \<Rightarrow> (string \<times> search_hit \<times> rat) list \<Rightarrow> bool" where
  "cands_ok q ms seen cands \<longleftrightarrow> distinct (map fst cands) \<and>
     (\<forall>i h s. map_of cands i = Some (h, s) \<longrightarrow> h \<in> seen \<and> wanted_hit ms h \<and> record_of h = i \<and> s = entity_score h q ms) \<and>
     (\<forall>h\<in>seen. wanted_hit ms h \<longrightarrow> (\<exists>h' s. map_of cands (record_of h) = Some (h', s) \<and> entity_score h q ms \<le> s))"

lemma cands_ok_step: "cands_ok q ms seen cands \<Longrightarrow> cands_ok q ms (insert h seen) (entity_step q ms h cands)"
proof -
  assume ok: "cands_ok q ms seen cands"
  show ?thesis
  proof (cases "wanted_hit ms h")
    case False
    then have "entity_step q ms h cands = cands"
      by (auto simp: entity_step_def wanted_hit_def record_of_def Let_def)
    with ok False show ?thesis by (auto simp: cands_ok_def)
  next
    case True
    then have st: "entity_step q ms h cands = (case map_of cands (record_of h) of
        None \<Rightarrow> dput (record_of h) (h, entity_score h q ms) cands
      | Some (_, old) \<Rightarrow> if entity_score h q ms > old then dput (record_of h) (h, entity_score h q ms) cands else cands)"
      unfolding entity_step_def wanted_hit_def record_of_def Let_def by (simp only: simp_thms if_False)
    show ?thesis
    proof (cases "map_of cands (record_of h)")
      case None
      with st ok True show ?thesis by (auto simp: cands_ok_def)
    next
      case (Some hs)
      obtain h0 s0 where hs: "hs = (h0, s0)" by (cases hs)
      show ?thesis
      proof (cases "entity_score h q ms > s0")
        case True
        with st Some hs have "entity_step q ms h cands = dput (record_of h) (h, entity_score h q ms) cands" by simp
        moreover have "entity_score g q ms \<le> entity_score h q ms" if "g \<in> seen" "wanted_hit ms g" "record_of g = record_of h" for g
          using ok that Some hs True by (fastforce simp: cands_ok_def)
        ultimately show ?thesis using ok \<open>wanted_hit ms h\<close> by (auto simp: cands_ok_def)
      next
        case False
        with st Some hs have "entity_step q ms h cands = cands" by simp
        moreover from Some hs False have "\<exists>h' s. map_of cands (record_of h) = Some (h', s) \<and> entity_score h q ms \<le> s"
          by auto
        ultimately show ?thesis using ok unfolding cands_ok_def ball_simps by (intro conjI) auto
      qed
    qed
  qed
qed

lemma cands_ok_fold: "cands_ok q ms seen cands \<Longrightarrow> cands_ok q ms (set hs \<union> seen) (fold (entity_step q ms) hs cands)"
proof (induction hs arbitrary: seen cands)
  case (Cons h hs)
  from Cons.IH [OF cands_ok_step [OF Cons.prems]] show ?case by simp
qed simp

lemma sort_entity_set [simp]: "set (sort_entity_results hits) = set hits"
  by (simp add: sort_entity_results_def)

lemma sort_entity_mset: "mset (sort_entity_results hits) = mset hits"
  by (simp add: sort_entity_results_def)

lemma sort_entity_sorted: "sorted_wrt (\<lambda>a b. snd b \<le> snd a) (sort_entity_results hits)"
proof -
  have "sorted (map snd (sort_key snd (sort_key (\<lambda>(h, s). hit_name (sh_payload h)) (rev hits))))" by simp
  then show ?thesis unfolding sort_entity_results_def sorted_wrt_rev by (simp add: sorted_wrt_map)
qed

lemma sorted_wrt_take_top:
  assumes "sorted_wrt (\<lambda>a b. f b \<le> (f a :: rat)) xs" and "x \<in> set xs"
  shows "x \<in> set (take n xs) \<or> (length (take n xs) = n \<and> (\<forall>y\<in>set (take n xs). f x \<le> f y))"
proof (cases "x \<in> set (take n xs)")
  case False
  from assms(2) have "x \<in> set (take n xs) \<or> x \<in> set (drop n xs)" by (metis Un_iff append_take_drop_id set_append)
  with False have d: "x \<in> set (drop n xs)" by simp
  from assms(1) have "sorted_wrt (\<lambda>a b. f b \<le> f a) (take n xs @ drop n xs)" by simp
  with d have "\<forall>y\<in>set (take n xs). f x \<le> f y" by (simp add: sorted_wrt_append del: append_take_drop_id)
  moreover from d have "length (take n xs) = n" by (cases "n \<le> length xs") auto
  ultimately show ?thesis by simp
qed simp

text \<open>All that the entity search returns, and what it returns nothing of.\<close>

lemma search_entities_cases:
  fixes stopwords :: "string list"
  defines "cands \<equiv> \<lambda>X db prefix tenant query ms limit.
     map snd (fold (entity_step (entity_query stopwords query) ms) (entity_candidates X db prefix tenant (entity_query stopwords query) limit ms) [])"
  shows "search_entities X db prefix stopwords min_score tenant query entity_type limit =
    take (result_limit limit) (sort_entity_results (filter (\<lambda>hs. snd hs \<ge> min_score)
      (cands X db prefix tenant query (entity_modules entity_type) limit)))"
proof (cases "entity_query stopwords query = []")
  case True
  have "normalize_search_text [] = []" by code_simp
  with True show ?thesis
    by (simp add: search_entities_def cands_def entity_candidates_def entity_query_variants_def Let_def sort_entity_results_def)
qed (simp add: search_entities_def cands_def Let_def)

lemma entity_cands:
  fixes q :: string and ms :: "string list" and hs :: "search_hit list"
  defines "cs \<equiv> map snd (fold (entity_step q ms) hs [])"
  shows "\<And>h s. (h, s) \<in> set cs \<Longrightarrow> h \<in> set hs \<and> wanted_hit ms h \<and> s = entity_score h q ms"
    and "distinct (map (\<lambda>x. record_of (fst x)) cs)"
    and "\<And>h. h \<in> set hs \<Longrightarrow> wanted_hit ms h \<Longrightarrow> \<exists>h' s. (h', s) \<in> set cs \<and> record_of h' = record_of h \<and> entity_score h q ms \<le> s"
proof -
  let ?c = "fold (entity_step q ms) hs []"
  have "cands_ok q ms {} []" by (simp add: cands_ok_def)
  from cands_ok_fold [OF this, of hs] have ok: "cands_ok q ms (set hs) ?c" by simp
  then have d: "distinct (map fst ?c)" by (simp add: cands_ok_def)
  have e: "h \<in> set hs \<and> wanted_hit ms h \<and> record_of h = i \<and> s = entity_score h q ms" if "(i, h, s) \<in> set ?c" for i h s
    using ok map_of_is_SomeI [OF d that] by (simp add: cands_ok_def)
  then show "\<And>h s. (h, s) \<in> set cs \<Longrightarrow> h \<in> set hs \<and> wanted_hit ms h \<and> s = entity_score h q ms"
    by (force simp: cs_def)
  have "map (\<lambda>x. record_of (fst x)) cs = map fst ?c"
    using e by (auto simp: cs_def)
  with d show "distinct (map (\<lambda>x. record_of (fst x)) cs)" by simp
  show "\<exists>h' s. (h', s) \<in> set cs \<and> record_of h' = record_of h \<and> entity_score h q ms \<le> s"
    if h: "h \<in> set hs" "wanted_hit ms h" for h
  proof -
    from ok h obtain h' s where m: "map_of ?c (record_of h) = Some (h', s)" "entity_score h q ms \<le> s"
      by (fastforce simp: cands_ok_def)
    from map_of_SomeD [OF m(1)] e have "(h', s) \<in> set cs" "record_of h' = record_of h"
      by (force simp: cs_def)+
    with m(2) show ?thesis by blast
  qed
qed

section \<open>Properties\<close>

text \<open>
  a search returns usable hits whatever the database answers or refuses: at most the limit, no
  point twice, first the text hits in the order of their rank (companies, contacts, meetings, then
  the rest; names before bodies), then vector hits, and these only of the modules asked for.
\<close>

theorem search_hits_merged:
  "length (search_points X db prefix tenant query limit modules) \<le> result_limit limit \<and>
   distinct (map fst (search_points X db prefix tenant query limit modules)) \<and>
   (\<exists>texts vectors. search_points X db prefix tenant query limit modules = texts @ vectors \<and>
      sorted (map (\<lambda>ih. text_rank query (snd ih)) texts) \<and>
      list_all (\<lambda>ih. sh_match (snd ih) \<noteq> ''vector'') texts \<and>
      list_all (\<lambda>ih. sh_match (snd ih) = ''vector'' \<and>
        (modules = [] \<or> point_module (sh_payload (snd ih)) \<in> set (canonical_modules modules))) vectors)"
proof -
  let ?coll = "tenant_collection (xl_sha1 X) prefix tenant" and ?n = "result_limit limit"
  let ?t = "text_hits db ?coll modules (max 50 (?n * 10)) query"
  let ?v = "vector_points db ?coll (xl_embed X query) modules (max ?n (?n * 2))"
  let ?s = "sort_text_results query ?t"
  have s: "distinct (map fst ?s)" "list_all (\<lambda>ih. sh_match (snd ih) \<noteq> ''vector'') ?s" "sorted (map (\<lambda>ih. text_rank query (snd ih)) ?s)"
    using text_hits_ok [of db ?coll modules "max 50 (?n * 10)" query]
    by (auto simp: sort_text_results_def list_all_iff distinct_map)
  from merge_vector_shape [of ?n ?v ?s] obtain vs where m: "merge_vector ?n ?v ?s = ?s @ vs"
    "set (map snd vs) \<subseteq> vector_hit ` set ?v" and d: "distinct (map fst (?s @ vs))" using s(1) by blast
  have r: "search_points X db prefix tenant query limit modules = take ?n ?s @ take (?n - length ?s) vs"
    unfolding search_points_def Let_def m(1) by simp
  have vec: "sh_match (snd ih) = ''vector'' \<and> (modules = [] \<or> point_module (sh_payload (snd ih)) \<in> set (canonical_modules modules))"
    if "ih \<in> set vs" for ih
  proof -
    from that m(2) obtain p where "p \<in> set ?v" "snd ih = vector_hit p" by force
    with vector_points_module [of p] show ?thesis by (auto simp: vector_hit_def)
  qed
  have "distinct (map fst (take ?n (?s @ vs)))" using d by (metis distinct_take take_map)
  then have "distinct (map fst (take ?n ?s @ take (?n - length ?s) vs))" by simp
  moreover have "sorted (map (\<lambda>ih. text_rank query (snd ih)) (take ?n ?s))" using s(3) by (metis sorted_wrt_take take_map)
  ultimately show ?thesis
    unfolding r using s(2) vec
    by (intro conjI exI [of _ "take ?n ?s"] exI [of _ "take (?n - length ?s) vs"])
       (auto simp: list_all_iff dest: in_set_takeD)
qed

text \<open>
  an entity search returns a ranking: every result is a hit of a wanted module with the score that
  the code computes for it, none below the threshold, no record twice, from the best score down,
  and no more than the limit.
\<close>

theorem entity_search_ranked:
  "list_all (\<lambda>(h, s). h \<in> set (entity_candidates X db prefix tenant (entity_query stopwords query) limit (entity_modules entity_type)) \<and>
      point_module (sh_payload h) \<in> set (entity_modules entity_type) \<and>
      s = entity_score h (entity_query stopwords query) (entity_modules entity_type) \<and> min_score \<le> s)
     (search_entities X db prefix stopwords min_score tenant query entity_type limit) \<and>
   distinct (map (\<lambda>hs. record_of (fst hs)) (search_entities X db prefix stopwords min_score tenant query entity_type limit)) \<and>
   sorted_wrt (\<lambda>a b. snd b \<le> snd a) (search_entities X db prefix stopwords min_score tenant query entity_type limit) \<and>
   length (search_entities X db prefix stopwords min_score tenant query entity_type limit) \<le> result_limit limit"
proof -
  let ?q = "entity_query stopwords query" and ?ms = "entity_modules entity_type"
  let ?hs = "entity_candidates X db prefix tenant ?q limit ?ms"
  let ?c = "filter (\<lambda>hs. snd hs \<ge> min_score) (map snd (fold (entity_step ?q ?ms) ?hs []))"
  note c = entity_cands [where q = ?q and ms = ?ms and hs = ?hs]
  from c(2) have "distinct (map (\<lambda>x. record_of (fst x)) ?c)" by (rule distinct_map_filter)
  then have "distinct (map (\<lambda>x. record_of (fst x)) (sort_entity_results ?c))"
    by (metis sort_entity_mset mset_map mset_eq_imp_distinct_iff)
  then have "distinct (map (\<lambda>x. record_of (fst x)) (take (result_limit limit) (sort_entity_results ?c)))"
    by (metis distinct_take take_map)
  moreover have "sorted_wrt (\<lambda>a b. snd b \<le> snd a) (take (result_limit limit) (sort_entity_results ?c))"
    by (rule sorted_wrt_take [OF sort_entity_sorted])
  moreover have "list_all (\<lambda>(h, s). h \<in> set ?hs \<and> point_module (sh_payload h) \<in> set ?ms \<and> s = entity_score h ?q ?ms \<and> min_score \<le> s)
      (take (result_limit limit) (sort_entity_results ?c))"
    using c(1) by (fastforce simp: list_all_iff wanted_hit_def dest: in_set_takeD)
  ultimately show ?thesis unfolding search_entities_cases by simp
qed

text \<open>
  C30: an entity search misses nothing better than what it shows: for every hit of a wanted module with a
  record id that reaches the threshold, the record is among the results with at least that score, or
  the results are full and all score at least as much.
\<close>

theorem entity_search_complete:
  assumes "h \<in> set (entity_candidates X db prefix tenant (entity_query stopwords query) limit (entity_modules entity_type))"
    and "wanted_hit (entity_modules entity_type) h"
    and "min_score \<le> entity_score h (entity_query stopwords query) (entity_modules entity_type)"
  shows "\<exists>rs. rs = search_entities X db prefix stopwords min_score tenant query entity_type limit \<and>
    ((\<exists>h' s. (h', s) \<in> set rs \<and> record_of h' = record_of h \<and> entity_score h (entity_query stopwords query) (entity_modules entity_type) \<le> s) \<or>
     (length rs = result_limit limit \<and> list_all (\<lambda>hs. entity_score h (entity_query stopwords query) (entity_modules entity_type) \<le> snd hs) rs))"
proof -
  let ?q = "entity_query stopwords query" and ?ms = "entity_modules entity_type"
  let ?hs = "entity_candidates X db prefix tenant ?q limit ?ms"
  let ?c = "filter (\<lambda>hs. snd hs \<ge> min_score) (map snd (fold (entity_step ?q ?ms) ?hs []))"
  from entity_cands(3) [where q = ?q, OF assms(1,2)] obtain h' s where b: "(h', s) \<in> set (map snd (fold (entity_step ?q ?ms) ?hs []))"
    "record_of h' = record_of h" "entity_score h ?q ?ms \<le> s" by blast
  with assms(3) have "(h', s) \<in> set (sort_entity_results ?c)" by auto
  from sorted_wrt_take_top [where f = snd, OF sort_entity_sorted this, of "result_limit limit"] b(2,3) show ?thesis
    unfolding search_entities_cases by (fastforce simp: list_all_iff)
qed

definition demo_person :: "char \<Rightarrow> string \<Rightarrow> found_point" where
  "demo_person c name = \<lparr>fp_id = [c], fp_score = 1 / 2, fp_payload =
     [(''module'', PStr ''Contacts''), (''record_id'', PStr [c]), (''name'', PStr name)]\<rparr>"

definition demo_search_db :: search_db where
  "demo_search_db = \<lparr>sd_text = (\<lambda>c f q ms n. Inr (if f = ''name'' then [demo_person (CHR ''1'') ''Eva''] else [])),
     sd_vector = (\<lambda>i c v ms n. if i = 0 then Inl (OtherError ''index'') else Inr [demo_person (CHR ''2'') ''Iva'', demo_person (CHR ''1'') ''Eva''])\<rparr>"

theorem entity_search_complete_witness:
  "\<exists>rs. rs = search_entities demo_libs demo_search_db ''crm'' default_stopwords 50 ''t1'' ''Eva'' ''contact'' 1 \<and>
    ((\<exists>h' s. (h', s) \<in> set rs \<and> record_of h' = ''1'' \<and> entity_score (text_hit ''name'' (demo_person (CHR ''1'') ''Eva'')) ''eva'' [''Contacts''] \<le> s) \<or>
     (length rs = result_limit 1 \<and> list_all (\<lambda>hs. entity_score (text_hit ''name'' (demo_person (CHR ''1'') ''Eva'')) ''eva'' [''Contacts''] \<le> snd hs) rs))"
proof -
  let ?h = "text_hit ''name'' (demo_person (CHR ''1'') ''Eva'')"
  have ms: "entity_modules ''contact'' = [''Contacts'']" by code_simp
  have q: "entity_query default_stopwords ''Eva'' = ''eva''" by code_simp
  have id: "record_of ?h = ''1''" by code_simp
  have h: "map record_of (entity_candidates demo_libs demo_search_db ''crm'' ''t1'' ''eva'' 1 [''Contacts'']) = [''1'', ''2'']" by code_simp
  then have ne: "entity_candidates demo_libs demo_search_db ''crm'' ''t1'' ''eva'' 1 [''Contacts''] \<noteq> []" by auto
  have "hd (entity_candidates demo_libs demo_search_db ''crm'' ''t1'' ''eva'' 1 [''Contacts'']) = ?h" by code_simp
  with hd_in_set [OF ne] have m: "?h \<in> set (entity_candidates demo_libs demo_search_db ''crm'' ''t1'' ''eva'' 1 [''Contacts''])"
    by (simp only:)
  have w: "wanted_hit [''Contacts''] ?h" by code_simp
  have s: "50 \<le> entity_score ?h ''eva'' [''Contacts'']" by code_simp
  from entity_search_complete [of ?h demo_libs demo_search_db "''crm''" "''t1''" default_stopwords "''Eva''" 1 "''contact''" 50,
      unfolded ms q id, OF m w s] show ?thesis .
qed

section \<open>Divergences\<close>

text \<open>
  A module of the user's catalog that the tool's own table does not name (\<open>cases\<close>) passes the validation,
  and then the search runs without any filter: hits of other modules come back.
\<close>

theorem unmapped_module_unfiltered:
  "validate_rag_search_call (Some [''cases'']) ''Eva'' 5 ''cases'' = None"
  "rag_rows X db show_float prefix stopwords min_score tenant query limit ''cases'' =
     map (hit_row show_float) (index_search X db prefix tenant query (max 10 (limit * 4)) [])"
proof -
  show "validate_rag_search_call (Some [''cases'']) ''Eva'' 5 ''cases'' = None" by code_simp
  have "py_lower (py_strip ''cases'') = ''cases''" by code_simp
  then show "rag_rows X db show_float prefix stopwords min_score tenant query limit ''cases'' =
     map (hit_row show_float) (index_search X db prefix tenant query (max 10 (limit * 4)) [])"
    by (simp add: rag_rows_def rag_filter_modules_def Let_def)
qed

text \<open>
  The variant that joins the stems of all words takes the longest variant of each word, which is the
  word itself: the stems are never joined.
\<close>

theorem longest_variant_is_word: "token \<noteq> [] \<Longrightarrow> longest_variant token = token"
proof -
  assume ne: "token \<noteq> []"
  let ?k = "sort_key length (rev (token_variants token))"
  have t: "token \<in> set (token_variants token)" using ne by (simp add: token_variants_def)
  have shorter: "v = token \<or> length v < length token" if "v \<in> set (token_variants token)" for v
  proof -
    have "length suf > 0" if "suf \<in> set stem_suffixes" for suf using that by (auto simp: stem_suffixes_def)
    with that ne show ?thesis
      unfolding token_variants_def set_filter set_remdups by auto
  qed
  from t have k: "?k \<noteq> []" by (metis empty_iff length_0_conv list.set(1) set_rev set_sort)
  then have l: "last ?k \<in> set (token_variants token)" by (metis last_in_set set_rev set_sort)
  have "length token \<le> length (last ?k)"
  proof -
    from t obtain i where i: "i < length ?k" "?k ! i = token" by (metis in_set_conv_nth set_rev set_sort)
    have "sorted (map length ?k)" by simp
    from sorted_nth_mono [OF this, of i "length ?k - 1"] i k show ?thesis by (simp add: last_conv_nth)
  qed
  with shorter [OF l] have "last ?k = token" by auto
  with k show ?thesis by (simp add: longest_variant_def hd_rev)
qed

end
