(* ===== verification/Index_Api.thy ===== *)
theory Index_Api
  imports Rag_Index
begin

text \<open>
  The handlers of the index (\<open>_normalize_ingest_modules\<close>, \<open>_trigger_ingest\<close>, \<open>rag_ingest\<close>,
  \<open>rag_status\<close> and \<open>search\<close> of \<open>app/api/endpoints.py\<close>): which modules a request ingests, the
  ingest of one module after another where a failing one does not stop the rest, the same as
  background tasks, and the search that goes on without the index. The CRM of each module, the
  index and the searches are arguments.
\<close>

section \<open>Modules\<close>

definition default_ingest_modules :: "string list" where
  "default_ingest_modules = [''Contacts'', ''Accounts'', ''Meetings'']"

definition ingest_module_name :: "string \<Rightarrow> string" where
  "ingest_module_name value = (let c = canonical_module_name value in if c = [] then value else c)"

fun new_modules :: "string set \<Rightarrow> string list \<Rightarrow> string list" where
  "new_modules seen [] = []"
| "new_modules seen (m # ms) =
     (let value = py_strip m; c = ingest_module_name value in
      if value = [] \<or> py_lower c \<in> seen then new_modules seen ms else c # new_modules (insert (py_lower c) seen) ms)"

definition normalize_ingest_modules :: "string list option \<Rightarrow> string list" where
  "normalize_ingest_modules modules =
     (let ms = new_modules {} (case modules of None \<Rightarrow> [] | Some xs \<Rightarrow> xs) in if ms = [] then default_ingest_modules else ms)"

section \<open>The ingest\<close>

record ingest_request =
  ir_modules :: "string list option"
  ir_synchronous :: bool
  ir_limit :: "int option"
  ir_page :: "int option"
  ir_incremental :: bool

text \<open>
  What the handlers work with: the libraries and the index with the prefix and the batch size of its
  settings, and the CRM as it answers the requests for a module. \<open>ie_fuel\<close> bounds the pages.
\<close>

record 's ingest_env =
  ie_fuel :: nat
  ie_libs :: index_libs
  ie_store :: "'s index_store"
  ie_prefix :: string
  ie_batch :: nat
  ie_crm :: "string \<Rightarrow> nat \<Rightarrow> pydict \<Rightarrow> py result"

definition page_or_default :: "int option \<Rightarrow> int" where
  "page_or_default p = (case p of None \<Rightarrow> 500 | Some n \<Rightarrow> if n = 0 then 500 else n)"

definition ingest_module :: "'s ingest_env \<Rightarrow> string \<Rightarrow> int option \<Rightarrow> int \<Rightarrow> bool \<Rightarrow> string \<Rightarrow> 's \<Rightarrow> (nat result \<times> 's) option" where
  "ingest_module E tenant limit page incremental md s =
     map_option (\<lambda>(r, s', n). (r, s')) (ingest_from_crm (ie_fuel E) (ie_libs E) (ie_store E) (ie_prefix E) (ie_batch E)
       (ie_crm E md) tenant md limit page incremental s)"

text \<open>Synchronously: the number of points written for every module, zero for one that failed.\<close>

fun ingest_each :: "(string \<Rightarrow> 's \<Rightarrow> (nat result \<times> 's) option) \<Rightarrow> string list \<Rightarrow> 's \<Rightarrow> ((string \<times> nat) list \<times> 's) option" where
  "ingest_each run [] s = Some ([], s)"
| "ingest_each run (m # ms) s = Option.bind (run m s) (\<lambda>(r, s').
     map_option (\<lambda>(rest, s''). ((m, case r of Inl e \<Rightarrow> 0 | Inr n \<Rightarrow> n) # rest, s'')) (ingest_each run ms s'))"

text \<open>\<open>_trigger_ingest\<close> of a task, and the tasks of a response in the order they were added.\<close>

record ingest_task =
  tk_module :: string
  tk_limit :: "int option"
  tk_page :: "int option"
  tk_incremental :: bool

definition trigger_ingest :: "'s ingest_env option \<Rightarrow> string \<Rightarrow> ingest_task \<Rightarrow> 's \<Rightarrow> 's option" where
  "trigger_ingest service tenant t s = (case service of
     None \<Rightarrow> Some s
   | Some E \<Rightarrow> map_option snd (ingest_module E tenant (tk_limit t) (page_or_default (tk_page t)) (tk_incremental t) (tk_module t) s))"

fun run_tasks :: "'s ingest_env option \<Rightarrow> string \<Rightarrow> ingest_task list \<Rightarrow> 's \<Rightarrow> 's option" where
  "run_tasks service tenant [] s = Some s"
| "run_tasks service tenant (t # ts) s = Option.bind (trigger_ingest service tenant t s) (run_tasks service tenant ts)"

datatype ingest_reply =
    IngestDone "(string \<times> nat) list" "int option" int bool
  | IngestScheduled "string list" "int option" int bool

text \<open>The reply, the tasks to run after it, and the index.\<close>

definition rag_ingest ::
  "'s ingest_env option \<Rightarrow> string \<Rightarrow> ingest_request \<Rightarrow> 's \<Rightarrow> (ingest_reply result \<times> ingest_task list \<times> 's) option" where
  "rag_ingest service tenant rq s = (case service of
     None \<Rightarrow> Some (Inl (HTTPException 503 ''RAG service unavailable''), [], s)
   | Some E \<Rightarrow>
       (let modules = normalize_ingest_modules (ir_modules rq); page = page_or_default (ir_page rq) in
        if ir_synchronous rq
        then map_option (\<lambda>(results, s'). (Inr (IngestDone results (ir_limit rq) page (ir_incremental rq)), [], s'))
               (ingest_each (ingest_module E tenant (ir_limit rq) page (ir_incremental rq)) modules s)
        else Some (Inr (IngestScheduled modules (ir_limit rq) page (ir_incremental rq)),
               map (\<lambda>m. \<lparr>tk_module = m, tk_limit = ir_limit rq, tk_page = Some page, tk_incremental = ir_incremental rq\<rparr>) modules, s)))"

text \<open>The whole of a request: the handler and then its tasks.\<close>

definition ingest_request_run ::
  "'s ingest_env option \<Rightarrow> string \<Rightarrow> ingest_request \<Rightarrow> 's \<Rightarrow> (ingest_reply result \<times> 's) option" where
  "ingest_request_run service tenant rq s = Option.bind (rag_ingest service tenant rq s)
     (\<lambda>(r, tasks, s'). map_option (Pair r) (run_tasks service tenant tasks s'))"

section \<open>Status and search\<close>

text \<open>\<open>count_all\<close> is the exact count of the database; a module is counted over the scroll.\<close>

definition rag_status ::
  "'s ingest_env option \<Rightarrow> (string \<Rightarrow> 's \<Rightarrow> nat result) \<Rightarrow> string \<Rightarrow> string option \<Rightarrow> 's \<Rightarrow> (string option \<times> nat) result option" where
  "rag_status service count_all tenant md s = (case service of
     None \<Rightarrow> Some (Inl (HTTPException 503 ''RAG service unavailable''))
   | Some E \<Rightarrow>
       (let coll = tenant_collection (xl_sha1 (ie_libs E)) (ie_prefix E) tenant;
            name = (case md of None \<Rightarrow> None | Some m \<Rightarrow> if py_strip m = [] then None else Some (canonical_module_name (py_strip m)))
        in if (case name of None \<Rightarrow> True | Some n \<Rightarrow> n = [])
           then Some (res_bind (count_all coll s) (\<lambda>n. Inr (name, n)))
           else map_option (\<lambda>r. res_bind r (\<lambda>ps. Inr (name, length ps)))
             (iter_payloads (ie_fuel E) (ie_store E) coll (the name) 512 None None 0 s)))"

definition search_scopes :: "string list" where
  "search_scopes = [''contacts'', ''accounts'', ''meetings'']"

definition search_hits :: "(string \<Rightarrow> py list result) option \<Rightarrow> string \<Rightarrow> py list" where
  "search_hits rag q = (case rag of None \<Rightarrow> [] | Some f \<Rightarrow> (case f q of Inl e \<Rightarrow> [] | Inr xs \<Rightarrow> xs))"

text \<open>\<open>crm q scope\<close> is the search of the CRM; the three scopes are asked together and one failure fails all.\<close>

definition search_handler ::
  "(string \<Rightarrow> string \<Rightarrow> py result) \<Rightarrow> (string \<Rightarrow> py list result) option \<Rightarrow> string \<Rightarrow> string option \<Rightarrow> pydict result" where
  "search_handler crm rag input scope =
     (let q = py_strip input; sc = py_lower (case scope of None \<Rightarrow> ''all'' | Some s \<Rightarrow> if s = [] then ''all'' else s) in
      if sc \<in> set search_scopes
      then res_bind (crm q sc) (\<lambda>c. Inr [(''scope'', PStr sc), (''crm'', c), (''rag'', PList (search_hits rag q))])
      else res_bind (res_map (crm q) search_scopes) (\<lambda>cs. Inr
        ((''scope'', PStr ''all'') # zip search_scopes cs @ [(''rag'', PList (search_hits rag q))])))"

section \<open>Lemmas\<close>

lemma new_modules_fresh: "m \<in> set (new_modules seen ms) \<Longrightarrow> py_lower m \<notin> seen"
  by (induction seen ms rule: new_modules.induct) (auto simp: Let_def split: if_splits)

lemma new_modules_distinct: "distinct (map py_lower (new_modules seen ms))"
  by (induction seen ms rule: new_modules.induct) (auto simp: Let_def dest: new_modules_fresh)

lemma new_modules_ne: "m \<in> set (new_modules seen ms) \<Longrightarrow> m \<noteq> []"
  by (induction seen ms rule: new_modules.induct) (auto simp: Let_def ingest_module_name_def split: if_splits)

lemma normalized_modules:
  "distinct (map py_lower (normalize_ingest_modules ms)) \<and> normalize_ingest_modules ms \<noteq> [] \<and> [] \<notin> set (normalize_ingest_modules ms)"
proof -
  have "distinct (map py_lower default_ingest_modules)" "[] \<notin> set default_ingest_modules" "default_ingest_modules \<noteq> []" by code_simp+
  moreover have "[] \<notin> set (new_modules seen xs)" for seen xs using new_modules_ne by blast
  ultimately show ?thesis using new_modules_distinct by (simp add: normalize_ingest_modules_def Let_def)
qed

text \<open>What an ingest may touch: points of its module in the collection of its tenant, however it ends.\<close>

definition module_point :: "index_libs \<Rightarrow> string \<Rightarrow> string \<Rightarrow> string \<Rightarrow> bool" where
  "module_point X tenant md i = (\<exists>rid. i = xl_uuid5 X (tenant @ '':'' @ md @ '':'' @ rid))"

definition keeps_others ::
  "(string \<Rightarrow> 's \<Rightarrow> string \<Rightarrow> pydict option) \<Rightarrow> string \<Rightarrow> (string \<Rightarrow> bool) \<Rightarrow> 's \<Rightarrow> 's \<Rightarrow> bool" where
  "keeps_others look c P s s' = (\<forall>c' i. c' \<noteq> c \<or> \<not> P i \<longrightarrow> look c' s' i = look c' s i)"

lemma keeps_refl [simp]: "keeps_others look c P s s"
  by (simp add: keeps_others_def)

lemma keeps_trans: "keeps_others look c P s s' \<Longrightarrow> keeps_others look c P s' s'' \<Longrightarrow> keeps_others look c P s s''"
  by (simp add: keeps_others_def)

lemma keeps_weaken: "keeps_others look c P s s' \<Longrightarrow> (\<And>i. P i \<Longrightarrow> Q i) \<Longrightarrow> keeps_others look c Q s s'"
  by (auto simp: keeps_others_def)

lemma upsert_keeps_others:
  assumes "store_ok S look" "st_upsert S c ps s = Inr s'" "\<forall>p \<in> set ps. P (pt_id p)"
  shows "keeps_others look c P s s'"
proof -
  from assms(1,2) have l: "look c s' = look c s ++ points_map ps" "\<And>c'. c' \<noteq> c \<Longrightarrow> look c' s' = look c' s"
    by (auto simp: store_ok_def)
  have "points_map ps i = None" if "\<not> P i" for i using that assms(3) by (intro points_map_other) auto
  then have "look c' s' i = look c' s i" if "c' \<noteq> c \<or> \<not> P i" for c' i
    using that l by (cases "c' = c") (simp_all add: map_add_def)
  then show ?thesis by (simp add: keeps_others_def)
qed

lemma write_items_keeps:
  assumes ok: "store_ok S look"
  shows "write_items S c batch mk known its points n s = (r, s') \<Longrightarrow> \<forall>p \<in> set points. P (pt_id p) \<Longrightarrow>
    \<forall>it \<in> set its. P (pt_id (mk it)) \<Longrightarrow> keeps_others look c P s s'"
proof (induction its arbitrary: points n s)
  case Nil
  then show ?case using upsert_keeps_others [OF ok] by (auto split: if_splits sum.splits)
next
  case (Cons it its)
  let ?ps = "points @ [mk it]"
  have ps: "\<forall>p \<in> set ?ps. P (pt_id p)" using Cons.prems by simp
  show ?case
  proof (cases "unchanged_item known it \<or> length ?ps < batch")
    case True
    then show ?thesis using Cons.IH Cons.prems ps by (auto simp: Let_def split: if_splits)
  next
    case False
    show ?thesis
    proof (cases "st_upsert S c ?ps s")
      case (Inl e)
      with False Cons.prems show ?thesis by (simp add: Let_def)
    next
      case (Inr s1)
      with False Cons.prems have "write_items S c batch mk known its [] (n + length ?ps) s1 = (r, s')" by (simp add: Let_def)
      from Cons.IH [OF this] Cons.prems(3) upsert_keeps_others [OF ok Inr ps] show ?thesis by (auto intro: keeps_trans)
    qed
  qed
qed

lemma prepared_module_point: "it \<in> set (prepare_items X tenant md rs) \<Longrightarrow> module_point X tenant md (ii_point_id it)"
  by (auto simp: prepare_items_def prepare_item_def Let_def module_point_def)

lemma ingest_records_keeps:
  assumes "store_ok S look" "ingest_records X S prefix batch tenant md rs s = (r, s')"
  shows "keeps_others look (tenant_collection (xl_sha1 X) prefix tenant) (module_point X tenant md) s s'"
  using assms(2) prepared_module_point by (auto simp: ingest_records_def Let_def intro!: write_items_keeps [OF assms(1)])

lemma ingest_pages_keeps:
  assumes ing: "\<And>rs s r s'. ingest rs s = (r, s') \<Longrightarrow> keeps_others look c P s s'"
  shows "ingest_pages fuel ingest srv page wm i off rem m s = Some (r, s', j) \<Longrightarrow> keeps_others look c P s s'"
proof (induction fuel arbitrary: i off rem m s)
  case (Suc fuel)
  let ?sz = "case rem of None \<Rightarrow> page | Some r \<Rightarrow> min page r"
  show ?case
  proof (cases "rem = Some 0")
    case False
    show ?thesis
    proof (cases "srv i (ingest_payload off ?sz)")
      case (Inl e)
      with Suc.prems False show ?thesis by simp
    next
      case (Inr reply)
      obtain sel reached where sel: "select_changed wm (index_records reply) = (sel, reached)" by fastforce
      obtain x s1 where w: "(if sel = [] then (Inr 0, s) else ingest sel s) = (x, s1)" by fastforce
      then have k: "keeps_others look c P s s1" using ing by (auto split: if_splits)
      show ?thesis
      proof (cases "index_records reply = []")
        case True
        with Suc.prems False Inr sel show ?thesis by (auto simp: Let_def)
      next
        case ne: False
        show ?thesis
        proof (cases x)
          case (Inl e)
          with Suc.prems False Inr sel ne w k show ?thesis by (simp add: Let_def)
        next
          case (Inr n)
          with Suc.prems False \<open>srv i (ingest_payload off ?sz) = Inr reply\<close> sel ne w Suc.IH k show ?thesis
            by (auto simp: Let_def intro: keeps_trans split: if_splits)
        qed
      qed
    qed
  qed (use Suc.prems in simp)
qed simp

lemma ingest_module_keeps:
  assumes "store_ok (ie_store E) look" "ingest_module E tenant limit page inc md s = Some (r, s')"
  shows "keeps_others look (tenant_collection (xl_sha1 (ie_libs E)) (ie_prefix E) tenant) (module_point (ie_libs E) tenant md) s s'"
proof -
  from assms(2) obtain j where "ingest_from_crm (ie_fuel E) (ie_libs E) (ie_store E) (ie_prefix E) (ie_batch E) (ie_crm E md) tenant md
      limit page inc s = Some (r, s', j)" by (auto simp: ingest_module_def)
  then obtain y where y: "(case y of Inl e \<Rightarrow> Some (Inl e, s, 0)
      | Inr wm \<Rightarrow> ingest_pages (ie_fuel E) (ingest_records (ie_libs E) (ie_store E) (ie_prefix E) (ie_batch E) tenant md)
          (ie_crm E md) (max 1 (min page 500)) wm 0 0 (map_option (max 0) limit) 0 s) = Some (r, s', j)"
    by (auto simp: ingest_from_crm_def bind_eq_Some_conv)
  then show ?thesis using ingest_pages_keeps [OF ingest_records_keeps [OF assms(1)]] by (cases y) auto
qed

lemma ingest_each_keeps:
  assumes "\<And>m s r s'. m \<in> set ms \<Longrightarrow> run m s = Some (r, s') \<Longrightarrow> keeps_others look c P s s'"
  shows "ingest_each run ms s = Some (res, s') \<Longrightarrow> keeps_others look c P s s'"
  using assms
proof (induction ms arbitrary: s res)
  case (Cons m ms)
  from Cons.prems(1) obtain r s1 rest where "run m s = Some (r, s1)" "ingest_each run ms s1 = Some (rest, s')"
    by (auto simp: bind_eq_Some_conv)
  with Cons.IH [of s1 rest] Cons.prems(2) show ?case by (meson keeps_trans list.set_intros)
qed simp

lemma ingest_each_split:
  "ingest_each run (xs @ ys) s = Some (res, s') \<Longrightarrow>
   \<exists>r1 s1 r2. ingest_each run xs s = Some (r1, s1) \<and> ingest_each run ys s1 = Some (r2, s')"
proof (induction xs arbitrary: s res)
  case (Cons x xs)
  from Cons.prems obtain r s1 rest where "run x s = Some (r, s1)" "ingest_each run (xs @ ys) s1 = Some (rest, s')"
    by (auto simp: bind_eq_Some_conv)
  with Cons.IH [of s1 rest] show ?case by fastforce
qed simp

lemma page_or_default_again [simp]: "page_or_default (Some (page_or_default p)) = page_or_default p"
  by (simp add: page_or_default_def split: option.splits)

lemma tasks_are_each:
  "run_tasks (Some E) tenant (map (\<lambda>m. \<lparr>tk_module = m, tk_limit = l, tk_page = Some (page_or_default p), tk_incremental = inc\<rparr>) ms) s
     = map_option snd (ingest_each (ingest_module E tenant l (page_or_default p) inc) ms s)"
  by (induction ms arbitrary: s)
    (auto simp: trigger_ingest_def option.map_comp comp_def case_prod_unfold split: option.splits bind_splits)

text \<open>A request leaves the index as the ingests of its modules one after another do, now or in the background.\<close>

lemma request_is_each:
  "map_option snd (ingest_request_run (Some E) tenant rq s)
     = map_option snd (ingest_each (ingest_module E tenant (ir_limit rq) (page_or_default (ir_page rq)) (ir_incremental rq))
         (normalize_ingest_modules (ir_modules rq)) s)"
  by (auto simp: ingest_request_run_def rag_ingest_def Let_def tasks_are_each option.map_comp comp_def case_prod_unfold split: option.splits bind_splits)

lemma module_points_apart:
  assumes "inj (xl_uuid5 X)" "CHR '':'' \<notin> set a" "CHR '':'' \<notin> set b" "module_point X tenant a i" "module_point X tenant b i"
  shows "a = b"
proof -
  from assms(1,4,5) obtain p q where "a @ CHR '':'' # p = b @ CHR '':'' # q" by (auto simp: module_point_def dest: injD)
  moreover have "takeWhile (\<lambda>c. c \<noteq> CHR '':'') (x @ CHR '':'' # p) = x" if "CHR '':'' \<notin> set x" for x p
    using that by (induction x) auto
  ultimately show ?thesis using assms(2,3) by metis
qed

definition indexed :: "'s ingest_env \<Rightarrow> (string \<Rightarrow> 's \<Rightarrow> string \<Rightarrow> pydict option) \<Rightarrow> string \<Rightarrow> string \<Rightarrow> 's \<Rightarrow> pydict \<Rightarrow> bool" where
  "indexed E look tenant md s r = (let it = item_of (ie_libs E) tenant md r in
     \<exists>p. look (tenant_collection (xl_sha1 (ie_libs E)) (ie_prefix E) tenant) s (ii_point_id it) = Some p \<and> point_fresh p (ii_hash it))"

lemma item_of_point: "module_point X tenant md (ii_point_id (item_of X tenant md r))"
  by (auto simp: item_of_def module_point_def prepare_item_def Let_def)

lemma module_complete:
  assumes "store_ok (ie_store E) look" and "\<And>c ps s. \<exists>s'. st_upsert (ie_store E) c ps s = Inr s'"
    and "proper_index_rows (ie_libs E) tenant md rows" and "serves_index (ie_crm E md) rows"
    and "length rows div nat (max 1 (min page 500)) < ie_fuel E"
    and "ingest_module E tenant None page False md s = Some (r, s')"
  shows "list_all (indexed E look tenant md s') rows \<and> \<not> isl r"
proof -
  let ?l = "nat (max 1 (min page 500))"
  have l: "0 < ?l" "?l \<le> 500" "max 1 (min (int ?l) 500) = max 1 (min page 500)" by auto
  have "ingest_from_crm (ie_fuel E) (ie_libs E) (ie_store E) (ie_prefix E) (ie_batch E) (ie_crm E md) tenant md None page False s =
      ingest_from_crm (ie_fuel E) (ie_libs E) (ie_store E) (ie_prefix E) (ie_batch E) (ie_crm E md) tenant md None (int ?l) False s"
    unfolding ingest_from_crm_def l(3) ..
  with full_ingest_complete [OF assms(1-4) l(1,2) assms(5), of "ie_prefix E" "ie_batch E" s] assms(6)
  show ?thesis by (auto simp: ingest_module_def indexed_def [abs_def] Let_def)
qed

section \<open>Properties\<close>


definition demo_ingest :: "demo_db ingest_env" where
  "demo_ingest = \<lparr>ie_fuel = 3, ie_libs = demo_libs, ie_store = demo_store, ie_prefix = ''crm'', ie_batch = 2,
     ie_crm = (\<lambda>m. if m = ''Accounts'' then demo_index_srv else (\<lambda>i p. Inl (OtherError ''timeout'')))\<rparr>"

definition demo_ingest_request :: ingest_request where
  "demo_ingest_request = \<lparr>ir_modules = Some ['' contacts'', ''accounts'', ''Contacts''], ir_synchronous = True, ir_limit = None,
     ir_page = Some 2, ir_incremental = False\<rparr>"

lemma demo_ingest_modules: "normalize_ingest_modules (ir_modules demo_ingest_request) = [''Contacts'', ''Accounts'']"
  by code_simp


text \<open>
  A module that failed is reported like one without records: zero, with success.
\<close>

lemma failed_module_reported_empty:
  "ingest_each run [m] s = Some (res, s') \<Longrightarrow> run m s = Some (Inl e, s') \<Longrightarrow> res = [(m, 0)]"
  by simp

text \<open>The search answers without the index when that fails.\<close>

lemma search_degrades:
  "search_handler crm (Some (\<lambda>q. Inl e)) input scope = search_handler crm None input scope"
  unfolding search_handler_def search_hits_def Let_def by simp

end
