(* ===== verification/Skills.thy ===== *)
theory Skills
  imports Tenant_Auth Contact_Proposals "HOL-Library.List_Lexorder"
begin

text \<open>
  The rules that users and administrators teach the assistant (\<open>app/services/skill_service.py\<close>,
  \<open>skill_capture_service.py\<close>, \<open>app/domain/skill_contracts.py\<close>, the tables of
  \<open>database/skill_models.py\<close> and the handlers of \<open>app/api/endpoints.py\<close>): overlays of a tenant and of
  a user, their capture from corrections, their approval, and the block of the system prompt built
  from them. A table is the list of its rows in the order of insertion; the model call that
  distils a correction and the regular expressions that recognise one are arguments, as are the texts of
  the base skills. A UUID is the text it was read from.
\<close>

section \<open>Rules\<close>

datatype overlay_type = BusinessRule | FieldMapping | EntityAlias | WorkflowDefault | ResponsePreference | ToolUsageRule | SafetyRule

datatype rule_scope = TenantScope | UserScope

definition scope_by_type :: "overlay_type \<Rightarrow> rule_scope" where
  "scope_by_type t = (case t of BusinessRule \<Rightarrow> TenantScope | FieldMapping \<Rightarrow> TenantScope | EntityAlias \<Rightarrow> TenantScope
     | WorkflowDefault \<Rightarrow> UserScope | ResponsePreference \<Rightarrow> UserScope | ToolUsageRule \<Rightarrow> TenantScope | SafetyRule \<Rightarrow> TenantScope)"

record base_skill =
  bs_id :: string
  bs_name :: string
  bs_description :: string
  bs_rule :: string
  bs_version :: nat
  bs_enabled :: bool

text \<open>A row of either overlay table; the user is empty in the tenant table.\<close>

record overlay =
  ov_tenant :: string
  ov_user :: string
  ov_skill :: "string option"
  ov_name :: string
  ov_description :: string
  ov_type :: overlay_type
  ov_rule :: string
  ov_structured :: py
  ov_confidence :: "rat option"
  ov_trace :: "string option"
  ov_created_by :: "string option"
  ov_status :: string
  ov_active :: bool
  ov_created :: nat

record overlay_create =
  oc_name :: string
  oc_description :: string
  oc_type :: overlay_type
  oc_rule :: string
  oc_skill :: "string option"
  oc_structured :: py
  oc_confidence :: "rat option"
  oc_trace :: "string option"
  oc_created_by :: "string option"

record skill_db =
  sk_base :: "base_skill list"
  sk_tenant :: "overlay list"
  sk_user :: "overlay list"

record skill_settings =
  ss_enabled :: bool
  ss_modify :: bool
  ss_capture :: bool
  ss_max :: nat
  ss_min_confidence :: rat

definition max_rule_text_chars :: nat where "max_rule_text_chars = 2000"

definition parse_uuid :: "string option \<Rightarrow> string option" where
  "parse_uuid v = (case v of Some t \<Rightarrow> if t \<noteq> [] \<and> is_uuid t then Some t else None | None \<Rightarrow> None)"

definition coerce_trace_id :: "string option \<Rightarrow> string option \<Rightarrow> string option" where
  "coerce_trace_id data_trace request_id = (case data_trace of Some t \<Rightarrow> Some t | None \<Rightarrow> parse_uuid request_id)"

section \<open>Reading\<close>

definition shown_rule :: "overlay \<Rightarrow> bool" where
  "shown_rule x = (ov_active x \<and> ov_status x = ''approved'')"

definition of_tenant :: "string \<Rightarrow> overlay \<Rightarrow> bool" where "of_tenant t x = (ov_tenant x = t)"

definition of_user :: "string \<Rightarrow> string \<Rightarrow> overlay \<Rightarrow> bool" where "of_user t u x = (ov_tenant x = t \<and> ov_user x = u)"

record index_entry =
  ix_name :: string
  ix_description :: string
  ix_scope :: rule_scope
  ix_type :: overlay_type

definition entry_of :: "rule_scope \<Rightarrow> overlay \<Rightarrow> index_entry" where
  "entry_of sc x = \<lparr>ix_name = ov_name x, ix_description = ov_description x, ix_scope = sc, ix_type = ov_type x\<rparr>"

definition load_index :: "skill_settings \<Rightarrow> skill_db \<Rightarrow> string \<Rightarrow> string \<Rightarrow> index_entry list" where
  "load_index st db t u =
     (if \<not> ss_enabled st then []
      else (let put = (\<lambda>sc x. dput (ov_name x) (entry_of sc x)) in
        map snd (fold (put UserScope) (take (ss_max st) (filter (\<lambda>x. of_user t u x \<and> shown_rule x) (sk_user db)))
          (fold (put TenantScope) (take (ss_max st) (filter (\<lambda>x. of_tenant t x \<and> shown_rule x) (sk_tenant db))) []))))"

record skill_context =
  sc_base :: "base_skill list"
  sc_tenant :: "overlay list"
  sc_user :: "overlay list"

definition assemble_context :: "skill_settings \<Rightarrow> skill_db \<Rightarrow> string \<Rightarrow> string \<Rightarrow> skill_context" where
  "assemble_context st db t u =
     (if \<not> ss_enabled st then \<lparr>sc_base = [], sc_tenant = [], sc_user = []\<rparr>
      else \<lparr>sc_base = sort_key bs_id (filter (\<lambda>b. bs_enabled b \<and> bs_rule b \<noteq> []) (sk_base db)),
        sc_tenant = take (ss_max st) (sort_key ov_created (filter (\<lambda>x. of_tenant t x \<and> shown_rule x) (sk_tenant db))),
        sc_user = take (ss_max st) (sort_key ov_created (filter (\<lambda>x. of_user t u x \<and> shown_rule x) (sk_user db)))\<rparr>)"

definition overlay_line :: "overlay \<Rightarrow> string" where
  "overlay_line x = ''- **'' @ ov_name x @ ''**: '' @ ov_rule x"

definition precedence_note :: string where
  "precedence_note = ''_Tato pravidla maji prednost pred vychozim chovanim. Pravidla organizace a osobni preference maji prednost pred zakladnimi pravidly; Pravidla organizace maji prednost pred osobnimi preferencemi v pripade konfliktu._''"

definition to_prompt_block :: "skill_context \<Rightarrow> string" where
  "to_prompt_block c =
     (if sc_base c = [] \<and> sc_tenant c = [] \<and> sc_user c = [] then []
      else py_join nl ([''## Pravidla a dovednosti'' @ nl] @
        (if sc_base c = [] then [] else
           [''### Zakladni pravidla''] @ concat (map (\<lambda>b. [''**'' @ bs_name b @ ''**'', bs_rule b]) (sc_base c)) @ [[]]) @
        (if sc_tenant c = [] then [] else [''### Pravidla organizace''] @ map overlay_line (sc_tenant c) @ [[]]) @
        (if sc_user c = [] then [] else [''### Vase osobni preference''] @ map overlay_line (sc_user c) @ [[]]) @
        [precedence_note]))"

text \<open>
  The block of a turn (\<open>run_agent\<close>): \<open>loaded\<close> is \<open>None\<close> without a session; a failing load, disabled skills
  or missing base rows leave the base rules of the code in the prompt.
\<close>

definition skill_block :: "skill_settings \<Rightarrow> base_skill list \<Rightarrow> skill_context result option \<Rightarrow> string" where
  "skill_block st fallback loaded =
     (let block = (case loaded of
          Some (Inr c) \<Rightarrow> if ss_enabled st then to_prompt_block (if sc_base c = [] then c\<lparr>sc_base := fallback\<rparr> else c) else []
        | _ \<Rightarrow> [])
      in if block = [] then to_prompt_block \<lparr>sc_base = fallback, sc_tenant = [], sc_user = []\<rparr> else block)"

section \<open>Writing\<close>

text \<open>The columns that an update takes from the request; a trace id only when there is one.\<close>

definition fill_overlay :: "overlay_create \<Rightarrow> string option \<Rightarrow> overlay \<Rightarrow> overlay" where
  "fill_overlay d trace x = x\<lparr>ov_description := oc_description d, ov_type := oc_type d,
     ov_rule := take max_rule_text_chars (oc_rule d), ov_structured := oc_structured d, ov_confidence := oc_confidence d,
     ov_trace := (case trace of Some t \<Rightarrow> Some t | None \<Rightarrow> ov_trace x), ov_active := True\<rparr>"

definition new_overlay :: "string \<Rightarrow> string \<Rightarrow> overlay_create \<Rightarrow> string option \<Rightarrow> string option \<Rightarrow> string \<Rightarrow> nat \<Rightarrow> overlay" where
  "new_overlay t u d trace created_by status now = \<lparr>ov_tenant = t, ov_user = u, ov_skill = oc_skill d, ov_name = oc_name d,
     ov_description = oc_description d, ov_type = oc_type d, ov_rule = take max_rule_text_chars (oc_rule d),
     ov_structured = oc_structured d, ov_confidence = oc_confidence d, ov_trace = trace, ov_created_by = created_by,
     ov_status = status, ov_active = True, ov_created = now\<rparr>"

text \<open>The foreign key of an inserted row.\<close>

definition known_skill :: "skill_db \<Rightarrow> overlay_create \<Rightarrow> bool" where
  "known_skill db d = (case oc_skill d of None \<Rightarrow> True | Some s \<Rightarrow> s \<in> set (map bs_id (sk_base db)))"

definition replace_row :: "(overlay \<Rightarrow> bool) \<Rightarrow> overlay \<Rightarrow> overlay list \<Rightarrow> overlay list" where
  "replace_row P new rows = map (\<lambda>x. if P x then new else x) rows"

definition integrity_error :: py_exc where "integrity_error = OtherError ''IntegrityError''"

definition upsert_tenant_overlay ::
  "skill_settings \<Rightarrow> nat \<Rightarrow> string \<Rightarrow> overlay_create \<Rightarrow> string option \<Rightarrow> string \<Rightarrow> skill_db \<Rightarrow> overlay option result \<times> skill_db" where
  "upsert_tenant_overlay st now t d request_id status db =
     (let key = (\<lambda>x. of_tenant t x \<and> ov_name x = oc_name d); trace = coerce_trace_id (oc_trace d) request_id in
      if \<not> ss_modify st then (Inr None, db)
      else (case find key (sk_tenant db) of
          Some ex \<Rightarrow>
            if status = ''pending'' \<and> ov_status ex = ''approved'' then (Inr None, db)
            else (let new = (fill_overlay d trace ex)\<lparr>ov_status := status\<rparr>
              in (Inr (Some new), db\<lparr>sk_tenant := replace_row key new (sk_tenant db)\<rparr>))
        | None \<Rightarrow>
            if \<not> known_skill db d then (Inl integrity_error, db)
            else (let row = new_overlay t [] d trace (oc_created_by d) status now
              in (Inr (Some row), db\<lparr>sk_tenant := sk_tenant db @ [row]\<rparr>))))"

definition upsert_user_overlay ::
  "skill_settings \<Rightarrow> nat \<Rightarrow> string \<Rightarrow> string \<Rightarrow> overlay_create \<Rightarrow> string option \<Rightarrow> skill_db \<Rightarrow> overlay option result \<times> skill_db" where
  "upsert_user_overlay st now t u d request_id db =
     (let key = (\<lambda>x. of_user t u x \<and> ov_name x = oc_name d); trace = coerce_trace_id (oc_trace d) request_id in
      if \<not> ss_modify st then (Inr None, db)
      else (case find key (sk_user db) of
          Some ex \<Rightarrow> (let new = fill_overlay d trace ex
              in (Inr (Some new), db\<lparr>sk_user := replace_row key new (sk_user db)\<rparr>))
        | None \<Rightarrow>
            if \<not> known_skill db d then (Inl integrity_error, db)
            else (let row = new_overlay t u d trace None ''approved'' now
              in (Inr (Some row), db\<lparr>sk_user := sk_user db @ [row]\<rparr>))))"

definition list_pending_tenant_overlays :: "skill_db \<Rightarrow> string \<Rightarrow> overlay list" where
  "list_pending_tenant_overlays db t =
     sort_key ov_created (filter (\<lambda>x. of_tenant t x \<and> ov_active x \<and> ov_status x = ''pending'') (sk_tenant db))"

definition approve_tenant_overlay :: "skill_settings \<Rightarrow> string \<Rightarrow> string \<Rightarrow> skill_db \<Rightarrow> overlay option \<times> skill_db" where
  "approve_tenant_overlay st t name db =
     (let key = (\<lambda>x. of_tenant t x \<and> ov_name x = name) in
      if \<not> ss_modify st then (None, db)
      else (case find key (sk_tenant db) of
          None \<Rightarrow> (None, db)
        | Some row \<Rightarrow> (let new = row\<lparr>ov_status := ''approved'', ov_active := True\<rparr>
            in (Some new, db\<lparr>sk_tenant := replace_row key new (sk_tenant db)\<rparr>))))"

definition deactivate_tenant_overlay :: "skill_settings \<Rightarrow> string \<Rightarrow> string \<Rightarrow> skill_db \<Rightarrow> bool \<times> skill_db" where
  "deactivate_tenant_overlay st t name db =
     (let key = (\<lambda>x. of_tenant t x \<and> ov_name x = name) in
      if \<not> ss_modify st then (False, db)
      else (case find key (sk_tenant db) of
          None \<Rightarrow> (False, db)
        | Some row \<Rightarrow> (True, db\<lparr>sk_tenant := replace_row key (row\<lparr>ov_active := False\<rparr>) (sk_tenant db)\<rparr>)))"

definition deactivate_user_overlay :: "skill_settings \<Rightarrow> string \<Rightarrow> string \<Rightarrow> string \<Rightarrow> skill_db \<Rightarrow> bool \<times> skill_db" where
  "deactivate_user_overlay st t u name db =
     (let key = (\<lambda>x. of_user t u x \<and> ov_name x = name) in
      if \<not> ss_modify st then (False, db)
      else (case find key (sk_user db) of
          None \<Rightarrow> (False, db)
        | Some row \<Rightarrow> (True, db\<lparr>sk_user := replace_row key (row\<lparr>ov_active := False\<rparr>) (sk_user db)\<rparr>)))"

section \<open>Capture\<close>

text \<open>What the model distils from a correction, already validated by its schema.\<close>

record correction =
  cr_name :: string
  cr_description :: string
  cr_type :: overlay_type
  cr_rule :: string
  cr_structured :: py
  cr_confidence :: rat
  cr_skill :: "string option"

definition create_of :: "string option \<Rightarrow> string option \<Rightarrow> correction \<Rightarrow> overlay_create" where
  "create_of created_by request_id c = \<lparr>oc_name = cr_name c, oc_description = cr_description c, oc_type = cr_type c, oc_rule = cr_rule c,
     oc_skill = cr_skill c, oc_structured = cr_structured c, oc_confidence = Some (cr_confidence c),
     oc_trace = parse_uuid request_id, oc_created_by = created_by\<rparr>"

text \<open>The schemas of the requests bound the length of the name.\<close>

definition valid_create :: "overlay_create \<Rightarrow> bool" where
  "valid_create d = (length (oc_name d) \<le> 255 \<and> (case oc_confidence d of None \<Rightarrow> True | Some c \<Rightarrow> 0 \<le> c \<and> c \<le> 1))"

definition save_correction ::
  "skill_settings \<Rightarrow> nat \<Rightarrow> correction \<Rightarrow> string \<Rightarrow> string \<Rightarrow> string option \<Rightarrow> skill_db \<Rightarrow> overlay option result \<times> skill_db" where
  "save_correction st now c t u request_id db =
     (let d = create_of (if scope_by_type (cr_type c) = TenantScope then Some u else None) request_id c in
      if \<not> valid_create d then (Inl (ValueError ''validation''), db)
      else if scope_by_type (cr_type c) = TenantScope then upsert_tenant_overlay st now t d request_id ''pending'' db
      else upsert_user_overlay st now t u d request_id db)"

definition maybe_capture ::
  "skill_settings \<Rightarrow> nat \<Rightarrow> bool \<Rightarrow> correction option \<Rightarrow> string \<Rightarrow> string \<Rightarrow> string option \<Rightarrow> skill_db \<Rightarrow> correction option \<times> skill_db" where
  "maybe_capture st now signal distilled t u request_id db =
     (if \<not> (ss_enabled st \<and> ss_capture st \<and> ss_modify st \<and> signal) then (None, db)
      else (case distilled of
          None \<Rightarrow> (None, db)
        | Some c \<Rightarrow>
            if cr_confidence c < ss_min_confidence st then (None, db)
            else (case save_correction st now c t u request_id db of
                (Inl _, db') \<Rightarrow> (None, db') | (Inr _, db') \<Rightarrow> (Some c, db'))))"

section \<open>Requests\<close>

text \<open>
  What changes the tables: the capture after a turn of \<open>(tenant, user)\<close>, and the handlers, those of tenant
  overlays only for administrators of the skills.
\<close>

datatype skill_op =
    Capture bool "correction option" "string option"
  | Approve string
  | PutTenant overlay_create
  | DropTenant string
  | PutUser overlay_create
  | DropUser string

fun admin_op :: "skill_op \<Rightarrow> bool" where
  "admin_op (Approve _) = True"
| "admin_op (PutTenant _) = True"
| "admin_op (DropTenant _) = True"
| "admin_op _ = False"

definition skill_request ::
  "skill_settings \<Rightarrow> string list \<Rightarrow> nat \<Rightarrow> string \<Rightarrow> string \<Rightarrow> skill_op \<Rightarrow> skill_db \<Rightarrow> skill_db" where
  "skill_request st admins now t u op db =
     (let admin = (u \<in> set admins \<or> t @ '':'' @ u \<in> set admins) in
      if admin_op op \<and> \<not> admin then db
      else (case op of
          Capture signal distilled request_id \<Rightarrow> snd (maybe_capture st now signal distilled t u request_id db)
        | Approve name \<Rightarrow> snd (approve_tenant_overlay st t name db)
        | PutTenant d \<Rightarrow> if valid_create d
            then snd (upsert_tenant_overlay st now t (d\<lparr>oc_created_by := Some u\<rparr>) None ''approved'' db) else db
        | DropTenant name \<Rightarrow> snd (deactivate_tenant_overlay st t name db)
        | PutUser d \<Rightarrow> if valid_create d then snd (upsert_user_overlay st now t u d None db) else db
        | DropUser name \<Rightarrow> snd (deactivate_user_overlay st t u name db)))"

type_synonym skill_event = "nat \<times> string \<times> string \<times> skill_op"

definition run_requests :: "skill_settings \<Rightarrow> string list \<Rightarrow> skill_event list \<Rightarrow> skill_db \<Rightarrow> skill_db" where
  "run_requests st admins evs db = fold (\<lambda>(now, t, u, op). skill_request st admins now t u op) evs db"

section \<open>Lemmas\<close>

text \<open>The unique constraints of the tables, and the length the service cuts rules to.\<close>

definition tenant_key :: "overlay \<Rightarrow> string \<times> string" where "tenant_key x = (ov_tenant x, ov_name x)"

definition user_key :: "overlay \<Rightarrow> string \<times> string \<times> string" where "user_key x = (ov_tenant x, ov_user x, ov_name x)"

definition rules_bounded :: "overlay list \<Rightarrow> bool" where
  "rules_bounded rows \<longleftrightarrow> list_all (\<lambda>x. length (ov_rule x) \<le> max_rule_text_chars) rows"

definition skills_ok :: "skill_db \<Rightarrow> bool" where
  "skills_ok db \<longleftrightarrow> distinct (map tenant_key (sk_tenant db)) \<and> distinct (map user_key (sk_user db)) \<and>
     rules_bounded (sk_tenant db) \<and> rules_bounded (sk_user db)"

lemma filter_replace:
  "(\<And>x. x \<in> set rows \<Longrightarrow> P x \<Longrightarrow> \<not> Q x) \<Longrightarrow> \<not> Q new \<Longrightarrow> filter Q (replace_row P new rows) = filter Q rows"
  by (induction rows) (auto simp: replace_row_def)

lemma map_replace: "(\<And>x. P x \<Longrightarrow> f x = f new) \<Longrightarrow> map f (replace_row P new rows) = map f rows"
  by (auto simp: replace_row_def)

lemma rules_bounded_replace:
  "rules_bounded rows \<Longrightarrow> length (ov_rule new) \<le> max_rule_text_chars \<Longrightarrow> rules_bounded (replace_row P new rows)"
  by (auto simp: rules_bounded_def list_all_iff replace_row_def)

lemma fill_overlay_fields [simp]:
  "ov_tenant (fill_overlay d tr x) = ov_tenant x" "ov_user (fill_overlay d tr x) = ov_user x" "ov_name (fill_overlay d tr x) = ov_name x"
  "ov_rule (fill_overlay d tr x) = take max_rule_text_chars (oc_rule d)" "ov_status (fill_overlay d tr x) = ov_status x"
  by (simp_all add: fill_overlay_def)

lemma new_overlay_fields [simp]:
  "ov_tenant (new_overlay t u d tr cb s now) = t" "ov_user (new_overlay t u d tr cb s now) = u" "ov_name (new_overlay t u d tr cb s now) = oc_name d"
  "ov_rule (new_overlay t u d tr cb s now) = take max_rule_text_chars (oc_rule d)" "ov_status (new_overlay t u d tr cb s now) = s"
  by (simp_all add: new_overlay_def)

lemmas skill_keys = of_tenant_def of_user_def tenant_key_def user_key_def

text \<open>What each operation leaves alone.\<close>

lemma upsert_tenant_frame [simp]:
  "sk_base (snd (upsert_tenant_overlay st now t d r s db)) = sk_base db"
  "sk_user (snd (upsert_tenant_overlay st now t d r s db)) = sk_user db"
  by (auto simp: upsert_tenant_overlay_def Let_def split: option.splits)

lemma upsert_user_frame [simp]:
  "sk_base (snd (upsert_user_overlay st now t u d r db)) = sk_base db"
  "sk_tenant (snd (upsert_user_overlay st now t u d r db)) = sk_tenant db"
  by (auto simp: upsert_user_overlay_def Let_def split: option.splits)

lemma approve_frame [simp]:
  "sk_base (snd (approve_tenant_overlay st t n db)) = sk_base db" "sk_user (snd (approve_tenant_overlay st t n db)) = sk_user db"
  by (auto simp: approve_tenant_overlay_def Let_def split: option.splits)

lemma deactivate_tenant_frame [simp]:
  "sk_base (snd (deactivate_tenant_overlay st t n db)) = sk_base db" "sk_user (snd (deactivate_tenant_overlay st t n db)) = sk_user db"
  by (auto simp: deactivate_tenant_overlay_def Let_def split: option.splits)

lemma deactivate_user_frame [simp]:
  "sk_base (snd (deactivate_user_overlay st t u n db)) = sk_base db" "sk_tenant (snd (deactivate_user_overlay st t u n db)) = sk_tenant db"
  by (auto simp: deactivate_user_overlay_def Let_def split: option.splits)

lemma maybe_capture_cases:
  obtains "snd (maybe_capture st now sig c t u r db) = db"
  | d where "snd (maybe_capture st now sig c t u r db) = snd (upsert_tenant_overlay st now t d r ''pending'' db)"
  | d where "snd (maybe_capture st now sig c t u r db) = snd (upsert_user_overlay st now t u d r db)"
proof (cases "(ss_enabled st \<and> ss_capture st \<and> ss_modify st \<and> sig)")
  case False
  then show ?thesis using that(1) by (auto simp: maybe_capture_def)
next
  case on: True
  show ?thesis
  proof (cases "c = None \<or> cr_confidence (the c) < ss_min_confidence st")
    case True
    then show ?thesis using that(1) by (cases c) (auto simp: maybe_capture_def)
  next
    case False
    then obtain x where c: "c = Some x" by auto
    with on False have "snd (maybe_capture st now sig c t u r db) = snd (save_correction st now x t u r db)"
      by (simp add: maybe_capture_def split: prod.splits sum.splits)
    then show ?thesis using that by (auto simp: save_correction_def Let_def split: if_splits)
  qed
qed

lemma upsert_tenant_keeps:
  assumes "\<And>x. ov_tenant x = t \<Longrightarrow> \<not> Q x"
  shows "filter Q (sk_tenant (snd (upsert_tenant_overlay st now t d r s db))) = filter Q (sk_tenant db)"
  using assms
  by (auto simp: upsert_tenant_overlay_def Let_def of_tenant_def find_Some_iff intro!: filter_replace split: option.splits)

lemma approve_keeps:
  assumes "\<And>x. ov_tenant x = t \<Longrightarrow> \<not> Q x"
  shows "filter Q (sk_tenant (snd (approve_tenant_overlay st t n db))) = filter Q (sk_tenant db)"
  using assms
  by (auto simp: approve_tenant_overlay_def Let_def of_tenant_def find_Some_iff intro!: filter_replace split: option.splits)

lemma deactivate_tenant_keeps:
  assumes "\<And>x. ov_tenant x = t \<Longrightarrow> \<not> Q x"
  shows "filter Q (sk_tenant (snd (deactivate_tenant_overlay st t n db))) = filter Q (sk_tenant db)"
  using assms
  by (auto simp: deactivate_tenant_overlay_def Let_def of_tenant_def find_Some_iff intro!: filter_replace split: option.splits)

lemma upsert_user_keeps:
  assumes "\<And>x. ov_tenant x = t \<Longrightarrow> ov_user x = u \<Longrightarrow> \<not> Q x"
  shows "filter Q (sk_user (snd (upsert_user_overlay st now t u d r db))) = filter Q (sk_user db)"
  using assms
  by (auto simp: upsert_user_overlay_def Let_def of_user_def find_Some_iff intro!: filter_replace split: option.splits)

lemma deactivate_user_keeps:
  assumes "\<And>x. ov_tenant x = t \<Longrightarrow> ov_user x = u \<Longrightarrow> \<not> Q x"
  shows "filter Q (sk_user (snd (deactivate_user_overlay st t u n db))) = filter Q (sk_user db)"
  using assms
  by (auto simp: deactivate_user_overlay_def Let_def of_user_def find_Some_iff intro!: filter_replace split: option.splits)

text \<open>A pending rule neither shows itself nor takes the place of a shown one.\<close>

lemma pending_upsert_hidden:
  assumes u: "distinct (map tenant_key (sk_tenant db))"
  shows "filter (\<lambda>x. of_tenant t x \<and> shown_rule x) (sk_tenant (snd (upsert_tenant_overlay st now t' d r ''pending'' db))) =
    filter (\<lambda>x. of_tenant t x \<and> shown_rule x) (sk_tenant db)"
proof (cases "find (\<lambda>x. of_tenant t' x \<and> ov_name x = oc_name d) (sk_tenant db)")
  case None
  then show ?thesis by (simp add: upsert_tenant_overlay_def Let_def shown_rule_def)
next
  case (Some ex)
  then have ex: "ex \<in> set (sk_tenant db)" "of_tenant t' ex" "ov_name ex = oc_name d"
    by (auto simp: find_Some_iff)
  have same: "x = ex" if "x \<in> set (sk_tenant db)" "of_tenant t' x" "ov_name x = oc_name d" for x
    using u that ex unfolding distinct_map by (auto simp: tenant_key_def of_tenant_def dest!: inj_onD [where x = x and y = ex])
  show ?thesis
  proof (cases "ov_status ex = ''approved''")
    case True
    with Some show ?thesis by (simp add: upsert_tenant_overlay_def Let_def)
  next
    case False
    let ?key = "\<lambda>x. of_tenant t' x \<and> ov_name x = oc_name d" and ?Q = "\<lambda>x. of_tenant t x \<and> shown_rule x"
    have "filter ?Q (replace_row ?key ((fill_overlay d tr ex)\<lparr>ov_status := ''pending''\<rparr>) (sk_tenant db)) = filter ?Q (sk_tenant db)" for tr
      using False same by (intro filter_replace) (auto simp: shown_rule_def)
    with Some False show ?thesis by (simp add: upsert_tenant_overlay_def Let_def)
  qed
qed

lemma request_hidden:
  assumes ok: "skills_ok db" and no: "t' \<noteq> t \<or> \<not> admin_op op \<or> \<not> (u' \<in> set admins \<or> t' @ '':'' @ u' \<in> set admins)"
  shows "filter (\<lambda>x. of_tenant t x \<and> shown_rule x) (sk_tenant (skill_request st admins now t' u' op db)) =
    filter (\<lambda>x. of_tenant t x \<and> shown_rule x) (sk_tenant db)"
proof (cases "t' = t \<and> admin_op op")
  case True
  with no show ?thesis by (simp add: skill_request_def)
next
  case False
  have u: "distinct (map tenant_key (sk_tenant db))" using ok by (simp add: skills_ok_def)
  show ?thesis
  proof (cases op)
    case (Capture sig c r)
    show ?thesis
      unfolding Capture skill_request_def
      by (rule maybe_capture_cases [of st now sig c t' u' r db]) (simp_all add: pending_upsert_hidden [OF u])
  qed (use False in \<open>auto simp: skill_request_def of_tenant_def intro!: upsert_tenant_keeps approve_keeps deactivate_tenant_keeps\<close>)
qed

lemma request_other_user:
  assumes "t' \<noteq> t \<or> u' \<noteq> u"
  shows "filter (\<lambda>x. of_user t u x \<and> shown_rule x) (sk_user (skill_request st admins now t' u' op db)) =
    filter (\<lambda>x. of_user t u x \<and> shown_rule x) (sk_user db)"
proof (cases op)
  case (Capture sig c r)
  show ?thesis
    unfolding Capture skill_request_def
    by (rule maybe_capture_cases [of st now sig c t' u' r db])
       (use assms in \<open>auto simp: of_user_def intro!: upsert_user_keeps\<close>)
qed (use assms in \<open>auto simp: skill_request_def of_user_def intro!: upsert_user_keeps deactivate_user_keeps\<close>)

lemma request_base [simp]: "sk_base (skill_request st admins now t u op db) = sk_base db"
proof (cases op)
  case (Capture sig c r)
  show ?thesis
    unfolding Capture skill_request_def by (rule maybe_capture_cases [of st now sig c t u r db]) simp_all
qed (simp_all add: skill_request_def)

lemma run_base [simp]: "sk_base (run_requests st admins evs db) = sk_base db"
  unfolding run_requests_def by (induction evs arbitrary: db) auto

text \<open>Every operation keeps the keys unique and the rules short.\<close>

lemma distinct_snoc_key:
  "find (\<lambda>x. K x) rows = None \<Longrightarrow> (\<And>x. f x = f new \<Longrightarrow> K x) \<Longrightarrow> distinct (map f rows) \<Longrightarrow> distinct (map f (rows @ [new]))"
  by (auto simp: find_None_iff)

lemma upsert_tenant_ok: "skills_ok db \<Longrightarrow> skills_ok (snd (upsert_tenant_overlay st now t d r s db))"
proof (cases "find (\<lambda>x. of_tenant t x \<and> ov_name x = oc_name d) (sk_tenant db)")
  case None
  assume "skills_ok db"
  with None distinct_snoc_key [OF None, of tenant_key "new_overlay t [] d tr (oc_created_by d) s now" for tr] show ?thesis
    by (auto simp: skills_ok_def upsert_tenant_overlay_def Let_def skill_keys rules_bounded_def)
next
  case (Some ex)
  assume ok: "skills_ok db"
  from Some have ex: "of_tenant t ex" "ov_name ex = oc_name d" by (auto simp: find_Some_iff)
  let ?key = "\<lambda>x. of_tenant t x \<and> ov_name x = oc_name d"
  have m: "map tenant_key (replace_row ?key ((fill_overlay d tr ex)\<lparr>ov_status := s\<rparr>) (sk_tenant db)) = map tenant_key (sk_tenant db)" for tr
    using ex by (intro map_replace) (auto simp: skill_keys)
  from ok Some m show ?thesis
    by (auto simp: skills_ok_def upsert_tenant_overlay_def Let_def intro!: rules_bounded_replace)
qed

lemma upsert_user_ok: "skills_ok db \<Longrightarrow> skills_ok (snd (upsert_user_overlay st now t u d r db))"
proof (cases "find (\<lambda>x. of_user t u x \<and> ov_name x = oc_name d) (sk_user db)")
  case None
  assume "skills_ok db"
  with None distinct_snoc_key [OF None, of user_key "new_overlay t u d tr None ''approved'' now" for tr] show ?thesis
    by (auto simp: skills_ok_def upsert_user_overlay_def Let_def skill_keys rules_bounded_def)
next
  case (Some ex)
  assume ok: "skills_ok db"
  from Some have ex: "of_user t u ex" "ov_name ex = oc_name d" by (auto simp: find_Some_iff)
  let ?key = "\<lambda>x. of_user t u x \<and> ov_name x = oc_name d"
  have m: "map user_key (replace_row ?key (fill_overlay d tr ex) (sk_user db)) = map user_key (sk_user db)" for tr
    using ex by (intro map_replace) (auto simp: skill_keys)
  from ok Some m show ?thesis
    by (auto simp: skills_ok_def upsert_user_overlay_def Let_def intro!: rules_bounded_replace)
qed

lemma replace_tenant_ok:
  assumes ok: "skills_ok db" and f: "find (\<lambda>x. of_tenant t x \<and> ov_name x = n) (sk_tenant db) = Some ex"
    and new: "ov_tenant new = ov_tenant ex" "ov_name new = ov_name ex" "ov_rule new = ov_rule ex"
  shows "skills_ok (db\<lparr>sk_tenant := replace_row (\<lambda>x. of_tenant t x \<and> ov_name x = n) new (sk_tenant db)\<rparr>)"
proof -
  from f have ex: "ex \<in> set (sk_tenant db)" "of_tenant t ex" "ov_name ex = n" by (auto simp: find_Some_iff)
  have "map tenant_key (replace_row (\<lambda>x. of_tenant t x \<and> ov_name x = n) new (sk_tenant db)) = map tenant_key (sk_tenant db)"
    using ex new by (intro map_replace) (auto simp: skill_keys)
  with ok ex new show ?thesis
    by (auto simp: skills_ok_def intro!: rules_bounded_replace) (auto simp: rules_bounded_def list_all_iff)
qed

lemma replace_user_ok:
  assumes ok: "skills_ok db" and f: "find (\<lambda>x. of_user t u x \<and> ov_name x = n) (sk_user db) = Some ex"
    and new: "ov_tenant new = ov_tenant ex" "ov_user new = ov_user ex" "ov_name new = ov_name ex" "ov_rule new = ov_rule ex"
  shows "skills_ok (db\<lparr>sk_user := replace_row (\<lambda>x. of_user t u x \<and> ov_name x = n) new (sk_user db)\<rparr>)"
proof -
  from f have ex: "ex \<in> set (sk_user db)" "of_user t u ex" "ov_name ex = n" by (auto simp: find_Some_iff)
  have "map user_key (replace_row (\<lambda>x. of_user t u x \<and> ov_name x = n) new (sk_user db)) = map user_key (sk_user db)"
    using ex new by (intro map_replace) (auto simp: skill_keys)
  with ok ex new show ?thesis
    by (auto simp: skills_ok_def intro!: rules_bounded_replace) (auto simp: rules_bounded_def list_all_iff)
qed

lemma request_ok: "skills_ok db \<Longrightarrow> skills_ok (skill_request st admins now t u op db)"
proof (cases op)
  case (Capture sig c r)
  assume ok: "skills_ok db"
  show ?thesis
    unfolding Capture skill_request_def
    by (rule maybe_capture_cases [of st now sig c t u r db]) (simp_all add: ok upsert_tenant_ok upsert_user_ok)
next
  case (Approve n)
  assume ok: "skills_ok db"
  have "skills_ok (snd (approve_tenant_overlay st t n db))"
    using replace_tenant_ok [OF ok] ok by (auto simp: approve_tenant_overlay_def Let_def split: option.splits)
  with ok Approve show ?thesis by (simp add: skill_request_def)
next
  case (DropTenant n)
  assume ok: "skills_ok db"
  have "skills_ok (snd (deactivate_tenant_overlay st t n db))"
    using replace_tenant_ok [OF ok] ok by (auto simp: deactivate_tenant_overlay_def Let_def split: option.splits)
  with ok DropTenant show ?thesis by (simp add: skill_request_def)
next
  case (DropUser n)
  assume ok: "skills_ok db"
  have "skills_ok (snd (deactivate_user_overlay st t u n db))"
    using replace_user_ok [OF ok] ok by (auto simp: deactivate_user_overlay_def Let_def split: option.splits)
  with ok DropUser show ?thesis by (simp add: skill_request_def)
qed (simp_all add: skill_request_def upsert_tenant_ok upsert_user_ok)

lemma run_ok: "skills_ok db \<Longrightarrow> skills_ok (run_requests st admins evs db)"
  unfolding run_requests_def by (induction evs arbitrary: db) (auto simp: request_ok)

lemma fold_frame:
  "(\<And>ev db. ev \<in> set evs \<Longrightarrow> skills_ok db \<Longrightarrow> P (skill_request st admins (fst ev) (fst (snd ev)) (fst (snd (snd ev))) (snd (snd (snd ev))) db) = P db)
     \<Longrightarrow> skills_ok db \<Longrightarrow> P (run_requests st admins evs db) = P db"
proof (induction evs arbitrary: db)
  case (Cons ev evs)
  obtain now t u op where ev: "ev = (now, t, u, op)" by (cases ev)
  have "run_requests st admins (ev # evs) db = run_requests st admins evs (skill_request st admins now t u op db)"
    by (simp add: run_requests_def ev)
  moreover have "P (skill_request st admins now t u op db) = P db"
    using Cons.prems(1) [of ev db] Cons.prems(2) by (simp add: ev)
  ultimately show ?case
    using Cons.IH [OF Cons.prems(1), of "skill_request st admins now t u op db"] Cons.prems(2)
    by (simp add: request_ok)
qed (simp add: run_requests_def)

section \<open>Properties\<close>

definition not_by_admin :: "string list \<Rightarrow> string \<Rightarrow> skill_event \<Rightarrow> bool" where
  "not_by_admin admins t ev = (case ev of (now, t', u', op) \<Rightarrow>
     t' \<noteq> t \<or> \<not> admin_op op \<or> \<not> (u' \<in> set admins \<or> t' @ '':'' @ u' \<in> set admins))"

text \<open>
  C20: what users teach the assistant about the whole organisation waits for an administrator. Whatever
  corrections are captured from whichever users, and whatever personal rules they write or drop, the
  organisation's rules in a prompt of the tenant stay the same texts in the same order, as long as no
  administrator of the tenant approves, writes or drops one.
\<close>

theorem unapproved_rules_stay_out:
  assumes "skills_ok db" and "list_all (not_by_admin admins t) evs"
  shows "sc_tenant (assemble_context st (run_requests st' admins evs db) t u) = sc_tenant (assemble_context st db t u)"
proof -
  let ?P = "\<lambda>db. filter (\<lambda>x. of_tenant t x \<and> shown_rule x) (sk_tenant db)"
  have "?P (run_requests st' admins evs db) = ?P db"
  proof (rule fold_frame [OF _ assms(1)])
    fix ev db'
    assume "ev \<in> set evs" "skills_ok db'"
    with assms(2) show "?P (skill_request st' admins (fst ev) (fst (snd ev)) (fst (snd (snd ev))) (snd (snd (snd ev))) db') = ?P db'"
      by (cases ev) (auto simp: list_all_iff not_by_admin_def intro!: request_hidden)
  qed
  then show ?thesis by (simp add: assemble_context_def)
qed

definition demo_settings :: skill_settings where
  "demo_settings = \<lparr>ss_enabled = True, ss_modify = True, ss_capture = True, ss_max = 20, ss_min_confidence = 1 / 2\<rparr>"

definition demo_correction :: "string \<Rightarrow> correction" where
  "demo_correction rule = \<lparr>cr_name = ''faktury'', cr_description = [], cr_type = BusinessRule, cr_rule = rule, cr_structured = PNone,
     cr_confidence = 9 / 10, cr_skill = None\<rparr>"

definition demo_rule :: "string \<Rightarrow> overlay_create" where
  "demo_rule rule = create_of None None (demo_correction rule)"

definition demo_skills :: skill_db where
  "demo_skills = snd (upsert_tenant_overlay demo_settings 1 ''t1'' (demo_rule ''bez DPH'') None ''approved'' \<lparr>sk_base = [], sk_tenant = [], sk_user = []\<rparr>)"

definition demo_events :: "skill_event list" where
  "demo_events = [(2, ''t1'', ''eva'', Capture True (Some (demo_correction ''s DPH'')) None), (3, ''t1'', ''eva'', Approve ''faktury''),
     (4, ''t2'', ''adam'', PutTenant (demo_rule ''jinak''))]"

theorem unapproved_rules_stay_out_witness:
  "map ov_rule (sc_tenant (assemble_context demo_settings (run_requests demo_settings [''adam''] demo_events demo_skills) ''t1'' ''eva''))
     = [''bez DPH'']"
proof -
  have ok: "skills_ok demo_skills"
    unfolding demo_skills_def by (rule upsert_tenant_ok) (simp add: skills_ok_def rules_bounded_def)
  have evs: "list_all (not_by_admin [''adam''] ''t1'') demo_events" by code_simp
  have "map ov_rule (sc_tenant (assemble_context demo_settings demo_skills ''t1'' ''eva'')) = [''bez DPH'']" by code_simp
  with unapproved_rules_stay_out [OF ok evs] show ?thesis by simp
qed

text \<open>
  rules never cross tenants or users: requests of other tenants leave the rules of a prompt as
  they were, and requests of anyone else, of the same tenant too, leave the personal ones.
\<close>

theorem skill_contexts_isolated:
  assumes "skills_ok db"
  shows "((\<exists>ev\<in>set evs. fst (snd ev) = t) \<or> assemble_context st (run_requests st' admins evs db) t u = assemble_context st db t u) \<and>
    ((\<exists>ev\<in>set evs. fst (snd ev) = t \<and> fst (snd (snd ev)) = u) \<or>
      sc_user (assemble_context st (run_requests st' admins evs db) t u) = sc_user (assemble_context st db t u))"
proof -
  let ?T = "\<lambda>db. filter (\<lambda>x. of_tenant t x \<and> shown_rule x) (sk_tenant db)"
  let ?U = "\<lambda>db. filter (\<lambda>x. of_user t u x \<and> shown_rule x) (sk_user db)"
  have ten: "?T (run_requests st' admins evs db) = ?T db" if "\<forall>ev\<in>set evs. fst (snd ev) \<noteq> t"
    by (rule fold_frame [OF _ assms]) (use that in \<open>auto intro!: request_hidden\<close>)
  have usr: "?U (run_requests st' admins evs db) = ?U db" if "\<forall>ev\<in>set evs. fst (snd ev) \<noteq> t \<or> fst (snd (snd ev)) \<noteq> u"
    by (rule fold_frame [OF _ assms]) (use that in \<open>auto intro!: request_other_user\<close>)
  have "(\<exists>ev\<in>set evs. fst (snd ev) = t) \<or> assemble_context st (run_requests st' admins evs db) t u = assemble_context st db t u"
    using ten usr by (auto simp: assemble_context_def)
  moreover have "(\<exists>ev\<in>set evs. fst (snd ev) = t \<and> fst (snd (snd ev)) = u) \<or>
      sc_user (assemble_context st (run_requests st' admins evs db) t u) = sc_user (assemble_context st db t u)"
    using usr by (cases "\<forall>ev\<in>set evs. fst (snd ev) \<noteq> t \<or> fst (snd (snd ev)) \<noteq> u") (auto simp: assemble_context_def)
  ultimately show ?thesis ..
qed

theorem skill_contexts_isolated_witness:
  "assemble_context demo_settings (run_requests demo_settings [''adam''] [(4, ''t2'', ''adam'', PutTenant (demo_rule ''jinak''))] demo_skills) ''t1'' ''eva''
     = assemble_context demo_settings demo_skills ''t1'' ''eva''"
proof -
  have ok: "skills_ok demo_skills"
    unfolding demo_skills_def by (rule upsert_tenant_ok) (simp add: skills_ok_def rules_bounded_def)
  from skill_contexts_isolated [OF ok, of "[(4, ''t2'', ''adam'', PutTenant (demo_rule ''jinak''))]" "''t1''"] show ?thesis by simp
qed

text \<open>
  the tables keep their unique keys through every history of requests, so that no lookup by name
  ever finds two rows, and what reaches a prompt is bounded: at most \<open>ss_max\<close> rules of the organisation and
  as many of the user, each of at most 2000 characters.
\<close>

theorem skill_tables_invariant:
  "skills_ok (run_requests st admins evs \<lparr>sk_base = base, sk_tenant = [], sk_user = []\<rparr>) \<and>
   length (sc_tenant (assemble_context st' (run_requests st admins evs \<lparr>sk_base = base, sk_tenant = [], sk_user = []\<rparr>) t u)) \<le> ss_max st' \<and>
   length (sc_user (assemble_context st' (run_requests st admins evs \<lparr>sk_base = base, sk_tenant = [], sk_user = []\<rparr>) t u)) \<le> ss_max st' \<and>
   list_all (\<lambda>x. length (ov_rule x) \<le> 2000)
     (sc_tenant (assemble_context st' (run_requests st admins evs \<lparr>sk_base = base, sk_tenant = [], sk_user = []\<rparr>) t u) @
      sc_user (assemble_context st' (run_requests st admins evs \<lparr>sk_base = base, sk_tenant = [], sk_user = []\<rparr>) t u))"
proof -
  let ?db = "run_requests st admins evs \<lparr>sk_base = base, sk_tenant = [], sk_user = []\<rparr>"
  have ok: "skills_ok ?db" by (rule run_ok) (simp add: skills_ok_def rules_bounded_def)
  then have "list_all (\<lambda>x. length (ov_rule x) \<le> 2000) (sk_tenant ?db @ sk_user ?db)"
    by (simp add: skills_ok_def rules_bounded_def max_rule_text_chars_def)
  then show ?thesis
    using ok by (auto simp: assemble_context_def list_all_iff dest!: in_set_takeD)
qed

section \<open>Divergences\<close>

text \<open>
  An approval names a rule and not its text: a correction captured between the listing and the approval
  replaces the text that the administrator saw, and that later text goes into every prompt of the
  tenant.
\<close>

theorem approval_takes_later_text:
  "(let empty = \<lparr>sk_base = [], sk_tenant = [], sk_user = []\<rparr>;
        seen = run_requests demo_settings [''adam''] [(1, ''t1'', ''eva'', Capture True (Some (demo_correction ''bez DPH'')) None)] empty;
        after = run_requests demo_settings [''adam''] [(2, ''t1'', ''ivo'', Capture True (Some (demo_correction ''vse smaz'')) None),
          (3, ''t1'', ''adam'', Approve ''faktury'')] seen
    in (map ov_rule (list_pending_tenant_overlays seen ''t1''), map ov_rule (sc_tenant (assemble_context demo_settings after ''t1'' ''eva''))))
   = ([''bez DPH''], [''vse smaz''])"
  by code_simp

text \<open>
  A rule that an administrator switched off keeps the status \<open>approved\<close>, so every later correction of
  that name is refused as if it would overwrite a rule in force, and nothing is listed for approval.
\<close>

theorem dropped_rule_blocks_capture:
  "(let off = run_requests demo_settings [''adam''] [(2, ''t1'', ''adam'', DropTenant ''faktury''),
          (3, ''t1'', ''eva'', Capture True (Some (demo_correction ''s DPH'')) None)] demo_skills
    in (map ov_active (sk_tenant off), list_pending_tenant_overlays off ''t1'')) = ([False], [])"
  by code_simp

end
