(* ===== verification/Crm_Session.thy ===== *)
theory Crm_Session
  imports Record_Extract Request_Auth Ttl_Cache
begin

text \<open>
  How the gateway talks to a tenant's CRM (\<open>app/services/crm_client.py\<close>): the client made from the stored
  token, the signature over every request, the session id negotiated by a signed login and kept in a cache that
  all clients share, and the single retry after a cached session was refused. The network, the URL library,
  the keyed hash, clocks and nonces are arguments; the log of what was sent is part of the state,
  each request with the client that sent it.
\<close>

section \<open>The client\<close>

record crm_client =
  cc_base :: string
  cc_user :: string
  cc_user_name :: string
  cc_key_id :: string
  cc_secret :: string
  cc_clean :: bool
  cc_session :: "string option"

definition rstrip_slash :: "string \<Rightarrow> string" where
  "rstrip_slash s = rev (dropWhile (\<lambda>c. c = CHR ''/'') (rev s))"

definition has_hmac :: "string \<Rightarrow> string \<Rightarrow> string \<Rightarrow> bool" where
  "has_hmac key_id secret user = (key_id \<noteq> [] \<and> secret \<noteq> [] \<and> user \<noteq> [])"

definition can_use_hmac :: "crm_client \<Rightarrow> bool" where
  "can_use_hmac c = has_hmac (cc_key_id c) (cc_secret c) (cc_user c)"

text \<open>\<open>__init__\<close>; a fresh login is preferred to a session id that came with the token.\<close>

definition new_client :: "string \<Rightarrow> string \<Rightarrow> string \<Rightarrow> string \<Rightarrow> crm_client" where
  "new_client base_url token0 user_id user_name =
     (let token = py_strip token0; config = parse_crm_token token;
          user = text_of (por (PStr user_id) (pget config ''user_id''));
          key_id = text_of (pget config ''hmac_key_id''); secret = text_of (pget config ''hmac_secret'');
          sid = text_of (por (pget config ''session_id'') (pget config ''sid''));
          session = (if matches_uuid (py_strip token) then token else sid)
      in \<lparr>cc_base = rstrip_slash (py_strip base_url), cc_user = user,
          cc_user_name = text_of (por (PStr user_name) (pget config ''user_name'')), cc_key_id = key_id, cc_secret = secret,
          cc_clean = truthy (dget_default config ''clean_response'' (PBool True)),
          cc_session = (if session = [] \<or> has_hmac key_id secret user then None else Some session)\<rparr>)"

definition api_base :: "crm_client \<Rightarrow> string" where
  "api_base c = (let base = rstrip_slash (cc_base c) in
     if base = [] then ''http://localhost:2000/public''
     else if py_endswith base ''/public/index.php'' then take (length base - length ''/index.php'') base
     else if py_endswith base ''/public'' then base
     else (case py_find base ''/public/'' of
         Some i \<Rightarrow> take i base @ ''/public''
       | None \<Rightarrow> base @ ''/public''))"

type_synonym sid_key = "string \<times> string \<times> string"

definition sid_cache_key :: "crm_client \<Rightarrow> sid_key" where
  "sid_cache_key c = (api_base c, cc_key_id c, cc_user c)"

section \<open>Requests\<close>

record crm_http =
  ch_method :: string
  ch_path :: string
  ch_url :: string
  ch_headers :: "(string \<times> string) list"
  ch_body :: "string option"

record crm_response =
  cp_status :: int
  cp_type :: string
  cp_text :: string

text \<open>\<open>nw_url\<close> gives the URL with its raw path and query; the clocks are read after that many sends.\<close>

record crm_net =
  nw_send :: "nat \<Rightarrow> crm_http \<Rightarrow> crm_response result"
  nw_url :: "string \<Rightarrow> pydict \<Rightarrow> string \<times> string \<times> string"
  nw_mac :: "string \<Rightarrow> string \<Rightarrow> string"
  nw_stamp :: "nat \<Rightarrow> string"
  nw_nonce :: "nat \<Rightarrow> string"
  nw_clock :: "nat \<Rightarrow> rat"
  nw_ttl :: rat

datatype crm_fault = StatusFault int | OtherFault py_exc

type_synonym 'a crm_result = "crm_fault + 'a"

record crm_session =
  sn_sid :: "string option"
  sn_cached :: bool
  sn_cache :: "(sid_key, string) expiring"
  sn_log :: "(crm_client \<times> crm_http) list"

definition wire_style :: json_style where
  "wire_style = \<lparr>js_ascii = False, js_item_sep = '','', js_key_sep = '':''\<rparr>"

definition sign_base :: "crm_client \<Rightarrow> string \<Rightarrow> string \<Rightarrow> string \<Rightarrow> string \<Rightarrow> string \<Rightarrow> string \<Rightarrow> string" where
  "sign_base c stamp nonce method path query body =
     stamp @ ''|'' @ nonce @ ''|'' @ cc_user c @ ''|'' @ map upper_char method @ ''|'' @ path @ ''|'' @ query @ ''|'' @ body"

definition hmac_headers :: "crm_client \<Rightarrow> crm_net \<Rightarrow> nat \<Rightarrow> string \<Rightarrow> string \<Rightarrow> string \<Rightarrow> string \<Rightarrow> (string \<times> string) list" where
  "hmac_headers c net n body method path query =
     (if \<not> can_use_hmac c then []
      else [(''Authorization'', ''HMAC keyId='' @ cc_key_id c @ '', signature='' @
               nw_mac net (cc_secret c) (sign_base c (nw_stamp net n) (nw_nonce net n) method path query body)),
            (''X-Timestamp'', nw_stamp net n), (''X-Nonce'', nw_nonce net n), (''X-User-Id'', cc_user c)] @
           (if cc_user_name c \<noteq> [] then [(''X-User-Name'', cc_user_name c)] else []))"

definition request_headers ::
  "crm_client \<Rightarrow> crm_net \<Rightarrow> nat \<Rightarrow> string option \<Rightarrow> string option \<Rightarrow> (string \<times> string) list \<Rightarrow> string \<Rightarrow> string \<Rightarrow> string \<Rightarrow> (string \<times> string) list" where
  "request_headers c net n sid body extra method path query =
     dupdate (dupdate (dupdate (dupdate [(''Accept'', ''application/json'')] extra)
         (case sid of Some x \<Rightarrow> [(''sid'', x)] | None \<Rightarrow> []))
         (case body of Some _ \<Rightarrow> [(''Content-Type'', ''application/json'')] | None \<Rightarrow> []))
       (hmac_headers c net n (case body of Some b \<Rightarrow> b | None \<Rightarrow> []) method path query)"

text \<open>\<open>_response_body_preview\<close>: always a dict, whatever the body is.\<close>

definition decode_response :: "crm_response \<Rightarrow> pydict" where
  "decode_response r =
     (if cp_text r = [] then []
      else if \<not> py_contains ''json'' (py_lower (cp_type r)) then [(''raw'', PStr (cp_text r))]
      else (case json_loads (cp_text r) of
          Inl _ \<Rightarrow> [(''raw'', PStr (cp_text r))]
        | Inr (PDict d) \<Rightarrow> d
        | Inr (PList xs) \<Rightarrow> [(''records'', PList xs)]
        | Inr v \<Rightarrow> [(''data'', v)]))"

record crm_call =
  cl_method :: string
  cl_path :: string
  cl_params :: pydict
  cl_body :: "py option"
  cl_extra :: "(string \<times> string) list"

definition build_request :: "crm_client \<Rightarrow> crm_net \<Rightarrow> nat \<Rightarrow> string option \<Rightarrow> crm_call \<Rightarrow> crm_http" where
  "build_request c net n sid q =
     (let body = map_option (json_text wire_style) (cl_body q);
          (url, path, query) = nw_url net (api_base c @ ''/'' @ dropWhile (\<lambda>x. x = CHR ''/'') (cl_path q)) (cl_params q)
      in \<lparr>ch_method = cl_method q, ch_path = cl_path q, ch_url = url,
          ch_headers = request_headers c net n sid body (cl_extra q) (cl_method q) path query, ch_body = body\<rparr>)"

text \<open>\<open>_send\<close>: one request on the wire, with the session id of the moment.\<close>

definition crm_send :: "crm_client \<Rightarrow> crm_net \<Rightarrow> crm_call \<Rightarrow> crm_session \<Rightarrow> crm_response crm_result \<times> crm_session" where
  "crm_send c net q s =
     (let n = length (sn_log s); rq = build_request c net n (sn_sid s) q; s' = s\<lparr>sn_log := sn_log s @ [(c, rq)]\<rparr>
      in (case nw_send net n rq of Inl e \<Rightarrow> Inl (OtherFault e) | Inr r \<Rightarrow> Inr r, s'))"

definition raise_for_status :: "crm_response \<Rightarrow> pydict crm_result" where
  "raise_for_status r = (if cp_status r \<ge> 400 then Inl (StatusFault (cp_status r)) else Inr (decode_response r))"

section \<open>Sessions\<close>

definition sid_in :: "pydict \<Rightarrow> string option" where
  "sid_in d = first_some (\<lambda>k. case pget d k of PStr t \<Rightarrow> if py_strip t = [] then None else Some (py_strip t) | _ \<Rightarrow> None)
     [''sid'', ''session_id'']"

definition extract_sid :: "pydict \<Rightarrow> string option" where
  "extract_sid payload = first_some sid_in [payload, dict_or_empty (pget payload ''message''),
     dict_or_empty (pget (dict_or_empty (pget payload ''message'')) ''data''), dict_or_empty (pget payload ''data'')]"

definition login_call :: "string \<Rightarrow> string \<Rightarrow> py option \<Rightarrow> crm_call" where
  "login_call method path body = \<lparr>cl_method = method, cl_path = path, cl_params = [], cl_body = body, cl_extra = []\<rparr>"

definition login_calls :: "crm_call list" where
  "login_calls = [login_call ''POST'' ''hmac-login'' (Some (PDict [])), login_call ''GET'' ''hmac-login'' None,
     login_call ''POST'' ''checksid'' (Some (PDict [])), login_call ''POST'' ''checksid'' None, login_call ''GET'' ''checksid'' None]"

text \<open>A refused attempt is remembered and the next one tried; any other failure ends the login.\<close>

fun try_logins :: "crm_client \<Rightarrow> crm_net \<Rightarrow> crm_call list \<Rightarrow> crm_fault option \<Rightarrow> crm_session \<Rightarrow> string crm_result \<times> crm_session" where
  "try_logins c net [] why s =
     (Inl (case why of Some e \<Rightarrow> e | None \<Rightarrow> OtherFault (ValueError ''Coripo hmac-login/checksid did not return sid'')), s)"
| "try_logins c net (q # qs) why s = (case crm_send c net q s of
     (Inl e, s') \<Rightarrow> (Inl e, s')
   | (Inr r, s') \<Rightarrow> (case raise_for_status r of
       Inl e \<Rightarrow> try_logins c net qs (Some e) s'
     | Inr d \<Rightarrow> (case extract_sid d of Some x \<Rightarrow> (Inr x, s') | None \<Rightarrow> try_logins c net qs why s')))"

definition invalidate_cached_sid :: "crm_client \<Rightarrow> crm_session \<Rightarrow> crm_session" where
  "invalidate_cached_sid c s = s\<lparr>sn_sid := None, sn_cached := False, sn_cache := ddel (sid_cache_key c) (sn_cache s)\<rparr>"

definition ensure_sid :: "crm_client \<Rightarrow> crm_net \<Rightarrow> crm_session \<Rightarrow> unit crm_result \<times> crm_session" where
  "ensure_sid c net s =
     (if sn_sid s \<noteq> None then (Inr (), s)
      else if \<not> can_use_hmac c
      then (Inl (OtherFault (ValueError ''Coripo authentication requires either SID token or HMAC secret + user_id.'')), s)
      else (case expiring_lookup (nw_ttl net) (nw_clock net (length (sn_log s))) (sn_cache s) (sid_cache_key c) of
          Some x \<Rightarrow> (Inr (), s\<lparr>sn_sid := Some x, sn_cached := True\<rparr>)
        | None \<Rightarrow> (case try_logins c net login_calls None s of
            (Inl e, s') \<Rightarrow> (Inl e, s')
          | (Inr x, s') \<Rightarrow> (Inr (), s'\<lparr>sn_sid := Some x, sn_cached := False,
              sn_cache := expiring_store (nw_ttl net) (nw_clock net (length (sn_log s'))) (sn_cache s') (sid_cache_key c) x\<rparr>))))"

text \<open>\<open>_coripo_request_response\<close> with a session: a refused cached session is dropped and the request sent once more.\<close>

definition crm_exchange :: "crm_client \<Rightarrow> crm_net \<Rightarrow> crm_call \<Rightarrow> crm_session \<Rightarrow> crm_response crm_result \<times> crm_session" where
  "crm_exchange c net q s = (case ensure_sid c net s of
     (Inl e, s1) \<Rightarrow> (Inl e, s1)
   | (Inr _, s1) \<Rightarrow> (case crm_send c net q s1 of
       (Inl e, s2) \<Rightarrow> (Inl e, s2)
     | (Inr r, s2) \<Rightarrow>
         if cp_status r \<in> {401, 403} \<and> sn_cached s2 \<and> can_use_hmac c
         then (case ensure_sid c net (invalidate_cached_sid c s2) of
             (Inl e, s3) \<Rightarrow> (Inl e, s3) | (Inr _, s3) \<Rightarrow> crm_send c net q s3)
         else (Inr r, s2)))"

definition crm_request :: "crm_client \<Rightarrow> crm_net \<Rightarrow> crm_call \<Rightarrow> crm_session \<Rightarrow> pydict crm_result \<times> crm_session" where
  "crm_request c net q s = (case crm_exchange c net q s of
     (Inl e, s') \<Rightarrow> (Inl e, s') | (Inr r, s') \<Rightarrow> (raise_for_status r, s'))"

text \<open>A client made for a request of the gateway starts with its own session id and shares cache and log.\<close>

definition open_client :: "crm_client \<Rightarrow> crm_session \<Rightarrow> crm_session" where
  "open_client c s = s\<lparr>sn_sid := cc_session c, sn_cached := False\<rparr>"

definition run_client :: "crm_net \<Rightarrow> crm_client \<times> crm_call list \<Rightarrow> crm_session \<Rightarrow> crm_session" where
  "run_client net job s = (case job of (c, qs) \<Rightarrow> fold (\<lambda>q s. snd (crm_request c net q s)) qs (open_client c s))"

definition run_clients :: "crm_net \<Rightarrow> (crm_client \<times> crm_call list) list \<Rightarrow> crm_session \<Rightarrow> crm_session" where
  "run_clients net jobs s = fold (run_client net) jobs s"

section \<open>Tools of the CRM\<close>

definition standard_return_data :: "pydict \<Rightarrow> pydict option" where
  "standard_return_data raw = (case (pget raw ''status'', pget (dict_or_empty (pget raw ''message'')) ''data'') of
     (PBool True, PDict d) \<Rightarrow> Some d | _ \<Rightarrow> None)"

text \<open>The flag tells that the manifest is the one the caller already has.\<close>

definition get_tool_manifest :: "crm_client \<Rightarrow> crm_net \<Rightarrow> string option \<Rightarrow> crm_session \<Rightarrow> (bool \<times> pydict option) crm_result \<times> crm_session" where
  "get_tool_manifest c net etag s =
     (case crm_exchange c net \<lparr>cl_method = ''GET'', cl_path = ''ai/tools'', cl_params = [], cl_body = None,
         cl_extra = (case etag of Some t \<Rightarrow> if t = [] then [] else [(''If-None-Match'', [CHR 0x22] @ t @ [CHR 0x22])] | None \<Rightarrow> [])\<rparr> s of
        (Inl e, s') \<Rightarrow> (Inl e, s')
      | (Inr r, s') \<Rightarrow>
          (if cp_status r = 304 then Inr (True, None)
           else if cp_status r < 200 \<or> cp_status r \<ge> 300 then Inl (StatusFault (cp_status r))
           else (case standard_return_data (decode_response r) of
               Some m \<Rightarrow> Inr (False, Some m) | None \<Rightarrow> Inl (OtherFault (ValueError ''ai/tools returned no manifest''))), s'))"

definition call_tool ::
  "crm_client \<Rightarrow> crm_net \<Rightarrow> string \<Rightarrow> pydict \<Rightarrow> string \<Rightarrow> string option \<Rightarrow> string \<Rightarrow> crm_session \<Rightarrow> pydict crm_result \<times> crm_session" where
  "call_tool c net name arguments mode token request_id s =
     (case crm_request c net \<lparr>cl_method = ''POST'', cl_path = ''ai/tools/call'', cl_params = [],
         cl_body = Some (PDict ([(''name'', PStr name), (''arguments'', PDict arguments), (''mode'', PStr mode)] @
           (case token of Some t \<Rightarrow> if t = [] then [] else [(''confirmation_token'', PStr t)] | None \<Rightarrow> []))),
         cl_extra = [(''X-Request-Id'', request_id)]\<rparr> s of
        (Inl e, s') \<Rightarrow> (Inl e, s')
      | (Inr raw, s') \<Rightarrow> (case standard_return_data raw of
          Some d \<Rightarrow> (Inr d, s') | None \<Rightarrow> (Inl (OtherFault (ValueError ''ai/tools/call returned no result'')), s')))"

definition get_ai_modules :: "crm_client \<Rightarrow> crm_net \<Rightarrow> crm_session \<Rightarrow> pydict list crm_result \<times> crm_session" where
  "get_ai_modules c net s =
     (case crm_request c net \<lparr>cl_method = ''GET'', cl_path = ''ai/modules'', cl_params = [], cl_body = None, cl_extra = []\<rparr> s of
        (Inl e, s') \<Rightarrow> (Inl e, s')
      | (Inr raw, s') \<Rightarrow>
          (let direct = pget (dict_or_empty (pget raw ''data'')) ''modules'';
               nested = pget (dict_or_empty (pget (dict_or_empty (pget raw ''message'')) ''data'')) ''modules''
           in (Inr (dicts_of (list_or_empty (if is_list direct then direct else nested))), s')))"

section \<open>Where a session id comes from\<close>

text \<open>An earlier login request of a client with the same server, key and user was answered with this id.\<close>

definition client_identity :: "crm_client \<Rightarrow> sid_key" where
  "client_identity c = (api_base c, cc_key_id c, cc_user c)"

lemma cache_key_identity: "sid_cache_key c = client_identity c"
  by (simp add: sid_cache_key_def client_identity_def)

definition login_answered :: "crm_net \<Rightarrow> nat \<Rightarrow> crm_client \<times> crm_http \<Rightarrow> sid_key \<Rightarrow> string \<Rightarrow> bool" where
  "login_answered net i ev k x = (client_identity (fst ev) = k \<and> ch_path (snd ev) \<in> {''hmac-login'', ''checksid''} \<and>
     (case nw_send net i (snd ev) of Inl _ \<Rightarrow> False
      | Inr r \<Rightarrow> cp_status r < 400 \<and> extract_sid (decode_response r) = Some x))"

definition issued :: "crm_net \<Rightarrow> (crm_client \<times> crm_http) list \<Rightarrow> sid_key \<Rightarrow> string \<Rightarrow> bool" where
  "issued net evs k x = list_ex (\<lambda>i. login_answered net i (evs ! i) k x) [0..<length evs]"

lemma issued_iff: "issued net evs k x \<longleftrightarrow> (\<exists>i < length evs. login_answered net i (evs ! i) k x)"
  by (auto simp: issued_def list_ex_iff)

lemma issued_append [intro]: "issued net evs k x \<Longrightarrow> issued net (evs @ evs2) k x"
  unfolding issued_iff by (metis length_append nth_append trans_less_add1)

lemma issued_now: "login_answered net (length evs) ev k x \<Longrightarrow> issued net (evs @ [ev]) k x"
  unfolding issued_iff by (metis length_append_singleton lessI nth_append_length)

definition own_sid :: "crm_net \<Rightarrow> (crm_client \<times> crm_http) list \<Rightarrow> crm_client \<Rightarrow> string \<Rightarrow> bool" where
  "own_sid net evs c x = (cc_session c = Some x \<or> issued net evs (client_identity c) x)"

lemma own_sid_append [intro]: "own_sid net evs c x \<Longrightarrow> own_sid net (evs @ evs2) c x"
  by (auto simp: own_sid_def)

text \<open>Each session id in the log was its sender's own when it was sent; so are the cached ones and the one in use.\<close>

definition log_own :: "crm_net \<Rightarrow> (crm_client \<times> crm_http) list \<Rightarrow> bool" where
  "log_own net evs = (\<forall>i < length evs. \<forall>x. map_of (ch_headers (snd (evs ! i))) ''sid'' = Some x
     \<longrightarrow> own_sid net (take i evs) (fst (evs ! i)) x)"

definition sids_own :: "crm_net \<Rightarrow> crm_client \<Rightarrow> crm_session \<Rightarrow> bool" where
  "sids_own net c s = (log_own net (sn_log s)
     \<and> (\<forall>k e x. map_of (sn_cache s) k = Some (e, x) \<longrightarrow> issued net (sn_log s) k x)
     \<and> (\<forall>x. sn_sid s = Some x \<longrightarrow> own_sid net (sn_log s) c x))"

lemma log_own_snoc:
  assumes "log_own net evs" and "\<And>x. map_of (ch_headers (snd ev)) ''sid'' = Some x \<Longrightarrow> own_sid net evs (fst ev) x"
  shows "log_own net (evs @ [ev])"
  using assms by (auto simp: log_own_def nth_append less_Suc_eq)

lemma map_of_dupdate_other: "k \<notin> fst ` set e \<Longrightarrow> map_of (dupdate d e) k = map_of d k"
  by (induction e arbitrary: d) (auto simp: dupdate_def)

lemma hmac_headers_no_sid: "''sid'' \<notin> fst ` set (hmac_headers c net n body method path query)"
  by (auto simp: hmac_headers_def)

lemma request_sid:
  "map_of (request_headers c net n sid body extra method path query) ''sid'' =
     (case sid of Some x \<Rightarrow> Some x | None \<Rightarrow> map_of (dupdate [(''Accept'', ''application/json'')] extra) ''sid'')"
  by (auto simp: request_headers_def map_of_dupdate_other hmac_headers_no_sid split: option.splits)

lemma build_request_sid:
  "map_of (ch_headers (build_request c net n sid q)) ''sid'' =
     (case sid of Some x \<Rightarrow> Some x | None \<Rightarrow> map_of (dupdate [(''Accept'', ''application/json'')] (cl_extra q)) ''sid'')"
  by (auto simp: build_request_def request_sid Let_def split: prod.splits option.splits)

lemma build_request_path [simp]: "ch_path (build_request c net n sid q) = cl_path q"
  by (auto simp: build_request_def Let_def split: prod.splits)

lemma crm_send_state:
  "crm_send c net q s = (out, s') \<Longrightarrow>
     s' = s\<lparr>sn_log := sn_log s @ [(c, build_request c net (length (sn_log s)) (sn_sid s) q)]\<rparr>"
  by (auto simp: crm_send_def Let_def)

lemma crm_send_own:
  assumes "sids_own net c s" and "crm_send c net q s = (out, s')" and "sn_sid s \<noteq> None \<or> cl_extra q = []"
  shows "sids_own net c s'"
proof -
  have "log_own net (sn_log s')"
    using assms by (auto simp: crm_send_state [OF assms(2)] sids_own_def build_request_sid dupdate_def
        intro!: log_own_snoc split: option.splits)
  then show ?thesis
    using assms(1) by (auto simp: crm_send_state [OF assms(2)] sids_own_def)
qed

lemma try_logins_own:
  assumes "try_logins c net qs why s = (out, s')" and "sids_own net c s" and "sn_sid s = None"
    and "\<forall>q \<in> set qs. cl_extra q = [] \<and> cl_path q \<in> {''hmac-login'', ''checksid''}"
  shows "sids_own net c s' \<and> sn_sid s' = None \<and> (\<forall>x. out = Inr x \<longrightarrow> issued net (sn_log s') (client_identity c) x)"
  using assms
proof (induction qs arbitrary: why s)
  case (Cons q qs)
  obtain o1 s1 where send: "crm_send c net q s = (o1, s1)" by fastforce
  have own: "sids_own net c s1" using crm_send_own [OF Cons.prems(2) send] Cons.prems(4) by simp
  have sid: "sn_sid s1 = None" using crm_send_state [OF send] Cons.prems(3) by simp
  have issue: "issued net (sn_log s1) (client_identity c) x"
    if "o1 = Inr r" "\<not> cp_status r \<ge> 400" "extract_sid (decode_response r) = Some x" for r x
    using that send Cons.prems(4)
    by (auto simp: crm_send_def Let_def login_answered_def intro!: issued_now split: sum.splits)
  show ?case
    using Cons.prems(1,4) own sid issue Cons.IH [OF _ own sid]
    by (auto simp: send raise_for_status_def split: sum.splits if_splits option.splits)
qed auto

lemma ensure_sid_own:
  assumes "ensure_sid c net s = (out, s')" and "sids_own net c s"
  shows "sids_own net c s' \<and> (out = Inr () \<longrightarrow> sn_sid s' \<noteq> None)"
proof -
  have calls: "\<forall>q \<in> set login_calls. cl_extra q = [] \<and> cl_path q \<in> {''hmac-login'', ''checksid''}"
    by (auto simp: login_calls_def login_call_def)
  have logins: "sids_own net c s2 \<and> sn_sid s2 = None \<and> (\<forall>x. o2 = Inr x \<longrightarrow> issued net (sn_log s2) (client_identity c) x)"
    if "try_logins c net login_calls None s = (o2, s2)" "sn_sid s = None" for o2 s2
    using try_logins_own [OF that(1) assms(2) that(2) calls] .
  have keep: "sids_own net c (s2\<lparr>sn_sid := Some x, sn_cached := b\<rparr>)"
    if "sids_own net c s2" "issued net (sn_log s2) (client_identity c) x" for s2 x b
    using that by (auto simp: sids_own_def own_sid_def)
  have stored: "sids_own net c (s2\<lparr>sn_sid := Some x, sn_cached := b,
      sn_cache := expiring_store (nw_ttl net) t (sn_cache s2) (sid_cache_key c) x\<rparr>)"
    if "sids_own net c s2" "issued net (sn_log s2) (client_identity c) x" for s2 x b t
    using that by (auto simp: sids_own_def own_sid_def expiring_store_def cache_key_identity simp del: split_paired_All split: if_splits)
  have cached: "issued net (sn_log s) (client_identity c) x"
    if "expiring_lookup (nw_ttl net) t (sn_cache s) (sid_cache_key c) = Some x" for t x
    using that assms(2)
    by (auto simp: sids_own_def expiring_lookup_def cache_key_identity simp del: split_paired_All split: if_splits option.splits)
  show ?thesis
  proof (cases "try_logins c net login_calls None s")
    case (Pair o2 s2)
    show ?thesis
      using assms logins [OF Pair]
      by (auto simp: ensure_sid_def Pair intro: keep stored cached split: if_splits option.splits sum.splits)
  qed
qed

lemma crm_exchange_own:
  assumes "crm_exchange c net q s = (out, s')" and "sids_own net c s"
  shows "sids_own net c s'"
proof -
  have drop: "sids_own net c (invalidate_cached_sid c s2)" if "sids_own net c s2" for s2
    using that by (auto simp: sids_own_def invalidate_cached_sid_def)
  show ?thesis
    using assms
    by (auto simp: crm_exchange_def split: prod.splits sum.splits if_splits
        dest!: ensure_sid_own intro: crm_send_own drop)
qed

lemma crm_request_own: "sids_own net c s \<Longrightarrow> sids_own net c (snd (crm_request c net q s))"
  by (auto simp: crm_request_def dest: crm_exchange_own split: prod.splits sum.splits)

text \<open>What all clients share: the log and the cache.\<close>

definition pool_own :: "crm_net \<Rightarrow> crm_session \<Rightarrow> bool" where
  "pool_own net s = sids_own net \<lparr>cc_base = [], cc_user = [], cc_user_name = [], cc_key_id = [], cc_secret = [],
     cc_clean = True, cc_session = None\<rparr> (s\<lparr>sn_sid := None\<rparr>)"

lemma sids_own_open: "sids_own net c (open_client c s) = pool_own net s"
  by (auto simp: pool_own_def sids_own_def open_client_def own_sid_def)

lemma sids_own_pool: "sids_own net c s \<Longrightarrow> pool_own net s"
  by (auto simp: pool_own_def sids_own_def)

lemma run_client_own: "pool_own net s \<Longrightarrow> pool_own net (run_client net job s)"
proof (cases job)
  case (Pair c qs)
  assume "pool_own net s"
  then have "sids_own net c (open_client c s)" by (simp add: sids_own_open)
  then have "sids_own net c (fold (\<lambda>q s. snd (crm_request c net q s)) qs (open_client c s))"
    by (induction qs arbitrary: s rule: rev_induct) (auto intro: crm_request_own)
  then show ?thesis by (auto simp: Pair run_client_def dest: sids_own_pool)
qed

lemma run_clients_own: "pool_own net s \<Longrightarrow> pool_own net (run_clients net jobs s)"
  unfolding run_clients_def by (induction jobs arbitrary: s) (auto intro: run_client_own)

section \<open>What is sent\<close>

text \<open>The log grows by requests built by some client at their own position.\<close>

inductive sends :: "crm_net \<Rightarrow> (crm_client \<times> crm_http) list \<Rightarrow> (crm_client \<times> crm_http) list \<Rightarrow> bool" for net where
  sends_refl: "sends net evs evs"
| sends_step: "sends net evs evs' \<Longrightarrow> sends net evs (evs' @ [(c, build_request c net (length evs') sid q)])"

lemma sends_trans: "sends net b c \<Longrightarrow> sends net a b \<Longrightarrow> sends net a c"
  by (induction rule: sends.induct) (auto intro: sends.intros)

lemma crm_send_sends: "sends net (sn_log s) (sn_log (snd (crm_send c net q s)))"
  by (auto simp: crm_send_def Let_def intro: sends.intros)

lemma try_logins_sends: "sends net (sn_log s) (sn_log (snd (try_logins c net qs why s)))"
proof (induction qs arbitrary: why s)
  case (Cons q qs)
  obtain o1 s1 where send: "crm_send c net q s = (o1, s1)" by fastforce
  have "sends net (sn_log s) (sn_log s1)" using crm_send_sends [of net s c q] by (simp add: send)
  then show ?case
    using Cons [of s1] by (auto simp: send split: sum.splits option.splits intro: sends_trans)
qed (auto intro: sends.intros)

lemma ensure_sid_sends: "sends net (sn_log s) (sn_log (snd (ensure_sid c net s)))"
  using try_logins_sends [of net s c login_calls None]
  by (auto simp: ensure_sid_def split: prod.splits sum.splits option.splits intro: sends.intros)

lemma crm_request_sends: "sends net (sn_log s) (sn_log (snd (crm_request c net q s)))"
proof -
  obtain o1 s1 where 1: "ensure_sid c net s = (o1, s1)" by fastforce
  obtain o2 s2 where 2: "crm_send c net q s1 = (o2, s2)" by fastforce
  obtain o3 s3 where 3: "ensure_sid c net (invalidate_cached_sid c s2) = (o3, s3)" by fastforce
  obtain o4 s4 where 4: "crm_send c net q s3 = (o4, s4)" by fastforce
  have "sends net (sn_log s) (sn_log s1)" using ensure_sid_sends [of net s c] by (simp add: 1)
  moreover have "sends net (sn_log s1) (sn_log s2)" using crm_send_sends [of net s1 c q] by (simp add: 2)
  moreover have "sends net (sn_log s2) (sn_log s3)"
    using ensure_sid_sends [of net "invalidate_cached_sid c s2" c] by (simp add: 3) (simp add: invalidate_cached_sid_def)
  moreover have "sends net (sn_log s3) (sn_log s4)" using crm_send_sends [of net s3 c q] by (simp add: 4)
  ultimately show ?thesis
    by (auto simp: crm_request_def crm_exchange_def 1 2 3 4 split: sum.splits intro: sends_trans)
qed

lemma run_clients_sends: "sends net (sn_log s) (sn_log (run_clients net jobs s))"
proof (induction jobs arbitrary: s)
  case (Cons job jobs)
  obtain c qs where job: "job = (c, qs)" by (cases job)
  have "sends net (sn_log s) (sn_log (fold (\<lambda>q s. snd (crm_request c net q s)) qs (open_client c s)))"
    by (induction qs rule: rev_induct) (auto simp: open_client_def intro: sends.intros sends_trans crm_request_sends)
  then show ?case
    using Cons [of "run_client net job s"] by (auto simp: run_clients_def run_client_def job intro: sends_trans)
qed (auto simp: run_clients_def intro: sends.intros)

lemma sends_built:
  "sends net [] evs \<Longrightarrow> i < length evs \<Longrightarrow> \<exists>sid q. snd (evs ! i) = build_request (fst (evs ! i)) net i sid q"
proof (induction "[] :: (crm_client \<times> crm_http) list" evs rule: sends.induct)
  case (sends_step evs' c sid q)
  then show ?case by (cases "i < length evs'") (auto simp: nth_append less_Suc_eq)
qed auto

lemma hmac_headers_distinct: "distinct (map fst (hmac_headers c net i body method path query))"
  by (simp add: hmac_headers_def)

text \<open>What the signature adds is applied last, so nothing replaces it.\<close>

lemma signed_header:
  "map_of (hmac_headers c net n (case body of Some b \<Rightarrow> b | None \<Rightarrow> []) method path query) k = Some v
   \<Longrightarrow> map_of (request_headers c net n sid body extra method path query) k = Some v"
  by (simp add: request_headers_def map_of_dupdate [OF hmac_headers_distinct])

lemma hmac_header_values:
  assumes "can_use_hmac c"
  shows "map_of (hmac_headers c net n body method path query) ''Authorization'' = Some (''HMAC keyId='' @ cc_key_id c @ '', signature='' @
      nw_mac net (cc_secret c) (sign_base c (nw_stamp net n) (nw_nonce net n) method path query body))"
    and "map_of (hmac_headers c net n body method path query) ''X-Timestamp'' = Some (nw_stamp net n)"
    and "map_of (hmac_headers c net n body method path query) ''X-Nonce'' = Some (nw_nonce net n)"
    and "map_of (hmac_headers c net n body method path query) ''X-User-Id'' = Some (cc_user c)"
  using assms by (simp_all add: hmac_headers_def)

section \<open>How much is sent\<close>

definition only_logins :: "(crm_client \<times> crm_http) list \<Rightarrow> bool" where
  "only_logins evs = list_all (\<lambda>ev. ch_path (snd ev) \<in> {''hmac-login'', ''checksid''}) evs"

lemma try_logins_log:
  assumes "try_logins c net qs why s = (out, s')" and "\<forall>q \<in> set qs. cl_path q \<in> {''hmac-login'', ''checksid''}"
  shows "\<exists>l. sn_log s' = sn_log s @ l \<and> only_logins l \<and> length l \<le> length qs"
  using assms
proof (induction qs arbitrary: why s)
  case (Cons q qs)
  obtain o1 s1 where send: "crm_send c net q s = (o1, s1)" by fastforce
  have now: "\<exists>l. sn_log s1 @ l' = sn_log s @ l \<and> only_logins l \<and> length l \<le> Suc (length qs)"
    if "only_logins l'" "length l' \<le> length qs" for l'
    using that Cons.prems(2) by (auto simp: crm_send_state [OF send] only_logins_def)
  have more: "\<exists>l. sn_log s' = sn_log s @ l \<and> only_logins l \<and> length l \<le> Suc (length qs)"
    if "try_logins c net qs w s1 = (out, s')" for w
    using Cons.IH [OF that] Cons.prems(2) now by auto
  show ?case
    using Cons.prems(1) now [of "[]"] more
    by (auto simp: send only_logins_def split: sum.splits option.splits)
qed (auto simp: only_logins_def)

lemma ensure_sid_log:
  assumes "ensure_sid c net s = (out, s')"
  shows "\<exists>l. sn_log s' = sn_log s @ l \<and> only_logins l \<and> length l \<le> 5 \<and> (\<not> isl out \<longrightarrow> l = [] \<or> \<not> sn_cached s')"
proof (cases "try_logins c net login_calls None s")
  case (Pair o2 s2)
  have "\<exists>l. sn_log s2 = sn_log s @ l \<and> only_logins l \<and> length l \<le> 5"
    using try_logins_log [OF Pair] by (simp add: login_calls_def login_call_def eval_nat_numeral)
  then show ?thesis
    using assms by (auto simp: ensure_sid_def Pair only_logins_def split: if_splits option.splits sum.splits)
qed

text \<open>The request itself was refused where it stands in the log.\<close>

definition refused_at :: "crm_net \<Rightarrow> (crm_client \<times> crm_http) list \<Rightarrow> nat \<Rightarrow> bool" where
  "refused_at net evs i = (case nw_send net i (snd (evs ! i)) of Inl _ \<Rightarrow> False | Inr r \<Rightarrow> cp_status r \<in> {401, 403})"

definition own_sends :: "string \<Rightarrow> (crm_client \<times> crm_http) list \<Rightarrow> (crm_client \<times> crm_http) list" where
  "own_sends path evs = filter (\<lambda>ev. ch_path (snd ev) = path) evs"

lemma own_sends_logins: "only_logins l \<Longrightarrow> path \<notin> {''hmac-login'', ''checksid''} \<Longrightarrow> own_sends path l = []"
  by (auto simp: own_sends_def only_logins_def list_all_iff filter_empty_conv)

lemma crm_exchange_log:
  assumes "crm_exchange c net q s = (out, s')"
  shows "\<exists>l1 a l2 b. sn_log s' = sn_log s @ l1 @ a @ l2 @ b \<and> only_logins l1 \<and> only_logins l2
    \<and> length l1 \<le> 5 \<and> length l2 \<le> 5 \<and> length a \<le> 1 \<and> length b \<le> 1 \<and> list_all (\<lambda>ev. ch_path (snd ev) = cl_path q) (a @ b)
    \<and> (l2 @ b = [] \<or> l1 = [] \<and> a \<noteq> [] \<and> refused_at net (sn_log s @ a) (length (sn_log s)))"
proof -
  obtain o1 s1 where 1: "ensure_sid c net s = (o1, s1)" by fastforce
  obtain o2 s2 where 2: "crm_send c net q s1 = (o2, s2)" by fastforce
  obtain o3 s3 where 3: "ensure_sid c net (invalidate_cached_sid c s2) = (o3, s3)" by fastforce
  obtain o4 s4 where 4: "crm_send c net q s3 = (o4, s4)" by fastforce
  let ?a = "[(c, build_request c net (length (sn_log s1)) (sn_sid s1) q)]"
  let ?b = "[(c, build_request c net (length (sn_log s3)) (sn_sid s3) q)]"
  obtain l1 where l1: "sn_log s1 = sn_log s @ l1" "only_logins l1" "length l1 \<le> 5" "\<not> isl o1 \<longrightarrow> l1 = [] \<or> \<not> sn_cached s1"
    using ensure_sid_log [OF 1] by blast
  obtain l2 where l2: "sn_log s3 = sn_log s2 @ l2" "only_logins l2" "length l2 \<le> 5"
    using ensure_sid_log [OF 3] by (auto simp: invalidate_cached_sid_def)
  have s2: "sn_log s2 = sn_log s1 @ ?a" "sn_cached s2 = sn_cached s1" and s4: "sn_log s4 = sn_log s3 @ ?b"
    using crm_send_state [OF 2] crm_send_state [OF 4] by auto
  have none: "only_logins []" by (simp add: only_logins_def)
  consider (no_sid) e where "o1 = Inl e" "s' = s1" | (once) "s' = s2"
    | (again) r where "o1 = Inr ()" "o2 = Inr r" "cp_status r \<in> {401, 403}" "sn_cached s2" "s' = s3 \<or> s' = s4"
    using assms by (auto simp: crm_exchange_def 1 2 3 4 split: sum.splits if_splits)
  then show ?thesis
  proof cases
    case no_sid
    then show ?thesis using l1 none
      by (intro exI [of _ l1] exI [of _ "[]"]) auto
  next
    case once
    then show ?thesis using l1(1-3) none s2(1)
      by (intro exI [of _ l1] exI [of _ ?a] exI [of _ "[]"]) simp
  next
    case again
    have "l1 = []" using l1(4) again s2 by auto
    moreover have "refused_at net (sn_log s @ ?a) (length (sn_log s))"
      using again 2 l1(1) \<open>l1 = []\<close> by (auto simp: refused_at_def crm_send_def Let_def split: sum.splits)
    ultimately show ?thesis using l1 l2 s2 s4 again none
      by (intro exI [of _ "[]"] exI [of _ ?a] exI [of _ l2] exI [of _ "if s' = s3 then [] else ?b"]) auto
  qed
qed

section \<open>Properties\<close>

definition fresh_session :: crm_session where
  "fresh_session = \<lparr>sn_sid = None, sn_cached = False, sn_cache = [], sn_log = []\<rparr>"

lemma pool_own_fresh: "pool_own net fresh_session"
  by (simp add: pool_own_def sids_own_def fresh_session_def log_own_def)

text \<open>
  C22: session ids of the CRM never cross users or tenants. Start the gateway with an empty cache and let any
  list of clients send any requests one after another, with any answers from the servers: every session id sent
  as the \<open>sid\<close> header is either the one in the sending client's own token, or was returned by an earlier
  successful login that a client with the same server address, key id and user signed. The shared cache
  cannot hand a session to anyone else.
\<close>

theorem crm_session_origin:
  assumes "i < length (sn_log (run_clients net jobs fresh_session))"
    and "sn_log (run_clients net jobs fresh_session) ! i = (c, rq)"
    and "map_of (ch_headers rq) ''sid'' = Some x"
  shows "cc_session c = Some x \<or> issued net (take i (sn_log (run_clients net jobs fresh_session))) (client_identity c) x"
  using run_clients_own [OF pool_own_fresh, of net jobs] assms
  by (fastforce simp: pool_own_def sids_own_def log_own_def own_sid_def)

definition demo_signer :: "string \<Rightarrow> crm_client" where
  "demo_signer user = \<lparr>cc_base = ''http://crm'', cc_user = user, cc_user_name = [], cc_key_id = ''k'', cc_secret = ''s'',
     cc_clean = True, cc_session = None\<rparr>"

definition demo_net :: crm_net where
  "demo_net = \<lparr>nw_send = (\<lambda>n rq. if ch_path rq = ''hmac-login''
       then Inr \<lparr>cp_status = 200, cp_type = ''application/json'', cp_text = json_text wire_style (PDict [(''sid'', PStr (''S'' @ [char_of (48 + n)]))])\<rparr>
       else if map_of (ch_headers rq) ''sid'' = Some ''old'' then Inr \<lparr>cp_status = 401, cp_type = ''text/plain'', cp_text = ''no''\<rparr>
       else Inr \<lparr>cp_status = 200, cp_type = ''application/json'', cp_text = ''{}''\<rparr>),
     nw_url = (\<lambda>u _. (u, u, [])), nw_mac = (\<lambda>k m. k @ ''('' @ m @ '')''), nw_stamp = (\<lambda>n. ''T''), nw_nonce = (\<lambda>n. [char_of (97 + n)]),
     nw_clock = (\<lambda>n. 10), nw_ttl = 60\<rparr>"

definition demo_get :: crm_call where
  "demo_get = \<lparr>cl_method = ''get'', cl_path = ''ai/modules'', cl_params = [], cl_body = None, cl_extra = [(''X-Nonce'', ''mine'')]\<rparr>"

definition demo_log :: "(crm_client \<times> crm_http) list" where
  "demo_log = sn_log (run_clients demo_net [(demo_signer ''ann'', [demo_get]), (demo_signer ''bob'', [demo_get]), (demo_signer ''ann'', [demo_get])] fresh_session)"

lemma demo_log_run:
  "(case demo_log of [_, _, _, _, ev] \<Rightarrow> map_of (ch_headers (snd ev)) ''sid'' = Some ''S0'' \<and> fst ev = demo_signer ''ann'' | _ \<Rightarrow> False)"
  by code_simp

lemma demo_log_facts:
  "length demo_log = 5 \<and> map_of (ch_headers (snd (demo_log ! 4))) ''sid'' = Some ''S0'' \<and> fst (demo_log ! 4) = demo_signer ''ann''"
proof -
  obtain a b c d ev where l: "demo_log = [a, b, c, d, ev]" "map_of (ch_headers (snd ev)) ''sid'' = Some ''S0''" "fst ev = demo_signer ''ann''"
    using demo_log_run by (simp split: list.splits)
  show ?thesis unfolding l(1) using l(2,3) by simp
qed

theorem crm_session_origin_witness:
  "length demo_log = 5 \<and> map_of (ch_headers (snd (demo_log ! 4))) ''sid'' = Some ''S0''
   \<and> issued demo_net (take 4 demo_log) (client_identity (demo_signer ''ann'')) ''S0''"
proof -
  have at: "length demo_log = 5" "map_of (ch_headers (snd (demo_log ! 4))) ''sid'' = Some ''S0''"
    "demo_log ! 4 = (demo_signer ''ann'', snd (demo_log ! 4))"
    using demo_log_facts by (auto simp: prod_eq_iff)
  then show ?thesis
    using crm_session_origin [of 4 demo_net "[(demo_signer ''ann'', [demo_get]), (demo_signer ''bob'', [demo_get]), (demo_signer ''ann'', [demo_get])]"
        "demo_signer ''ann''" "snd (demo_log ! 4)" "''S0''", folded demo_log_def]
    by (simp add: demo_signer_def)
qed

text \<open>
  C23: how much one request can cost, and when it is repeated. Whatever the CRM answers, one request of the
  gateway makes at most seven sends; the request itself is among them at most twice, and where it is sent a
  second time its first copy was answered 401 or 403. So a write is never repeated after the CRM
  may have carried it out: not after a timeout, a broken connection or a server error.
\<close>

theorem crm_request_bounded:
  assumes "cl_path q \<notin> {''hmac-login'', ''checksid''}"
  shows "\<exists>new. sn_log (snd (crm_request c net q s)) = sn_log s @ new \<and> length new \<le> 7
    \<and> length (own_sends (cl_path q) new) \<le> 2
    \<and> (length (own_sends (cl_path q) new) \<le> 1 \<or>
        ch_path (snd (new ! 0)) = cl_path q \<and> refused_at net (sn_log s @ new) (length (sn_log s)))"
proof -
  obtain o1 s1 where 1: "crm_exchange c net q s = (o1, s1)" by fastforce
  then have s': "sn_log (snd (crm_request c net q s)) = sn_log s1" by (auto simp: crm_request_def split: sum.splits)
  obtain l1 a l2 b where l: "sn_log s1 = sn_log s @ l1 @ a @ l2 @ b" "only_logins l1" "only_logins l2"
      "length l1 \<le> 5" "length l2 \<le> 5" "length a \<le> 1" "length b \<le> 1" "list_all (\<lambda>ev. ch_path (snd ev) = cl_path q) (a @ b)"
      "l2 @ b = [] \<or> l1 = [] \<and> a \<noteq> [] \<and> refused_at net (sn_log s @ a) (length (sn_log s))"
    using crm_exchange_log [OF 1] by blast
  let ?new = "l1 @ a @ l2 @ b"
  have own: "own_sends (cl_path q) ?new = a @ b"
    using l own_sends_logins [OF _ assms]
    by (simp add: own_sends_def list_all_iff filter_id_conv del: filter_empty_conv)
  have "length ?new \<le> 7" using l(4-7,9) by auto
  moreover have "length (own_sends (cl_path q) ?new) \<le> 2" unfolding own using l(6,7) by simp
  moreover have "ch_path (snd (?new ! 0)) = cl_path q \<and> refused_at net (sn_log s @ ?new) (length (sn_log s))"
    if "\<not> length (own_sends (cl_path q) ?new) \<le> 1"
  proof -
    have "b \<noteq> []" using that l(6) unfolding own by auto
    then have "l1 = []" "a \<noteq> []" "refused_at net (sn_log s @ a) (length (sn_log s))" using l(9) by auto
    then show ?thesis using l(8) by (cases a) (auto simp: refused_at_def nth_append)
  qed
  ultimately show ?thesis unfolding s' l(1) by blast
qed

definition demo_stale :: crm_session where
  "demo_stale = \<lparr>sn_sid = None, sn_cached = False, sn_cache = [(sid_cache_key (demo_signer ''ann''), (20, ''old''))], sn_log = []\<rparr>"

theorem crm_request_bounded_witness:
  "length (sn_log (snd (crm_request (demo_signer ''ann'') demo_net demo_get demo_stale))) = 3
   \<and> refused_at demo_net (sn_log (snd (crm_request (demo_signer ''ann'') demo_net demo_get demo_stale))) 0"
proof -
  have "length (sn_log (snd (crm_request (demo_signer ''ann'') demo_net demo_get demo_stale))) = 3
    \<and> length (own_sends ''ai/modules'' (sn_log (snd (crm_request (demo_signer ''ann'') demo_net demo_get demo_stale)))) = 2"
    by code_simp
  then show ?thesis
    using crm_request_bounded [of demo_get "demo_signer ''ann''" demo_net demo_stale]
    by (auto simp: demo_get_def demo_stale_def)
qed

text \<open>
  a stale cached session costs one login, not an error. A client that signs takes a cached session, the CRM
  refuses the request with 401 or 403, the signed login that follows gives a new session and the CRM accepts the
  request with it: then the caller gets the answer of the second request, nothing else was sent, and until
  the new session's time to live has passed the cache serves it to that server, key and user.
\<close>

theorem stale_session_recovers:
  assumes "can_use_hmac c" and "sn_sid s = None"
    and "expiring_lookup (nw_ttl net) (nw_clock net (length (sn_log s))) (sn_cache s) (sid_cache_key c) = Some x"
    and "nw_send net (length (sn_log s)) (build_request c net (length (sn_log s)) (Some x) q) = Inr r1" and "cp_status r1 \<in> {401, 403}"
    and "nw_send net (length (sn_log s) + 1) (build_request c net (length (sn_log s) + 1) None (login_calls ! 0)) = Inr r2"
    and "cp_status r2 < 400" and "extract_sid (decode_response r2) = Some y"
    and "nw_send net (length (sn_log s) + 2) (build_request c net (length (sn_log s) + 2) (Some y) q) = Inr r3" and "cp_status r3 < 400"
    and "now < nw_clock net (length (sn_log s) + 2) + nw_ttl net"
  shows "fst (crm_request c net q s) = Inr (decode_response r3)
    \<and> length (sn_log (snd (crm_request c net q s))) = length (sn_log s) + 3
    \<and> expiring_lookup (nw_ttl net) now (sn_cache (snd (crm_request c net q s))) (sid_cache_key c) = Some y"
proof -
  have ttl: "0 < nw_ttl net" using assms(3) by (simp add: expiring_lookup_def split: if_splits)
  let ?n = "length (sn_log s)"
  let ?s1 = "s\<lparr>sn_sid := Some x, sn_cached := True\<rparr>"
  let ?s2 = "?s1\<lparr>sn_log := sn_log s @ [(c, build_request c net ?n (Some x) q)]\<rparr>"
  let ?s3 = "invalidate_cached_sid c ?s2"
  have one: "ensure_sid c net s = (Inr (), ?s1)" using assms by (simp add: ensure_sid_def)
  have two: "crm_send c net q ?s1 = (Inr r1, ?s2)" using assms by (simp add: crm_send_def Let_def)
  have gone: "expiring_lookup (nw_ttl net) t (sn_cache ?s3) (sid_cache_key c) = None" for t
    by (simp add: invalidate_cached_sid_def expiring_lookup_def)
  obtain s4 where three: "ensure_sid c net ?s3 = (Inr (), s4)" "sn_sid s4 = Some y" "length (sn_log s4) = ?n + 2"
      "sn_cache s4 = expiring_store (nw_ttl net) (nw_clock net (?n + 2)) (sn_cache ?s3) (sid_cache_key c) y"
    using assms gone by (simp add: ensure_sid_def login_calls_def crm_send_def Let_def invalidate_cached_sid_def raise_for_status_def)
  have four: "crm_send c net q s4 = (Inr r3, s4\<lparr>sn_log := sn_log s4 @ [(c, build_request c net (?n + 2) (Some y) q)]\<rparr>)"
    using assms three by (simp add: crm_send_def Let_def)
  show ?thesis
    using assms ttl three four
    by (simp add: crm_request_def crm_exchange_def one two raise_for_status_def expiring.lookup_store)
qed

lemma demo_stale_fields: "sn_log demo_stale = []" "sn_sid demo_stale = None"
  by (simp_all add: demo_stale_def)

theorem stale_session_recovers_witness:
  "expiring_lookup 60 50 (sn_cache (snd (crm_request (demo_signer ''ann'') demo_net demo_get demo_stale))) (sid_cache_key (demo_signer ''ann'')) = Some ''S1''"
proof -
  let ?old = "build_request (demo_signer ''ann'') demo_net 0 (Some ''old'') demo_get"
  let ?login = "build_request (demo_signer ''ann'') demo_net 1 None (login_calls ! 0)"
  let ?new = "build_request (demo_signer ''ann'') demo_net 2 (Some ''S1'') demo_get"
  obtain r1 r2 r3 where r: "nw_send demo_net 0 ?old = Inr r1" "cp_status r1 = 401" "nw_send demo_net 1 ?login = Inr r2" "cp_status r2 = 200"
      "extract_sid (decode_response r2) = Some ''S1''" "nw_send demo_net 2 ?new = Inr r3" "cp_status r3 = 200"
  proof -
    have "map_sum id cp_status (nw_send demo_net 0 ?old) = Inr 401"
      "map_sum id (\<lambda>r. (cp_status r, extract_sid (decode_response r))) (nw_send demo_net 1 ?login) = Inr (200, Some ''S1'')"
      "map_sum id cp_status (nw_send demo_net 2 ?new) = Inr 200"
      by code_simp+
    then show ?thesis using that by (cases "nw_send demo_net 0 ?old"; cases "nw_send demo_net 1 ?login"; cases "nw_send demo_net 2 ?new") auto
  qed
  have "can_use_hmac (demo_signer ''ann'')" by code_simp
  moreover have clock: "nw_ttl demo_net = 60" "nw_clock demo_net n = 10" for n by (simp_all add: demo_net_def)
  moreover have "expiring_lookup (nw_ttl demo_net) (nw_clock demo_net 0) (sn_cache demo_stale) (sid_cache_key (demo_signer ''ann'')) = Some ''old''"
    by (simp add: expiring_lookup_def demo_net_def demo_stale_def)
  ultimately show ?thesis
    using stale_session_recovers [of "demo_signer ''ann''" demo_stale demo_net "''old''" demo_get r1 r2 "''S1''" r3 50] r
    by (simp add: clock demo_stale_fields numeral_2_eq_2)
qed



end
