(* ===== verification/Crm_Actions.thy ===== *)
theory Crm_Actions
  imports Crm_Session Crm_Read Rag_Index "HOL-Library.Multiset"
begin

text \<open>
  The operations on CRM records (\<open>CoripoClient\<close> of \<open>app/services/crm_client.py\<close>): the payloads they send, what they
  make of the replies, and the dispatch of \<open>execute_module_action\<close>. Sending one call is an argument with its own
  state; the client of \<open>Crm_Session\<close> is the instance the code uses. Requests that the code gathers are made one after
  another. Only \<open>_extract_total\<close> and \<open>fetch_ai_ingest_dump\<close>, which nothing calls, are left out.
\<close>

type_synonym 's crm_api = "crm_call \<Rightarrow> 's \<Rightarrow> pydict crm_result \<times> 's"

definition then_ok :: "'a crm_result \<times> 's \<Rightarrow> ('a \<Rightarrow> 'b) \<Rightarrow> 'b crm_result \<times> 's" where
  "then_ok p f = (case p of (Inl e, s) \<Rightarrow> (Inl e, s) | (Inr x, s) \<Rightarrow> (Inr (f x), s))"

definition api_call :: "string \<Rightarrow> string \<Rightarrow> pydict \<Rightarrow> py option \<Rightarrow> crm_call" where
  "api_call method path params body = \<lparr>cl_method = method, cl_path = path, cl_params = params, cl_body = body, cl_extra = []\<rparr>"

definition value_fault :: "string \<Rightarrow> crm_fault" where
  "value_fault msg = OtherFault (ValueError msg)"

section \<open>Modules\<close>

definition strip_slashes :: "string \<Rightarrow> string" where
  "strip_slashes s = rstrip_slash (dropWhile (\<lambda>c. c = CHR ''/'') s)"

definition canonical_module :: "string \<Rightarrow> string crm_result" where
  "canonical_module md = (let v = strip_slashes (py_strip md) in
     if v = [] then Inl (value_fault ''Module cannot be empty'') else Inr (canonical_module_name v))"

definition is_letter :: "char \<Rightarrow> bool" where
  "is_letter c = (let n = (of_char c :: nat) in is_az c \<or> is_AZ c \<or> n \<in> {170, 181, 186} \<or> 192 \<le> n \<and> n \<noteq> 215 \<and> n \<noteq> 247)"

definition upper_text :: "string \<Rightarrow> string" where
  "upper_text s = map Filter_Builder.upper_char s"

definition upper_first :: "string \<Rightarrow> string" where
  "upper_first s = upper_text (take 1 s) @ drop 1 s"

definition unique_names :: "string list \<Rightarrow> string list" where
  "unique_names xs = keep_first id (\<lambda>_. False) [] xs"

definition module_candidates :: "string \<Rightarrow> string list" where
  "module_candidates md = (let v = strip_slashes (py_strip md) in
     if v = [] then []
     else unique_names ([v] @
       (if CHR ''_'' \<in> set v
        then (let parts = split_all (CHR ''_'') v; title = map upper_first parts; p = hd parts
              in [py_join ''_'' title] @
                (if p \<noteq> [] \<and> list_all is_letter p \<and> length p \<le> 4 then [py_join ''_'' (upper_text p # tl title)] else []))
        else []) @
       [upper_first v, upper_text v]))"

section \<open>Payloads\<close>

definition default_cont_filter :: "string \<Rightarrow> pydict" where
  "default_cont_filter q = conjunction [conjunction [make_operand ''*'' ''cont'' (PStr q)]]"

definition parse_order_by :: "py \<Rightarrow> string \<Rightarrow> py list" where
  "parse_order_by order_by md = (case py_split_ws (text_of order_by) of
     [] \<Rightarrow> []
   | field_part # rest \<Rightarrow>
       (let dir = (case rest of [] \<Rightarrow> [] | w # _ \<Rightarrow> upper_text w);
            sort = (if dir \<in> {''ASC'', ''DESC''} then dir else ''ASC'');
            name = py_strip (case split_first (CHR ''.'') field_part of (_, Some n) \<Rightarrow> n | (n, None) \<Rightarrow> n)
        in if name = [] then [] else [PDict [(''field'', PStr name), (''sort'', PStr sort), (''module'', PStr md)]]))"

definition crm_int :: "py \<Rightarrow> int crm_result" where
  "crm_int v = map_sum OtherFault id (py_int v)"

definition build_list_payload :: "string \<Rightarrow> pydict \<Rightarrow> pydict crm_result" where
  "build_list_payload md data =
     (case crm_int (por (dget_default data ''max_results'' (dget_default data ''limit'' (PInt 20))) (PInt 20)) of
        Inl e \<Rightarrow> Inl e
      | Inr limit0 \<Rightarrow> (case crm_int (por (dget_default data ''offset'' (PInt 0)) (PInt 0)) of
          Inl e \<Rightarrow> Inl e
        | Inr offset \<Rightarrow>
           (let query = text_of (por (pget data ''q'') (pget data ''query''));
                order = (case pget data ''order'' of PList xs \<Rightarrow> xs | _ \<Rightarrow> parse_order_by (pget data ''order_by'') md)
            in Inr (dupdate
                 [(''limit'', PInt (max 1 (min limit0 500))), (''offset'', PInt offset), (''columns'', pget data ''columns''),
                  (''order'', PList order), (''saved_search_id'', PStr []), (''prefix'', PNone),
                  (''listview_type'', PStr ''list''), (''viewType'', PStr ''desktop'')]
                 ((if has_key ''recordsCount'' data then [(''recordsCount'', PBool (truthy (pget data ''recordsCount'')))] else []) @
                  (if has_key ''listview_type'' data then [(''listview_type'', pget data ''listview_type'')] else []) @
                  [(''filter'', if is_dict (pget data ''filter'') then pget data ''filter''
                     else if query \<noteq> [] then PDict (default_cont_filter query) else PDict (conjunction []))] @
                  (if has_key ''include_hash'' data then [(''include_hash'', PBool (truthy (pget data ''include_hash'')))] else []) @
                  (if truthy (pget data ''hash_algorithm'') then [(''hash_algorithm'', PStr (py_str (pget data ''hash_algorithm'')))] else []))))))"

definition reserved_fields :: "string list" where
  "reserved_fields = [''id'', ''fields'', ''relationships'', ''customData'', ''files'', ''invitees'', ''inviteesBackup'',
     ''requested_by_user_id'', ''confirm_action'', ''contact_name'', ''related_contact_name'', ''invite_contact_name'',
     ''participant_name'', ''account_name'', ''related_account_name'', ''company_name'', ''company'']"

definition sanitize_coripo_fields :: "pydict \<Rightarrow> pydict" where
  "sanitize_coripo_fields data = filter (\<lambda>(k, v). k \<notin> set reserved_fields \<and> v \<noteq> PNone)
     (case pget data ''fields'' of PDict d \<Rightarrow> d | _ \<Rightarrow> data)"

definition no_invitees :: py where
  "no_invitees = PDict [(''Users'', PList []), (''Contacts'', PList []), (''Leads'', PList [])]"

definition build_set_payload :: "pydict \<Rightarrow> bool \<Rightarrow> pydict" where
  "build_set_payload data backup =
     [(''fields'', PDict (sanitize_coripo_fields data)), (''relationships'', dget_default data ''relationships'' (PDict [])),
      (''customData'', dget_default data ''customData'' (PDict [])), (''files'', dget_default data ''files'' (PList [])),
      (''invitees'', dget_default data ''invitees'' no_invitees)] @
     (if backup then [(''inviteesBackup'', dget_default data ''inviteesBackup'' (dget_default data ''invitees'' no_invitees))] else [])"

section \<open>Replies\<close>

fun walk_raw :: "string \<Rightarrow> py \<Rightarrow> pydict list" and walk_raw_items :: "string \<Rightarrow> py list \<Rightarrow> pydict list"
  and walk_raw_entries :: "(string \<times> py) list \<Rightarrow> pydict list" where
  "walk_raw key (PList xs) =
     (if key \<in> {''records'', ''entry_list'', ''items'', ''results''} then dicts_of xs else []) @ walk_raw_items key xs"
| "walk_raw key (PDict d) = walk_raw_entries d"
| "walk_raw key _ = []"
| "walk_raw_items key [] = []"
| "walk_raw_items key (x # xs) = walk_raw key x @ walk_raw_items key xs"
| "walk_raw_entries [] = []"
| "walk_raw_entries ((k, v) # d) = walk_raw k v @ walk_raw_entries d"

definition raw_id :: "pydict \<Rightarrow> string" where
  "raw_id row = text_of (por (pget row ''id'') (pget row ''record_id''))"

definition raw_records :: "py \<Rightarrow> pydict list" where
  "raw_records v = (let rows = walk_raw [] v in
     keep_first raw_id (\<lambda>_. False) [] (filter (\<lambda>r. raw_id r \<noteq> []) rows) @ filter (\<lambda>r. raw_id r = []) rows)"

definition clean_value :: "py \<Rightarrow> py option" where
  "clean_value v = (case v of
     PNone \<Rightarrow> None
   | PStr t \<Rightarrow> if py_strip t = [] then None else Some (PStr (py_strip t))
   | PList xs \<Rightarrow> if xs = [] then None else Some v
   | PDict _ \<Rightarrow> None
   | _ \<Rightarrow> Some v)"

definition kept_field :: "string list option \<Rightarrow> string \<Rightarrow> bool" where
  "kept_field only f = (f \<noteq> [] \<and> (case only of None \<Rightarrow> True | Some fs \<Rightarrow> f \<in> set fs) \<and> CHR ''|'' \<notin> set f \<and>
     (\<not> py_startswith f ''_'' \<or> f = ''_record_hash''))"

definition clean_record :: "string list option \<Rightarrow> pydict \<Rightarrow> pydict" where
  "clean_record only record =
     (let cleaned = fold (\<lambda>(k, v) d. if kept_field only (py_strip k)
          then (case clean_value v of None \<Rightarrow> d | Some w \<Rightarrow> dput (py_strip k) w d) else d) record []
      in case pget record ''id'' of
           PStr t \<Rightarrow> if py_strip t = [] then cleaned else dput ''id'' (PStr (py_strip t)) cleaned
         | _ \<Rightarrow> cleaned)"

definition clean_records :: "string list option \<Rightarrow> pydict list \<Rightarrow> pydict list" where
  "clean_records only rows = filter (\<lambda>r. r \<noteq> []) (map (clean_record only) rows)"

definition one_record :: "pydict \<Rightarrow> pydict option" where
  "one_record d = first_some (\<lambda>k. case pget d k of PDict r \<Rightarrow> Some r | _ \<Rightarrow> None) [''record'', ''item'']"

definition first_record :: "pydict \<Rightarrow> pydict option" where
  "first_record payload = (case raw_records (PDict payload) of
     r # _ \<Rightarrow> Some r
   | [] \<Rightarrow> first_some one_record [payload, dict_or_empty (pget payload ''data'')])"

lemma first_some_cong [fundef_cong]:
  "xs = ys \<Longrightarrow> (\<And>x. x \<in> set ys \<Longrightarrow> f x = g x) \<Longrightarrow> first_some f xs = first_some g ys"
  by (induction ys arbitrary: xs) (auto split: option.splits)

lemma size_pget: "pget d k = PDict e \<Longrightarrow> size (PDict e) < size (PDict d)"
  by (induction d) (auto simp: pget_Cons split: if_splits)

text \<open>
  \<open>_extract_record_id\<close> keeps a stack and takes the part pushed last first: depth first, \<open>record\<close> before \<open>result\<close>,
  \<open>message\<close> and \<open>data\<close>.
\<close>

function find_record_id :: "pydict \<Rightarrow> string option" where
  "find_record_id d =
     (case first_some (\<lambda>k. case pget d k of PStr t \<Rightarrow> if py_strip t = [] then None else Some (py_strip t) | _ \<Rightarrow> None)
         [''id'', ''record_id''] of
        Some x \<Rightarrow> Some x
      | None \<Rightarrow> first_some (\<lambda>k. case pget d k of PDict e \<Rightarrow> find_record_id e | _ \<Rightarrow> None)
          [''record'', ''result'', ''message'', ''data''])"
  by pat_completeness auto
termination
  by (relation "measure (\<lambda>d. size (PDict d))") (use size_pget in \<open>auto simp del: py.size\<close>)

declare find_record_id.simps [simp del]

section \<open>Lists\<close>

definition column_field_names :: "pydict \<Rightarrow> pydict \<Rightarrow> string list" where
  "column_field_names payload raw =
     (let given = filter (\<lambda>f. f \<noteq> []) (map (\<lambda>it. text_of (pget it ''field'')) (dicts_of (list_or_empty (pget payload ''columns''))));
          rows = filter (\<lambda>f. f \<noteq> []) (map (\<lambda>kv. py_strip (fst kv)) (dict_or_empty (pget raw ''rows'')))
      in unique_names (if given \<noteq> [] then given else map py_lower rows))"

definition def_field_names :: "pydict \<Rightarrow> string list" where
  "def_field_names raw = unique_names (filter (\<lambda>f. f \<noteq> []) (map (\<lambda>kv. py_strip (fst kv)) (dict_or_empty (pget raw ''def''))))"

definition list_response :: "pydict \<Rightarrow> pydict \<Rightarrow> bool \<Rightarrow> string list option \<Rightarrow> bool \<Rightarrow> pydict" where
  "list_response payload raw clean only names =
     (let (rows, n) = (case pget raw ''records'' of
            PList xs \<Rightarrow> (dicts_of xs, length xs)
          | _ \<Rightarrow> (raw_records (PDict raw), length (raw_records (PDict raw))))
      in [(''records'', PList (map PDict (if clean then clean_records only rows else rows))), (''source_record_count'', PInt (int n))] @
         (if names then [(''column_fields'', PList (map PStr (column_field_names payload raw))),
            (''def_fields'', PList (map PStr (def_field_names raw)))] else []))"

definition virtual_ids :: "pydict \<Rightarrow> string list option crm_result" where
  "virtual_ids data = (case pget data ''ids'' of
     PNone \<Rightarrow> Inr None
   | PList xs \<Rightarrow> (let ids = filter (\<lambda>t. t \<noteq> []) (map text_of xs) in
       if ids = [] then Inl (value_fault ''Virtual id batch lookup requires at least one id.'') else Inr (Some (unique_names ids)))
   | _ \<Rightarrow> Inl (value_fault ''Virtual id batch lookup requires ids to be an array.''))"

text \<open>The pair of the code, compared as a text with the number in front.\<close>

definition sort_text :: "py \<Rightarrow> string" where
  "sort_text v = (if v = PNone then [CHR 0x01] else CHR 0x00 # py_lower (py_str v))"

text \<open>\<open>list.sort(reverse=True)\<close> keeps the order of equal rows too.\<close>

definition sort_rows :: "bool \<Rightarrow> string \<Rightarrow> pydict list \<Rightarrow> pydict list" where
  "sort_rows descending f rows =
     (if descending then rev (sort_key (\<lambda>r. sort_text (pget r f)) (rev rows)) else sort_key (\<lambda>r. sort_text (pget r f)) rows)"

definition order_step :: "pydict \<Rightarrow> pydict list \<Rightarrow> pydict list" where
  "order_step spec rows = (let f = text_of (pget spec ''field'') in
     if f = [] then rows
     else sort_rows (upper_text (py_strip (py_str (por (pget spec ''sort'') (PStr ''ASC'')))) = ''DESC'') f rows)"

definition apply_local_order :: "pydict list \<Rightarrow> py \<Rightarrow> pydict list" where
  "apply_local_order rows order = fold order_step (rev (dicts_of (list_or_empty order))) rows"

fun fetch_by_ids :: "'s crm_api \<Rightarrow> string \<Rightarrow> string list \<Rightarrow> 's \<Rightarrow> pydict list crm_result \<times> 's" where
  "fetch_by_ids api md [] s = (Inr [], s)"
| "fetch_by_ids api md (i # ids) s =
     (case api (api_call ''GET'' (''detail/'' @ md @ ''/'' @ i) [] None) s of
        (Inl e, s') \<Rightarrow> if e = StatusFault 404 then fetch_by_ids api md ids s' else (Inl e, s')
      | (Inr raw, s') \<Rightarrow>
          (let row = (case first_record raw of None \<Rightarrow> [(''id'', PStr i)]
             | Some r \<Rightarrow> if has_key ''id'' r then r else dput ''id'' (PStr i) r)
           in then_ok (fetch_by_ids api md ids s') (\<lambda>rows. row # rows)))"

section \<open>Single records\<close>

definition mutation_response :: "pydict \<Rightarrow> string \<Rightarrow> bool \<Rightarrow> string list option \<Rightarrow> pydict" where
  "mutation_response raw fallback clean only =
     [(''status'', PStr ''ok'')] @
     (case find_record_id raw of Some i \<Rightarrow> [(''id'', PStr i)]
      | None \<Rightarrow> if py_strip fallback = [] then [] else [(''id'', PStr (py_strip fallback))]) @
     (case first_record raw of None \<Rightarrow> []
      | Some r \<Rightarrow> [(''record'', PDict (if clean then clean_record only r else r))])"

definition overview_currency :: "pydict \<Rightarrow> string" where
  "overview_currency payload =
     (case find (\<lambda>t. t \<noteq> []) (map upper_text [text_of (pget payload ''monetary_values_currency''),
         text_of (pget (dict_or_empty (pget payload ''default_currency'')) ''iso4217''),
         text_of (pget (dict_or_empty (pget payload ''default_currency'')) ''code'')]) of
        Some t \<Rightarrow> t | None \<Rightarrow> ''CZK'')"

text \<open>What is added to a dict \<open>d\<close>; \<open>d'\<close> is \<open>d\<close> with its parts annotated.\<close>

definition amount_fields :: "string \<Rightarrow> pydict \<Rightarrow> pydict \<Rightarrow> pydict" where
  "amount_fields currency d d' =
     (if pget d ''amount_usdollar'' = PNone \<or> py_strip (py_str (pget d ''amount_usdollar'')) = [] then d'
      else (let missing = (pget d ''amount'' = PNone \<or> py_strip (py_str (pget d ''amount'')) = []);
                d1 = (if missing then dput ''amount'' (pget d' ''amount_usdollar'') d' else d');
                given = upper_text (py_strip (py_str (por (pget d ''amount_currency'') (PStr currency))));
                cur = (if given = [] then currency else given);
                d2 = dput ''amount_currency'' (PStr cur) d1;
                d3 = (if text_of (pget d2 ''amount_display'') \<noteq> [] then d2
                      else dput ''amount_display'' (PStr (py_str (if missing then pget d ''amount_usdollar'' else pget d ''amount'') @ '' '' @ cur)) d2)
            in if has_key ''amount_source_field'' d3 then d3 else dput ''amount_source_field'' (PStr ''amount_usdollar'') d3))"

fun annotate :: "string \<Rightarrow> py \<Rightarrow> py" and annotate_items :: "string \<Rightarrow> py list \<Rightarrow> py list"
  and annotate_entries :: "string \<Rightarrow> (string \<times> py) list \<Rightarrow> (string \<times> py) list" where
  "annotate c (PList xs) = PList (annotate_items c xs)"
| "annotate c (PDict d) = PDict (amount_fields c d (annotate_entries c d))"
| "annotate c v = v"
| "annotate_items c [] = []"
| "annotate_items c (x # xs) = annotate c x # annotate_items c xs"
| "annotate_entries c [] = []"
| "annotate_entries c ((k, v) # d) = (k, annotate c v) # annotate_entries c d"

definition normalize_overview :: "pydict \<Rightarrow> pydict" where
  "normalize_overview payload = (let c = overview_currency payload in
     dict_or_empty (annotate c (PDict (dput ''monetary_values_currency'' (PStr c) payload))))"

section \<open>Dispatch\<close>

text \<open>A list is tried under the spellings of its module until one is not answered with a server error.\<close>

fun try_lists :: "'s crm_api \<Rightarrow> string \<Rightarrow> pydict \<Rightarrow> string list \<Rightarrow> crm_fault option \<Rightarrow> 's \<Rightarrow> pydict crm_result \<times> 's" where
  "try_lists api md payload [] why s =
     (Inl (case why of Some e \<Rightarrow> e | None \<Rightarrow> value_fault (''Unable to resolve module for list action: '' @ md)), s)"
| "try_lists api md payload (c # cs) why s =
     (case api (api_call ''POST'' (''list/'' @ c) [] (Some (PDict payload))) s of
        (Inr raw, s') \<Rightarrow> (Inr raw, s')
      | (Inl (StatusFault n), s') \<Rightarrow> if n < 500 then (Inl (StatusFault n), s') else try_lists api md payload cs (Some (StatusFault n)) s'
      | (Inl e, s') \<Rightarrow> (Inl e, s'))"

definition response_only :: "pydict \<Rightarrow> string list option" where
  "response_only data = (case pget data ''response_fields'' of
     PList xs \<Rightarrow> Some (''id'' # filter (\<lambda>t. t \<noteq> []) (map (\<lambda>v. py_strip (py_str v)) xs)) | _ \<Rightarrow> None)"

definition action_list :: "'s crm_api \<Rightarrow> bool \<Rightarrow> string \<Rightarrow> pydict \<Rightarrow> 's \<Rightarrow> pydict crm_result \<times> 's" where
  "action_list api clean md data s =
     (let only = response_only data; names = truthy (dget_default data ''include_field_names'' (PBool True)) in
      case virtual_ids data of
        Inl e \<Rightarrow> (Inl e, s)
      | Inr (Some ids) \<Rightarrow>
          (case crm_int (por (pget data ''limit'') (PInt (int (length ids)))) of
             Inl e \<Rightarrow> (Inl e, s)
           | Inr l \<Rightarrow> then_ok (fetch_by_ids api md ids s) (\<lambda>rows0.
               (let rows = (if clean then clean_records only rows0 else rows0) in
                [(''records'', PList (map PDict (take (nat (max 1 (min l 500))) (apply_local_order rows (pget data ''order''))))),
                 (''source_record_count'', PInt (int (length rows)))] @
                (if names then [(''column_fields'', PList (map PStr (case only of None \<Rightarrow> [] | Some fs \<Rightarrow> sort (remdups fs)))),
                   (''def_fields'', PList [])] else []))))
      | Inr None \<Rightarrow>
          (case build_list_payload md data of
             Inl e \<Rightarrow> (Inl e, s)
           | Inr payload \<Rightarrow> then_ok (try_lists api md payload (module_candidates md) None s)
               (\<lambda>raw. list_response payload raw clean only names)))"

definition need_id :: "string \<Rightarrow> pydict \<Rightarrow> string crm_result" where
  "need_id what data = (let i = text_of (pget data ''id'') in
     if i = [] then Inl (value_fault (what @ '' requires 'id' in data'')) else Inr i)"

definition set_record :: "'s crm_api \<Rightarrow> bool \<Rightarrow> string \<Rightarrow> string \<Rightarrow> bool \<Rightarrow> pydict \<Rightarrow> 's \<Rightarrow> pydict crm_result \<times> 's" where
  "set_record api clean path fallback backup data s =
     then_ok (api (api_call ''POST'' path [] (Some (PDict (build_set_payload data backup)))) s)
       (\<lambda>raw. mutation_response raw fallback clean (response_only data))"

definition overview_payload :: "pydict \<Rightarrow> pydict" where
  "overview_payload raw = (case pget (dict_or_empty (pget raw ''message'')) ''data'' of
     PDict d \<Rightarrow> d | _ \<Rightarrow> (case pget raw ''data'' of PDict d \<Rightarrow> d | _ \<Rightarrow> raw))"

definition detail_response :: "string \<Rightarrow> bool \<Rightarrow> string list option \<Rightarrow> pydict \<Rightarrow> pydict" where
  "detail_response i clean only raw = [(''id'', PStr i)] @
     (case first_record raw of None \<Rightarrow> [] | Some r \<Rightarrow> [(''record'', PDict (if clean then clean_record only r else r))])"

definition with_id :: "string \<Rightarrow> pydict \<Rightarrow> (string \<Rightarrow> 's \<Rightarrow> pydict crm_result \<times> 's) \<Rightarrow> 's \<Rightarrow> pydict crm_result \<times> 's" where
  "with_id what data f s = (case need_id what data of Inl e \<Rightarrow> (Inl e, s) | Inr i \<Rightarrow> f i s)"

text \<open>\<open>clean0\<close> is the \<open>clean_response\<close> flag of the tenant's token.\<close>

definition execute_module_action :: "'s crm_api \<Rightarrow> bool \<Rightarrow> string \<Rightarrow> string \<Rightarrow> pydict \<Rightarrow> 's \<Rightarrow> pydict crm_result \<times> 's" where
  "execute_module_action api clean0 md action data s =
     (let act = py_lower (py_strip action); clean = truthy (dget_default data ''clean_records'' (PBool clean0)) in
      case canonical_module md of
        Inl e \<Rightarrow> (Inl e, s)
      | Inr m \<Rightarrow>
          if act \<in> {''list'', ''search''} then action_list api clean m data s
          else if act = ''create'' then set_record api clean (''set/'' @ m) [] False data s
          else if act \<in> {''update'', ''patch''}
          then with_id ''Update action'' data (\<lambda>i. set_record api clean (''set/'' @ m @ ''/'' @ i) i True data) s
          else if act = ''delete''
          then with_id ''Delete action'' data (\<lambda>i s. then_ok (api (api_call ''DELETE'' (''delete/'' @ m @ ''/'' @ i) [] None) s)
                 (\<lambda>_. [(''status'', PStr ''ok''), (''id'', PStr i)])) s
          else if act = ''company_overview''
          then with_id ''company_overview action'' data (\<lambda>i s. then_ok
                 (api (api_call ''POST'' (''detail/'' @ m @ ''/'' @ i) [] (Some (PDict [(''AiRequest'', PBool True)]))) s)
                 (\<lambda>raw. normalize_overview (overview_payload raw))) s
          else if act \<in> {''get'', ''read'', ''detail''}
          then with_id ''Read action'' data (\<lambda>i s. then_ok (api (api_call ''GET'' (''detail/'' @ m @ ''/'' @ i) [] None) s)
                 (detail_response i clean (response_only data))) s
          else api (api_call (upper_text act) (act @ ''/'' @ m) [] (if data = [] then None else Some (PDict data))) s)"

definition search_modules :: "(string \<times> string) list" where
  "search_modules = [(''contacts'', ''Contacts''), (''accounts'', ''Accounts''), (''meetings'', ''Meetings''),
     (''opportunities'', ''Opportunities''), (''opportunites'', ''Opportunities''), (''quotes'', ''Quotes''),
     (''acm_invoices'', ''acm_invoices'')]"

fun search_all :: "'s crm_api \<Rightarrow> bool \<Rightarrow> pydict \<Rightarrow> (string \<times> string) list \<Rightarrow> 's \<Rightarrow> pydict crm_result \<times> 's" where
  "search_all api clean0 data [] s = (Inr [], s)"
| "search_all api clean0 data ((k, m) # ms) s =
     (case execute_module_action api clean0 m ''list'' data s of
        (Inl e, s') \<Rightarrow> (Inl e, s')
      | (Inr r, s') \<Rightarrow> then_ok (search_all api clean0 data ms s') (\<lambda>rs. (k, PDict r) # rs))"

definition generic_search :: "'s crm_api \<Rightarrow> bool \<Rightarrow> string \<Rightarrow> string \<Rightarrow> 's \<Rightarrow> pydict crm_result \<times> 's" where
  "generic_search api clean0 query scope s =
     (let sc = py_lower (py_strip (if scope = [] then ''all'' else scope));
          data = [(''query'', PStr query), (''q'', PStr query), (''limit'', PInt 20), (''offset'', PInt 0)]
      in case map_of search_modules sc of
           Some m \<Rightarrow> execute_module_action api clean0 m ''list'' data s
         | None \<Rightarrow> search_all api clean0 data search_modules s)"

section \<open>Details, schemas and writes for the assistant\<close>

definition get_record_detail :: "'s crm_api \<Rightarrow> string \<Rightarrow> string \<Rightarrow> 's \<Rightarrow> pydict crm_result \<times> 's" where
  "get_record_detail api md i s = (let m = (if canonical_module_name md = [] then md else canonical_module_name md) in
     then_ok (api (api_call ''GET'' (''detail/'' @ m @ ''/'' @ i) [] None) s)
       (\<lambda>raw. case pget raw ''data'' of PDict d \<Rightarrow> d | _ \<Rightarrow> raw))"

definition get_ai_schema :: "'s crm_api \<Rightarrow> string \<Rightarrow> string \<Rightarrow> int \<Rightarrow> 's \<Rightarrow> pydict crm_result \<times> 's" where
  "get_ai_schema api md i max_options s = (case canonical_module md of
     Inl e \<Rightarrow> (Inl e, s)
   | Inr m \<Rightarrow> api (api_call ''GET'' (''ai_schema/'' @ m)
       ([(''max_options'', PInt max_options)] @ (if i = [] then [] else [(''record_id'', PStr i)])) None) s)"

definition ai_write :: "'s crm_api \<Rightarrow> string \<Rightarrow> pydict \<Rightarrow> string \<Rightarrow> bool \<Rightarrow> 's \<Rightarrow> pydict crm_result \<times> 's" where
  "ai_write api md data i dry_run s = (case canonical_module md of
     Inl e \<Rightarrow> (Inl e, s)
   | Inr m \<Rightarrow> api (api_call ''POST'' (''ai_write/'' @ m @ (if i = [] then [] else ''/'' @ i))
       [(''dry_run'', PStr (if dry_run then ''true'' else ''false''))] (Some (PDict data))) s)"

section \<open>The client as the server of the readers\<close>

fun fault_exc :: "crm_fault \<Rightarrow> py_exc" where
  "fault_exc (StatusFault n) = OtherError ''HTTPStatusError''"
| "fault_exc (OtherFault e) = e"

text \<open>Request \<open>i\<close> of a reader finds the session in the state \<open>ss i\<close>.\<close>

definition client_lists :: "'s crm_api \<Rightarrow> bool \<Rightarrow> (nat \<Rightarrow> 's) \<Rightarrow> list_server" where
  "client_lists api clean0 ss = (\<lambda>i md p. map_sum fault_exc PDict (fst (execute_module_action api clean0 md ''list'' p (ss i))))"

text \<open>A CRM that answers a list call with the slice of its rows that the payload asks for.\<close>

definition crm_lists :: "'s crm_api \<Rightarrow> (nat \<Rightarrow> 's) \<Rightarrow> pydict list \<Rightarrow> bool" where
  "crm_lists api ss rows = (\<forall>i c payload l k. json_wf (PDict payload) \<longrightarrow>
     pget payload ''limit'' = PInt (int l) \<longrightarrow> pget payload ''offset'' = PInt (int k) \<longrightarrow>
     (\<exists>raw. fst (api (api_call ''POST'' (''list/'' @ c) [] (Some (PDict payload))) (ss i)) = Inr raw \<and>
        pget raw ''records'' = PList (map PDict (take l (drop k rows)))))"

section \<open>Lemmas\<close>

lemma pget_dupdate_other: "k \<notin> fst ` set e \<Longrightarrow> pget (dupdate d e) k = pget d k"
  by (simp add: pget_def dget_default_def map_of_dupdate_other)

lemma json_wf_dict_all: "json_wf_dict d = list_all (\<lambda>kv. json_wf (snd kv)) d"
  by (induction d) auto

lemma json_wf_list_all: "json_wf_list xs = list_all json_wf xs"
  by (induction xs) auto

lemma dput_all: "list_all P (map snd d) \<Longrightarrow> P v \<Longrightarrow> list_all P (map snd (dput k v d))"
  by (induction k v d rule: dput.induct) auto

lemma json_wf_payload:
  "json_wf (PDict d) \<Longrightarrow> list_all (\<lambda>kv. json_wf (snd kv)) e \<Longrightarrow> json_wf (PDict (dupdate d e))"
proof (induction e arbitrary: d)
  case (Cons kv e)
  then show ?case
    using dput_all [of json_wf d "snd kv" "fst kv"]
    by (cases kv) (auto simp: json_wf_dict_all list.pred_map comp_def)
qed simp

text \<open>The payload of a plain query: the numbers are kept and the rest is fit for JSON when the query is.\<close>

lemma plain_list_payload:
  assumes "por (dget_default data ''max_results'' (dget_default data ''limit'' (PInt 20))) (PInt 20) = PInt (int l)" and "0 < l" "l \<le> 500"
    and "pget data ''offset'' = PInt (int k)"
    and "pget data ''columns'' = PNone" and "pget data ''order_by'' = PNone" and "json_wf (pget data ''order'')"
    and "json_wf (pget data ''filter'')" and "\<not> has_key ''listview_type'' data"
  shows "\<exists>payload. build_list_payload md data = Inr payload \<and> pget payload ''limit'' = PInt (int l) \<and>
    pget payload ''offset'' = PInt (int k) \<and> json_wf (PDict payload)"
proof -
  let ?order = "case pget data ''order'' of PList xs \<Rightarrow> xs | _ \<Rightarrow> parse_order_by (pget data ''order_by'') md"
  have off: "dget_default data ''offset'' (PInt 0) = PInt (int k)"
    using assms(4) by (auto simp: pget_def dget_default_def split: option.splits)
  have "json_wf (PList ?order)"
    using assms(6,7) by (cases "pget data ''order''") (simp_all add: parse_order_by_def text_of_def str_or_def py_strip_def py_lstrip_def py_rstrip_def py_split_ws_def)
  then have base: "json_wf (PDict [(''limit'', PInt (max 1 (min (int l) 500))), (''offset'', PInt (int k)), (''columns'', pget data ''columns''),
                  (''order'', PList ?order), (''saved_search_id'', PStr []), (''prefix'', PNone),
                  (''listview_type'', PStr ''list''), (''viewType'', PStr ''desktop'')])"
    using assms(5) by simp
  have lim: "max 1 (min (int l) 500) = int l" using assms(2,3) by simp
  let ?base = "[(''limit'', PInt (max 1 (min (int l) 500))), (''offset'', PInt (int k)), (''columns'', pget data ''columns''),
                  (''order'', PList ?order), (''saved_search_id'', PStr []), (''prefix'', PNone),
                  (''listview_type'', PStr ''list''), (''viewType'', PStr ''desktop'')]"
  let ?query = "text_of (por (pget data ''q'') (pget data ''query''))"
  let ?extra = "(if has_key ''recordsCount'' data then [(''recordsCount'', PBool (truthy (pget data ''recordsCount'')))] else []) @
     (if has_key ''listview_type'' data then [(''listview_type'', pget data ''listview_type'')] else []) @
     [(''filter'', if is_dict (pget data ''filter'') then pget data ''filter''
        else if ?query \<noteq> [] then PDict (default_cont_filter ?query) else PDict (conjunction []))] @
     (if has_key ''include_hash'' data then [(''include_hash'', PBool (truthy (pget data ''include_hash'')))] else []) @
     (if truthy (pget data ''hash_algorithm'') then [(''hash_algorithm'', PStr (py_str (pget data ''hash_algorithm'')))] else [])"
  have deep: "json_wf (PDict (default_cont_filter q))" "json_wf (PDict (conjunction []))" for q
    by (simp_all add: default_cont_filter_def conjunction_def make_operand_def operand_def)
  have wf: "list_all (\<lambda>kv. json_wf (snd kv)) ?extra" using assms(8,9) deep by simp
  have keys: "''limit'' \<notin> fst ` set ?extra" "''offset'' \<notin> fst ` set ?extra" by auto
  have "crm_int (por (dget_default data ''max_results'' (dget_default data ''limit'' (PInt 20))) (PInt 20)) = Inr (int l)"
    by (simp add: crm_int_def assms(1))
  moreover have "crm_int (por (dget_default data ''offset'' (PInt 0)) (PInt 0)) = Inr (int k)"
    by (simp add: crm_int_def off por_def)
  ultimately have "build_list_payload md data = Inr (dupdate ?base ?extra)"
    by (simp only: build_list_payload_def sum.case Let_def)
  moreover have "pget (dupdate ?base ?extra) ''limit'' = PInt (int l)" "pget (dupdate ?base ?extra) ''offset'' = PInt (int k)"
    by (simp_all only: pget_dupdate_other [OF keys(1)] pget_dupdate_other [OF keys(2)] lim) (simp_all add: pget_Cons)
  ultimately show ?thesis using json_wf_payload [OF base wf] by blast
qed

lemma walk_items_strings [simp]: "walk_items key (map PStr ts) = []"
  by (induction ts) auto

lemma dicts_of_strings [simp]: "dicts_of (map PStr ts) = []"
  by (induction ts) (simp_all add: dicts_of_def)

lemma is_list_PList: "is_list v \<Longrightarrow> \<exists>xs. v = PList xs"
  by (cases v) auto

text \<open>What a reader gets for a plain query that the CRM answers with its rows.\<close>

lemma action_list_rows:
  assumes api: "crm_lists api ss rows" and ids: "pget data ''ids'' = PNone" and cand: "module_candidates m \<noteq> []"
    and payload: "build_list_payload m data = Inr payload" "json_wf (PDict payload)"
      "pget payload ''limit'' = PInt (int l)" "pget payload ''offset'' = PInt (int k)"
  shows "\<exists>post. fst (action_list api clean m data (ss i)) = Inr ((''records'', PList (map PDict
        (if clean then clean_records (response_only data) (take l (drop k rows)) else take l (drop k rows)))) #
      (''source_record_count'', PInt (int (length (take l (drop k rows))))) # post) \<and> walk_entries post = [] \<and>
      (truthy (dget_default data ''include_field_names'' (PBool True)) \<or> post = [])"
proof -
  obtain c cs where c: "module_candidates m = c # cs" using cand by (cases "module_candidates m") auto
  obtain raw where raw: "fst (api (api_call ''POST'' (''list/'' @ c) [] (Some (PDict payload))) (ss i)) = Inr raw"
      "pget raw ''records'' = PList (map PDict (take l (drop k rows)))"
    using api payload(2-4) unfolding crm_lists_def by blast
  obtain s' where s': "api (api_call ''POST'' (''list/'' @ c) [] (Some (PDict payload))) (ss i) = (Inr raw, s')"
    using raw(1) by (cases "api (api_call ''POST'' (''list/'' @ c) [] (Some (PDict payload))) (ss i)") auto
  have lists: "try_lists api m payload (module_candidates m) None (ss i) = (Inr raw, s')" using s' by (simp add: c)
  show ?thesis
    using ids payload(1) raw(2)
    by (simp add: action_list_def virtual_ids_def then_ok_def lists list_response_def Let_def)
qed

lemma clean_records_all:
  "list_all (\<lambda>r. clean_record only r \<noteq> []) rows \<Longrightarrow> clean_records only rows = map (clean_record only) rows"
  by (simp add: clean_records_def filter_id_conv list_all_iff)

lemma proper_row_ne: "proper_row r \<Longrightarrow> r \<noteq> []"
  by (auto simp: proper_row_def row_id_text_def safe_text_def matches_uuid_def)

lemma clean_slice:
  assumes "list_all proper_row (map (clean_record None) rows)"
  shows "clean_records None (take l (drop k rows)) = take l (drop k (map (clean_record None) rows))"
proof -
  have "list_all (\<lambda>r. clean_record None r \<noteq> []) (take l (drop k rows))"
    using assms proper_row_ne by (auto simp: list_all_iff dest!: in_set_takeD in_set_dropD)
  then show ?thesis by (simp add: clean_records_all take_map drop_map)
qed

lemma page_payload_others:
  "pget (page_payload q l k) ''ids'' = PNone" "pget (page_payload q l k) ''columns'' = PNone"
  "pget (page_payload q l k) ''order_by'' = PNone" "\<not> has_key ''listview_type'' (page_payload q l k)"
  "pget (page_payload q l k) ''filter'' = PDict (lq_filter q)" "\<not> has_key ''max_results'' (page_payload q l k)"
  "pget (page_payload q l k) ''order'' = (if lq_order q = [] then PNone else PList (lq_order q))"
  "lq_fields q = [] \<Longrightarrow> response_only (page_payload q l k) = None"
  "dget_default (page_payload q l k) ''clean_records'' v = v"
  by (simp_all add: page_payload_def pget_Cons has_key_def response_only_def dget_default_def)

lemma client_serves_rows:
  assumes api: "crm_lists api ss rows" and m: "canonical_module md = Inr m" "module_candidates m \<noteq> []"
    and rows: "list_all proper_row (map (clean_record None) rows)"
    and q: "lq_module q = md" "lq_fields q = []" "json_wf (PDict (lq_filter q))" "json_wf (PList (lq_order q))" "0 < l" "l \<le> 500"
  shows "\<exists>post. walk_entries post = [] \<and>
      pget post ''source_record_count'' \<in> {PNone, PInt (int (length (take l (drop k (map (clean_record None) rows)))))} \<and>
      client_lists api True ss i (lq_module q) (page_payload q l (int k))
        = Inr (list_reply [] (take l (drop k (map (clean_record None) rows))) post)"
proof -
  let ?p = "page_payload q l (int k)"
  have lim: "dget_default ?p ''max_results'' (dget_default ?p ''limit'' (PInt 20)) = PInt (int l)"
    by (simp add: page_payload_def dget_default_def)
  have "\<exists>payload. build_list_payload m ?p = Inr payload \<and> pget payload ''limit'' = PInt (int l) \<and>
      pget payload ''offset'' = PInt (int k) \<and> json_wf (PDict payload)"
    by (rule plain_list_payload) (use lim q(3-6) in \<open>simp_all add: page_payload_others por_def\<close>)
  then obtain payload where payload: "build_list_payload m ?p = Inr payload" "pget payload ''limit'' = PInt (int l)"
      "pget payload ''offset'' = PInt (int k)" "json_wf (PDict payload)" by blast
  obtain post where post: "fst (action_list api True m ?p (ss i)) = Inr ((''records'', PList (map PDict
        (clean_records None (take l (drop k rows))))) # (''source_record_count'', PInt (int (length (take l (drop k rows))))) # post)"
      "walk_entries post = []"
    using action_list_rows [OF api page_payload_others(1) m(2) payload(1,4,2,3), of True i] page_payload_others(8) [OF q(2)] by auto
  have act: "py_lower (py_strip ''list'') = ''list''" by code_simp
  have "execute_module_action api True md ''list'' ?p (ss i) = action_list api True m ?p (ss i)"
    by (simp add: execute_module_action_def act m(1) page_payload_others(9) Let_def)
  then show ?thesis
    using post clean_slice [OF rows, of l k] q(1)
    by (intro exI [of _ "(''source_record_count'', PInt (int (length (take l (drop k rows))))) # post"])
       (simp add: client_lists_def list_reply_def pget_Cons min_def)
qed

lemma client_serves_index:
  assumes api: "crm_lists api ss rows" and m: "canonical_module md = Inr m" "module_candidates m \<noteq> []"
  shows "serves_index (\<lambda>i. client_lists api clean0 ss i md) rows"
  unfolding serves_index_def
proof (intro allI impI)
  fix i k l :: nat
  assume l: "0 < l" "l \<le> 500"
  let ?p = "ingest_payload (int k) (int l)"
  have "\<exists>payload. build_list_payload m ?p = Inr payload \<and> pget payload ''limit'' = PInt (int l) \<and>
      pget payload ''offset'' = PInt (int k) \<and> json_wf (PDict payload)"
    by (rule plain_list_payload) (use l in \<open>simp_all add: ingest_payload_def dget_default_def pget_Cons has_key_def por_def\<close>)
  then obtain payload where payload: "build_list_payload m ?p = Inr payload" "pget payload ''limit'' = PInt (int l)"
      "pget payload ''offset'' = PInt (int k)" "json_wf (PDict payload)" by blast
  have ids: "pget ?p ''ids'' = PNone" by (simp add: ingest_payload_def pget_Cons)
  have flags: "dget_default ?p ''clean_records'' (PBool clean0) = PBool False"
    "dget_default ?p ''include_field_names'' (PBool True) = PBool False"
    by (simp_all add: ingest_payload_def dget_default_def)
  have post: "fst (action_list api False m ?p (ss i)) = Inr [(''records'', PList (map PDict (take l (drop k rows)))),
      (''source_record_count'', PInt (int (length (take l (drop k rows)))))]"
    using action_list_rows [OF api ids m(2) payload(1,4,2,3), of False i] by (auto simp: flags)
  have act: "py_lower (py_strip ''list'') = ''list''" by code_simp
  have "execute_module_action api clean0 md ''list'' ?p (ss i) = action_list api False m ?p (ss i)"
    by (simp add: execute_module_action_def act m(1) flags Let_def)
  then show "\<exists>env. client_lists api clean0 ss i md ?p = Inr (PDict env) \<and>
      pget env ''records'' = PList (map PDict (take l (drop k rows))) \<and>
      pget env ''source_record_count'' \<in> {PNone, PInt (int (length (take l (drop k rows))))} \<and> \<not> crm_error (PDict env)"
    using post by (simp add: client_lists_def pget_Cons crm_error_def str_or_def py_lower_def)
qed

section \<open>Over the wire\<close>

definition json_reply :: "pydict \<Rightarrow> crm_response" where
  "json_reply d = \<lparr>cp_status = 200, cp_type = ''application/json'', cp_text = json_text wire_style (PDict d)\<rparr>"

text \<open>The CRM behind the network: a list request is answered with the slice its JSON body asks for.\<close>

definition http_lists :: "crm_net \<Rightarrow> pydict list \<Rightarrow> bool" where
  "http_lists net rows = (\<forall>n rq c payload l k. ch_path rq = ''list/'' @ c \<longrightarrow> json_wf (PDict payload) \<longrightarrow>
     ch_body rq = Some (json_text wire_style (PDict payload)) \<longrightarrow>
     pget payload ''limit'' = PInt (int l) \<longrightarrow> pget payload ''offset'' = PInt (int k) \<longrightarrow>
     nw_send net n rq = Inr (json_reply [(''records'', PList (map PDict (take l (drop k rows))))]))"

lemma wire_style_ok: "style_ok wire_style"
  by (simp add: style_ok_def wire_style_def)

lemma decode_json_reply: "json_wf (PDict d) \<Longrightarrow> decode_response (json_reply d) = d"
proof -
  assume wf: "json_wf (PDict d)"
  have "py_contains ''json'' (py_lower ''application/json'')" by code_simp
  then show ?thesis
    using json_roundtrip [OF wf wire_style_ok]
    by (simp add: decode_response_def json_reply_def del: json_wf.simps)
qed

lemma request_fields [simp]:
  "ch_body (build_request c net n sid q) = map_option (json_text wire_style) (cl_body q)"
  by (auto simp: build_request_def Let_def split: prod.splits)

lemma http_crm_lists:
  assumes srv: "http_lists net rows" and rows: "list_all (\<lambda>r. json_wf (PDict r)) rows" and sid: "\<And>i. sn_sid (ss i) \<noteq> None"
  shows "crm_lists (crm_request c net) ss rows"
  unfolding crm_lists_def
proof (intro allI impI)
  fix i m payload l k
  assume p: "json_wf (PDict payload)" "pget payload ''limit'' = PInt (int l)" "pget payload ''offset'' = PInt (int k)"
  let ?q = "api_call ''POST'' (''list/'' @ m) [] (Some (PDict payload))"
  let ?d = "[(''records'', PList (map PDict (take l (drop k rows))))]"
  let ?rq = "build_request c net (length (sn_log (ss i))) (sn_sid (ss i)) ?q"
  have wf: "json_wf (PDict ?d)"
    using rows by (auto simp: json_wf_list_all list_all_iff dest!: in_set_takeD in_set_dropD)
  have "ch_path ?rq = ''list/'' @ m" "ch_body ?rq = Some (json_text wire_style (PDict payload))" by (simp_all add: api_call_def)
  then have "nw_send net (length (sn_log (ss i))) ?rq = Inr (json_reply ?d)"
    using srv p unfolding http_lists_def by blast
  then have "fst (crm_request c net ?q (ss i)) = Inr (decode_response (json_reply ?d))"
    using sid [of i] by (simp add: crm_request_def crm_exchange_def ensure_sid_def crm_send_def Let_def raise_for_status_def json_reply_def)
  then show "\<exists>raw. fst (crm_request c net ?q (ss i)) = Inr raw \<and> pget raw ''records'' = PList (map PDict (take l (drop k rows)))"
    by (simp add: decode_json_reply [OF wf] pget_Cons)
qed

section \<open>Order\<close>

text \<open>Before in the order of the specifications, the first one deciding.\<close>

fun spec_before :: "pydict list \<Rightarrow> pydict \<Rightarrow> pydict \<Rightarrow> bool" where
  "spec_before [] a b = True"
| "spec_before (spec # specs) a b =
     (let f = text_of (pget spec ''field''); x = sort_text (pget a f); y = sort_text (pget b f);
          down = (upper_text (py_strip (py_str (por (pget spec ''sort'') (PStr ''ASC'')))) = ''DESC'')
      in if f = [] then spec_before specs a b
         else (if down then y < x else x < y) \<or> x = y \<and> spec_before specs a b)"

lemma sort_key_stable:
  fixes f :: "'a \<Rightarrow> 'b :: linorder"
  shows "sorted_wrt Q xs \<Longrightarrow> sorted_wrt (\<lambda>a b. f a < f b \<or> f a = f b \<and> Q a b) (sort_key f xs)"
proof (induction xs)
  case (Cons x xs)
  have ins: "sorted_wrt (\<lambda>a b. f a < f b \<or> f a = f b \<and> Q a b) (insort_key f x ys)"
    if "sorted_wrt (\<lambda>a b. f a < f b \<or> f a = f b \<and> Q a b) ys" "\<forall>y \<in> set ys. Q x y" for ys
    using that by (induction ys) (auto simp: set_insort_key order.strict_iff_order)
  show ?case using Cons ins [of "sort_key f xs"] by simp
qed simp

lemma sort_rows_stable:
  assumes "sorted_wrt Q rows"
  shows "sorted_wrt (\<lambda>a b. (if down then sort_text (pget b f) < sort_text (pget a f) else sort_text (pget a f) < sort_text (pget b f))
    \<or> sort_text (pget a f) = sort_text (pget b f) \<and> Q a b) (sort_rows down f rows)"
proof (cases down)
  case True
  have "sorted_wrt (\<lambda>a b. Q b a) (rev rows)" using assms by (simp add: sorted_wrt_rev)
  from sort_key_stable [OF this, of "\<lambda>r. sort_text (pget r f)"] True show ?thesis
    by (auto simp: sort_rows_def sorted_wrt_rev elim!: sorted_wrt_mono_rel [rotated])
next
  case False
  with sort_key_stable [OF assms, of "\<lambda>r. sort_text (pget r f)"] show ?thesis by (simp add: sort_rows_def)
qed

lemma mset_sort_rows [simp]: "mset (sort_rows down f rows) = mset rows"
  by (simp add: sort_rows_def)

lemma order_steps:
  "mset (fold order_step (rev specs) rows) = mset rows \<and> sorted_wrt (spec_before specs) (fold order_step (rev specs) rows)"
proof (induction specs)
  case Nil
  have "sorted_wrt (\<lambda>_ _. True) rows" by (induction rows) auto
  then show ?case by (simp add: fun_eq_iff [symmetric])
next
  case (Cons spec specs)
  let ?rows = "fold order_step (rev specs) rows"
  let ?f = "text_of (pget spec ''field'')"
  show ?case
  proof (cases "?f = []")
    case True
    then have "order_step spec ?rows = ?rows" by (simp add: order_step_def)
    with True Cons show ?thesis by (simp add: fun_eq_iff)
  next
    case False
    let ?down = "upper_text (py_strip (py_str (por (pget spec ''sort'') (PStr ''ASC'')))) = ''DESC''"
    have step: "order_step spec ?rows = sort_rows ?down ?f ?rows" using False by (simp add: order_step_def Let_def)
    have "sorted_wrt (spec_before (spec # specs)) (sort_rows ?down ?f ?rows)"
      using sort_rows_stable [OF conjunct2 [OF Cons], of ?down ?f] False
      by (auto simp: Let_def elim!: sorted_wrt_mono_rel [rotated])
    with Cons step show ?thesis by (simp del: spec_before.simps)
  qed
qed

section \<open>Cleaned records\<close>

definition clean_field :: "string list option \<Rightarrow> string \<times> py \<Rightarrow> bool" where
  "clean_field only kv = ((kept_field only (fst kv) \<or> fst kv = ''id'') \<and> py_strip (fst kv) = fst kv \<and> clean_value (snd kv) = Some (snd kv))"

lemma clean_value_idem: "clean_value v = Some w \<Longrightarrow> clean_value w = Some w"
  by (auto simp: clean_value_def split: py.splits if_splits)

lemma clean_fields_dput:
  "list_all (clean_field only) d \<Longrightarrow> clean_field only (k, v) \<Longrightarrow> list_all (clean_field only) (dput k v d)"
  by (induction k v d rule: dput.induct) auto

lemma clean_fold:
  assumes "list_all (clean_field only) d" and "distinct (map fst d)"
  defines "step \<equiv> \<lambda>(k, v) d. if kept_field only (py_strip k)
          then (case clean_value v of None \<Rightarrow> d | Some w \<Rightarrow> dput (py_strip k) w d) else d"
  shows "list_all (clean_field only) (fold step src d) \<and> distinct (map fst (fold step src d))"
  using assms(1,2)
proof (induction src arbitrary: d)
  case (Cons kv src)
  obtain k v where [simp]: "kv = (k, v)" by (cases kv)
  have "clean_field only (py_strip k, w)" if "kept_field only (py_strip k)" "clean_value v = Some w" for w
    using that by (simp add: clean_field_def clean_value_idem)
  then have "list_all (clean_field only) (step (k, v) d) \<and> distinct (map fst (step (k, v) d))"
    using Cons.prems by (auto simp: step_def intro!: clean_fields_dput split: option.splits)
  then show ?case using Cons.IH [of "step (k, v) d"] by simp
qed simp

lemma clean_record_ok: "list_all (clean_field only) (clean_record only r) \<and> distinct (map fst (clean_record only r))"
proof -
  have id: "clean_field only (''id'', PStr (py_strip t))" if "py_strip t \<noteq> []" for t
  proof -
    have "py_strip ''id'' = ''id''" by code_simp
    then show ?thesis using that by (simp add: clean_field_def clean_value_def)
  qed
  show ?thesis
    using clean_fold [of only "[]" r] id
    by (auto simp: clean_record_def Let_def intro!: clean_fields_dput split: py.splits)
qed

section \<open>Properties\<close>

text \<open>
  C25: from the bytes on the wire to the list of records. Let the CRM answer every list request with the slice of
  its rows that the JSON body asks for, and let the client hold a session. Then \<open>list_module\<close>, reading
  everything through the HTTP client, returns exactly the CRM's rows up to its limit, in order, each once: each row
  cleaned by the client and its amount normalised by the reader. Signing, encoding, decoding, cleaning and
  paging lose nothing and add nothing.
\<close>

theorem list_over_http:
  assumes "http_lists net rows" and "\<And>i. sn_sid (ss i) \<noteq> None"
    and "canonical_module md = Inr m" and "module_candidates m \<noteq> []"
    and "list_all (\<lambda>r. json_wf (PDict r) \<and> proper_row (clean_record None r)) rows"
    and "distinct (map (\<lambda>r. row_id_text (clean_record None r)) rows)"
    and "build_filter md search specs date_from date_to date_field = Inr f" and "json_wf (PDict f)"
  shows "fst (list_module (client_lists (crm_request c net) True ss) md search specs date_from date_to date_field order_by limit True [] names)
    = Inr (map (\<lambda>r. normalize_amount_field (clean_record None r)) (take (list_limit limit True) rows))"
proof -
  let ?q = "\<lparr>lq_module = md, lq_filter = f, lq_order = build_order order_by, lq_fields = [], lq_names = names, lq_all = True\<rparr>"
  have wf: "list_all (\<lambda>r. json_wf (PDict r)) rows" and proper: "list_all proper_row (map (clean_record None) rows)"
    using assms(5) by (auto simp: list_all_iff)
  have order: "json_wf (PList (build_order order_by))"
    by (simp add: build_order_def Let_def split: option.splits prod.splits)
  have "serves_query (client_lists (crm_request c net) True ss) ?q (map (clean_record None) rows)"
    unfolding serves_query_def
    using client_serves_rows [OF http_crm_lists [OF assms(1) wf assms(2)] assms(3,4) proper, of ?q] assms(8) order
    by simp
  from list_module_query [OF assms(7) this proper] assms(6) show ?thesis by (simp add: take_map comp_def)
qed

definition demo_http_net :: "pydict list \<Rightarrow> crm_net" where
  "demo_http_net rows = \<lparr>nw_send = (\<lambda>n rq. case ch_body rq of
       None \<Rightarrow> Inr (json_reply [])
     | Some b \<Rightarrow> (case json_loads b of
         Inr (PDict p) \<Rightarrow> (case (pget p ''limit'', pget p ''offset'') of
             (PInt l, PInt k) \<Rightarrow> Inr (json_reply [(''records'', PList (map PDict (take (nat l) (drop (nat k) rows))))])
           | _ \<Rightarrow> Inr (json_reply []))
       | _ \<Rightarrow> Inr (json_reply []))),
     nw_url = (\<lambda>u _. (u, u, [])), nw_mac = (\<lambda>k m. k), nw_stamp = (\<lambda>n. ''T''), nw_nonce = (\<lambda>n. ''N''), nw_clock = (\<lambda>n. 10), nw_ttl = 60\<rparr>"

lemma demo_http_lists: "http_lists (demo_http_net rows) rows"
  unfolding http_lists_def
proof (intro allI impI)
  fix n and rq :: crm_http and c payload l k
  assume "json_wf (PDict payload)" and "ch_body rq = Some (json_text wire_style (PDict payload))"
    and "pget payload ''limit'' = PInt (int l)" and "pget payload ''offset'' = PInt (int k)"
  then show "nw_send (demo_http_net rows) n rq = Inr (json_reply [(''records'', PList (map PDict (take l (drop k rows))))])"
    by (simp add: demo_http_net_def json_roundtrip [OF _ wire_style_ok] del: json_wf.simps json_text.simps)
qed

definition demo_logged_in :: crm_session where
  "demo_logged_in = fresh_session\<lparr>sn_sid := Some ''S''\<rparr>"

lemma demo_logged_in_sid: "sn_sid demo_logged_in \<noteq> None"
  by (simp add: demo_logged_in_def)

theorem list_over_http_witness:
  "fst (list_module (client_lists (crm_request (demo_signer ''ann'') (demo_http_net Crm_Read.demo_rows)) True (\<lambda>i. demo_logged_in))
      ''contact'' None [] None None None None 1 True [] False)
    = Inr (map (\<lambda>r. normalize_amount_field (clean_record None r)) (take 1 Crm_Read.demo_rows))"
proof -
  have m: "canonical_module ''contact'' = Inr ''Contacts''" "module_candidates ''Contacts'' \<noteq> []" by code_simp+
  have rows: "list_all (\<lambda>r. json_wf (PDict r) \<and> proper_row (clean_record None r)) Crm_Read.demo_rows"
    "distinct (map (\<lambda>r. row_id_text (clean_record None r)) Crm_Read.demo_rows)" by code_simp+
  have f: "build_filter ''contact'' None [] None None None = Inr (conjunction [])" "json_wf (PDict (conjunction []))" by code_simp+
  have "list_limit 1 True = 1" by (simp add: list_limit_def)
  with list_over_http [OF demo_http_lists demo_logged_in_sid m rows f, where limit = 1 and order_by = None and c = "demo_signer ''ann''" and names = False]
  show ?thesis by simp
qed



text \<open>
  sorting rows by several order specifications, one stable sort for each from the last to the first, is the
  lexicographic sort: the result is a permutation of the rows in which each row comes before the next by the first
  specification that tells them apart, ascending or descending, rows without the field after all others in
  ascending order.
\<close>

theorem local_order_sorts:
  "mset (apply_local_order rows order) = mset rows \<and>
   sorted_wrt (spec_before (dicts_of (list_or_empty order))) (apply_local_order rows order)"
  unfolding apply_local_order_def by (rule order_steps)

text \<open>
  a cleaned record has each field once, no empty value, no nested object, no bridge field with \<open>|\<close> and no
  internal field but the record hash; with a selection of fields it has only those and the id. A record
  whose id is a text that is not blank keeps it.
\<close>

theorem cleaned_record_fields:
  "list_all (clean_field only) (clean_record only r) \<and> distinct (map fst (clean_record only r)) \<and>
   (case pget r ''id'' of PStr t \<Rightarrow> py_strip t = [] \<or> pget (clean_record only r) ''id'' = PStr (py_strip t) | _ \<Rightarrow> True)"
  using clean_record_ok [of only r] by (auto simp: clean_record_def Let_def split: py.splits)

end
