(* ===== verification/Briefing.thy ===== *)
theory Briefing
  imports Crm_Read Cards Rag_Index
begin

text \<open>
  The daily briefing (\<open>app/services/briefing_service.py\<close>, \<open>app/engine/briefing_tools.py\<close>): the blocks read from the
  CRM for the current user, the summary the model may only order, its fallbacks, and the cache in the user's own
  messages. The CRM, the model's answers, the time zone, the hash function and the clock are arguments. Czech
  labels are written without diacritics.
\<close>

section \<open>Statuses\<close>

definition briefing_status_sets :: "(string \<times> string list) list" where
  "briefing_status_sets =
     [(''meetings'', [''Planned'']), (''calls'', [''Planned'']),
      (''tasks'', [''Not Started'', ''In Progress'', ''Pending Input'', ''Deferred'']),
      (''closing'', [''Prospecting'', ''Qualification'', ''Needs Analysis'', ''Value Proposition'', ''Id. Decision Makers'',
         ''Perception Analysis'', ''Proposal/Price Quote'', ''Negotiation/Review'']),
      (''quotes'', [''New'', ''Draft'', ''Active'', ''Sent'']),
      (''overdue'', [''vystavena'', ''neuhrazeno'', ''castecne_uhrazena'', ''po_splatnosti'']),
      (''orders'', [''new'', ''accepted''])]"

definition status_texts :: "py \<Rightarrow> string list option" where
  "status_texts v = (case v of
     PList xs \<Rightarrow> if length xs \<le> 50 \<and> list_all (\<lambda>x. case x of PStr t \<Rightarrow> py_strip t \<noteq> [] \<and> length t \<le> 100 | _ \<Rightarrow> False) xs
       then Some (keep_first id (\<lambda>_. False) [] (map py_str xs)) else None
   | _ \<Rightarrow> None)"

fun override_sets :: "pydict \<Rightarrow> (string \<times> string list) list \<Rightarrow> (string \<times> string list) list result" where
  "override_sets [] sets = Inr sets"
| "override_sets ((k, v) # d) sets =
     (if k \<notin> fst ` set sets then override_sets d sets
      else (case status_texts v of
          None \<Rightarrow> Inl (ValueError (''Invalid briefing status set: '' @ k))
        | Some ts \<Rightarrow> override_sets d (dput k ts sets)))"

definition status_sets :: "py \<Rightarrow> (string \<times> string list) list result" where
  "status_sets override = (case override of
     PNone \<Rightarrow> Inr briefing_status_sets
   | PDict d \<Rightarrow> override_sets d briefing_status_sets
   | _ \<Rightarrow> Inl (ValueError ''Briefing status sets must be a JSON object''))"

section \<open>Filters\<close>

text \<open>
  The time zone: the local day of an instant, the instant of a day's local midnight, the local ISO text. Days are
  ordinals, instants microseconds since the year 1 in UTC.
\<close>

record time_zone =
  tz_name :: string
  tz_day :: "int \<Rightarrow> nat"
  tz_midnight :: "nat \<Rightarrow> int"
  tz_iso :: "int \<Rightarrow> string"

definition day_iso :: "nat \<Rightarrow> string" where
  "day_iso n = (case ord_to_ymd n of (y, m, d) \<Rightarrow> pad_to 4 y @ ''-'' @ pad_to 2 m @ ''-'' @ pad_to 2 d)"

definition utc_text :: "int \<Rightarrow> string" where
  "utc_text u = (let total_s = u div 1000000; sec = nat (total_s mod 86400) in
     case ord_to_ymd (nat (total_s div 86400) + 1) of (y, m, d) \<Rightarrow>
       pad4 y @ ''-'' @ pad2 m @ ''-'' @ pad2 d @ '' '' @ pad2 (sec div 3600) @ '':'' @ pad2 (sec mod 3600 div 60) @ '':'' @ pad2 (sec mod 60))"

record block_spec =
  bs_key :: string
  bs_module :: string
  bs_date :: string
  bs_status :: string
  bs_title :: string

definition blocks :: "block_spec list" where
  "blocks = map (\<lambda>(k, m, d, s, t). \<lparr>bs_key = k, bs_module = m, bs_date = d, bs_status = s, bs_title = t\<rparr>)
     [(''meetings'', ''Meetings'', ''date_start'', ''status'', ''Dnesni schuzky''),
      (''calls'', ''Calls'', ''date_start'', ''status'', ''Dnesni hovory''),
      (''tasks'', ''Tasks'', ''date_due'', ''status'', ''Dnesni ukoly''),
      (''closing'', ''Opportunities'', ''date_closed'', ''sales_stage'', ''Blizici se obchodni pripady''),
      (''quotes'', ''Quotes'', ''date_quote_expected_closed'', ''quote_stage'', ''Otevrene nabidky''),
      (''overdue'', ''acm_invoices'', ''datum_splatnosti'', ''stav_uhrazeni'', ''Faktury po splatnosti''),
      (''orders'', ''acm_orders'', ''datum_vystaveni'', ''stav'', ''Nevyrizene objednavky''),
      (''leads'', ''Leads'', ''date_entered'', [], ''Novi zajemci'')]"

definition fspec :: "string \<Rightarrow> filter_op \<Rightarrow> string \<Rightarrow> filter_spec" where
  "fspec f op v = \<lparr>fs_field = f, fs_op = op, fs_value = OneValue v\<rparr>"

definition block_specs :: "block_spec \<Rightarrow> string \<Rightarrow> int \<Rightarrow> time_zone \<Rightarrow> nat \<Rightarrow> filter_spec list" where
  "block_specs b user now zone days =
     (let today = tz_day zone now; f = bs_date b; when = (\<lambda>d. utc_text (tz_midnight zone d)) in
      fspec ''assigned_user_id'' OpEq user #
      (if bs_key b \<in> {''meetings'', ''calls'', ''tasks''}
       then [fspec f OpGte (when today), fspec f OpLt (when (today + 1))]
       else if bs_key b = ''closing''
       then [fspec f OpGte (day_iso today), fspec f OpLte (day_iso (today + days))]
       else if bs_key b = ''overdue''
       then [fspec f OpLt (day_iso today), \<lparr>fs_field = f, fs_op = OpNnull, fs_value = NoValue\<rparr>]
       else if bs_key b = ''leads''
       then [fspec f OpGte (when (today - 6)), fspec f OpLt (when (today + 1)), fspec ''converted'' OpEq ''0'']
       else []))"

definition plain_filter :: "string \<Rightarrow> filter_spec list \<Rightarrow> pydict result" where
  "plain_filter md specs = build_filter md None specs None None None"

definition append_operand :: "pydict \<Rightarrow> pydict \<Rightarrow> pydict" where
  "append_operand f g = dput ''operands'' (PList (list_or_empty (pget f ''operands'') @ [PDict g])) f"

definition block_filter ::
  "block_spec \<Rightarrow> string \<Rightarrow> int \<Rightarrow> time_zone \<Rightarrow> nat \<Rightarrow> (string \<times> string list) list \<Rightarrow> pydict result" where
  "block_filter b user now zone days statuses =
     res_bind (plain_filter (bs_module b) (block_specs b user now zone days)) (\<lambda>f.
       if bs_status b = [] then Inr f
       else res_bind (res_map (\<lambda>v. plain_filter (bs_module b) [fspec (bs_status b) OpEq v]) (dget_default statuses (bs_key b) []))
         (\<lambda>gs. Inr (append_operand f [(''operator'', PStr ''or''), (''operands'', PList (map PDict gs))])))"

section \<open>Blocks\<close>

record briefing_item =
  bi_id :: string
  bi_name :: string
  bi_date :: string
  bi_status :: string
  bi_url :: string

record brief_block =
  bb_key :: string
  bb_module :: string
  bb_title :: string
  bb_records :: "briefing_item list"
  bb_status :: string
  bb_truncated :: bool

definition block_limit :: nat where "block_limit = 100"

text \<open>\<open>urllib.parse.quote(text, safe='')\<close>: the UTF-8 bytes of every character but the unreserved ones.\<close>

definition hex_upper :: "nat \<Rightarrow> char" where
  "hex_upper n = (if n < 10 then char_of (48 + n) else char_of (55 + n))"

definition pct :: "nat \<Rightarrow> string" where
  "pct b = [CHR 0x25, hex_upper (b div 16), hex_upper (b mod 16)]"

definition url_quote :: "string \<Rightarrow> string" where
  "url_quote s = concat (map (\<lambda>c. let n = (of_char c :: nat) in
     if is_digit c \<or> is_az c \<or> is_AZ c \<or> c \<in> {CHR ''_'', CHR ''.'', CHR ''-'', CHR ''~''} then [c]
     else if n < 128 then pct n else pct (192 + n div 64) @ pct (128 + n mod 64)) s)"

definition briefing_link :: "string \<Rightarrow> string \<Rightarrow> string" where
  "briefing_link md i = ''/#detail/'' @ url_quote md @ ''/'' @ url_quote i"

text \<open>A text that is no date stays; a date whose conversion leaves the range of years raises \<open>OverflowError\<close>.\<close>

definition local_date :: "time_zone \<Rightarrow> string \<Rightarrow> string result" where
  "local_date zone t = (let iso = replace_char (CHR ''Z'') ''+00:00'' t in
     if fromisoformat iso = None then Inr t
     else (case utc_of_iso iso of None \<Rightarrow> Inl (OverflowError ''date value out of range'') | Some u \<Rightarrow> Inr (tz_iso zone u)))"

definition other_owner :: "string \<Rightarrow> pydict \<Rightarrow> bool" where
  "other_owner user r = (truthy (pget r ''assigned_user_id'') \<and> py_str (pget r ''assigned_user_id'') \<noteq> user)"

definition read_item :: "block_spec \<Rightarrow> time_zone \<Rightarrow> pydict \<Rightarrow> briefing_item result" where
  "read_item b zone r =
     (let text = str_or (pget r (bs_date b)); rid = py_str (pget r ''id'') in
      res_bind (if bs_key b \<in> {''meetings'', ''calls'', ''tasks'', ''leads''} \<and> text \<noteq> [] then local_date zone text else Inr text)
        (\<lambda>d. Inr \<lparr>bi_id = rid, bi_name = record_name r, bi_date = d, bi_status = str_or (pget r (bs_status b)),
           bi_url = briefing_link (bs_module b) rid\<rparr>))"

text \<open>An error ends the loop and leaves the items read so far.\<close>

fun read_items :: "block_spec \<Rightarrow> string \<Rightarrow> time_zone \<Rightarrow> py list \<Rightarrow> briefing_item list \<times> bool" where
  "read_items b user zone [] = ([], True)"
| "read_items b user zone (PDict r # rs) =
     (if \<not> truthy (pget r ''id'') \<or> other_owner user r then read_items b user zone rs
      else (case read_item b zone r of
          Inl _ \<Rightarrow> ([], False)
        | Inr it \<Rightarrow> (case read_items b user zone rs of (its, fine) \<Rightarrow> (it # its, fine))))"
| "read_items b user zone (_ # rs) = read_items b user zone rs"

definition block_payload :: "block_spec \<Rightarrow> pydict \<Rightarrow> pydict" where
  "block_payload b f =
     [(''filter'', PDict f), (''limit'', PInt (int block_limit + 1)), (''offset'', PInt 0),
      (''order'', PList (build_order (Some (bs_date b @ (if bs_key b = ''leads'' then '':desc'' else '':asc''))))),
      (''include_field_names'', PBool False),
      (''response_fields'', PList (map PStr (keep_first id (\<lambda>_. False) []
         ([''id'', ''name'', ''first_name'', ''last_name'', ''assigned_user_id'', bs_date b] @
          (if bs_status b = [] then [] else [bs_status b])))))]"

definition empty_block :: "block_spec \<Rightarrow> brief_block" where
  "empty_block b = \<lparr>bb_key = bs_key b, bb_module = bs_module b, bb_title = bs_title b, bb_records = [], bb_status = ''ok'', bb_truncated = False\<rparr>"

definition reply_block :: "block_spec \<Rightarrow> string \<Rightarrow> time_zone \<Rightarrow> py result \<Rightarrow> brief_block" where
  "reply_block b user zone reply = (case reply of
     Inr (PDict d) \<Rightarrow>
       (case pget d ''records'' of
          PList rs \<Rightarrow>
            if pget d ''success'' = PBool False \<or> truthy (pget d ''error'') then (empty_block b)\<lparr>bb_status := ''error''\<rparr>
            else (case read_items b user zone (take block_limit rs) of (its, fine) \<Rightarrow>
              (empty_block b)\<lparr>bb_records := its, bb_truncated := length rs > block_limit, bb_status := (if fine then ''ok'' else ''error'')\<rparr>)
        | _ \<Rightarrow> (empty_block b)\<lparr>bb_status := ''error''\<rparr>)
   | _ \<Rightarrow> (empty_block b)\<lparr>bb_status := ''error''\<rparr>)"

text \<open>\<open>read_block\<close>: the block, and the request it made if it made one.\<close>

record briefing_query =
  bq_user :: string
  bq_now :: int
  bq_zone :: time_zone
  bq_days :: nat
  bq_statuses :: "(string \<times> string list) list"
  bq_readable :: "string list"

definition read_block :: "list_server \<Rightarrow> briefing_query \<Rightarrow> nat \<Rightarrow> block_spec \<Rightarrow> brief_block \<times> (string \<times> pydict) list" where
  "read_block srv q i b =
     (if py_lower (bs_module b) \<notin> set (bq_readable q) then ((empty_block b)\<lparr>bb_status := ''unavailable''\<rparr>, [])
      else if bs_status b \<noteq> [] \<and> dget_default (bq_statuses q) (bs_key b) [] = [] then (empty_block b, [])
      else (case block_filter b (bq_user q) (bq_now q) (bq_zone q) (bq_days q) (bq_statuses q) of
          Inl _ \<Rightarrow> ((empty_block b)\<lparr>bb_status := ''error''\<rparr>, [])
        | Inr f \<Rightarrow> (reply_block b (bq_user q) (bq_zone q) (execute_structured_list srv i (bs_module b) (PDict (block_payload b f))),
            [(bs_module b, block_payload b f)])))"

definition block_card :: "brief_block \<Rightarrow> pydict" where
  "block_card k = table_card (bb_title k) (bb_module k) [(''name'', ''Nazev''), (''date'', ''Datum''), (''status'', ''Stav'')]
     (map (\<lambda>r. [(''id'', PStr (bi_id r)),
        (''cells'', PDict [(''name'', PStr (bi_name r)), (''date'', PStr (bi_date r)), (''status'', PStr (bi_status r))]),
        (''link'', PDict [(''action'', PStr ''link''), (''label'', PStr ''Detail''), (''url'', PStr (bi_url r))])]) (bb_records k))"

record briefing =
  br_date :: string
  br_zone :: string
  br_generated :: string
  br_days :: nat
  br_blocks :: "brief_block list"
  br_cards :: "pydict list"
  br_partial :: bool

definition collect_briefing :: "list_server \<Rightarrow> briefing_query \<Rightarrow> briefing result \<times> (string \<times> pydict) list" where
  "collect_briefing srv q =
     (if py_strip (bq_user q) = [] then (Inl (ValueError ''A current user is required''), [])
      else (let runs = map (\<lambda>i. read_block srv q i (blocks ! i)) [0..<length blocks]; bs = map fst runs
        in (Inr \<lparr>br_date = day_iso (tz_day (bq_zone q) (bq_now q)), br_zone = tz_name (bq_zone q), br_generated = iso_utc (bq_now q),
              br_days = bq_days q, br_blocks = bs,
              br_cards = map block_card (filter (\<lambda>k. bb_status k = ''ok'' \<and> bb_records k \<noteq> []) bs),
              br_partial = list_ex (\<lambda>k. bb_status k = ''error'') bs\<rparr>, concat (map snd runs))))"

section \<open>The summary\<close>

text \<open>
  \<open>re.sub(r"^```(?:json)?\s*|\s*```$", "", raw)\<close> on a stripped text that starts with a fence; \<open>lang\<close> drops the
  language name the pattern allows.
\<close>

definition fence :: string where "fence = ''```''"

definition strip_fence :: "(string \<Rightarrow> string) \<Rightarrow> string \<Rightarrow> string" where
  "strip_fence lang raw =
     (if \<not> py_startswith raw fence then raw
      else (let body = py_lstrip (lang (drop 3 raw)) in
        if py_endswith body fence then py_rstrip (take (length body - 3) body) else body))"

definition drop_json :: "string \<Rightarrow> string" where
  "drop_json t = (if py_startswith t ''json'' then drop 4 t else t)"

definition drop_word :: "string \<Rightarrow> string" where
  "drop_word t = dropWhile is_word_char t"

text \<open>The indices the answer of the model selects; without a usable answer the first items in order.\<close>

definition int_index :: "nat \<Rightarrow> py \<Rightarrow> nat option" where
  "int_index n v = (case v of PInt i \<Rightarrow> if 0 \<le> i \<and> i < int n then Some (nat i) else None | _ \<Rightarrow> None)"

definition chosen_indices :: "nat \<Rightarrow> py \<Rightarrow> nat list option" where
  "chosen_indices n v = (case v of
     PList xs \<Rightarrow> (let is = List.map_filter (int_index n) xs in
       if min 3 n \<le> length xs \<and> length xs \<le> 7 \<and> length is = length xs \<and> distinct is then Some is else None)
   | _ \<Rightarrow> None)"

definition select_indices :: "nat \<Rightarrow> string option \<Rightarrow> nat list" where
  "select_indices n answer =
     (let fallback = [0..<min 7 n] in
      case answer of
        None \<Rightarrow> fallback
      | Some raw \<Rightarrow> (case json_loads (strip_fence drop_json (py_strip raw)) of
          Inl _ \<Rightarrow> fallback
        | Inr v \<Rightarrow> (case chosen_indices n v of Some is \<Rightarrow> is | None \<Rightarrow> fallback)))"

definition md_special :: "char \<Rightarrow> bool" where
  "md_special c = (c \<in> {CHR 0x5C, CHR 0x60, CHR ''*'', CHR ''_'', CHR ''{'', CHR ''}'', CHR ''['', CHR '']'', CHR ''<'',
     CHR ''>'', CHR ''('', CHR '')'', CHR ''#'', CHR ''!'', CHR ''|''})"

definition md_escape :: "string \<Rightarrow> string" where
  "md_escape t = concat (map (\<lambda>c. if md_special c then [CHR 0x5C, c] else [c]) (replace_char (CHR 0x0A) '' '' t))"

definition block_rank :: "string \<Rightarrow> nat" where
  "block_rank k = length (takeWhile (\<lambda>x. x \<noteq> k)
     [''overdue'', ''meetings'', ''calls'', ''tasks'', ''closing'', ''quotes'', ''orders'', ''leads''])"

text \<open>A candidate: the title of its block and the item.\<close>

definition candidates :: "brief_block list \<Rightarrow> (string \<times> briefing_item) list" where
  "candidates bs = concat (map (\<lambda>b. map (\<lambda>r. (bb_title b, r)) (take 5 (bb_records b))) (sort_key (\<lambda>b. block_rank (bb_key b)) bs))"

definition summary_line :: "string \<times> briefing_item \<Rightarrow> string" where
  "summary_line c = ''- **'' @ md_escape (fst c) @ '':** ['' @ md_escape (bi_name (snd c)) @ '']('' @ bi_url (snd c) @ '')''"

definition partial_warning :: "briefing \<Rightarrow> string" where
  "partial_warning b = (if br_partial b then ''Nektere casti prehledu se nepodarilo nacist.'' @ nl @ nl else [])"

definition summarize_briefing :: "briefing \<Rightarrow> string option \<Rightarrow> string" where
  "summarize_briefing b answer = (let cs = candidates (br_blocks b) in
     partial_warning b @
     (if cs = [] then ''V dostupnych castech prehledu nebyly nalezeny zadne polozky pro aktualniho uzivatele.''
      else py_join nl (map (\<lambda>i. summary_line (cs ! i)) (select_indices (length cs) answer))))"

section \<open>The focus text\<close>

definition focus_count :: "briefing \<Rightarrow> string \<Rightarrow> nat option" where
  "focus_count b k = (case find (\<lambda>x. bb_key x = k) (rev (br_blocks b)) of
     Some x \<Rightarrow> if bb_status x = ''ok'' then Some (length (bb_records x)) else None
   | None \<Rightarrow> None)"

definition focus_number :: "briefing \<Rightarrow> string \<Rightarrow> string" where
  "focus_number b k = (case focus_count b k of None \<Rightarrow> ''nedostupny pocet'' | Some n \<Rightarrow> nat_digits n)"

definition focus_fallback :: "briefing \<Rightarrow> string" where
  "focus_fallback b = (let n = focus_number b in
     ''Dnes mate '' @ n ''meetings'' @ '' schuzek, '' @ n ''calls'' @ '' hovoru a '' @ n ''tasks'' @ '' ukolu. '' @
     ''V pristich '' @ nat_digits (br_days b) @ '' dnech se uzavira '' @ n ''closing'' @ '' obchodnich pripadu. '' @
     ''Pozornost venujte '' @ n ''quotes'' @ '' otevrenym nabidkam a '' @ n ''overdue'' @ '' fakturam po splatnosti. '' @
     ''Vyridte '' @ n ''orders'' @ '' objednavek a proverte '' @ n ''leads'' @ '' novych zajemcu.'')"

definition focus_summary :: "briefing \<Rightarrow> string option \<Rightarrow> string" where
  "focus_summary b answer = (case answer of
     None \<Rightarrow> focus_fallback b
   | Some raw \<Rightarrow> (let t = strip_fence drop_word (py_strip raw) in if t = [] then focus_fallback b else t))"

section \<open>The cache\<close>

definition cache_payload :: "string \<Rightarrow> briefing_query \<Rightarrow> py" where
  "cache_payload tenant q = PList [PStr ''briefing-v1'', PStr tenant, PStr (bq_user q), PStr (day_iso (tz_day (bq_zone q) (bq_now q))),
     PStr (tz_name (bq_zone q)), PInt (int (bq_days q)),
     PDict (map (\<lambda>(k, ts). (k, PList (map PStr ts))) (bq_statuses q)), PList (map PStr (sort (bq_readable q)))]"

definition briefing_key :: "(string \<Rightarrow> string) \<Rightarrow> string \<Rightarrow> briefing_query \<Rightarrow> string" where
  "briefing_key sha256 tenant q = sha256 (json_text json_default (sort_keys (cache_payload tenant q)))"

definition item_py :: "briefing_item \<Rightarrow> py" where
  "item_py r = PDict [(''id'', PStr (bi_id r)), (''name'', PStr (bi_name r)), (''date'', PStr (bi_date r)),
     (''status'', PStr (bi_status r)), (''url'', PStr (bi_url r))]"

definition block_py :: "brief_block \<Rightarrow> py" where
  "block_py b = PDict [(''key'', PStr (bb_key b)), (''module'', PStr (bb_module b)), (''title'', PStr (bb_title b)),
     (''records'', PList (map item_py (bb_records b))), (''status'', PStr (bb_status b)), (''truncated'', PBool (bb_truncated b))]"

definition briefing_py :: "briefing \<Rightarrow> string \<Rightarrow> string \<Rightarrow> string \<Rightarrow> pydict" where
  "briefing_py b focus message chat =
     [(''date'', PStr (br_date b)), (''timezone'', PStr (br_zone b)), (''generated_at'', PStr (br_generated b)),
      (''closing_days'', PInt (int (br_days b))), (''blocks'', PList (map block_py (br_blocks b))),
      (''cards'', PList (map PDict (br_cards b))), (''partial'', PBool (br_partial b)), (''focus_summary'', PStr focus),
      (''message'', PStr message), (''chat_id'', PStr chat), (''cached'', PBool False)]"

record briefing_message =
  bm_tenant :: string
  bm_user :: string
  bm_chat :: string
  bm_role :: string
  bm_created :: int
  bm_meta :: py

definition hour :: int where "hour = 3600 * 1000000"

definition recent_messages :: "briefing_message list \<Rightarrow> string \<Rightarrow> string \<Rightarrow> int \<Rightarrow> briefing_message list" where
  "recent_messages db tenant user now =
     take 100 (rev (sort_key bm_created (filter (\<lambda>m. bm_tenant m = tenant \<and> bm_user m = user \<and> bm_role m = ''assistant''
       \<and> now - hour \<le> bm_created m) db)))"

definition cached_in :: "string \<Rightarrow> briefing_message \<Rightarrow> pydict option" where
  "cached_in key m = (let meta = dict_or_empty (bm_meta m) in
     case pget meta ''briefing'' of
       PDict d \<Rightarrow> if pget meta ''briefing_cache_key'' = PStr key
         then Some (dput ''cached'' (PBool True) (dput ''chat_id'' (PStr (bm_chat m)) d)) else None
     | _ \<Rightarrow> None)"

text \<open>A tenant's overlay row; the newest approved and active one with the reserved name overrides the statuses.\<close>

record status_row =
  so_tenant :: string
  so_name :: string
  so_active :: bool
  so_status :: string
  so_updated :: int
  so_rule :: string

definition override_of :: "status_row list \<Rightarrow> string \<Rightarrow> py result" where
  "override_of rows tenant =
     (case rev (sort_key so_updated (filter (\<lambda>x. so_tenant x = tenant \<and> so_name x = ''briefing-status-sets'' \<and> so_active x
         \<and> so_status x = ''approved'') rows)) of
        [] \<Rightarrow> Inr PNone
      | x # _ \<Rightarrow> json_loads (so_rule x))"

definition readable_modules :: "pydict list \<Rightarrow> string list" where
  "readable_modules ms = map (\<lambda>m. py_lower (py_str (pget m ''name'')))
     (filter (\<lambda>m. truthy (pget m ''name'') \<and> truthy (dget_default m ''read'' (PBool True))) ms)"

text \<open>What a request gets from outside: the modules and lists of the CRM, the two answers of the model, the id of the new chat.\<close>

record briefing_world =
  bw_modules :: "pydict list result"
  bw_lists :: list_server
  bw_focus :: "string option"
  bw_choice :: "string option"
  bw_chat :: string
  bw_sha256 :: "string \<Rightarrow> string"

record briefing_request =
  bg_tenant :: string
  bg_user :: string
  bg_zone :: time_zone
  bg_days :: int
  bg_refresh :: bool
  bg_now :: int

definition briefing_query_of :: "briefing_request \<Rightarrow> (string \<times> string list) list \<Rightarrow> pydict list \<Rightarrow> briefing_query" where
  "briefing_query_of r sets ms = \<lparr>bq_user = bg_user r, bq_now = bg_now r, bq_zone = bg_zone r, bq_days = nat (bg_days r),
     bq_statuses = sets, bq_readable = readable_modules ms\<rparr>"

definition fresh_briefing ::
  "briefing_world \<Rightarrow> briefing_request \<Rightarrow> briefing_query \<Rightarrow> briefing_message list \<Rightarrow> pydict result \<times> briefing_message list" where
  "fresh_briefing w r q db =
     (case fst (collect_briefing (bw_lists w) q) of
        Inl e \<Rightarrow> (Inl e, db)
      | Inr b \<Rightarrow>
          (let res = briefing_py b (focus_summary b (bw_focus w)) (summarize_briefing b (bw_choice w)) (bw_chat w)
           in (Inr res, db @ [\<lparr>bm_tenant = bg_tenant r, bm_user = bg_user r, bm_chat = bw_chat w, bm_role = ''assistant'',
                bm_created = bg_now r, bm_meta = PDict [(''cards'', PList (map PDict (br_cards b))), (''briefing'', PDict res),
                  (''briefing_cache_key'', if br_partial b then PNone else PStr (briefing_key (bw_sha256 w) (bg_tenant r) q))]\<rparr>])))"

definition get_briefing ::
  "briefing_world \<Rightarrow> status_row list \<Rightarrow> briefing_request \<Rightarrow> briefing_message list \<Rightarrow> pydict result \<times> briefing_message list" where
  "get_briefing w rows r db =
     (if \<not> (1 \<le> bg_days r \<and> bg_days r \<le> 90) \<or> py_strip (bg_user r) = [] then (Inl (ValueError ''Invalid briefing parameters''), db)
      else (case res_bind (override_of rows (bg_tenant r)) status_sets of
          Inl e \<Rightarrow> (Inl e, db)
        | Inr sets \<Rightarrow> (case bw_modules w of
            Inl e \<Rightarrow> (Inl e, db)
          | Inr ms \<Rightarrow>
              (let q = briefing_query_of r sets ms; key = briefing_key (bw_sha256 w) (bg_tenant r) q
               in case (if bg_refresh r then None else first_some (cached_in key) (recent_messages db (bg_tenant r) (bg_user r) (bg_now r))) of
                    Some d \<Rightarrow> (Inr d, db)
                  | None \<Rightarrow> fresh_briefing w r q db))))"

section \<open>Lemmas\<close>

text \<open>The filter starts with the owner.\<close>

definition owner_bound :: "string \<Rightarrow> pydict \<Rightarrow> bool" where
  "owner_bound user f = (pget f ''operator'' = PStr ''and'' \<and>
     (case pget f ''operands'' of PList (PDict d # _) \<Rightarrow> d = make_operand ''assigned_user_id'' ''eq'' (PStr user) | _ \<Rightarrow> False))"

lemma owner_operand:
  assumes "b \<in> set blocks"
  shows "spec_operand (py_lower (py_strip (bs_module b))) (fspec ''assigned_user_id'' OpEq user) = Inr (make_operand ''assigned_user_id'' ''eq'' (PStr user))"
proof -
  have names: "py_strip ''assigned_user_id'' = ''assigned_user_id''" "py_lower ''assigned_user_id'' = ''assigned_user_id''" by code_simp+
  have free: "find (\<lambda>pa. ''assigned_user_id'' \<in> set (snd pa)) activity_parent_aliases = None"
    "''assigned_user_id'' \<notin> set account_id_aliases" "map_of op_map OpEq = Some ''eq''"
    by code_simp+
  have parent: "list_all (\<lambda>b. map_of module_parent_relations (py_lower (py_strip (bs_module b))) = None) blocks" by code_simp
  then have "map_of module_parent_relations (py_lower (py_strip (bs_module b))) = None"
    using assms by (auto simp: list_all_iff)
  then show ?thesis
    by (simp add: spec_operand_def fspec_def names free make_activity_parent_operand_def Let_def)
qed

lemma block_specs_owner: "\<exists>rest. block_specs b user now zone days = fspec ''assigned_user_id'' OpEq user # rest"
  by (simp add: block_specs_def Let_def)

lemma plain_filter_owner:
  assumes "b \<in> set blocks" and "plain_filter (bs_module b) (fspec ''assigned_user_id'' OpEq user # rest) = Inr f"
  shows "owner_bound user f"
  using assms(2)
  by (auto simp: plain_filter_def build_filter_def Let_def owner_operand [OF assms(1)] res_bind_Inr owner_bound_def conjunction_def pget_Cons split: sum.splits)

lemma owner_bound_append: "owner_bound user f \<Longrightarrow> owner_bound user (append_operand f g)"
  by (auto simp: owner_bound_def append_operand_def split: py.splits list.splits)

lemma block_filter_owner:
  assumes "b \<in> set blocks" and "block_filter b user now zone days statuses = Inr f"
  shows "owner_bound user f"
proof -
  obtain rest where specs: "block_specs b user now zone days = fspec ''assigned_user_id'' OpEq user # rest"
    using block_specs_owner by blast
  show ?thesis
    using assms plain_filter_owner [OF assms(1), of user rest]
    by (auto simp: block_filter_def specs res_bind_Inr intro: owner_bound_append split: if_splits)
qed

lemma read_items_from:
  "read_items b user zone rs = (its, fine) \<Longrightarrow> it \<in> set its \<Longrightarrow>
     \<exists>r. PDict r \<in> set rs \<and> truthy (pget r ''id'') \<and> \<not> other_owner user r \<and> bi_id it = py_str (pget r ''id'')"
proof (induction b user zone rs arbitrary: its fine rule: read_items.induct)
  case (2 b user zone r rs)
  show ?case
  proof (cases "\<not> truthy (pget r ''id'') \<or> other_owner user r")
    case True
    with 2 show ?thesis by auto
  next
    case False
    then consider it0 its0 where "read_item b zone r = Inr it0" "read_items b user zone rs = (its0, fine)" "its = it0 # its0"
        | "its = []"
      using 2(3) by (auto split: sum.splits prod.splits)
    then show ?thesis
    proof cases
      case 1
      have "bi_id it0 = py_str (pget r ''id'')" using 1(1) by (auto simp: read_item_def res_bind_Inr Let_def)
      moreover have "\<exists>r. PDict r \<in> set rs \<and> truthy (pget r ''id'') \<and> \<not> other_owner user r \<and> bi_id it = py_str (pget r ''id'')"
        if "it \<in> set its0" using 2(2) [OF False 1(1,2) that] .
      ultimately show ?thesis using False 1(3) 2(4) by auto
    qed (use 2(4) in simp)
  qed
qed auto

text \<open>What the CRM's answer for a block has to do with a shown item.\<close>

definition item_from :: "list_server \<Rightarrow> briefing_query \<Rightarrow> nat \<Rightarrow> block_spec \<Rightarrow> briefing_item \<Rightarrow> bool" where
  "item_from srv q i b it = (py_lower (bs_module b) \<in> set (bq_readable q) \<and>
     (\<exists>f d rs r. srv i (bs_module b) (block_payload b f) = Inr (PDict d) \<and> owner_bound (bq_user q) f \<and> pget d ''records'' = PList rs
        \<and> PDict r \<in> set rs \<and> \<not> other_owner (bq_user q) r \<and> bi_id it = py_str (pget r ''id'')))"

lemma reply_block_items:
  assumes "it \<in> set (bb_records (reply_block b user zone reply))"
  shows "\<exists>d rs r. reply = Inr (PDict d) \<and> pget d ''records'' = PList rs \<and> PDict r \<in> set rs \<and> \<not> other_owner user r \<and> bi_id it = py_str (pget r ''id'')"
proof -
  obtain d where d: "reply = Inr (PDict d)"
    using assms by (auto simp: reply_block_def empty_block_def split: sum.splits py.splits)
  obtain rs where rs: "pget d ''records'' = PList rs"
    using assms d by (auto simp: reply_block_def empty_block_def split: py.splits)
  obtain its fine where run: "read_items b user zone (take block_limit rs) = (its, fine)" by fastforce
  have "it \<in> set its" using assms d rs run by (auto simp: reply_block_def empty_block_def split: if_splits)
  from read_items_from [OF run this] d rs show ?thesis by (auto dest: in_set_takeD)
qed

lemma read_block_items:
  assumes "b \<in> set blocks" and "it \<in> set (bb_records (fst (read_block srv q i b)))"
  shows "item_from srv q i b it"
proof -
  obtain f where f: "py_lower (bs_module b) \<in> set (bq_readable q)"
      "block_filter b (bq_user q) (bq_now q) (bq_zone q) (bq_days q) (bq_statuses q) = Inr f"
      "it \<in> set (bb_records (reply_block b (bq_user q) (bq_zone q) (srv i (bs_module b) (block_payload b f))))"
    using assms(2) by (auto simp: read_block_def empty_block_def execute_structured_list_def split: if_splits sum.splits)
  from reply_block_items [OF f(3)] block_filter_owner [OF assms(1) f(2)] f(1) show ?thesis
    unfolding item_from_def by blast
qed

lemma read_block_requests:
  assumes "b \<in> set blocks" and "(md, p) \<in> set (snd (read_block srv q i b))"
  shows "py_lower md \<in> set (bq_readable q) \<and> (case pget p ''filter'' of PDict f \<Rightarrow> owner_bound (bq_user q) f | _ \<Rightarrow> False)"
  using assms(2) block_filter_owner [OF assms(1)]
  by (auto simp: read_block_def block_payload_def pget_Cons split: if_splits sum.splits)

lemma collect_blocks:
  assumes "collect_briefing srv q = (Inr b, reqs)"
  shows "br_blocks b = map (\<lambda>i. fst (read_block srv q i (blocks ! i))) [0..<length blocks]"
    and "reqs = concat (map (\<lambda>i. snd (read_block srv q i (blocks ! i))) [0..<length blocks])"
  using assms
  by (auto simp: collect_briefing_def Let_def comp_def split: if_splits)

lemma collect_partial: "collect_briefing srv q = (Inr b, reqs) \<Longrightarrow> br_partial b = list_ex (\<lambda>k. bb_status k = ''error'') (br_blocks b)"
  by (auto simp: collect_briefing_def Let_def split: if_splits)

text \<open>The requests do not depend on the answers.\<close>

lemma read_block_cong: "srv i = srv' i \<Longrightarrow> read_block srv q i b = read_block srv' q i b"
  by (simp add: read_block_def execute_structured_list_def split: sum.splits)

lemma read_block_failed:
  assumes "srv i = (\<lambda>_ _. Inl e)"
  shows "snd (read_block srv q i b) = snd (read_block srv' q i b)"
    and "bb_records (fst (read_block srv q i b)) = []"
    and "bb_status (fst (read_block srv q i b)) = ''error'' \<or> fst (read_block srv q i b) = fst (read_block srv' q i b)"
  using assms by (auto simp: read_block_def execute_structured_list_def reply_block_def empty_block_def split: sum.splits)

section \<open>The answer of the model\<close>

lemma int_index_less: "int_index n v = Some i \<Longrightarrow> i < n"
  by (auto simp: int_index_def split: py.splits if_splits)

lemma chosen_indices_ok:
  assumes "chosen_indices n v = Some is"
  shows "distinct is \<and> list_all (\<lambda>i. i < n) is \<and> min 3 n \<le> length is \<and> length is \<le> 7"
proof -
  obtain xs where xs: "v = PList xs" "is = List.map_filter (int_index n) xs" "min 3 n \<le> length xs" "length xs \<le> 7"
      "length is = length xs" "distinct is"
    using assms by (auto simp: chosen_indices_def Let_def split: py.splits if_splits)
  moreover have "list_all (\<lambda>i. i < n) is"
    unfolding xs(2) by (auto simp: List.map_filter_def list_all_iff dest: int_index_less)
  ultimately show ?thesis by simp
qed

lemma select_indices_ok:
  "distinct (select_indices n answer) \<and> list_all (\<lambda>i. i < n) (select_indices n answer) \<and>
   min 3 n \<le> length (select_indices n answer) \<and> length (select_indices n answer) \<le> 7"
proof -
  have "distinct [0..<min 7 n] \<and> list_all (\<lambda>i. i < n) [0..<min 7 n] \<and> min 3 n \<le> length [0..<min 7 n] \<and> length [0..<min 7 n] \<le> 7"
    by (auto simp: list_all_iff)
  then show ?thesis
    using chosen_indices_ok [of n]
    by (auto simp: select_indices_def Let_def split: option.splits sum.splits simp del: length_upt)
qed

text \<open>A text in which every special character is escaped and no line ends.\<close>

fun md_safe :: "string \<Rightarrow> bool" where
  "md_safe [] = True"
| "md_safe [c] = (\<not> md_special c \<and> c \<noteq> CHR 0x0A)"
| "md_safe (c # d # s) = (if c = CHR 0x5C then md_safe s else \<not> md_special c \<and> c \<noteq> CHR 0x0A \<and> md_safe (d # s))"

lemma md_safe_Cons: "\<not> md_special c \<Longrightarrow> c \<noteq> CHR 0x0A \<Longrightarrow> md_safe s \<Longrightarrow> md_safe (c # s)"
  by (cases s) (auto simp: md_special_def)

lemma md_escape_safe: "md_safe (md_escape t)"
proof -
  have "md_safe (concat (map (\<lambda>c. if md_special c then [CHR 0x5C, c] else [c]) u))" if "CHR 0x0A \<notin> set u" for u
    using that by (induction u) (auto intro: md_safe_Cons)
  moreover have "CHR 0x0A \<notin> set (replace_char (CHR 0x0A) '' '' t)"
    by (auto simp: replace_char_def)
  ultimately show ?thesis by (simp add: md_escape_def)
qed

definition url_char :: "char \<Rightarrow> bool" where
  "url_char c = (is_digit c \<or> is_az c \<or> is_AZ c \<or> c \<in> {CHR ''_'', CHR ''.'', CHR ''-'', CHR ''~'', CHR 0x25, CHR ''/'', CHR ''#''})"

lemma hex_upper_url: "n < 16 \<Longrightarrow> url_char (hex_upper n)"
proof -
  assume "n < 16"
  then have "n \<in> set [0..<16]" by simp
  moreover have "list_all (\<lambda>n. url_char (hex_upper n)) [0..<16]" by code_simp
  ultimately show ?thesis unfolding list_all_iff by blast
qed

lemma pct_url: "b < 256 \<Longrightarrow> list_all url_char (pct b)"
  by (auto simp: pct_def url_char_def [of "CHR 0x25"] intro!: hex_upper_url)

lemma url_quote_chars: "list_all url_char (url_quote s)"
proof -
  have "list_all url_char (let n = (of_char c :: nat) in
     if is_digit c \<or> is_az c \<or> is_AZ c \<or> c \<in> {CHR ''_'', CHR ''.'', CHR ''-'', CHR ''~''} then [c]
     else if n < 128 then pct n else pct (192 + n div 64) @ pct (128 + n mod 64))" for c
  proof -
    have n: "(of_char c :: nat) < 256" by (rule nat_of_char_less_256)
    then have "of_char c div 64 < (4 :: nat)" by (simp add: div_less_iff_less_mult)
    then have "192 + of_char c div 64 < (256 :: nat)" "128 + of_char c mod 64 < (256 :: nat)" by auto
    with n show ?thesis by (auto simp: Let_def pct_url url_char_def)
  qed
  then show ?thesis by (simp add: url_quote_def list_all_iff)
qed

lemma briefing_link_chars: "list_all url_char (briefing_link md i)"
proof -
  have "list_all url_char ''/#detail/''" by code_simp
  then show ?thesis
    using url_quote_chars by (simp add: briefing_link_def url_char_def [of "CHR ''/''"])
qed

section \<open>The cache key\<close>

lemma sort_items_strings [simp]: "sort_items (map PStr ts) = map PStr ts"
  by (induction ts) auto

lemma sort_pairs_lists: "sort_pairs (map (\<lambda>(k, ts). (k, PList (map PStr ts))) d) = map (\<lambda>(k, ts). (k, PList (map PStr ts))) d"
  by (induction d) auto

lemma distinct_sorted_keys: "distinct (map f xs) \<Longrightarrow> distinct (map f (sort_key g xs))"
  by (simp add: distinct_map)

lemma cache_payload_wf:
  assumes "distinct (map fst (bq_statuses q))"
  shows "json_wf (sort_keys (cache_payload tenant q))"
proof -
  have l: "json_wf_list (map PStr ts)" for ts by (induction ts) auto
  have d: "json_wf_dict xs = list_all (\<lambda>kv. json_wf (snd kv)) xs" for xs by (induction xs) auto
  let ?d = "map (\<lambda>(k, ts). (k, PList (map PStr ts))) (bq_statuses q)"
  have "map fst ?d = map fst (bq_statuses q)" by (auto simp: comp_def split_def)
  then have "distinct (map fst ?d)" using assms by (simp only:)
  then have "distinct (map fst (sort_key fst ?d))" by (rule distinct_sorted_keys)
  then show ?thesis
    by (auto simp: cache_payload_def sort_pairs_lists l d list_all_iff)
qed

lemma strings_inj: "map PStr xs = map PStr ys \<Longrightarrow> xs = ys"
proof (induction xs arbitrary: ys)
  case (Cons x xs)
  then show ?case by (cases ys) auto
qed simp

lemma key_readable:
  assumes "inj sha256" and "briefing_key sha256 t q = briefing_key sha256 t' q'"
    and "distinct (map fst (bq_statuses q))" and "distinct (map fst (bq_statuses q'))"
  shows "set (bq_readable q) = set (bq_readable q') \<and> bq_user q = bq_user q' \<and> t = t'"
proof -
  have same: "json_text json_default (sort_keys (cache_payload t q)) = json_text json_default (sort_keys (cache_payload t' q'))"
    using assms(1,2) unfolding briefing_key_def by (rule injD)
  have "Inr (sort_keys (cache_payload t q)) = json_loads (json_text json_default (sort_keys (cache_payload t q)))"
    by (rule json_roundtrip [OF cache_payload_wf [OF assms(3)] json_styles_ok(1), symmetric])
  also have "\<dots> = Inr (sort_keys (cache_payload t' q'))"
    unfolding same by (rule json_roundtrip [OF cache_payload_wf [OF assms(4)] json_styles_ok(1)])
  finally have "sort_keys (cache_payload t q) = sort_keys (cache_payload t' q')" by (simp only: sum.inject)
  then have eq: "map PStr (sort (bq_readable q)) = map PStr (sort (bq_readable q'))" "bq_user q = bq_user q'" "t = t'"
    by (simp_all add: cache_payload_def)
  have "sort (bq_readable q) = sort (bq_readable q')" by (rule strings_inj [OF eq(1)])
  with eq show ?thesis by (metis set_sort)
qed

lemma override_sets_distinct: "override_sets d sets = Inr sets' \<Longrightarrow> distinct (map fst sets) \<Longrightarrow> distinct (map fst sets')"
  by (induction d sets rule: override_sets.induct) (auto split: if_splits option.splits)

lemma status_sets_distinct: "status_sets v = Inr sets \<Longrightarrow> distinct (map fst sets)"
proof -
  have "distinct (map fst briefing_status_sets)" by code_simp
  then show "status_sets v = Inr sets \<Longrightarrow> distinct (map fst sets)"
    by (auto simp: status_sets_def intro: override_sets_distinct split: py.splits)
qed

section \<open>Histories\<close>

text \<open>
  The messages of the chats over time: requests for a briefing with any CRM and model, and messages of other
  features, which carry no key of the briefing cache.
\<close>

inductive briefing_run :: "(string \<Rightarrow> string) \<Rightarrow> briefing_message list \<Rightarrow> bool" for sha256 where
  run_empty: "briefing_run sha256 []"
| run_other: "briefing_run sha256 db \<Longrightarrow> pget (dict_or_empty (bm_meta m)) ''briefing_cache_key'' = PNone \<Longrightarrow> briefing_run sha256 (db @ [m])"
| run_briefing: "briefing_run sha256 db \<Longrightarrow> bw_sha256 w = sha256 \<Longrightarrow> briefing_run sha256 (snd (get_briefing w rows r db))"

text \<open>The blocks of a stored briefing that hold records are of these modules.\<close>

definition shows_only :: "string set \<Rightarrow> pydict \<Rightarrow> bool" where
  "shows_only readable d = list_all (\<lambda>v. case v of
     PDict x \<Rightarrow> (case (pget x ''module'', pget x ''records'') of
       (PStr md, PList rs) \<Rightarrow> rs = [] \<or> py_lower md \<in> readable | _ \<Rightarrow> False)
   | _ \<Rightarrow> False) (list_or_empty (pget d ''blocks''))"

definition sound_entry :: "(string \<Rightarrow> string) \<Rightarrow> briefing_message \<Rightarrow> bool" where
  "sound_entry sha256 m = (case pget (dict_or_empty (bm_meta m)) ''briefing_cache_key'' of
     PNone \<Rightarrow> True
   | v \<Rightarrow> (\<exists>q. v = PStr (briefing_key sha256 (bm_tenant m) q) \<and> distinct (map fst (bq_statuses q)) \<and>
       (case pget (dict_or_empty (bm_meta m)) ''briefing'' of
          PDict d \<Rightarrow> pget d ''partial'' = PBool False \<and> shows_only (set (bq_readable q)) d
        | _ \<Rightarrow> False)))"

lemma collected_shows_only:
  assumes "fst (collect_briefing srv q) = Inr b"
  shows "shows_only (set (bq_readable q)) (briefing_py b focus message chat)"
proof -
  obtain reqs where run: "collect_briefing srv q = (Inr b, reqs)" using assms by (cases "collect_briefing srv q") auto
  have "bb_records k = [] \<or> py_lower (bb_module k) \<in> set (bq_readable q)" if k: "k \<in> set (br_blocks b)" for k
  proof -
    obtain i where i: "i < length blocks" "k = fst (read_block srv q i (blocks ! i))"
      using k unfolding collect_blocks(1) [OF run] by auto
    have md: "bb_module k = bs_module (blocks ! i)"
      unfolding i(2) by (auto simp: read_block_def reply_block_def empty_block_def split: sum.splits py.splits prod.splits)
    show ?thesis
    proof (cases "bb_records k")
      case (Cons it its)
      then have "item_from srv q i (blocks ! i) it" using i by (intro read_block_items) auto
      then show ?thesis by (simp add: md item_from_def)
    qed simp
  qed
  then show ?thesis by (auto simp: shows_only_def briefing_py_def block_py_def pget_Cons list_all_iff)
qed

lemma get_briefing_sound:
  assumes "list_all (sound_entry sha256) db" and "bw_sha256 w = sha256"
  shows "list_all (sound_entry sha256) (snd (get_briefing w rows r db))"
proof -
  have fresh: "list_all (sound_entry sha256) (snd (fresh_briefing w r (briefing_query_of r sets ms) db))"
    if sets: "distinct (map fst sets)" for sets ms
  proof (cases "fst (collect_briefing (bw_lists w) (briefing_query_of r sets ms))")
    case (Inr b)
    let ?q = "briefing_query_of r sets ms"
    have st: "bq_statuses ?q = sets" by (simp add: briefing_query_of_def)
    have part: "pget (briefing_py b f m' c) ''partial'' = PBool (br_partial b)" for f m' c by (simp add: briefing_py_def pget_Cons)
    show ?thesis
      using assms sets st collected_shows_only [OF Inr]
      by (simp add: fresh_briefing_def Inr Let_def sound_entry_def pget_Cons part) (intro impI exI [of _ ?q]; simp)
  qed (use assms in \<open>simp add: fresh_briefing_def\<close>)
  show ?thesis
    using assms fresh
    by (auto simp: get_briefing_def Let_def res_bind_Inr dest!: status_sets_distinct split: sum.splits option.splits)
qed

lemma briefing_run_sound: "briefing_run sha256 db \<Longrightarrow> list_all (sound_entry sha256) db"
proof (induction rule: briefing_run.induct)
  case (run_briefing db w rows r)
  then show ?case by (intro get_briefing_sound) auto
qed (auto simp: sound_entry_def)

lemma fresh_not_cached: "fst (fresh_briefing w r q db) = Inr d \<Longrightarrow> pget d ''cached'' = PBool False"
  by (auto simp: fresh_briefing_def Let_def briefing_py_def pget_Cons split: sum.splits)

section \<open>Properties\<close>

text \<open>
  C39: a briefing shows the user only their own records. Every request it sends to the CRM is for a module the user
  may read and is filtered by the user as owner; and every item it shows comes from the CRM's answer to such a
  request and is not assigned to anyone else, even when the CRM ignores the filter.
\<close>

theorem briefing_shows_own_records:
  assumes "collect_briefing srv q = (Inr b, reqs)"
  shows "list_all (\<lambda>(md, p). py_lower md \<in> set (bq_readable q) \<and>
      (case pget p ''filter'' of PDict f \<Rightarrow> owner_bound (bq_user q) f | _ \<Rightarrow> False)) reqs
    \<and> length (br_blocks b) = length blocks
    \<and> list_all (\<lambda>i. list_all (item_from srv q i (blocks ! i)) (bb_records (br_blocks b ! i))) [0..<length blocks]"
proof -
  have "py_lower md \<in> set (bq_readable q) \<and> (case pget p ''filter'' of PDict f \<Rightarrow> owner_bound (bq_user q) f | _ \<Rightarrow> False)"
    if "(md, p) \<in> set reqs" for md p
    using that read_block_requests [OF nth_mem] unfolding collect_blocks(2) [OF assms] by auto
  moreover have "list_all (item_from srv q i (blocks ! i)) (bb_records (br_blocks b ! i))" if "i < length blocks" for i
    using that read_block_items [OF nth_mem [OF that]] by (auto simp: collect_blocks(1) [OF assms] list_all_iff)
  ultimately show ?thesis by (auto simp: collect_blocks(1) [OF assms] list_all_iff)
qed

definition demo_zone :: time_zone where
  "demo_zone = \<lparr>tz_name = ''UTC'', tz_day = (\<lambda>u. 1), tz_midnight = (\<lambda>d. 0), tz_iso = iso_utc\<rparr>"

definition demo_briefing :: briefing_query where
  "demo_briefing = \<lparr>bq_user = ''ann'', bq_now = 0, bq_zone = demo_zone, bq_days = 14, bq_statuses = briefing_status_sets,
     bq_readable = [''acm_orders'']\<rparr>"

definition demo_calls :: list_server where
  "demo_calls = (\<lambda>i md p. if md = ''acm_orders'' then Inr (PDict [(''records'', PList
      [PDict [(''id'', PStr ''1''), (''name'', PStr ''Mine''), (''assigned_user_id'', PStr ''ann'')],
       PDict [(''id'', PStr ''2''), (''name'', PStr ''Not mine''), (''assigned_user_id'', PStr ''bob'')]])]) else Inl (OtherError ''down''))"

theorem briefing_shows_own_records_witness:
  "\<exists>b reqs. collect_briefing demo_calls demo_briefing = (Inr b, reqs) \<and> map bi_id (bb_records (br_blocks b ! 6)) = [''1''] \<and>
     list_all (item_from demo_calls demo_briefing 6 (blocks ! 6)) (bb_records (br_blocks b ! 6))"
proof -
  have "(case collect_briefing demo_calls demo_briefing of (Inr b, _) \<Rightarrow> map bi_id (bb_records (br_blocks b ! 6)) = [''1''] | _ \<Rightarrow> False)"
    by code_simp
  then obtain b reqs where run: "collect_briefing demo_calls demo_briefing = (Inr b, reqs)" "map bi_id (bb_records (br_blocks b ! 6)) = [''1'']"
    by (auto split: prod.splits sum.splits)
  have "length blocks = 8" by code_simp
  then have "6 \<in> set [0..<length blocks]" by simp
  then have own: "list_all (item_from demo_calls demo_briefing 6 (blocks ! 6)) (bb_records (br_blocks b ! 6))"
    using briefing_shows_own_records [OF run(1)] unfolding list_all_iff by blast
  show ?thesis by (intro exI conjI) (rule run own)+
qed

text \<open>
  one failing module does not touch the rest. Let the CRM fail for the request of one block, in any way: the
  requests stay the same, every other block is what it was, and the failed block either says so and makes the
  briefing partial, or was not going to ask the CRM at all; it never shows records.
\<close>

theorem briefing_failure_contained:
  assumes "collect_briefing srv q = (Inr b, reqs)" and "j < length blocks"
    and "collect_briefing (\<lambda>i. if i = j then (\<lambda>_ _. Inl e) else srv i) q = (Inr b', reqs')"
  shows "reqs' = reqs \<and> list_update (br_blocks b') j x = list_update (br_blocks b) j x \<and> bb_records (br_blocks b' ! j) = [] \<and>
    (bb_status (br_blocks b' ! j) = ''error'' \<and> br_partial b' \<or> br_blocks b' ! j = br_blocks b ! j)"
proof -
  let ?srv' = "\<lambda>i. if i = j then (\<lambda>_ _. Inl e) else srv i"
  note old = collect_blocks [OF assms(1)] and new = collect_blocks [OF assms(3)]
  have same: "read_block ?srv' q i k = read_block srv q i k" if "i \<noteq> j" for i k
    using that by (intro read_block_cong) simp
  have j: "?srv' j = (\<lambda>_ _. Inl e)" by simp
  have failed: "snd (read_block ?srv' q j (blocks ! j)) = snd (read_block srv q j (blocks ! j))"
    "bb_records (fst (read_block ?srv' q j (blocks ! j))) = []"
    "bb_status (fst (read_block ?srv' q j (blocks ! j))) = ''error'' \<or>
      fst (read_block ?srv' q j (blocks ! j)) = fst (read_block srv q j (blocks ! j))"
    using read_block_failed [where srv = ?srv' and i = j and e = e and q = q and b = "blocks ! j"] j by blast+
  have "snd (read_block ?srv' q i (blocks ! i)) = snd (read_block srv q i (blocks ! i))" for i
    using same [of i "blocks ! i"] failed(1) by (cases "i = j") simp_all
  then have "reqs' = reqs" unfolding old(2) new(2) by simp
  moreover have "list_update (br_blocks b') j x = list_update (br_blocks b) j x"
  proof (rule nth_equalityI)
    fix i assume "i < length (list_update (br_blocks b') j x)"
    then have i: "i < length blocks" by (simp add: new(1))
    show "list_update (br_blocks b') j x ! i = list_update (br_blocks b) j x ! i"
    proof (cases "i = j")
      case True
      with i show ?thesis by (simp add: old(1) new(1))
    next
      case False
      have "fst (read_block ?srv' q i (blocks ! i)) = fst (read_block srv q i (blocks ! i))" by (rule arg_cong [OF same [OF False]])
      with False i show ?thesis unfolding old(1) new(1) by (simp only: nth_list_update_neq nth_map length_upt minus_nat.diff_0 nth_upt add_0)
    qed
  qed (simp add: old(1) new(1))
  moreover have "bb_records (br_blocks b' ! j) = []" using failed(2) assms(2) unfolding new(1) by simp
  moreover have "bb_status (br_blocks b' ! j) = ''error'' \<or> br_blocks b' ! j = br_blocks b ! j"
    using failed(3) assms(2) unfolding old(1) new(1) by simp
  moreover have "br_partial b'" if "bb_status (br_blocks b' ! j) = ''error''"
    using that assms(2) nth_mem [of j "br_blocks b'"] collect_partial [OF assms(3)] by (auto simp: list_ex_iff new(1))
  ultimately show ?thesis by blast
qed

theorem briefing_failure_contained_witness:
  "\<exists>b reqs. collect_briefing (\<lambda>i. if i = 0 then (\<lambda>_ _. Inl (OtherError ''down'')) else demo_calls i) demo_briefing = (Inr b, reqs) \<and>
     bb_records (br_blocks b ! 0) = []"
proof -
  have up: "py_strip (bq_user demo_briefing) \<noteq> []" by code_simp
  obtain b reqs where run: "collect_briefing demo_calls demo_briefing = (Inr b, reqs)"
    using up by (simp add: collect_briefing_def Let_def)
  obtain b' reqs' where run': "collect_briefing (\<lambda>i. if i = 0 then (\<lambda>_ _. Inl (OtherError ''down'')) else demo_calls i) demo_briefing = (Inr b', reqs')"
    using up by (simp add: collect_briefing_def Let_def)
  have "0 < length blocks" by code_simp
  from briefing_failure_contained [OF run this run'] run' show ?thesis by blast
qed


definition demo_world :: briefing_world where
  "demo_world = \<lparr>bw_modules = Inr [[(''name'', PStr ''acm_orders'')]], bw_lists = demo_calls, bw_focus = None, bw_choice = None,
     bw_chat = ''c1'', bw_sha256 = (\<lambda>s. s)\<rparr>"

definition demo_request :: briefing_request where
  "demo_request = \<lparr>bg_tenant = ''t1'', bg_user = ''ann'', bg_zone = demo_zone, bg_days = 14, bg_refresh = False, bg_now = 0\<rparr>"


text \<open>
  the model can only choose. Whatever it answers, the summary names between three (or all, when there are fewer)
  and seven different candidates, every one an item of the CRM under its own address; in the text of a line no
  character of Markdown has an effect and no line ends, and an address holds no character that could end a link.
\<close>

theorem summary_only_crm_items:
  "distinct (select_indices n answer) \<and> list_all (\<lambda>i. i < n) (select_indices n answer) \<and>
   min 3 n \<le> length (select_indices n answer) \<and> length (select_indices n answer) \<le> 7 \<and>
   md_safe (md_escape t) \<and> list_all url_char (briefing_link md i)"
  using select_indices_ok md_escape_safe briefing_link_chars by simp

end
