(* ===== verification/Turn_Stream.thy ===== *)
theory Turn_Stream
  imports Agent_Loop
begin

text \<open>
  A turn as a stream of server-sent events (\<open>process_input_stream\<close> and
  \<open>process_audio_stream\<close> of \<open>app/api/endpoints.py\<close>, \<open>to_sse\<close> of \<open>app/engine/events.py\<close>): the
  pipeline is a task that puts its events into a queue, the response a generator that takes them
  out, sends a ping when none comes in time, ends after the last event and cancels the task when
  the client is gone. The two run interleaved; a step relation says which steps may come next.
\<close>

section \<open>Events\<close>

record sse_event =
  se_type :: string
  se_data :: pydict

text \<open>\<open>event.type in ("result", "error")\<close>\<close>

definition ends_stream :: "sse_event \<Rightarrow> bool" where
  "ends_stream e = (se_type e = ''result'' \<or> se_type e = ''error'')"

datatype frame = Ping | Event sse_event

definition to_sse :: "sse_event \<Rightarrow> string" where
  "to_sse e = ''event: '' @ se_type e @ nl @ ''data: '' @ json_text json_readable (PDict (se_data e)) @ nl @ nl"

definition frame_text :: "frame \<Rightarrow> string" where
  "frame_text f = (case f of Ping \<Rightarrow> ''event: ping'' @ nl @ ''data: {}'' @ nl @ nl | Event e \<Rightarrow> to_sse e)"

definition sse_error :: "string \<Rightarrow> sse_event" where
  "sse_error message = \<lparr>se_type = ''error'', se_data = [(''status'', PInt 500), (''message_to_user'', PStr message)]\<rparr>"

definition input_error :: sse_event where
  "input_error = sse_error ''Nastala chyba pri zpracovani pozadavku.''"

definition audio_error :: sse_event where
  "audio_error = sse_error ''Nastala chyba pri zpracovani audia.''"

section \<open>What a turn emits\<close>

text \<open>The events of the agent, numbered in the order they are emitted.\<close>

definition agent_sse :: "nat \<times> stream_event \<Rightarrow> sse_event" where
  "agent_sse x = (case snd x of
     AgentStarted n \<Rightarrow> \<lparr>se_type = ''agent.started'', se_data = [(''iteration_limit'', PInt (int n))]\<rparr>
   | AnswerDelta t \<Rightarrow> \<lparr>se_type = ''answer.delta'', se_data = [(''text'', PStr t)]\<rparr>
   | AgentToolCall n label \<Rightarrow> \<lparr>se_type = ''agent.tool_call'',
       se_data = [(''seq'', PInt (int (fst x))), (''tool'', PStr n), (''label_cz'', PStr label)]\<rparr>
   | AgentToolResult n st \<Rightarrow> \<lparr>se_type = ''agent.tool_result'',
       se_data = [(''seq'', PInt (int (fst x))), (''tool'', PStr n), (''status'', PStr st)]\<rparr>
   | AnswerDone t \<Rightarrow> \<lparr>se_type = ''answer.done'', se_data = [(''text'', PStr t)]\<rparr>)"

definition agent_frames :: "stream_event list \<Rightarrow> sse_event list" where
  "agent_frames es = map agent_sse (zip [1..<Suc (length es)] es)"

text \<open>
  \<open>process_input_core\<close> with \<open>emit\<close>: the chat, the mode and the events of the agent when it runs,
  the form patch when there is one, and the result, which is the payload of the plain endpoint.
\<close>

definition turn_events :: "string \<Rightarrow> (string \<times> stream_event list) option \<Rightarrow> pydict option \<Rightarrow> pydict \<Rightarrow> sse_event list" where
  "turn_events cid agent patch payload =
     [\<lparr>se_type = ''accepted'', se_data = [(''chat_id'', PStr cid)]\<rparr>] @
     (case agent of None \<Rightarrow> []
      | Some (mode, es) \<Rightarrow> \<lparr>se_type = ''pipeline.mode'', se_data = [(''mode'', PStr mode)]\<rparr> # agent_frames es) @
     (case patch of None \<Rightarrow> [] | Some p \<Rightarrow> if p = [] then [] else [\<lparr>se_type = ''form_patch'', se_data = p\<rparr>]) @
     [\<lparr>se_type = ''result'', se_data = dput ''chat_id'' (PStr cid) payload\<rparr>]"

text \<open>An audio turn emits its segments and the text before the turn.\<close>

definition audio_events :: "string list \<Rightarrow> sse_event list" where
  "audio_events segments =
     map (\<lambda>(i, t). \<lparr>se_type = ''transcription.partial'', se_data = [(''text'', PStr t), (''segment_index'', PInt (int i))]\<rparr>)
       (zip [0..<length segments] segments) @
     [\<lparr>se_type = ''transcription.done'', se_data = [(''text'', PStr (py_strip (py_join '' '' segments)))]\<rparr>]"

section \<open>The task and the generator\<close>

datatype task_status = Running | Finished | Cancelled

record sse_state =
  sm_todo :: "sse_event list"
  sm_task :: task_status
  sm_queue :: "sse_event option list"
  sm_sent :: "frame list"
  sm_open :: bool
  sm_gone :: bool

text \<open>What the task will emit, and whether it raises after that; \<open>err\<close> is the event of a failure.\<close>

record stream_job =
  jb_events :: "sse_event list"
  jb_raises :: bool
  jb_error :: sse_event

definition stream_start :: "stream_job \<Rightarrow> sse_state" where
  "stream_start j = \<lparr>sm_todo = jb_events j, sm_task = Running, sm_queue = [], sm_sent = [], sm_open = True, sm_gone = False\<rparr>"

definition failure_event :: "stream_job \<Rightarrow> sse_event list" where
  "failure_event j = (if jb_raises j then [jb_error j] else [])"

text \<open>\<open>finally\<close> of the generator: a task that is not done is cancelled.\<close>

definition end_generator :: "sse_state \<Rightarrow> sse_state" where
  "end_generator s = s\<lparr>sm_open := False, sm_task := (if sm_task s = Running then Cancelled else sm_task s)\<rparr>"

inductive stream_step :: "stream_job \<Rightarrow> sse_state \<Rightarrow> sse_state \<Rightarrow> bool" for j where
  emit: "sm_task s = Running \<Longrightarrow> sm_todo s = e # es \<Longrightarrow>
    stream_step j s (s\<lparr>sm_todo := es, sm_queue := sm_queue s @ [Some e]\<rparr>)"
| finish: "sm_task s = Running \<Longrightarrow> sm_todo s = [] \<Longrightarrow>
    stream_step j s (s\<lparr>sm_task := Finished, sm_queue := sm_queue s @ map Some (failure_event j) @ [None]\<rparr>)"
| send: "sm_open s \<Longrightarrow> sm_queue s = Some e # q \<Longrightarrow> \<not> ends_stream e \<Longrightarrow>
    stream_step j s (s\<lparr>sm_queue := q, sm_sent := sm_sent s @ [Event e]\<rparr>)"
| send_last: "sm_open s \<Longrightarrow> sm_queue s = Some e # q \<Longrightarrow> ends_stream e \<Longrightarrow>
    stream_step j s (end_generator (s\<lparr>sm_queue := q, sm_sent := sm_sent s @ [Event e]\<rparr>))"
| close: "sm_open s \<Longrightarrow> sm_queue s = None # q \<Longrightarrow>
    stream_step j s (end_generator (s\<lparr>sm_queue := q\<rparr>))"
| ping: "sm_open s \<Longrightarrow> sm_queue s = [] \<Longrightarrow> stream_step j s (s\<lparr>sm_sent := sm_sent s @ [Ping]\<rparr>)"
| disconnect: "sm_open s \<Longrightarrow> stream_step j s (end_generator (s\<lparr>sm_gone := True\<rparr>))"

abbreviation stream_reach :: "stream_job \<Rightarrow> sse_state \<Rightarrow> bool" where
  "stream_reach j s \<equiv> (stream_step j)\<^sup>*\<^sup>* (stream_start j) s"

text \<open>The events among the frames sent, and what a whole stream consists of.\<close>

definition sent_events :: "frame list \<Rightarrow> sse_event list" where
  "sent_events fs = List.map_filter (\<lambda>f. case f of Ping \<Rightarrow> None | Event e \<Rightarrow> Some e) fs"

fun upto_last :: "sse_event list \<Rightarrow> sse_event list" where
  "upto_last [] = []"
| "upto_last (e # es) = (if ends_stream e then [e] else e # upto_last es)"

definition whole_stream :: "stream_job \<Rightarrow> sse_event list" where
  "whole_stream j = upto_last (jb_events j @ failure_event j)"

section \<open>The client of the stream\<close>

text \<open>
  A reader of server-sent events as the standard describes it, for the two fields the service
  uses: a blank line ends an event, other lines set its type or add to its data.
\<close>

fun sse_lines :: "string \<Rightarrow> string list \<Rightarrow> string list \<Rightarrow> (string \<times> string) list" where
  "sse_lines ty ds [] = []"
| "sse_lines ty ds (l # ls) =
     (if l = [] then (if ds = [] then sse_lines [] [] ls else (ty, py_join nl ds) # sse_lines [] [] ls)
      else if py_startswith l ''event: '' then sse_lines (drop 7 l) ds ls
      else if py_startswith l ''data: '' then sse_lines ty (ds @ [drop 6 l]) ls
      else sse_lines ty ds ls)"

definition sse_read :: "string \<Rightarrow> (string \<times> string) list" where
  "sse_read s = sse_lines [] [] (split_all (CHR 0x0A) s)"

section \<open>Lemmas\<close>

inductive_cases stream_stepE: "stream_step j s s'"

lemma sent_events_simps [simp]:
  "sent_events [] = []"
  "sent_events (Event e # fs) = e # sent_events fs"
  "sent_events (Ping # fs) = sent_events fs"
  by (simp_all add: sent_events_def map_filter_simps)

lemma sent_events_append [simp]: "sent_events (fs @ gs) = sent_events fs @ sent_events gs"
proof (induction fs)
  case (Cons f fs)
  then show ?case by (cases f) simp_all
qed simp

lemma upto_last_append: "\<forall>e \<in> set es. \<not> ends_stream e \<Longrightarrow> upto_last (es @ fs) = es @ upto_last fs"
  by (induction es) auto

lemma end_generator_simps [simp]:
  "sm_todo (end_generator s) = sm_todo s" "sm_queue (end_generator s) = sm_queue s"
  "sm_sent (end_generator s) = sm_sent s" "sm_open (end_generator s) = False" "sm_gone (end_generator s) = sm_gone s"
  "sm_task (end_generator s) = (if sm_task s = Running then Cancelled else sm_task s)"
  by (simp_all add: end_generator_def)

text \<open>What is sent, queued and still to come is the whole script, in order; \<open>None\<close> is its end.\<close>

definition to_come :: "stream_job \<Rightarrow> sse_state \<Rightarrow> sse_event option list" where
  "to_come j s = sm_queue s @ (if sm_task s = Running then map Some (sm_todo s @ failure_event j) @ [None] else [])"

definition stream_inv :: "stream_job \<Rightarrow> sse_state \<Rightarrow> bool" where
  "stream_inv j s = (if sm_open s
     then sm_task s \<noteq> Cancelled \<and> \<not> sm_gone s \<and> (\<forall>e \<in> set (sent_events (sm_sent s)). \<not> ends_stream e) \<and>
       map Some (sent_events (sm_sent s)) @ to_come j s = map Some (jb_events j @ failure_event j) @ [None]
     else sm_task s \<noteq> Running \<and> (\<exists>rest. whole_stream j = sent_events (sm_sent s) @ rest \<and> (sm_gone s \<or> rest = [])))"

lemma stream_inv_start: "stream_inv j (stream_start j)"
  by (simp add: stream_inv_def stream_start_def to_come_def)

lemma open_prefix:
  assumes "map Some xs @ ys = map Some zs @ [None]" and "\<forall>e \<in> set xs. \<not> ends_stream e"
  shows "\<exists>ws. zs = xs @ ws \<and> ys = map Some ws @ [None]"
  using assms
proof (induction xs arbitrary: zs)
  case (Cons x xs)
  then obtain z zs' where z: "zs = z # zs'" "x = z" by (cases zs) auto
  with Cons obtain ws where "zs' = xs @ ws" "ys = map Some ws @ [None]" by auto
  with z show ?case by auto
qed simp

lemma stream_inv_step:
  assumes "stream_step j s s'" and "stream_inv j s"
  shows "stream_inv j s'"
  using assms
proof (cases rule: stream_step.cases)
  case (emit e es)
  with assms(2) show ?thesis by (cases "sm_open s") (simp_all add: stream_inv_def to_come_def)
next
  case finish
  with assms(2) show ?thesis by (cases "sm_open s") (simp_all add: stream_inv_def to_come_def)
next
  case (send e q)
  with assms(2) show ?thesis by (auto simp: stream_inv_def to_come_def)
next
  case (send_last e q)
  with assms(2) have m: "map Some (sent_events (sm_sent s)) @ to_come j s = map Some (jb_events j @ failure_event j) @ [None]"
    and n: "\<forall>e \<in> set (sent_events (sm_sent s)). \<not> ends_stream e" by (auto simp: stream_inv_def)
  from open_prefix [OF m n] obtain ws where ws: "jb_events j @ failure_event j = sent_events (sm_sent s) @ ws"
    "to_come j s = map Some ws @ [None]" by blast
  with send_last obtain ws' where "ws = e # ws'" by (cases ws) (auto simp: to_come_def)
  with ws(1) send_last n show ?thesis
    by (simp add: stream_inv_def whole_stream_def upto_last_append)
next
  case (close q)
  with assms(2) have m: "map Some (sent_events (sm_sent s)) @ to_come j s = map Some (jb_events j @ failure_event j) @ [None]"
    and n: "\<forall>e \<in> set (sent_events (sm_sent s)). \<not> ends_stream e" by (auto simp: stream_inv_def)
  from open_prefix [OF m n] obtain ws where ws: "jb_events j @ failure_event j = sent_events (sm_sent s) @ ws"
    "to_come j s = map Some ws @ [None]" by blast
  with close have "ws = []" by (cases ws) (auto simp: to_come_def)
  with ws(1) close n upto_last_append [OF n, of "[]"] show ?thesis
    by (simp add: stream_inv_def whole_stream_def)
next
  case ping
  with assms(2) show ?thesis by (cases "sm_task s") (simp_all add: stream_inv_def to_come_def)
next
  case disconnect
  with assms(2) have m: "map Some (sent_events (sm_sent s)) @ to_come j s = map Some (jb_events j @ failure_event j) @ [None]"
    and n: "\<forall>e \<in> set (sent_events (sm_sent s)). \<not> ends_stream e" by (auto simp: stream_inv_def)
  from open_prefix [OF m n] obtain ws where "jb_events j @ failure_event j = sent_events (sm_sent s) @ ws" by blast
  with disconnect n show ?thesis by (simp add: stream_inv_def whole_stream_def upto_last_append)
qed

lemma stream_inv_reach: "stream_reach j s \<Longrightarrow> stream_inv j s"
  by (induction rule: rtranclp_induct) (auto intro: stream_inv_start stream_inv_step)


text \<open>The work left: every step but a ping takes one off.\<close>

definition stream_work :: "sse_state \<Rightarrow> nat" where
  "stream_work s = 2 * length (sm_todo s) + (if sm_task s = Running then 3 else 0) + length (sm_queue s) + (if sm_open s then 1 else 0)"

lemma stream_progress:
  assumes "stream_inv j s" "sm_open s"
  shows "\<exists>s'. stream_step j s s' \<and> stream_inv j s' \<and> \<not> sm_gone s' \<and> stream_work s' < stream_work s"
proof -
  from assms have g: "\<not> sm_gone s" by (simp add: stream_inv_def)
  have go: ?thesis if "stream_step j s s'" "\<not> sm_gone s'" "stream_work s' < stream_work s" for s'
    using that stream_inv_step [OF that(1) assms(1)] by blast
  show ?thesis
  proof (cases "sm_queue s")
    case Nil
    have r: "sm_task s = Running"
    proof (rule ccontr)
      assume "sm_task s \<noteq> Running"
      with Nil have "to_come j s = []" by (simp add: to_come_def)
      with assms have "map Some (sent_events (sm_sent s)) = map Some (jb_events j @ failure_event j) @ [None]"
        by (simp add: stream_inv_def)
      from arg_cong [OF this, of "\<lambda>xs. None \<in> set xs"] show False by simp
    qed
    show ?thesis
    proof (cases "sm_todo s")
      case (Cons e es)
      with g r Nil show ?thesis by (intro go [OF stream_step.emit [OF r Cons]]) (simp_all add: stream_work_def)
    next
      case Nil
      with g r \<open>sm_queue s = []\<close> show ?thesis
        by (intro go [OF stream_step.finish [OF r Nil]]) (simp_all add: stream_work_def failure_event_def)
    qed
  next
    case (Cons x q)
    show ?thesis
    proof (cases x)
      case None
      with Cons have q: "sm_queue s = None # q" by simp
      with g assms(2) show ?thesis by (intro go [OF stream_step.close [OF assms(2) q]]) (simp_all add: stream_work_def)
    next
      case (Some e)
      with Cons have q: "sm_queue s = Some e # q" by simp
      show ?thesis
      proof (cases "ends_stream e")
        case True
        with g assms(2) q show ?thesis
          by (intro go [OF stream_step.send_last [OF assms(2) q True]]) (simp_all add: stream_work_def)
      next
        case False
        with g assms(2) q show ?thesis
          by (intro go [OF stream_step.send [OF assms(2) q False]]) (simp_all add: stream_work_def)
      qed
    qed
  qed
qed

lemma stream_drains:
  "stream_inv j s \<Longrightarrow> sm_open s \<Longrightarrow>
   \<exists>n \<le> stream_work s. \<exists>s'. (stream_step j ^^ n) s s' \<and> stream_inv j s' \<and> \<not> sm_open s' \<and> \<not> sm_gone s'"
proof (induction "stream_work s" arbitrary: s rule: less_induct)
  case less
  from stream_progress [OF less.prems] obtain s1 where s1: "stream_step j s s1" "stream_inv j s1" "\<not> sm_gone s1"
    "stream_work s1 < stream_work s" by blast
  show ?case
  proof (cases "sm_open s1")
    case True
    from less.hyps [OF s1(4,2) True] obtain n s' where n: "n \<le> stream_work s1" "(stream_step j ^^ n) s1 s'"
      "stream_inv j s'" "\<not> sm_open s'" "\<not> sm_gone s'" by blast
    from relpowp_Suc_I2 [OF s1(1) n(2)] n s1(4) show ?thesis by (intro exI [of _ "Suc n"]) auto
  next
    case False
    from s1 False show ?thesis by (intro exI [of _ "Suc 0"]) auto
  qed
qed

subsection \<open>The wire\<close>

lemma json_char_line: "CHR 0x0A \<notin> set (json_char a c)"
proof -
  have n: "(of_char c :: nat) = 10" if "c = CHR 0x0A" using that by simp
  have h: "hex_digit k \<noteq> CHR 0x0A" if "k < 16" for k
    using hex_val_digit [OF that] by (auto simp: hex_val_def)
  have "(of_char c :: nat) < 256" by (rule nat_of_char_less_256)
  then have "(of_char c :: nat) div 16 < 16" by (simp add: less_mult_imp_div_less)
  moreover have "(of_char c :: nat) mod 16 < 16" by simp
  ultimately have "hex_digit (of_char c div 16) \<noteq> CHR 0x0A" "hex_digit (of_char c mod 16) \<noteq> CHR 0x0A" using h by blast+
  with n show ?thesis by (auto simp: json_char_def json_bs_def Let_def)
qed

lemma json_str_line: "CHR 0x0A \<notin> set (json_str a s)"
  using json_char_line by (auto simp: json_str_def json_quote_def)

lemma num_char_line: "list_all num_char t \<Longrightarrow> CHR 0x0A \<notin> set t"
  by (auto simp: list.pred_set num_char_def is_digit_def)

lemma json_text_line:
  shows "json_wf v \<Longrightarrow> CHR 0x0A \<notin> set (json_text json_readable v)"
    and "json_wf_list xs \<Longrightarrow> CHR 0x0A \<notin> set (json_items json_readable xs)"
    and "json_wf_dict d \<Longrightarrow> CHR 0x0A \<notin> set (json_pairs json_readable d)"
proof (induction v and xs and d rule: json_wf_json_wf_list_json_wf_dict.induct)
  case (6 i)
  show ?case using num_char_line int_str_token [of i] by auto
next
  case (11 k v d)
  then show ?case using json_str_line [of False k] by (auto simp: json_readable_def)
qed (use json_str_line num_char_line in \<open>auto simp: json_readable_def\<close>)


lemma split_all_line: "c \<notin> set a \<Longrightarrow> split_all c (a @ c # s) = a # split_all c s"
  by (induction a) auto

text \<open>What a client makes of a frame.\<close>

definition frame_read :: "frame \<Rightarrow> string \<times> string" where
  "frame_read f = (case f of Ping \<Rightarrow> (''ping'', ''{}'') | Event e \<Rightarrow> (se_type e, json_text json_readable (PDict (se_data e))))"

definition clean_event :: "sse_event \<Rightarrow> bool" where
  "clean_event e = (CHR 0x0A \<notin> set (se_type e) \<and> se_type e \<noteq> ''ping'' \<and> json_wf (PDict (se_data e)))"

lemma sse_read_frame:
  assumes "CHR 0x0A \<notin> set t" "CHR 0x0A \<notin> set d"
  shows "sse_read (''event: '' @ t @ nl @ ''data: '' @ d @ nl @ nl @ s) = (t, d) # sse_read s"
proof -
  have a: "CHR 0x0A \<notin> set (''event: '' @ t)" "CHR 0x0A \<notin> set (''data: '' @ d)" using assms by auto
  have l: "split_all (CHR 0x0A) ((''event: '' @ t) @ CHR 0x0A # (''data: '' @ d) @ CHR 0x0A # [] @ CHR 0x0A # s)
      = [''event: '' @ t, ''data: '' @ d, []] @ split_all (CHR 0x0A) s"
    unfolding split_all_line [OF a(1)] split_all_line [OF a(2)] by simp
  have n: "\<not> py_startswith (''data: '' @ d) ''event: ''" by (simp add: py_startswith_def)
  have e: "py_startswith (''event: '' @ t) ''event: ''" "py_startswith (''data: '' @ d) ''data: ''" by (rule py_startswith_append)+
  have "sse_lines [] [] ([''event: '' @ t, ''data: '' @ d, []] @ ls) = (t, d) # sse_lines [] [] ls" for ls
    using n e by simp
  with l show ?thesis by (simp add: sse_read_def)
qed

lemma frame_text_read: "frame_text f = ''event: '' @ fst (frame_read f) @ nl @ ''data: '' @ snd (frame_read f) @ nl @ nl"
  by (cases f) (simp_all add: frame_text_def frame_read_def to_sse_def)

lemma frame_lines:
  assumes "\<forall>e \<in> set (sent_events [f]). clean_event e"
  shows "CHR 0x0A \<notin> set (fst (frame_read f)) \<and> CHR 0x0A \<notin> set (snd (frame_read f))"
proof (cases f)
  case (Event e)
  with assms have "clean_event e" by simp
  then show ?thesis using json_text_line(1) [of "PDict (se_data e)"] Event
    by (simp add: clean_event_def frame_read_def del: json_text.simps json_wf.simps)
qed (simp add: frame_read_def)

lemma sse_read_frames:
  "\<forall>e \<in> set (sent_events fs). clean_event e \<Longrightarrow> sse_read (concat (map frame_text fs)) = map frame_read fs"
proof (induction fs)
  case Nil
  show ?case by (simp add: sse_read_def)
next
  case (Cons f fs)
  have "sent_events (f # fs) = sent_events [f] @ sent_events fs" by (cases f) simp_all
  with Cons.prems have c: "\<forall>e \<in> set (sent_events [f]). clean_event e" "\<forall>e \<in> set (sent_events fs). clean_event e" by auto
  have t: "concat (map frame_text (f # fs)) = ''event: '' @ fst (frame_read f) @ nl @ ''data: '' @ snd (frame_read f) @ nl @ nl @
      concat (map frame_text fs)"
    by (simp add: frame_text_read)
  show ?case
    unfolding t using sse_read_frame [of "fst (frame_read f)" "snd (frame_read f)"] frame_lines [OF c(1)] Cons.IH [OF c(2)] by simp
qed

lemma read_events:
  "\<forall>e \<in> set (sent_events fs). clean_event e \<Longrightarrow>
   map (\<lambda>(t, d). (t, json_loads d)) (filter (\<lambda>x. fst x \<noteq> ''ping'') (map frame_read fs))
     = map (\<lambda>e. (se_type e, Inr (PDict (se_data e)))) (sent_events fs)"
proof (induction fs)
  case (Cons f fs)
  then show ?case
    by (cases f) (auto simp: frame_read_def clean_event_def intro!: json_roundtrip simp del: json_text.simps json_wf.simps)
qed simp

text \<open>The events of a turn: the last one is the result and no other ends the stream.\<close>

lemma agent_frames_go_on: "e \<in> set (agent_frames es) \<Longrightarrow> \<not> ends_stream e"
  by (auto simp: agent_frames_def agent_sse_def ends_stream_def split: stream_event.splits)

lemma turn_events_whole:
  "upto_last (turn_events cid agent patch payload) = turn_events cid agent patch payload"
proof -
  let ?pre = "butlast (turn_events cid agent patch payload)"
  have e: "turn_events cid agent patch payload = ?pre @ [\<lparr>se_type = ''result'', se_data = dput ''chat_id'' (PStr cid) payload\<rparr>]"
    by (simp add: turn_events_def butlast_append)
  have "\<not> ends_stream x" if "x \<in> set ?pre" for x
    using that agent_frames_go_on
    by (auto simp: turn_events_def butlast_append ends_stream_def split: option.splits if_splits)
  then have "upto_last (?pre @ [\<lparr>se_type = ''result'', se_data = dput ''chat_id'' (PStr cid) payload\<rparr>])
      = ?pre @ [\<lparr>se_type = ''result'', se_data = dput ''chat_id'' (PStr cid) payload\<rparr>]"
    by (subst upto_last_append) (auto simp: ends_stream_def)
  with e show ?thesis by simp
qed

section \<open>Properties\<close>

text \<open>
  C15: The stream is faithful: at every moment the events sent are a prefix of those the turn emits,
  in order and without repetition, up to and including its first result or error; once the
  response has ended the task no longer runs, and unless the client left, what the client reads
  from the bytes, pings aside, is exactly these events with their data.
\<close>

theorem stream_delivers:
  assumes "stream_reach j s"
    and "\<forall>e \<in> set (jb_events j @ failure_event j). clean_event e"
  shows "(\<exists>rest. whole_stream j = sent_events (sm_sent s) @ rest) \<and>
    (sm_open s \<or> sm_task s \<noteq> Running) \<and>
    (sm_open s \<or> sm_gone s \<or>
      map (\<lambda>(t, d). (t, json_loads d)) (filter (\<lambda>x. fst x \<noteq> ''ping'') (sse_read (concat (map frame_text (sm_sent s)))))
        = map (\<lambda>e. (se_type e, Inr (PDict (se_data e)))) (whole_stream j))"
proof -
  have i: "stream_inv j s" using assms(1) by (rule stream_inv_reach)
  have w: "set (whole_stream j) \<subseteq> set (jb_events j @ failure_event j)"
  proof -
    have "set (upto_last es) \<subseteq> set es" for es by (induction es) auto
    then show ?thesis by (simp only: whole_stream_def)
  qed
  have p: "\<exists>rest. whole_stream j = sent_events (sm_sent s) @ rest"
  proof (cases "sm_open s")
    case True
    with i have m: "map Some (sent_events (sm_sent s)) @ to_come j s = map Some (jb_events j @ failure_event j) @ [None]"
      and n: "\<forall>e \<in> set (sent_events (sm_sent s)). \<not> ends_stream e" by (simp_all add: stream_inv_def)
    from open_prefix [OF m n] n show ?thesis by (auto simp: whole_stream_def upto_last_append)
  qed (use i in \<open>auto simp: stream_inv_def\<close>)
  then have "\<forall>e \<in> set (sent_events (sm_sent s)). clean_event e" using w assms(2) by fastforce
  note r = sse_read_frames [OF this] read_events [OF this]
  have "sm_open s \<or> sm_gone s \<or> sent_events (sm_sent s) = whole_stream j"
    using i by (auto simp: stream_inv_def)
  with r have "sm_open s \<or> sm_gone s \<or>
      map (\<lambda>(t, d). (t, json_loads d)) (filter (\<lambda>x. fst x \<noteq> ''ping'') (sse_read (concat (map frame_text (sm_sent s)))))
        = map (\<lambda>e. (se_type e, Inr (PDict (se_data e)))) (whole_stream j)" by auto
  with p i show ?thesis by (auto simp: stream_inv_def)
qed

definition demo_job :: stream_job where
  "demo_job = \<lparr>jb_events = [\<lparr>se_type = ''accepted'', se_data = [(''chat_id'', PStr ''c1'')]\<rparr>], jb_raises = True, jb_error = input_error\<rparr>"

lemma demo_job_clean: "\<forall>e \<in> set (jb_events demo_job @ failure_event demo_job). clean_event e"
  by (simp add: demo_job_def failure_event_def input_error_def sse_error_def clean_event_def)

definition demo_run :: "nat \<Rightarrow> sse_state" where
  "demo_run n = (let a = hd (jb_events demo_job) in
     if n = 0 then stream_start demo_job
     else if n = 1 then (stream_start demo_job)\<lparr>sm_sent := [Ping]\<rparr>
     else if n = 2 then (stream_start demo_job)\<lparr>sm_sent := [Ping], sm_todo := [], sm_queue := [Some a]\<rparr>
     else if n = 3 then (stream_start demo_job)\<lparr>sm_sent := [Ping, Event a], sm_todo := []\<rparr>
     else if n = 4 then (stream_start demo_job)\<lparr>sm_sent := [Ping, Event a], sm_todo := [], sm_task := Finished, sm_queue := [Some input_error, None]\<rparr>
     else (stream_start demo_job)\<lparr>sm_sent := [Ping, Event a, Event input_error], sm_todo := [], sm_task := Finished, sm_queue := [None], sm_open := False\<rparr>)"

lemma demo_run_steps: "stream_reach demo_job (demo_run 5)"
proof -
  have a: "jb_events demo_job = [hd (jb_events demo_job)]" "\<not> ends_stream (hd (jb_events demo_job))" "ends_stream input_error"
    "failure_event demo_job = [input_error]"
    by (simp_all add: demo_job_def ends_stream_def failure_event_def input_error_def sse_error_def)
  have "stream_step demo_job (demo_run 0) (demo_run 1)"
    using stream_step.ping [of "demo_run 0" demo_job] by (simp add: demo_run_def stream_start_def Let_def)
  moreover have "stream_step demo_job (demo_run 1) (demo_run 2)"
    using stream_step.emit [of "demo_run 1" "hd (jb_events demo_job)" "[]" demo_job] a(1) by (simp add: demo_run_def stream_start_def Let_def)
  moreover have "stream_step demo_job (demo_run 2) (demo_run 3)"
    using stream_step.send [of "demo_run 2" "hd (jb_events demo_job)" "[]" demo_job] a(2) by (simp add: demo_run_def stream_start_def Let_def)
  moreover have "stream_step demo_job (demo_run 3) (demo_run 4)"
    using stream_step.finish [of "demo_run 3" demo_job] a(4) by (simp add: demo_run_def stream_start_def Let_def)
  moreover have "stream_step demo_job (demo_run 4) (demo_run 5)"
    using stream_step.send_last [of "demo_run 4" input_error "[None]" demo_job] a(3)
    by (simp add: demo_run_def stream_start_def end_generator_def Let_def)
  ultimately have "(stream_step demo_job)\<^sup>*\<^sup>* (demo_run 0) (demo_run 5)"
    by (meson rtranclp.rtrancl_into_rtrancl rtranclp.rtrancl_refl)
  then show ?thesis by (simp add: demo_run_def)
qed

theorem stream_delivers_witness:
  "map fst (filter (\<lambda>x. fst x \<noteq> ''ping'') (sse_read (concat (map frame_text (sm_sent (demo_run 5)))))) = [''accepted'', ''error'']"
proof -
  have "whole_stream demo_job = [hd (jb_events demo_job), input_error]"
    by (simp add: whole_stream_def demo_job_def failure_event_def ends_stream_def input_error_def sse_error_def)
  moreover have "\<not> sm_open (demo_run 5)" "\<not> sm_gone (demo_run 5)" by (simp_all add: demo_run_def stream_start_def)
  ultimately have "map (\<lambda>(t, d). (t, json_loads d)) (filter (\<lambda>x. fst x \<noteq> ''ping'') (sse_read (concat (map frame_text (sm_sent (demo_run 5))))))
      = map (\<lambda>e. (se_type e, Inr (PDict (se_data e)))) [hd (jb_events demo_job), input_error]"
    using stream_delivers [OF demo_run_steps demo_job_clean] by simp
  from arg_cong [OF this, of "map fst"] show ?thesis
    by (simp add: case_prod_unfold comp_def demo_job_def input_error_def sse_error_def)
qed

text \<open>
  C35: The stream ends: from every moment at which it is open, a number of steps bounded by the
  events still to come, none of them a departure of the client, ends it with everything sent; a
  turn that raises ends with its error event.
\<close>

theorem stream_ends:
  assumes "stream_reach j s" and "sm_open s"
  shows "\<exists>n \<le> stream_work s. \<exists>s'. (stream_step j ^^ n) s s' \<and> \<not> sm_open s' \<and> sm_task s' \<noteq> Running \<and>
    sent_events (sm_sent s') = whole_stream j"
proof -
  from stream_drains [OF stream_inv_reach [OF assms(1)] assms(2)] obtain n s' where
    "n \<le> stream_work s" "(stream_step j ^^ n) s s'" "stream_inv j s'" "\<not> sm_open s'" "\<not> sm_gone s'" by blast
  then show ?thesis by (auto simp: stream_inv_def)
qed

theorem stream_ends_witness:
  "\<exists>n \<le> 6. \<exists>s'. (stream_step demo_job ^^ n) (stream_start demo_job) s' \<and> last (sent_events (sm_sent s')) = input_error"
proof -
  have w: "stream_work (stream_start demo_job) = 6" "whole_stream demo_job = [hd (jb_events demo_job), input_error]"
    by (simp_all add: stream_work_def stream_start_def whole_stream_def demo_job_def failure_event_def ends_stream_def
        input_error_def sse_error_def)
  have "sm_open (stream_start demo_job)" by (simp add: stream_start_def)
  from stream_ends [OF rtranclp.rtrancl_refl this] w show ?thesis by fastforce
qed

end
