(* ===== verification/Chat_Titles.thy ===== *)
theory Chat_Titles
  imports Chat_Store Capabilities
begin

text \<open>
  The name of a chat (\<open>app/services/chat_titles.py\<close>) and the plain text it is made from
  (\<open>to_plain_message\<close> of \<open>app/presentation/agent_result.py\<close>): the transcript given to the
  model, the cleaning of its answer, the fallback to the first message of the user, and the
  models tried in turn. The language model is an argument.
\<close>

section \<open>Plain text\<close>

definition back_tick :: char where "back_tick = CHR 0x60"
definition code_fence :: string where "code_fence = [back_tick, back_tick, back_tick]"

lemma length_code_fence [simp]: "length code_fence = 3"
  by (simp add: code_fence_def)

text \<open>The text before the first occurrence of a delimiter, and what follows it.\<close>

definition cut_at :: "string \<Rightarrow> string \<Rightarrow> (string \<times> string) option" where
  "cut_at sep s = (case py_find s sep of Some i \<Rightarrow> Some (take i s, drop (i + length sep) s) | None \<Rightarrow> None)"

lemma length_cut_at: "cut_at sep s = Some (a, b) \<Longrightarrow> length b \<le> length s"
  by (auto simp: cut_at_def split: option.splits)

text \<open>\<open>```(?:\w+)?\s*([\s\S]*?)```\<close> becomes its group; a fence that nothing closes stays.\<close>

definition fence_body :: "string \<Rightarrow> string" where
  "fence_body s = dropWhile py_isspace (dropWhile is_word_char s)"

lemma length_fence_body: "length (fence_body s) \<le> length s"
  unfolding fence_body_def by (meson le_trans length_dropWhile_le)

lemma length_cut_fence: "cut_at sep (fence_body (drop n s)) = Some (a, b) \<Longrightarrow> length b < Suc (length s)"
  using length_cut_at [of sep "fence_body (drop n s)" a b] length_fence_body [of "drop n s"] by simp

lemma length_cut_drop: "cut_at sep (drop n s) = Some (a, b) \<Longrightarrow> length b < Suc (length s)"
  using length_cut_at [of sep "drop n s" a b] by simp

function unfence :: "string \<Rightarrow> string" where
  "unfence [] = []"
| "unfence (c # s) =
     (if py_startswith (c # s) code_fence then
        (case cut_at code_fence (fence_body (drop 3 (c # s))) of
           Some (a, b) \<Rightarrow> a @ unfence b
         | None \<Rightarrow> c # unfence s)
      else c # unfence s)"
  by pat_completeness auto
termination
  by (relation "measure length") (auto dest!: length_cut_fence)

text \<open>\<open>\*\*(.*?)\*\*\<close>: the group ends before the next pair of stars on the same line.\<close>

function unbold :: "string \<Rightarrow> string" where
  "unbold [] = []"
| "unbold (c # s) =
     (if py_startswith (c # s) ''**'' then
        (case cut_at ''**'' (drop 2 (c # s)) of
           Some (a, b) \<Rightarrow> if CHR 0x0A \<in> set a then c # unbold s else a @ unbold b
         | None \<Rightarrow> c # unbold s)
      else c # unbold s)"
  by pat_completeness auto
termination
  by (relation "measure length") (auto dest!: length_cut_drop)

text \<open>
  A star with no star on either side, up to the next such star on the line. The look-behind
  reads the original text, so the character before the rest is carried along.
\<close>

definition lone_star :: "char option \<Rightarrow> string \<Rightarrow> bool" where
  "lone_star prev s = (case s of [] \<Rightarrow> False
     | c # r \<Rightarrow> c = CHR ''*'' \<and> prev \<noteq> Some (CHR ''*'') \<and> (r = [] \<or> hd r \<noteq> CHR ''*''))"

fun italic_end :: "char option \<Rightarrow> string \<Rightarrow> (string \<times> string) option" where
  "italic_end prev [] = None"
| "italic_end prev (c # s) =
     (if lone_star prev (c # s) then Some ([], s)
      else if c = CHR 0x0A then None
      else map_option (\<lambda>(a, b). (c # a, b)) (italic_end (Some c) s))"

lemma length_italic_end: "italic_end prev s = Some (a, b) \<Longrightarrow> length b \<le> length s"
proof (induction prev s arbitrary: a rule: italic_end.induct)
  case (2 prev c s)
  then show ?case by (auto split: if_splits intro: le_SucI)
qed simp

function unitalic :: "char option \<Rightarrow> string \<Rightarrow> string" where
  "unitalic prev [] = []"
| "unitalic prev (c # s) =
     (if lone_star prev (c # s) then
        (case italic_end (Some c) s of
           Some (a, b) \<Rightarrow> a @ unitalic (Some (CHR ''*'')) b
         | None \<Rightarrow> c # unitalic (Some c) s)
      else c # unitalic (Some c) s)"
  by pat_completeness auto
termination
  by (relation "measure (\<lambda>(p, s). length s)") (auto dest!: length_italic_end)

function uncode :: "string \<Rightarrow> string" where
  "uncode [] = []"
| "uncode (c # s) =
     (if c = back_tick then
        (case cut_at [back_tick] s of
           Some (a, b) \<Rightarrow> a @ uncode b
         | None \<Rightarrow> c # uncode s)
      else c # uncode s)"
  by pat_completeness auto
termination
  by (relation "measure length") (auto dest!: length_cut_at)

text \<open>\<open>^[\s\-\<bullet>>*]+\<close> of a line; the bullet and the emoji are not letters of the alphabet.\<close>

definition unmark_line :: "string \<Rightarrow> string" where
  "unmark_line l = dropWhile (\<lambda>c. py_isspace c \<or> c \<in> {CHR ''-'', CHR ''>'', CHR ''*''}) l"

text \<open>
  \<open>\s+\n\<close> becomes one newline: in a run of whitespace everything up to its last newline,
  when a character of the run stands before that.
\<close>

definition after_last_nl :: "string \<Rightarrow> string" where
  "after_last_nl w = rev (takeWhile (\<lambda>c. c \<noteq> CHR 0x0A) (rev w))"

definition trim_run :: "string \<Rightarrow> string" where
  "trim_run w = (if CHR 0x0A \<in> set (tl w) then nl @ after_last_nl w else w)"

function trim_breaks :: "string \<Rightarrow> string" where
  "trim_breaks [] = []"
| "trim_breaks (c # s) =
     (if py_isspace c then trim_run (takeWhile py_isspace (c # s)) @ trim_breaks (dropWhile py_isspace (c # s))
      else c # trim_breaks s)"
  by pat_completeness auto
termination
  by (relation "measure length") (auto simp: le_imp_less_Suc length_dropWhile_le)

text \<open>\<open>\n{3,}\<close> becomes two newlines.\<close>

function limit_breaks :: "string \<Rightarrow> string" where
  "limit_breaks [] = []"
| "limit_breaks (c # s) =
     (if c = CHR 0x0A then (let w = takeWhile (\<lambda>d. d = CHR 0x0A) (c # s) in
        (if length w \<ge> 3 then nl @ nl else w) @ limit_breaks (dropWhile (\<lambda>d. d = CHR 0x0A) (c # s)))
      else c # limit_breaks s)"
  by pat_completeness auto
termination
  by (relation "measure length") (auto simp: le_imp_less_Suc length_dropWhile_le)

definition plain_markup :: "string \<Rightarrow> string" where
  "plain_markup t = uncode (unitalic None (unbold (unfence
     (format_european_dates (PStr (strip_answer_tags (PStr (strip_think_tags (PStr t)))))))))"

definition to_plain_message :: "string \<Rightarrow> string" where
  "to_plain_message t =
     sor (py_strip (limit_breaks (trim_breaks (py_join nl (map unmark_line (splitlines (plain_markup t))))))) t"

section \<open>The name of a chat\<close>

definition chat_title_max_chars :: nat where "chat_title_max_chars = 80"
definition chat_title_max_words :: nat where "chat_title_max_words = 6"

text \<open>\<open>re.sub(r"\s+", " ", t).strip()\<close>\<close>

function blank_runs :: "string \<Rightarrow> string" where
  "blank_runs [] = []"
| "blank_runs (c # s) =
     (if py_isspace c then CHR '' '' # blank_runs (dropWhile py_isspace s) else c # blank_runs s)"
  by pat_completeness auto
termination
  by (relation "measure length") (auto simp: le_imp_less_Suc length_dropWhile_le)

definition compact_text :: "string \<Rightarrow> string" where
  "compact_text t = py_strip (blank_runs t)"

definition strip_charset :: "char set \<Rightarrow> string \<Rightarrow> string" where
  "strip_charset cs s = rev (dropWhile (\<lambda>c. c \<in> cs) (rev (dropWhile (\<lambda>c. c \<in> cs) s)))"

definition quote_chars :: "char set" where
  "quote_chars = {back_tick, CHR 0x22, CHR 0x27}"

definition title_tail :: "char set" where
  "title_tail = set '' ,.;:-''"

definition title_line :: "message_item \<Rightarrow> string option" where
  "title_line m = (let role = py_lower (py_strip (mi_role m));
      content = to_plain_message (mi_content m);
      compact = compact_text content;
      cut = (if length compact > 220 then py_rstrip (take 220 compact) @ ''...'' else compact)
    in if role \<notin> {''user'', ''assistant''} \<or> content = [] then None
       else Some ((if role = ''user'' then ''U'' else ''A'') @ '': '' @ cut))"

definition history_for_title_prompt :: "message_item list \<Rightarrow> string" where
  "history_for_title_prompt history = py_join nl (List.map_filter title_line (take 8 history))"

definition sanitize_chat_name :: "string \<Rightarrow> string" where
  "sanitize_chat_name v = (let t = strip_charset quote_chars (compact_text (to_plain_message v)) in
     if t = [] then []
     else (let l = py_strip (case splitlines t of [] \<Rightarrow> [] | x # _ \<Rightarrow> x);
               ws = py_split_ws l;
               w = (if length ws > chat_title_max_words then py_join '' '' (take chat_title_max_words ws) else l)
           in if length w > chat_title_max_chars
              then rev (dropWhile (\<lambda>c. c \<in> title_tail) (rev (take chat_title_max_chars w))) else w))"

definition new_chat_name :: string where "new_chat_name = ''Novy chat''"

fun fallback_chat_name :: "message_item list \<Rightarrow> string" where
  "fallback_chat_name [] = new_chat_name"
| "fallback_chat_name (m # ms) =
     (if py_lower (py_strip (mi_role m)) \<noteq> ''user'' \<or> compact_text (mi_content m) = [] then fallback_chat_name ms
      else sor (sanitize_chat_name (py_join '' '' (take chat_title_max_words (py_split_ws (compact_text (mi_content m))))))
             new_chat_name)"

text \<open>The prompt ends as the source prints it: the escape before \<open>azev\<close> is a newline.\<close>

definition title_prompt :: "string \<Rightarrow> string" where
  "title_prompt transcript = py_join nl
     [''Jsi asistent, ktery vytvari kratke nazvy konverzaci v cestine.'', ''Pravidla:'',
      ''- vrat pouze nazev (zadne vysvetleni)'', ''- 2 az 6 slov'', ''- max 80 znaku'',
      ''- bez uvozovek a bez tecky na konci'', [], ''Konverzace:'', transcript, [], ''azev:'']"

fun try_titles :: "(string \<Rightarrow> string \<Rightarrow> string result) \<Rightarrow> string \<Rightarrow> string list \<Rightarrow> string option" where
  "try_titles llm prompt [] = None"
| "try_titles llm prompt (m # ms) = (case llm m prompt of
     Inr raw \<Rightarrow> if sanitize_chat_name raw \<noteq> [] then Some (sanitize_chat_name raw) else try_titles llm prompt ms
   | Inl _ \<Rightarrow> try_titles llm prompt ms)"

text \<open>\<open>list(dict.fromkeys([title_model, model]))\<close>\<close>

definition title_models :: "string \<times> string \<Rightarrow> string list" where
  "title_models ms = (if fst ms = snd ms then [fst ms] else [fst ms, snd ms])"

definition generate_chat_name_with_llm ::
  "(string \<Rightarrow> string \<Rightarrow> string result) \<Rightarrow> string \<times> string \<Rightarrow> message_item list \<Rightarrow> string" where
  "generate_chat_name_with_llm llm models history =
     (let transcript = history_for_title_prompt history in
      if transcript = [] then fallback_chat_name history
      else (case try_titles llm (title_prompt transcript) (title_models models) of
          Some t \<Rightarrow> t | None \<Rightarrow> fallback_chat_name history))"

definition ensure_chat_name ::
  "(string \<Rightarrow> string \<Rightarrow> string result) \<Rightarrow> string \<times> string \<Rightarrow> nat \<Rightarrow> chat_row \<Rightarrow> message_item list \<Rightarrow> string \<times> chat_row" where
  "ensure_chat_name llm models now c history =
     (let existing = py_strip (case ch_name c of None \<Rightarrow> [] | Some n \<Rightarrow> n) in
      if existing \<noteq> [] then (existing, c)
      else (let name = take 255 (sor (sanitize_chat_name (generate_chat_name_with_llm llm models history))
                  (fallback_chat_name history))
            in (name, c\<lparr>ch_name := Some name, ch_updated := now\<rparr>)))"

section \<open>Lemmas\<close>

lemma split_ws_acc_nonempty: "acc \<noteq> [] \<Longrightarrow> split_ws_acc acc s \<noteq> []"
  by (induction acc s rule: split_ws_acc.induct) auto

text \<open>A prefix has at most as many words, and so has a text without its last blanks.\<close>

lemma split_ws_prefix: "length (split_ws_acc acc a) \<le> length (split_ws_acc acc (a @ b))"
proof (induction acc a rule: split_ws_acc.induct)
  case (1 acc)
  have "acc \<noteq> [] \<Longrightarrow> Suc 0 \<le> length (split_ws_acc acc b)"
    using split_ws_acc_nonempty [of acc b] by (cases "split_ws_acc acc b") auto
  then show ?case by simp
qed auto

lemma words_prefix: "length (py_split_ws a) \<le> length (py_split_ws (a @ b))"
  by (simp add: py_split_ws_def split_ws_prefix)

lemma words_take: "length (py_split_ws (take n s)) \<le> length (py_split_ws s)"
  using words_prefix [of "take n s" "drop n s"] by simp

lemma rev_dropWhile_prefix: "\<exists>b. s = rev (dropWhile P (rev s)) @ b"
  using takeWhile_dropWhile_id [of P "rev s"] by (metis rev_append rev_rev_ident)

lemma words_rstrip: "length (py_split_ws (rev (dropWhile P (rev s)))) \<le> length (py_split_ws s)"
  using rev_dropWhile_prefix [of s P] words_prefix by metis

definition plain_word :: "string \<Rightarrow> bool" where
  "plain_word w = (w \<noteq> [] \<and> list_all (\<lambda>c. \<not> py_isspace c) w)"

lemma split_ws_words: "list_all (\<lambda>c. \<not> py_isspace c) acc \<Longrightarrow> list_all plain_word (split_ws_acc acc s)"
proof (induction s arbitrary: acc)
  case Nil
  then show ?case by (simp add: plain_word_def)
next
  case (Cons c s)
  show ?case
  proof (cases "py_isspace c")
    case True
    with Cons.IH [of "[]"] Cons.prems show ?thesis by (simp add: plain_word_def)
  next
    case False
    with Cons.IH [of "c # acc"] Cons.prems show ?thesis by simp
  qed
qed

lemma split_ws_word: "list_all (\<lambda>c. \<not> py_isspace c) w \<Longrightarrow> split_ws_acc acc (w @ s) = split_ws_acc (rev w @ acc) s"
  by (induction w arbitrary: acc) simp_all

lemma split_ws_join: "list_all plain_word ws \<Longrightarrow> py_split_ws (py_join '' '' ws) = ws"
proof (induction ws rule: induct_list012)
  case (2 w)
  then show ?case using split_ws_word [of w "[]" "[]"] by (simp add: py_split_ws_def plain_word_def)
next
  case (3 w v ws)
  then have "py_split_ws (w @ '' '' @ py_join '' '' (v # ws)) = w # py_split_ws (py_join '' '' (v # ws))"
    by (simp add: py_split_ws_def split_ws_word py_isspace_def plain_word_def)
  with 3 show ?case by simp
qed (simp add: py_split_ws_def)

lemma words_of_words: "py_split_ws (py_join '' '' (take n (py_split_ws s))) = take n (py_split_ws s)"
  using split_ws_words [of "[]" s]
  by (intro split_ws_join) (auto simp: py_split_ws_def list.pred_set dest: in_set_takeD)

definition title_words :: "string \<Rightarrow> string" where
  "title_words l = (let ws = py_split_ws l in
     if length ws > chat_title_max_words then py_join '' '' (take chat_title_max_words ws) else l)"

definition title_cut :: "string \<Rightarrow> string" where
  "title_cut w = (if length w > chat_title_max_chars
     then rev (dropWhile (\<lambda>c. c \<in> title_tail) (rev (take chat_title_max_chars w))) else w)"

lemma sanitize_cut: "sanitize_chat_name v = [] \<or> (\<exists>l. sanitize_chat_name v = title_cut (title_words l))"
  by (auto simp: sanitize_chat_name_def title_words_def title_cut_def Let_def)

lemma title_words_bound: "length (py_split_ws (title_words l)) \<le> chat_title_max_words"
  by (simp add: title_words_def words_of_words Let_def)

lemma title_cut_words: "length (py_split_ws (title_cut w)) \<le> length (py_split_ws w)"
  using le_trans [OF words_rstrip words_take] by (simp add: title_cut_def)

lemma sanitize_words: "length (py_split_ws (sanitize_chat_name v)) \<le> chat_title_max_words"
  using sanitize_cut [of v] le_trans [OF title_cut_words title_words_bound] by (auto simp: py_split_ws_def)

lemma length_rstrip: "length (rev (dropWhile P (rev s))) \<le> length s"
  using length_dropWhile_le [of P "rev s"] by simp

lemma title_cut_chars: "length (title_cut w) \<le> chat_title_max_chars"
  using length_rstrip [of "\<lambda>c. c \<in> title_tail" "take chat_title_max_chars w"] by (simp add: title_cut_def)

lemma sanitize_chars: "length (sanitize_chat_name v) \<le> chat_title_max_chars"
  using sanitize_cut [of v] title_cut_chars by auto

lemma fallback_ne: "fallback_chat_name h \<noteq> []"
  by (induction h) (auto simp: sor_def new_chat_name_def)

lemma fallback_words: "length (py_split_ws (fallback_chat_name h)) \<le> chat_title_max_words"
proof (induction h)
  case Nil
  show ?case by code_simp
next
  case (Cons m ms)
  have "length (py_split_ws new_chat_name) \<le> chat_title_max_words" by code_simp
  with Cons sanitize_words show ?case by (simp add: sor_def)
qed

lemma fallback_chars: "length (fallback_chat_name h) \<le> chat_title_max_chars"
proof (induction h)
  case (Cons m ms)
  have "length new_chat_name \<le> chat_title_max_chars" by code_simp
  with Cons sanitize_chars show ?case by (simp add: sor_def)
qed (simp add: new_chat_name_def chat_title_max_chars_def)


lemma generate_ne: "generate_chat_name_with_llm llm ms h \<noteq> []"
proof -
  have "try_titles llm pr xs = Some t \<Longrightarrow> t \<noteq> []" for pr xs t
    by (induction xs) (auto split: sum.splits if_splits)
  then show ?thesis using fallback_ne by (auto simp: generate_chat_name_with_llm_def Let_def split: option.splits)
qed

section \<open>Properties\<close>

text \<open>
  A chat that has a name keeps it; any other gets one that is not blank, has at most six words
  and 80 characters, and is stored in its row, whatever the model answers or raises.
\<close>

theorem chat_name_bounded:
  assumes "ensure_chat_name llm models now c history = (name, c')"
    and "py_strip (case ch_name c of None \<Rightarrow> [] | Some n \<Rightarrow> n) = []"
  shows "name \<noteq> [] \<and> length name \<le> 80 \<and> length (py_split_ws name) \<le> 6 \<and>
    c' = c\<lparr>ch_name := Some name, ch_updated := now\<rparr>"
proof -
  let ?n = "sor (sanitize_chat_name (generate_chat_name_with_llm llm models history)) (fallback_chat_name history)"
  have "?n \<noteq> []" using fallback_ne by (simp add: sor_def)
  moreover have l: "length ?n \<le> chat_title_max_chars" using sanitize_chars fallback_chars by (simp add: sor_def)
  moreover have "length (py_split_ws ?n) \<le> chat_title_max_words" using sanitize_words fallback_words by (simp add: sor_def)
  moreover have "take 255 ?n = ?n" using l by (simp add: chat_title_max_chars_def)
  moreover have "name = take 255 ?n" "c' = c\<lparr>ch_name := Some name, ch_updated := now\<rparr>"
    using assms by (auto simp: ensure_chat_name_def Let_def)
  ultimately show ?thesis by (simp add: chat_title_max_chars_def chat_title_max_words_def)
qed

definition unnamed_row :: chat_row where
  "unnamed_row = \<lparr>ch_id = ''c1'', ch_tenant = ''t1'', ch_user = ''u1'', ch_name = None, ch_tool = None,
     ch_pinned = False, ch_updated = 1\<rparr>"

definition title_history :: "message_item list" where
  "title_history = [\<lparr>mi_role = ''user'', mi_content = ''Kdo je Acmark'', mi_meta = []\<rparr>]"

definition title_llm :: "string \<Rightarrow> string \<Rightarrow> string result" where
  "title_llm m t = (if m = ''small'' then Inl (OtherError ''timeout'') else Inr ''**Firma** Acmark'')"

theorem chat_name_bounded_witness:
  "ensure_chat_name title_llm (''small'', ''big'') 7 unnamed_row title_history =
     (''Firma Acmark'', unnamed_row\<lparr>ch_name := Some ''Firma Acmark'', ch_updated := 7\<rparr>) \<and>
   length (py_split_ws ''Firma Acmark'') \<le> 6"
proof -
  have e: "ensure_chat_name title_llm (''small'', ''big'') 7 unnamed_row title_history =
     (''Firma Acmark'', unnamed_row\<lparr>ch_name := Some ''Firma Acmark'', ch_updated := 7\<rparr>)"
    by code_simp
  from chat_name_bounded [OF e] show ?thesis using e by (simp add: unnamed_row_def)
qed

text \<open>
  Only the first line is meant to be kept, but the line ends are blanks by then: the explanation
  a model adds on the next line becomes part of the name.
\<close>

lemma explanation_kept: "sanitize_chat_name (''Schuzka'' @ nl @ ''Vysvetleni: x'') = ''Schuzka Vysvetleni: x''"
  by code_simp

text \<open>
  Of several line ends one is left, so the rule that keeps two of three never applies and
  paragraphs are joined.
\<close>

lemma paragraphs_joined: "to_plain_message (''a'' @ nl @ nl @ nl @ ''b'') = ''a'' @ nl @ ''b''"
  by code_simp

end
