(* ===== verification/Chat_Api.thy ===== *)
theory Chat_Api
  imports Pipeline Chat_Titles
begin

text \<open>
  The chats as the HTTP service offers them (\<open>app/api/endpoints.py\<close>): create, show, change,
  list, replace and delete a chat, the event of a record created in the CRM, and a turn with the
  name it gives the chat. Every handler is given the tenant and user of the authenticated
  request; the clock and the fresh identifiers are arguments.
\<close>

section \<open>Requests and replies\<close>

record api_env =
  ae_turn :: pipeline_env
  ae_llm :: "string \<Rightarrow> string \<Rightarrow> string result"
  ae_models :: "string \<times> string"
  ae_ids :: "nat \<Rightarrow> string"

abbreviation ae_now :: "api_env \<Rightarrow> nat" where "ae_now env \<equiv> pe_time (ae_turn env)"

text \<open>The tenant and the user of the request (\<open>TenantContext\<close>).\<close>

type_synonym caller = "string \<times> string"

record chat_create =
  bc_user :: string
  bc_name :: "string option"
  bc_tool :: "string option"

record chat_update =
  bu_name :: "string option"
  bu_tool :: "string option"
  bu_pinned :: "bool option"

record chat_replace =
  rp_chat :: string
  rp_history :: "message_item list"
  rp_name :: "string option"
  rp_tool :: "string option"

record record_created =
  rc_chat :: string
  rc_module :: string
  rc_record :: string
  rc_name :: "string option"
  rc_message :: "string option"
  rc_source :: "string option"

record chat_history =
  hs_chat :: string
  hs_history :: "message_item list"
  hs_name :: "string option"
  hs_updated :: nat
  hs_tool :: "string option"
  hs_pinned :: bool

datatype chat_request =
    CreateChat "chat_create option"
  | GetChat string
  | PatchChat string chat_update
  | ListChats string "int option"
  | PutChat string chat_replace
  | DeleteChat string
  | RecordCreated record_created
  | ProcessInput "string option" string pydict

datatype chat_reply =
    Created string
  | Shown chat_history
  | Listed string string "chat_history list"
  | Deleted
  | Synced pydict
  | Answered_turn turn_output string "string option"

section \<open>Rows\<close>

definition owner_of :: "caller \<Rightarrow> string \<Rightarrow> chat_owner" where
  "owner_of who cid = \<lparr>ow_chat = cid, ow_tenant = fst who, ow_user = snd who\<rparr>"

definition find_chat :: "chat_db \<Rightarrow> caller \<Rightarrow> string \<Rightarrow> chat_row result" where
  "find_chat db who cid = get_chat_or_404 db (owner_of who cid)"

text \<open>Assignments to the row object of a chat.\<close>

definition update_chat :: "string \<Rightarrow> (chat_row \<Rightarrow> chat_row) \<Rightarrow> chat_db \<Rightarrow> chat_db" where
  "update_chat cid f db = db\<lparr>db_chats := map (\<lambda>c. if ch_id c = cid then f c else c) (db_chats db)\<rparr>"

definition all_messages :: "chat_db \<Rightarrow> caller \<Rightarrow> string \<Rightarrow> message_item list" where
  "all_messages db who cid = load_messages db (owner_of who cid) None"

definition shown_name :: "chat_row \<Rightarrow> message_item list \<Rightarrow> string" where
  "shown_name c history = sor (py_strip (case ch_name c of None \<Rightarrow> [] | Some n \<Rightarrow> n)) (fallback_chat_name history)"

definition history_of :: "chat_row \<Rightarrow> message_item list \<Rightarrow> string option \<Rightarrow> chat_history" where
  "history_of c history name = \<lparr>hs_chat = ch_id c, hs_history = history, hs_name = name,
     hs_updated = ch_updated c, hs_tool = ch_tool c, hs_pinned = ch_pinned c\<rparr>"

definition show_chat :: "chat_db \<Rightarrow> caller \<Rightarrow> chat_row \<Rightarrow> chat_history" where
  "show_chat db who c = (let history = all_messages db who (ch_id c) in
     history_of c history (Some (shown_name c history)))"

section \<open>Handlers\<close>

definition create_chat_handler :: "api_env \<Rightarrow> caller \<Rightarrow> chat_create option \<Rightarrow> chat_db \<Rightarrow> chat_reply result \<times> chat_db" where
  "create_chat_handler env who body db =
     (if (case body of Some b \<Rightarrow> bc_user b \<noteq> snd who | None \<Rightarrow> False)
      then (Inl (HTTPException 403 ''user_id mismatch with auth header''), db)
      else (case create_chat db (pe_chat_id (ae_turn env)) (fst who) (snd who)
              (Option.bind body bc_name) (Option.bind body bc_tool) (ae_now env) of
          (c, db') \<Rightarrow> (Inr (Created (ch_id c)), db')))"

definition get_chat_handler :: "caller \<Rightarrow> string \<Rightarrow> chat_db \<Rightarrow> chat_reply result \<times> chat_db" where
  "get_chat_handler who cid db = (case find_chat db who cid of
     Inl e \<Rightarrow> (Inl e, db)
   | Inr c \<Rightarrow> (Inr (Shown (show_chat db who c)), db))"

text \<open>\<open>PATCH\<close>; the row is written, and its \<open>updated_at\<close> set by the database, only when a value changed.\<close>

definition patched_row :: "chat_update \<Rightarrow> nat \<Rightarrow> chat_row \<Rightarrow> chat_row" where
  "patched_row b now c =
     (let c1 = (case bu_name b of None \<Rightarrow> c | Some n \<Rightarrow> c\<lparr>ch_name := trimmed (Some n) 255\<rparr>);
          c2 = (case bu_tool b of None \<Rightarrow> c1 | Some t \<Rightarrow> c1\<lparr>ch_tool := trimmed (Some t) 128\<rparr>);
          c3 = (case bu_pinned b of None \<Rightarrow> c2 | Some p \<Rightarrow> c2\<lparr>ch_pinned := p\<rparr>)
      in if c3 = c then c else c3\<lparr>ch_updated := now\<rparr>)"

definition patch_chat_handler :: "api_env \<Rightarrow> caller \<Rightarrow> string \<Rightarrow> chat_update \<Rightarrow> chat_db \<Rightarrow> chat_reply result \<times> chat_db" where
  "patch_chat_handler env who cid b db = (case find_chat db who cid of
     Inl e \<Rightarrow> (Inl e, db)
   | Inr c \<Rightarrow>
       (let c' = patched_row b (ae_now env) c; db' = update_chat (ch_id c) (patched_row b (ae_now env)) db
        in (Inr (Shown (show_chat db' who c')), db')))"

text \<open>\<open>ORDER BY pinned DESC, updated_at DESC LIMIT n\<close>\<close>

definition chats_limit :: "int option \<Rightarrow> nat" where
  "chats_limit l = (case l of None \<Rightarrow> 50 | Some n \<Rightarrow> nat (max 1 (min n 200)))"

definition chat_key :: "chat_row \<Rightarrow> bool \<times> nat" where
  "chat_key c = (ch_pinned c, ch_updated c)"

definition owned_chat :: "caller \<Rightarrow> chat_row \<Rightarrow> bool" where
  "owned_chat who c = (ch_tenant c = fst who \<and> ch_user c = snd who)"

definition list_chats_handler :: "caller \<Rightarrow> string \<Rightarrow> int option \<Rightarrow> chat_db \<Rightarrow> chat_reply result \<times> chat_db" where
  "list_chats_handler who user limit db =
     (if user \<noteq> snd who then (Inl (HTTPException 403 ''Forbidden''), db)
      else (Inr (Listed (snd who) (fst who)
        (map (show_chat db who) (take (chats_limit limit) (sort_desc chat_key (filter (owned_chat who) (db_chats db)))))), db))"

text \<open>\<open>PUT\<close>: the messages are deleted and those of the body appended, in one transaction.\<close>

definition delete_messages :: "(chat_message \<Rightarrow> bool) \<Rightarrow> chat_db \<Rightarrow> chat_db" where
  "delete_messages p db = db\<lparr>db_messages := filter (\<lambda>m. \<not> p m) (db_messages db)\<rparr>"

fun append_all :: "api_env \<Rightarrow> chat_owner \<Rightarrow> nat \<Rightarrow> message_item list \<Rightarrow> chat_db \<Rightarrow> chat_db" where
  "append_all env ow k [] db = db"
| "append_all env ow k (m # ms) db = append_all env ow (Suc k) ms
     (append_message db ow (ae_ids env k) (mi_role m) (mi_content m) (mi_meta m) (ae_now env))"

definition replaced_row :: "chat_replace \<Rightarrow> nat \<Rightarrow> chat_row \<Rightarrow> chat_row" where
  "replaced_row b now c =
     (let c1 = (case rp_name b of None \<Rightarrow> c | Some n \<Rightarrow> c\<lparr>ch_name := Some n\<rparr>);
          c2 = (case rp_tool b of None \<Rightarrow> c1 | Some t \<Rightarrow> c1\<lparr>ch_tool := trimmed (Some t) 128\<rparr>)
      in c2\<lparr>ch_updated := now\<rparr>)"

definition put_chat_handler :: "api_env \<Rightarrow> caller \<Rightarrow> string \<Rightarrow> chat_replace \<Rightarrow> chat_db \<Rightarrow> chat_reply result \<times> chat_db" where
  "put_chat_handler env who cid b db =
     (if rp_chat b \<noteq> cid then (Inl (HTTPException 400 ''chat_id mismatch''), db)
      else (case find_chat db who cid of
          Inl e \<Rightarrow> (Inl e, db)
        | Inr c \<Rightarrow>
            (let ow = owner_of who (ch_id c);
                 db1 = delete_messages (owned ow) db;
                 db2 = append_all env ow 0 (rp_history b) db1;
                 c' = replaced_row b (ae_now env) c;
                 db3 = update_chat (ch_id c) (replaced_row b (ae_now env)) db2
             in (Inr (Shown (history_of c' (all_messages db3 who (ch_id c)) (ch_name c'))), db3))))"

definition delete_chat_handler :: "caller \<Rightarrow> string \<Rightarrow> chat_db \<Rightarrow> chat_reply result \<times> chat_db" where
  "delete_chat_handler who cid db = (case find_chat db who cid of
     Inl e \<Rightarrow> (Inl e, db)
   | Inr c \<Rightarrow>
       (let db1 = delete_messages (\<lambda>m. cm_chat m = ch_id c \<and> cm_tenant m = fst who) db
        in (Inr Deleted, db1\<lparr>db_chats := filter (\<lambda>x. \<not> (ch_id x = ch_id c \<and> ch_tenant x = fst who)) (db_chats db1)\<rparr>)))"

section \<open>A record created in the CRM\<close>

definition opt_py :: "string option \<Rightarrow> py" where
  "opt_py v = (case v of None \<Rightarrow> PNone | Some s \<Rightarrow> PStr s)"

definition opt_strip :: "string option \<Rightarrow> string" where
  "opt_strip v = py_strip (case v of None \<Rightarrow> [] | Some s \<Rightarrow> s)"

definition pending_create_resolved :: "pydict option \<Rightarrow> string \<Rightarrow> bool" where
  "pending_create_resolved pending md = (case pending of None \<Rightarrow> False
   | Some p \<Rightarrow>
       (let pm = canonical_module_name (str_or (por (pget p ''effective_module'') (pget p ''module'')))
        in py_lower (py_strip (py_str (pget p ''action''))) = ''create'' \<and> (pm = [] \<or> py_lower pm = py_lower md)))"

definition created_message :: "record_created \<Rightarrow> string \<Rightarrow> string \<Rightarrow> bool \<Rightarrow> string" where
  "created_message b md rid resolved = (let m = opt_strip (rc_message b); name = opt_strip (rc_name b) in
     if m \<noteq> [] then m
     else (if name \<noteq> []
           then ''Potvrzeno z CRM: zaznam '' @ [CHR 0x27] @ name @ [CHR 0x27] @ '' ('' @ md @ '') byl vytvoren. CRM ID: '' @ rid @ ''.''
           else ''Potvrzeno z CRM: zaznam v modulu '' @ md @ '' byl vytvoren. CRM ID: '' @ rid @ ''.'') @
          (if resolved then '' Dalsi upravy provedu primo nad timto CRM ID.'' else []))"

definition sync_event :: "record_created \<Rightarrow> string \<Rightarrow> string \<Rightarrow> pydict" where
  "sync_event b md rid =
     [(''type'', PStr ''record_created''), (''module'', PStr md), (''record_id'', PStr rid),
      (''source'', PStr (sor (opt_strip (Some (case rc_source b of None \<Rightarrow> ''crm'' | Some s \<Rightarrow> sor s ''crm''))) ''crm''))] @
     (if opt_strip (rc_name b) = [] then [] else [(''record_name'', PStr (opt_strip (rc_name b)))])"

definition sync_metadata :: "pydict \<Rightarrow> string \<Rightarrow> pydict option \<Rightarrow> pydict" where
  "sync_metadata event message pending =
     [(''crm_sync_event'', PDict event),
      (''agent_result'', PDict [(''status'', PStr ''crm_sync_record_created''), (''message_to_user'', PStr message),
         (''output'', PStr message), (''crm_sync_event'', PDict event)])] @
     (case pending of None \<Rightarrow> [] | Some p \<Rightarrow> [(''resolved_pending_action'', PDict p)])"

definition same_event :: "pydict option \<Rightarrow> string \<Rightarrow> string \<Rightarrow> bool" where
  "same_event latest md rid = (case latest of None \<Rightarrow> False
   | Some e \<Rightarrow> e \<noteq> [] \<and> py_lower (py_str (dget_default e ''module'' (PStr []))) = py_lower md \<and> pget e ''record_id'' = PStr rid)"

definition record_created_handler ::
  "api_env \<Rightarrow> caller \<Rightarrow> record_created \<Rightarrow> chat_db \<Rightarrow> chat_reply result \<times> chat_db" where
  "record_created_handler env who b db =
     (let rid = py_strip (rc_record b); md = canonical_module_name (rc_module b) in
      if rid = [] then (Inl (HTTPException 400 ''record_id is required''), db)
      else if md = [] then (Inl (HTTPException 400 ''module is required''), db)
      else (case find_chat db who (rc_chat b) of
          Inl e \<Rightarrow> (Inl e, db)
        | Inr c \<Rightarrow>
            (let ow = owner_of who (ch_id c) in
             if same_event (load_latest_created db ow) md rid
             then (Inr (Synced [(''chat_id'', PStr (ch_id c)), (''module'', PStr md), (''record_id'', PStr rid),
                     (''record_name'', opt_py (rc_name b)), (''deduplicated'', PBool True),
                     (''pending_action_cleared'', PBool False)]), db)
             else (let pending = load_latest_pending_action db ow;
                       resolved = pending_create_resolved pending md;
                       message = created_message b md rid resolved;
                       event = sync_event b md rid;
                       db' = append_message db ow (ae_ids env 0) ''assistant'' message
                               (sync_metadata event message pending) (ae_now env)
                   in (Inr (Synced [(''chat_id'', PStr (ch_id c)), (''module'', PStr md), (''record_id'', PStr rid),
                         (''record_name'', (if opt_strip (rc_name b) = [] then PNone else PStr (opt_strip (rc_name b)))),
                         (''source'', pget event ''source''), (''pending_action_cleared'', PBool resolved),
                         (''deduplicated'', PBool False)]), db')))))"

section \<open>A turn\<close>

text \<open>
  \<open>POST /process-input/\<close>: the turn, the name of the chat in the same transaction, and the
  module whose ingest is scheduled after the reply.
\<close>

definition turn_of :: "caller \<Rightarrow> string option \<Rightarrow> string \<Rightarrow> pydict \<Rightarrow> turn_input" where
  "turn_of who cid t ctx = \<lparr>ti_tenant = fst who, ti_user = snd who, ti_chat = cid, ti_text = t, ti_context = ctx\<rparr>"

definition name_chat :: "api_env \<Rightarrow> caller \<Rightarrow> turn_output \<Rightarrow> chat_db \<Rightarrow> string \<times> chat_db" where
  "name_chat env who out db = (case find_chat db who (out_chat out) of
     Inl e \<Rightarrow> ([], db)
   | Inr c \<Rightarrow> (case ensure_chat_name (ae_llm env) (ae_models env) (ae_now env) c (out_history out) of
       (name, c') \<Rightarrow> (name, update_chat (ch_id c)
          (\<lambda>x. x\<lparr>ch_name := ch_name c', ch_updated := ch_updated c'\<rparr>) db)))"

definition ingest_wish :: "pydict \<Rightarrow> string option" where
  "ingest_wish ctx = (if truthy (pget ctx ''ingest_module'') then Some (py_str (pget ctx ''ingest_module'')) else None)"

definition process_input_handler ::
  "api_env \<Rightarrow> caller \<Rightarrow> string option \<Rightarrow> string \<Rightarrow> pydict \<Rightarrow> chat_db \<Rightarrow> turn_world \<Rightarrow> chat_reply result \<times> chat_db \<times> turn_world" where
  "process_input_handler env who cid t ctx db w = (case process_input (ae_turn env) (turn_of who cid t ctx) db w of
     (Inl e, db', w') \<Rightarrow> (Inl e, db', w')
   | (Inr out, db', w') \<Rightarrow> (case name_chat env who out db' of
       (name, db2) \<Rightarrow> (Inr (Answered_turn out name (ingest_wish ctx)), db2, w')))"

definition chat_api ::
  "api_env \<Rightarrow> caller \<Rightarrow> chat_request \<Rightarrow> chat_db \<Rightarrow> turn_world \<Rightarrow> chat_reply result \<times> chat_db \<times> turn_world" where
  "chat_api env who rq db w = (case rq of
     CreateChat b \<Rightarrow> (case create_chat_handler env who b db of (r, d) \<Rightarrow> (r, d, w))
   | GetChat cid \<Rightarrow> (case get_chat_handler who cid db of (r, d) \<Rightarrow> (r, d, w))
   | PatchChat cid b \<Rightarrow> (case patch_chat_handler env who cid b db of (r, d) \<Rightarrow> (r, d, w))
   | ListChats user l \<Rightarrow> (case list_chats_handler who user l db of (r, d) \<Rightarrow> (r, d, w))
   | PutChat cid b \<Rightarrow> (case put_chat_handler env who cid b db of (r, d) \<Rightarrow> (r, d, w))
   | DeleteChat cid \<Rightarrow> (case delete_chat_handler who cid db of (r, d) \<Rightarrow> (r, d, w))
   | RecordCreated b \<Rightarrow> (case record_created_handler env who b db of (r, d) \<Rightarrow> (r, d, w))
   | ProcessInput cid t ctx \<Rightarrow> process_input_handler env who cid t ctx db w)"

section \<open>What a caller sees\<close>

definition owned_msg :: "caller \<Rightarrow> chat_message \<Rightarrow> bool" where
  "owned_msg who m = (cm_tenant m = fst who \<and> cm_user m = snd who)"

definition view :: "caller \<Rightarrow> chat_db \<Rightarrow> chat_row list \<times> chat_message list" where
  "view who db = (filter (owned_chat who) (db_chats db), filter (owned_msg who) (db_messages db))"

text \<open>One row per chat, and every message belongs to the owner of its chat.\<close>

definition message_homed :: "chat_db \<Rightarrow> chat_message \<Rightarrow> bool" where
  "message_homed db m = (\<exists>c \<in> set (db_chats db). ch_id c = cm_chat m \<and> ch_tenant c = cm_tenant m \<and> ch_user c = cm_user m)"

definition chats_wf :: "chat_db \<Rightarrow> bool" where
  "chats_wf db = (distinct (map ch_id (db_chats db)) \<and> (\<forall>m \<in> set (db_messages db). message_homed db m))"

definition own_row :: "caller \<Rightarrow> string \<Rightarrow> chat_db \<Rightarrow> bool" where
  "own_row who cid db = (\<exists>c \<in> set (db_chats db). ch_id c = cid \<and> owned_chat who c)"

text \<open>A change of a row that leaves its identity.\<close>

definition keeps_owner :: "(chat_row \<Rightarrow> chat_row) \<Rightarrow> bool" where
  "keeps_owner f = (\<forall>c. ch_id (f c) = ch_id c \<and> ch_tenant (f c) = ch_tenant c \<and> ch_user (f c) = ch_user c)"

lemma find_filter: "find P (filter Q xs) = find (\<lambda>x. Q x \<and> P x) xs"
  by (induction xs) auto

lemma filter_map_keep: "(\<And>x. P (f x) = P x) \<Longrightarrow> filter P (map f xs) = map f (filter P xs)"
  by (induction xs) auto

lemma find_chat_view:
  "find_chat db who cid = (case find (\<lambda>c. ch_id c = cid) (fst (view who db)) of
     Some c \<Rightarrow> Inr c | None \<Rightarrow> Inl (HTTPException 404 ''Chat not found''))"
proof -
  have "(\<lambda>c. owned_chat who c \<and> ch_id c = cid) = (\<lambda>c. ch_id c = cid \<and> ch_tenant c = fst who \<and> ch_user c = snd who)"
    by (auto simp: owned_chat_def fun_eq_iff)
  then show ?thesis by (simp add: find_chat_def get_chat_or_404_def owner_of_def view_def find_filter)
qed

lemma find_chat_Inr:
  assumes "find_chat db who cid = Inr c"
  shows "c \<in> set (db_chats db) \<and> ch_id c = cid \<and> owned_chat who c"
proof -
  from assms have "find (\<lambda>c. ch_id c = cid) (filter (owned_chat who) (db_chats db)) = Some c"
    by (simp add: find_chat_view view_def split: option.splits)
  then show ?thesis by (auto simp: find_Some_iff in_set_conv_nth filter_eq_Cons_iff dest!: nth_mem [of _ "filter _ _"]) 
qed

lemma find_chat_own: "find_chat db who cid = Inr c \<Longrightarrow> ch_id c = cid \<and> own_row who cid db"
  using find_chat_Inr by (fastforce simp: own_row_def)

subsection \<open>Everything a handler reads is in the view\<close>

lemma owned_view: "filter (owned (owner_of who cid)) (db_messages db) = filter (\<lambda>m. cm_chat m = cid) (snd (view who db))"
proof -
  have "owned (owner_of who cid) = (\<lambda>m. cm_chat m = cid \<and> owned_msg who m)"
    by (auto simp: owned_def owner_of_def owned_msg_def fun_eq_iff)
  then show ?thesis by (simp add: view_def conj_commute)
qed

lemma view_owned:
  "view who db = view who db' \<Longrightarrow>
   filter (owned (owner_of who cid)) (db_messages db) = filter (owned (owner_of who cid)) (db_messages db')"
  by (simp add: owned_view)

lemma load_messages_cong:
  "filter (owned ow) (db_messages db) = filter (owned ow) (db_messages db') \<Longrightarrow> load_messages db ow l = load_messages db' ow l"
  by (simp add: load_messages_def)

lemma assistant_rows_cong:
  assumes "filter (owned ow) (db_messages db) = filter (owned ow) (db_messages db')"
  shows "assistant_rows db ow = assistant_rows db' ow"
proof -
  have "filter (\<lambda>m. owned ow m \<and> cm_role m = ''assistant'') ms
      = filter (\<lambda>m. cm_role m = ''assistant'') (filter (owned ow) ms)" for ms
    by (simp add: conj_commute)
  then show ?thesis unfolding assistant_rows_def by (simp only: assms)
qed

lemma loaders_cong:
  assumes "filter (owned ow) (db_messages db) = filter (owned ow) (db_messages db')"
  shows "load_latest_pending_action db ow = load_latest_pending_action db' ow"
    and "load_latest_created db ow = load_latest_created db' ow"
    and "load_latest_history_selection db ow t = load_latest_history_selection db' ow t"
    and "effective_context db ow t ctx = effective_context db' ow t ctx"
    and "agent_history db ow = agent_history db' ow"
  using assistant_rows_cong [OF assms] load_messages_cong [OF assms]
  by (simp_all add: load_latest_pending_action_def load_latest_created_def load_latest_history_selection_def
      effective_context_def agent_history_def)

lemma decide_cong:
  "agent_history d ow = agent_history d' ow \<Longrightarrow> decide env inp ts ctx p d ow w = decide env inp ts ctx p d' ow w"
  unfolding decide_def agent_call_def by (simp only:)

lemma all_messages_cong: "view who db = view who db' \<Longrightarrow> all_messages db who cid = all_messages db' who cid"
  unfolding all_messages_def by (intro load_messages_cong view_owned)

lemma show_chat_cong: "view who db = view who db' \<Longrightarrow> show_chat db who c = show_chat db' who c"
  using all_messages_cong [of who db db'] by (simp add: show_chat_def)

subsection \<open>How the view changes\<close>

lemma view_update:
  assumes "keeps_owner f"
  shows "view who (update_chat cid f db) =
    (map (\<lambda>c. if ch_id c = cid then f c else c) (fst (view who db)), snd (view who db))"
  using assms filter_map_keep [of "owned_chat who" "\<lambda>c. if ch_id c = cid then f c else c"]
  by (auto simp: view_def update_chat_def keeps_owner_def owned_chat_def)

definition add_message :: "chat_message \<Rightarrow> chat_db \<Rightarrow> chat_db" where
  "add_message m db = db\<lparr>db_messages := db_messages db @ [m]\<rparr>"

lemma append_message_steps:
  "append_message db ow i role content meta now =
     update_chat (ow_chat ow) (\<lambda>c. c\<lparr>ch_updated := now\<rparr>) (add_message \<lparr>cm_id = i, cm_chat = ow_chat ow,
       cm_tenant = ow_tenant ow, cm_user = ow_user ow, cm_role = role, cm_content = content, cm_meta = meta, cm_created = now\<rparr> db)"
  by (simp add: append_message_def update_chat_def add_message_def)

lemma view_add: "view who (add_message m db) =
    (fst (view who db), snd (view who db) @ (if owned_msg who m then [m] else []))"
  by (simp add: view_def add_message_def)

lemma view_delete: "view who (delete_messages p db) = (fst (view who db), filter (\<lambda>m. \<not> p m) (snd (view who db)))"
  by (simp add: view_def delete_messages_def conj_commute)

lemma keeps_touch [simp]: "keeps_owner (\<lambda>c. c\<lparr>ch_updated := n\<rparr>)"
  by (simp add: keeps_owner_def)

lemma view_append: "view who (append_message db ow i role content meta now) =
    (map (\<lambda>c. if ch_id c = ow_chat ow then c\<lparr>ch_updated := now\<rparr> else c) (fst (view who db)),
     snd (view who db) @ (if ow_tenant ow = fst who \<and> ow_user ow = snd who
       then [\<lparr>cm_id = i, cm_chat = ow_chat ow, cm_tenant = ow_tenant ow, cm_user = ow_user ow, cm_role = role,
              cm_content = content, cm_meta = meta, cm_created = now\<rparr>] else []))"
  by (simp add: append_message_steps view_update view_add owned_msg_def)

lemma view_append_all: "view who db = view who db' \<Longrightarrow> view who (append_all env ow k ms db) = view who (append_all env ow k ms db')"
  by (induction env ow k ms db arbitrary: db' rule: append_all.induct) (simp_all add: view_append)


subsection \<open>Rows of others stay\<close>

text \<open>What a step of a caller may do: it changes no row of anyone else and keeps the tables well-formed.\<close>

definition own_change :: "caller \<Rightarrow> chat_db \<Rightarrow> chat_db \<Rightarrow> bool" where
  "own_change who db db' = ((\<forall>other. other \<noteq> who \<longrightarrow> view other db' = view other db) \<and> chats_wf db')"

lemma own_change_refl: "chats_wf db \<Longrightarrow> own_change who db db"
  by (simp add: own_change_def)

lemma own_change_trans: "own_change who a b \<Longrightarrow> own_change who b c \<Longrightarrow> own_change who a c"
  by (simp add: own_change_def)

lemma own_change_wf: "own_change who a b \<Longrightarrow> chats_wf b"
  by (simp add: own_change_def)

lemma same_id_same_row: "chats_wf db \<Longrightarrow> c \<in> set (db_chats db) \<Longrightarrow> c' \<in> set (db_chats db) \<Longrightarrow> ch_id c = ch_id c' \<Longrightarrow> c = c'"
  by (simp add: chats_wf_def distinct_map inj_on_def)

lemma owner_unique: "owned_chat a c \<Longrightarrow> owned_chat b c \<Longrightarrow> a = b"
  by (cases a; cases b) (simp add: owned_chat_def)

lemma own_row_update: "keeps_owner f \<Longrightarrow> own_row who cid db \<Longrightarrow> own_row who cid (update_chat i f db)"
proof -
  assume k: "keeps_owner f" and "own_row who cid db"
  then obtain c where c: "c \<in> set (db_chats db)" "ch_id c = cid" "owned_chat who c" by (auto simp: own_row_def)
  let ?c = "if ch_id c = i then f c else c"
  have "?c \<in> set (db_chats (update_chat i f db))" using c(1) by (auto simp: update_chat_def)
  moreover have "ch_id ?c = cid" "owned_chat who ?c" using c(2,3) k by (auto simp: keeps_owner_def owned_chat_def)
  ultimately show ?thesis unfolding own_row_def by blast
qed

lemma others_elsewhere:
  assumes "chats_wf db" "own_row who cid db" "other \<noteq> who" "c \<in> set (fst (view other db))"
  shows "ch_id c \<noteq> cid"
proof
  assume "ch_id c = cid"
  obtain c0 where c0: "c0 \<in> set (db_chats db)" "ch_id c0 = cid" "owned_chat who c0"
    using assms(2) by (auto simp: own_row_def)
  have "c \<in> set (db_chats db)" "owned_chat other c" using assms(4) by (simp_all add: view_def)
  with same_id_same_row [OF assms(1) c0(1)] c0(2,3) \<open>ch_id c = cid\<close> owner_unique assms(3) show False by metis
qed

lemma update_own:
  assumes "chats_wf db" "own_row who cid db" "keeps_owner f"
  shows "own_change who db (update_chat cid f db)"
proof -
  let ?g = "\<lambda>c. if ch_id c = cid then f c else c"
  have "view other (update_chat cid f db) = view other db" if "other \<noteq> who" for other
  proof -
    have "ch_id c \<noteq> cid" if "c \<in> set (fst (view other db))" for c
      using others_elsewhere [OF assms(1,2) \<open>other \<noteq> who\<close> that] .
    then have "map ?g (fst (view other db)) = fst (view other db)" by (intro map_idI) auto
    then show ?thesis by (simp add: view_update [OF assms(3)])
  qed
  moreover have "map ch_id (db_chats (update_chat cid f db)) = map ch_id (db_chats db)"
    using assms(3) by (simp add: update_chat_def keeps_owner_def)
  moreover have "message_homed (update_chat cid f db) m" if h: "message_homed db m" for m
  proof -
    obtain c where c: "c \<in> set (db_chats db)" "ch_id c = cm_chat m" "ch_tenant c = cm_tenant m" "ch_user c = cm_user m"
      using h by (auto simp: message_homed_def)
    then have "?g c \<in> set (db_chats (update_chat cid f db))" by (auto simp: update_chat_def)
    moreover have "ch_id (?g c) = cm_chat m" "ch_tenant (?g c) = cm_tenant m" "ch_user (?g c) = cm_user m"
      using c assms(3) by (auto simp: keeps_owner_def)
    ultimately show ?thesis unfolding message_homed_def by blast
  qed
  moreover have "db_messages (update_chat cid f db) = db_messages db" by (simp add: update_chat_def)
  ultimately show ?thesis using assms(1) by (simp add: own_change_def chats_wf_def)
qed

lemma add_own:
  assumes "chats_wf db" "own_row who (cm_chat m) db" "owned_msg who m"
  shows "own_change who db (add_message m db)"
proof -
  have "\<not> owned_msg other m" if "other \<noteq> who" for other
    using assms(3) that by (cases other; cases who) (auto simp: owned_msg_def)
  moreover have "message_homed db m"
    using assms(2,3) by (auto simp: message_homed_def own_row_def owned_msg_def owned_chat_def)
  moreover have "message_homed (add_message m db) x = message_homed db x" for x
    by (simp add: message_homed_def add_message_def)
  ultimately show ?thesis using assms(1) by (simp add: own_change_def view_add chats_wf_def) (simp add: add_message_def)
qed

lemma own_row_add: "own_row who cid (add_message m db) = own_row who cid db"
  by (simp add: own_row_def add_message_def)

lemma append_own:
  assumes "chats_wf db" "own_row who cid db"
  shows "own_change who db (append_message db (owner_of who cid) i role content meta now)
    \<and> own_row who cid (append_message db (owner_of who cid) i role content meta now)"
proof -
  let ?m = "\<lparr>cm_id = i, cm_chat = cid, cm_tenant = fst who, cm_user = snd who, cm_role = role,
    cm_content = content, cm_meta = meta, cm_created = now\<rparr>"
  have a: "own_change who db (add_message ?m db)" using assms by (intro add_own) (auto simp: owned_msg_def)
  have r: "own_row who cid (add_message ?m db)" using assms(2) by (simp add: own_row_add)
  from own_change_trans [OF a update_own [OF own_change_wf [OF a] r keeps_touch]] own_row_update [OF keeps_touch r]
  show ?thesis by (simp add: append_message_steps owner_of_def)
qed

lemma append_all_own:
  "chats_wf db \<Longrightarrow> own_row who cid db \<Longrightarrow>
   own_change who db (append_all env (owner_of who cid) k ms db) \<and> own_row who cid (append_all env (owner_of who cid) k ms db)"
proof (induction ms arbitrary: k db)
  case Nil
  then show ?case by (simp add: own_change_refl)
next
  case (Cons m ms)
  note a = append_own [OF Cons.prems, of "ae_ids env k" "mi_role m" "mi_content m" "mi_meta m" "ae_now env"]
  note b = Cons.IH [OF own_change_wf [OF conjunct1 [OF a]] conjunct2 [OF a], of "Suc k"]
  show ?case using own_change_trans [OF conjunct1 [OF a] conjunct1 [OF b]] conjunct2 [OF b] by simp
qed

text \<open>Deleting messages of an own chat, and the chat with its messages.\<close>

lemma homed_owner:
  assumes "chats_wf db" "own_row who cid db" "m \<in> set (db_messages db)" "cm_chat m = cid"
  shows "owned_msg who m"
proof -
  obtain c0 where c0: "c0 \<in> set (db_chats db)" "ch_id c0 = cid" "owned_chat who c0"
    using assms(2) by (auto simp: own_row_def)
  from assms(1,3) obtain c where c: "c \<in> set (db_chats db)" "ch_id c = cm_chat m" "ch_tenant c = cm_tenant m" "ch_user c = cm_user m"
    by (auto simp: chats_wf_def message_homed_def)
  have "c0 = c" using same_id_same_row [OF assms(1) c0(1) c(1)] c0(2) c(2) assms(4) by simp
  with c0(3) c(3,4) show ?thesis by (simp add: owned_msg_def owned_chat_def)
qed

lemma delete_messages_own:
  assumes "chats_wf db" "own_row who cid db" "\<And>m. p m \<Longrightarrow> cm_chat m = cid"
  shows "own_change who db (delete_messages p db)"
proof -
  have "view other (delete_messages p db) = view other db" if "other \<noteq> who" for other
  proof -
    have "\<not> p m" if "m \<in> set (snd (view other db))" for m
      using that \<open>other \<noteq> who\<close> homed_owner [OF assms(1,2), of m] assms(3)
      by (cases other; cases who) (auto simp: view_def owned_msg_def)
    then have "filter (\<lambda>m. \<not> p m) (snd (view other db)) = snd (view other db)" by (simp add: filter_id_conv)
    then show ?thesis by (simp add: view_delete)
  qed
  then show ?thesis using assms(1) by (auto simp: own_change_def chats_wf_def delete_messages_def message_homed_def)
qed

definition drop_chat :: "caller \<Rightarrow> string \<Rightarrow> chat_db \<Rightarrow> chat_db" where
  "drop_chat who cid db = db\<lparr>db_chats := filter (\<lambda>x. \<not> (ch_id x = cid \<and> ch_tenant x = fst who)) (db_chats db)\<rparr>"

lemma view_drop: "view x (drop_chat who cid db) =
    (filter (\<lambda>c. \<not> (ch_id c = cid \<and> ch_tenant c = fst who)) (fst (view x db)), snd (view x db))"
  by (simp add: view_def drop_chat_def conj_commute)

lemma drop_chat_own:
  assumes "chats_wf db" "own_row who cid db" "\<forall>m \<in> set (db_messages db). cm_chat m \<noteq> cid"
  shows "own_change who db (drop_chat who cid db)"
proof -
  have "view other (drop_chat who cid db) = view other db" if "other \<noteq> who" for other
  proof -
    have "ch_id c \<noteq> cid" if "c \<in> set (fst (view other db))" for c
      using others_elsewhere [OF assms(1,2) \<open>other \<noteq> who\<close> that] .
    then have "filter (\<lambda>c. \<not> (ch_id c = cid \<and> ch_tenant c = fst who)) (fst (view other db)) = fst (view other db)"
      by (simp add: filter_id_conv)
    then show ?thesis by (simp add: view_drop)
  qed
  moreover have "message_homed (drop_chat who cid db) m" if "m \<in> set (db_messages db)" for m
    using assms(1,3) that by (fastforce simp: chats_wf_def message_homed_def drop_chat_def)
  ultimately show ?thesis using assms(1) by (auto simp: own_change_def chats_wf_def drop_chat_def distinct_map_filter)
qed


subsection \<open>The handlers\<close>

definition fresh_chat :: "string \<Rightarrow> chat_db \<Rightarrow> bool" where
  "fresh_chat cid db = (cid \<notin> ch_id ` set (db_chats db))"

lemma keeps_rows [simp]:
  "keeps_owner (patched_row b n)" "keeps_owner (replaced_row r n)" "keeps_owner (\<lambda>c. c\<lparr>ch_tool := t\<rparr>)"
  "keeps_owner (\<lambda>c. c\<lparr>ch_name := nm, ch_updated := n\<rparr>)"
  by (simp_all add: keeps_owner_def patched_row_def replaced_row_def Let_def split: option.splits)

lemma create_own:
  assumes "chats_wf db" "fresh_chat i db" "create_chat db i (fst who) (snd who) name tool now = (c, db')"
  shows "own_change who db db' \<and> ch_id c = i \<and> own_row who i db'"
proof -
  from assms(3) have c: "c = \<lparr>ch_id = i, ch_tenant = fst who, ch_user = snd who, ch_name = trimmed name 255,
      ch_tool = trimmed tool 32, ch_pinned = False, ch_updated = now\<rparr>" "db' = db\<lparr>db_chats := db_chats db @ [c]\<rparr>"
    by (auto simp: create_chat_def Let_def)
  have "view other db' = view other db" if "other \<noteq> who" for other
    using that c by (cases other; cases who) (auto simp: view_def owned_chat_def)
  moreover have "chats_wf db'"
    using assms(1,2) c by (auto simp: chats_wf_def fresh_chat_def message_homed_def)
  moreover have "own_row who i db'" using c by (auto simp: own_row_def owned_chat_def)
  ultimately show ?thesis using c(1) by (simp add: own_change_def)
qed

lemma create_view:
  "view who db = view who db' \<Longrightarrow>
   fst (create_chat db i t u name tool now) = fst (create_chat db' i t u name tool now) \<and>
   view who (snd (create_chat db i t u name tool now)) = view who (snd (create_chat db' i t u name tool now))"
  by (simp add: create_chat_def Let_def view_def)

lemma create_handler_own:
  "chats_wf db \<Longrightarrow> fresh_chat (pe_chat_id (ae_turn env)) db \<Longrightarrow> own_change who db (snd (create_chat_handler env who body db))"
  using create_own by (auto simp: create_chat_handler_def own_change_refl split: prod.splits)

lemma patch_handler_own: "chats_wf db \<Longrightarrow> own_change who db (snd (patch_chat_handler env who cid b db))"
  by (auto simp: patch_chat_handler_def Let_def own_change_refl split: sum.splits dest!: find_chat_own intro!: update_own)

lemma put_handler_own:
  assumes "chats_wf db"
  shows "own_change who db (snd (put_chat_handler env who cid b db))"
proof (cases "find_chat db who cid")
  case (Inr c)
  then have c: "ch_id c = cid" "own_row who cid db" using find_chat_own by auto
  let ?d1 = "delete_messages (owned (owner_of who cid)) db"
  let ?d2 = "append_all env (owner_of who cid) 0 (rp_history b) ?d1"
  have d1: "own_change who db ?d1" using assms c(2) by (rule delete_messages_own) (simp add: owned_def owner_of_def)
  have "own_row who cid ?d1" using c(2) by (simp add: own_row_def delete_messages_def)
  from append_all_own [OF own_change_wf [OF d1] this]
  have d2: "own_change who ?d1 ?d2" "own_row who cid ?d2" by auto
  have "own_change who ?d2 (update_chat cid (replaced_row b (ae_now env)) ?d2)"
    by (rule update_own [OF own_change_wf [OF d2(1)] d2(2)]) simp
  with own_change_trans [OF own_change_trans [OF d1 d2(1)]] have
    "own_change who db (update_chat cid (replaced_row b (ae_now env)) ?d2)" .
  with Inr c(1) assms show ?thesis by (simp add: put_chat_handler_def Let_def own_change_refl)
qed (use assms in \<open>simp add: put_chat_handler_def own_change_refl\<close>)

lemma delete_handler_own:
  assumes "chats_wf db"
  shows "own_change who db (snd (delete_chat_handler who cid db))"
proof (cases "find_chat db who cid")
  case (Inr c)
  then have c: "ch_id c = cid" "own_row who cid db" using find_chat_own by auto
  let ?p = "\<lambda>m. cm_chat m = cid \<and> cm_tenant m = fst who"
  let ?d1 = "delete_messages ?p db"
  have d1: "own_change who db ?d1" using assms c(2) by (rule delete_messages_own) simp
  have r: "own_row who cid ?d1" using c(2) by (simp add: own_row_def delete_messages_def)
  have "cm_chat m \<noteq> cid" if "m \<in> set (db_messages ?d1)" for m
    using homed_owner [OF assms c(2), of m] that by (auto simp: delete_messages_def owned_msg_def)
  with drop_chat_own [OF own_change_wf [OF d1] r] own_change_trans [OF d1] have
    "own_change who db (drop_chat who cid ?d1)" by blast
  with Inr c(1) show ?thesis by (simp add: delete_chat_handler_def Let_def drop_chat_def)
qed (use assms in \<open>simp add: delete_chat_handler_def own_change_refl\<close>)

lemma record_handler_own: "chats_wf db \<Longrightarrow> own_change who db (snd (record_created_handler env who b db))"
  by (auto simp: record_created_handler_def Let_def own_change_refl append_own split: sum.splits dest!: find_chat_own)

lemma name_chat_own: "chats_wf db \<Longrightarrow> own_change who db (snd (name_chat env who out db))"
  by (auto simp: name_chat_def own_change_refl split: sum.splits prod.splits dest!: find_chat_own intro!: update_own)

lemma store_answer_steps:
  "store_answer env ow ts ar db = append_message (update_chat (ow_chat ow) (\<lambda>c. c\<lparr>ch_tool := capability_tag ts\<rparr>) db) ow
     (pe_answer_id env) ''assistant'' (assistant_text ar)
     [(''agent_result'', PDict ar), (''raw_output'', PStr (raw_answer ar))] (pe_time env)"
  by (simp add: store_answer_def update_chat_def)

lemma store_answer_own:
  assumes "chats_wf db" "own_row who cid db"
  shows "own_change who db (store_answer env (owner_of who cid) ts ar db)"
proof -
  let ?d = "update_chat cid (\<lambda>c. c\<lparr>ch_tool := capability_tag ts\<rparr>) db"
  have d: "own_change who db ?d" using assms by (rule update_own) simp
  have "own_row who cid ?d" using assms(2) by (intro own_row_update) simp_all
  from append_own [OF own_change_wf [OF d] this] own_change_trans [OF d]
  show ?thesis by (auto simp: store_answer_steps owner_of_def)
qed

lemma open_chat_own:
  assumes "chats_wf db" "fresh_chat (pe_chat_id env) db" "open_chat env (turn_of who cid t ctx) db = Inr (c, db0)"
  shows "own_change who db db0 \<and> own_row who (ch_id c) db0"
proof (cases "cid = None \<or> cid = Some []")
  case True
  with assms(3) have "create_chat db (pe_chat_id env) (fst who) (snd who) None None (pe_time env) = (c, db0)"
    by (auto simp: open_chat_def turn_of_def)
  from create_own [OF assms(1,2) this] show ?thesis by simp
next
  case False
  then obtain i where i: "cid = Some i" "i \<noteq> []" by auto
  with assms(3) have "find_chat db who i = Inr c" "db0 = db"
    by (auto simp: open_chat_def turn_of_def find_chat_def owner_of_def res_bind_Inr)
  with find_chat_own assms(1) show ?thesis by (auto simp: own_change_refl)
qed

lemma process_input_own:
  assumes "chats_wf db" "fresh_chat (pe_chat_id env) db" "process_input env (turn_of who cid t ctx) db w = (r, db', w')"
  shows "own_change who db db'"
proof (cases "open_chat env (turn_of who cid t ctx) db")
  case (Inl e)
  with assms show ?thesis by (simp add: process_input_def own_change_refl)
next
  case (Inr x)
  obtain c db0 where x: "x = (c, db0)" by (cases x)
  note o = open_chat_own [OF assms(1,2) Inr [unfolded x]]
  let ?ow = "owner_of who (ch_id c)"
  note a = append_own [OF own_change_wf [OF conjunct1 [OF o]] conjunct2 [OF o]]
  have "own_change who db (store_answer env ?ow ts ar (append_message db0 ?ow i role content meta now))" for ts ar i role content meta now
    using own_change_trans [OF own_change_trans [OF conjunct1 [OF o] conjunct1 [OF a]]
        store_answer_own [OF own_change_wf [OF conjunct1 [OF a]] conjunct2 [OF a]]] .
  with assms(1,3) Inr x show ?thesis
    by (auto simp: process_input_def Let_def own_change_refl turn_of_def owner_of_def split: prod.splits sum.splits)
qed


subsection \<open>The reply depends on the view\<close>

definition alike :: "caller \<Rightarrow> 'a \<times> chat_db \<Rightarrow> 'a \<times> chat_db \<Rightarrow> bool" where
  "alike who x y = (fst x = fst y \<and> view who (snd x) = view who (snd y))"

lemma find_chat_cong: "view who db = view who db' \<Longrightarrow> find_chat db who cid = find_chat db' who cid"
  by (simp add: find_chat_view)

lemma view_update_cong:
  "keeps_owner f \<Longrightarrow> view who db = view who db' \<Longrightarrow> view who (update_chat cid f db) = view who (update_chat cid f db')"
  by (simp add: view_update)

lemma view_append_cong:
  "view who db = view who db' \<Longrightarrow>
   view who (append_message db ow i role content meta now) = view who (append_message db' ow i role content meta now)"
  by (simp add: view_append)

lemma handlers_alike:
  assumes v: "view who db = view who db'"
  shows "alike who (create_chat_handler env who b db) (create_chat_handler env who b db')"
    and "alike who (get_chat_handler who cid db) (get_chat_handler who cid db')"
    and "alike who (patch_chat_handler env who cid u db) (patch_chat_handler env who cid u db')"
    and "alike who (list_chats_handler who user l db) (list_chats_handler who user l db')"
    and "alike who (delete_chat_handler who cid db) (delete_chat_handler who cid db')"
    and "alike who (record_created_handler env who e db) (record_created_handler env who e db')"
proof -
  note f = find_chat_cong [OF v]
  show "alike who (create_chat_handler env who b db) (create_chat_handler env who b db')"
    using create_view [OF v] by (auto simp: create_chat_handler_def alike_def v case_prod_unfold)
  show "alike who (get_chat_handler who cid db) (get_chat_handler who cid db')"
    using show_chat_cong [OF v] by (simp add: get_chat_handler_def alike_def f v split: sum.splits)
  have "view who (update_chat i (patched_row u n) db) = view who (update_chat i (patched_row u n) db')" for i n
    using v by (rule view_update_cong [rotated]) simp
  with show_chat_cong [OF this] show "alike who (patch_chat_handler env who cid u db) (patch_chat_handler env who cid u db')"
    by (simp add: patch_chat_handler_def alike_def f v Let_def split: sum.splits)
  have "show_chat db who = show_chat db' who" using show_chat_cong [OF v] by (rule ext)
  moreover have "filter (owned_chat who) (db_chats db) = filter (owned_chat who) (db_chats db')" using v by (simp add: view_def)
  ultimately show "alike who (list_chats_handler who user l db) (list_chats_handler who user l db')"
    by (simp add: list_chats_handler_def alike_def v)
  show "alike who (delete_chat_handler who cid db) (delete_chat_handler who cid db')"
    using view_drop [unfolded drop_chat_def] by (simp add: delete_chat_handler_def alike_def f v Let_def view_delete split: sum.splits)
  note l = loaders_cong(1,2) [OF view_owned [OF v]]
  show "alike who (record_created_handler env who e db) (record_created_handler env who e db')"
    by (simp add: record_created_handler_def alike_def f v l Let_def view_append split: sum.splits)
qed

lemma put_alike:
  assumes v: "view who db = view who db'"
  shows "alike who (put_chat_handler env who cid b db) (put_chat_handler env who cid b db')"
proof -
  let ?d = "\<lambda>db c. update_chat (ch_id c) (replaced_row b (ae_now env)) (append_all env (owner_of who (ch_id c)) 0
    (rp_history b) (delete_messages (owned (owner_of who (ch_id c))) db))"
  have d: "view who (?d db c) = view who (?d db' c)" for c
    by (intro view_update_cong view_append_all) (simp_all add: view_delete v)
  have m: "all_messages (?d db c) who i = all_messages (?d db' c) who i" for c i
    using d by (rule all_messages_cong)
  show ?thesis
  proof (cases "find_chat db' who cid")
    case (Inr c)
    with d [of c] m [of c "ch_id c"] v show ?thesis
      by (simp add: put_chat_handler_def alike_def find_chat_cong [OF v] Let_def)
  qed (simp add: put_chat_handler_def alike_def find_chat_cong [OF v] v)
qed

lemma name_chat_alike:
  assumes v: "view who db = view who db'"
  shows "alike who (name_chat env who out db) (name_chat env who out db')"
  by (auto simp: name_chat_def alike_def find_chat_cong [OF v] v view_update split: sum.splits prod.splits)

lemma open_chat_alike:
  assumes v: "view who db = view who db'"
  shows "(\<exists>e. open_chat env (turn_of who cid t ctx) db = Inl e \<and> open_chat env (turn_of who cid t ctx) db' = Inl e) \<or>
    (\<exists>c d d'. open_chat env (turn_of who cid t ctx) db = Inr (c, d) \<and> open_chat env (turn_of who cid t ctx) db' = Inr (c, d')
       \<and> view who d = view who d')"
proof (cases "cid = None \<or> cid = Some []")
  case True
  then have o: "open_chat env (turn_of who cid t ctx) d = Inr (create_chat d (pe_chat_id env) (fst who) (snd who) None None (pe_time env))" for d
    by (auto simp: open_chat_def turn_of_def)
  from create_view [OF v] show ?thesis unfolding o by (metis prod.collapse)
next
  case False
  then obtain i where i: "cid = Some i" "i \<noteq> []" by auto
  then have o: "open_chat env (turn_of who cid t ctx) d = res_bind (find_chat d who i) (\<lambda>c. Inr (c, d))" for d
    by (simp add: open_chat_def turn_of_def find_chat_def owner_of_def)
  show ?thesis unfolding o find_chat_cong [OF v] using v by (cases "find_chat db' who i") auto
qed

definition rest :: "'a \<times> 'b \<times> 'c \<Rightarrow> ('a \<times> 'c) \<times> 'b" where
  "rest x = (case x of (a, b, c) \<Rightarrow> ((a, c), b))"

lemma process_input_alike:
  assumes v: "view who db = view who db'"
  shows "alike who (rest (process_input env (turn_of who cid t ctx) db w)) (rest (process_input env (turn_of who cid t ctx) db' w))"
  using open_chat_alike [OF v, of env cid t ctx]
proof (elim disjE exE conjE)
  fix e
  assume "open_chat env (turn_of who cid t ctx) db = Inl e" "open_chat env (turn_of who cid t ctx) db' = Inl e"
  with v show ?thesis by (simp add: process_input_def alike_def rest_def)
next
  fix c d d'
  assume o: "open_chat env (turn_of who cid t ctx) db = Inr (c, d)" "open_chat env (turn_of who cid t ctx) db' = Inr (c, d')"
    and vd: "view who d = view who d'"
  let ?ow = "owner_of who (ch_id c)"
  have ow: "\<lparr>ow_chat = ch_id c, ow_tenant = ti_tenant (turn_of who cid t ctx), ow_user = ti_user (turn_of who cid t ctx)\<rparr> = ?ow"
    by (simp add: turn_of_def owner_of_def)
  let ?a = "\<lambda>d. append_message d ?ow (pe_user_id env) ''user'' t [] (pe_time env)"
  have va: "view who (?a d) = view who (?a d')" using vd by (rule view_append_cong)
  note l = loaders_cong [OF view_owned [OF vd, of "ch_id c"]]
  have dec: "decide env inp ts cx p (?a d) ?ow w = decide env inp ts cx p (?a d') ?ow w" for inp ts cx p
    by (rule decide_cong, rule loaders_cong(5), rule view_owned, rule va)
  have vs: "view who (store_answer env ?ow ts ar (?a d)) = view who (store_answer env ?ow ts ar (?a d'))" for ts ar
    unfolding store_answer_steps by (intro view_append_cong view_update_cong va) simp
  have lm: "load_messages (store_answer env ?ow ts ar (?a d)) ?ow None = load_messages (store_answer env ?ow ts ar (?a d')) ?ow None" for ts ar
    by (rule load_messages_cong, rule view_owned, rule vs)
  have tx: "ti_text (turn_of who cid t ctx) = t" by (simp add: turn_of_def)
  show ?thesis
    unfolding process_input_def o sum.case prod.case Let_def ow tx l dec
    using v vs lm by (simp add: alike_def rest_def split: sum.splits prod.splits)
qed


section \<open>The tables over time\<close>

text \<open>Requests one after another, each with a fresh identifier for a chat it may create.\<close>

inductive chats_reachable :: "chat_db \<Rightarrow> bool" where
  chats_start: "chats_reachable \<lparr>db_chats = [], db_messages = []\<rparr>"
| chats_step: "chats_reachable db \<Longrightarrow> fresh_chat (pe_chat_id (ae_turn env)) db \<Longrightarrow>
    chat_api env who rq db w = (r, db', w') \<Longrightarrow> chats_reachable db'"

lemma process_handler_own:
  assumes "chats_wf db" "fresh_chat (pe_chat_id (ae_turn env)) db"
    and "process_input_handler env who cid t ctx db w = (r, db', w')"
  shows "own_change who db db'"
proof -
  obtain a d x where p: "process_input (ae_turn env) (turn_of who cid t ctx) db w = (a, d, x)" by (rule prod_cases3)
  note d = process_input_own [OF assms(1,2) p]
  show ?thesis
  proof (cases a)
    case (Inl e)
    with d assms(3) p show ?thesis by (simp add: process_input_handler_def)
  next
    case (Inr out)
    with assms(3) p have "db' = snd (name_chat env who out d)"
      by (auto simp: process_input_handler_def split: prod.splits)
    with own_change_trans [OF d name_chat_own [OF own_change_wf [OF d]]] show ?thesis by simp
  qed
qed

lemma chat_api_simps:
  "chat_api env who (CreateChat b) db w = (fst (create_chat_handler env who b db), snd (create_chat_handler env who b db), w)"
  "chat_api env who (GetChat cid) db w = (fst (get_chat_handler who cid db), snd (get_chat_handler who cid db), w)"
  "chat_api env who (PatchChat cid u) db w = (fst (patch_chat_handler env who cid u db), snd (patch_chat_handler env who cid u db), w)"
  "chat_api env who (ListChats user l) db w = (fst (list_chats_handler who user l db), snd (list_chats_handler who user l db), w)"
  "chat_api env who (PutChat cid p) db w = (fst (put_chat_handler env who cid p db), snd (put_chat_handler env who cid p db), w)"
  "chat_api env who (DeleteChat cid) db w = (fst (delete_chat_handler who cid db), snd (delete_chat_handler who cid db), w)"
  "chat_api env who (RecordCreated e) db w = (fst (record_created_handler env who e db), snd (record_created_handler env who e db), w)"
  "chat_api env who (ProcessInput ocid t ctx) db w = process_input_handler env who ocid t ctx db w"
  by (simp_all add: chat_api_def case_prod_unfold)

lemma readers_keep [simp]:
  "snd (get_chat_handler who cid db) = db" "snd (list_chats_handler who user l db) = db"
  by (simp_all add: get_chat_handler_def list_chats_handler_def split: sum.splits)

lemma chat_api_own:
  assumes "chats_wf db" "fresh_chat (pe_chat_id (ae_turn env)) db" "chat_api env who rq db w = (r, db', w')"
  shows "own_change who db db'"
proof (cases rq)
  case (ProcessInput cid t ctx)
  with process_handler_own [OF assms(1,2)] assms(3) show ?thesis by (simp add: chat_api_simps)
next
  case (CreateChat b)
  with create_handler_own [OF assms(1,2), of who b] assms(3) show ?thesis by (simp add: chat_api_simps)
next
  case (PatchChat cid u)
  with patch_handler_own [OF assms(1), of who env cid u] assms(3) show ?thesis by (simp add: chat_api_simps)
next
  case (PutChat cid p)
  with put_handler_own [OF assms(1), of who env cid p] assms(3) show ?thesis by (simp add: chat_api_simps)
next
  case (DeleteChat cid)
  with delete_handler_own [OF assms(1), of who cid] assms(3) show ?thesis by (simp add: chat_api_simps)
next
  case (RecordCreated e)
  with record_handler_own [OF assms(1), of who env e] assms(3) show ?thesis by (simp add: chat_api_simps)
qed (use own_change_refl [OF assms(1)] assms(3) in \<open>simp_all add: chat_api_simps\<close>)

lemma alikeE: "alike who x y \<Longrightarrow> fst x = fst y \<and> view who (snd x) = view who (snd y)"
  by (simp add: alike_def)

lemma process_handler_alike:
  assumes v: "view who db = view who db'"
  shows "alike who (rest (process_input_handler env who cid t ctx db w)) (rest (process_input_handler env who cid t ctx db' w))"
proof -
  obtain a d x where p: "process_input (ae_turn env) (turn_of who cid t ctx) db w = (a, d, x)" by (rule prod_cases3)
  obtain a' d' x' where p': "process_input (ae_turn env) (turn_of who cid t ctx) db' w = (a', d', x')" by (rule prod_cases3)
  have e: "a' = a" "x' = x" and vd: "view who d = view who d'"
    using process_input_alike [OF v, of "ae_turn env" cid t ctx w] by (simp_all add: p p' alike_def rest_def)
  show ?thesis
  proof (cases a)
    case (Inl e)
    with e vd show ?thesis by (simp add: process_input_handler_def p p' alike_def rest_def)
  next
    case (Inr out)
    obtain n d2 where n: "name_chat env who out d = (n, d2)" by (cases "name_chat env who out d")
    obtain n' d2' where n': "name_chat env who out d' = (n', d2')" by (cases "name_chat env who out d'")
    from name_chat_alike [OF vd, of env out] n n' e Inr show ?thesis
      by (simp add: process_input_handler_def p p' alike_def rest_def)
  qed
qed

lemma chat_api_alike:
  assumes v: "view who db = view who db'"
  shows "alike who (rest (chat_api env who rq db w)) (rest (chat_api env who rq db' w))"
proof (cases rq)
  case (ProcessInput cid t ctx)
  with process_handler_alike [OF v] show ?thesis by (simp add: chat_api_simps)
qed (use alikeE [OF put_alike [OF v]] handlers_alike [OF v, THEN alikeE] v in
    \<open>simp_all add: chat_api_simps rest_def alike_def\<close>)


subsection \<open>The event of a created record\<close>

lemma canonical_fixed:
  assumes "canonical_module_name v \<noteq> ''Products''"
  shows "canonical_module_name (canonical_module_name v) = canonical_module_name v"
proof (cases "py_strip v = []")
  case False
  show ?thesis
  proof (cases "map_of module_aliases (py_lower (py_strip v))")
    case None
    with False show ?thesis by (simp add: canonical_module_name_def dget_default_def Let_def)
  next
    case (Some m)
    with False have m: "canonical_module_name v = m" by (simp add: canonical_module_name_def dget_default_def Let_def)
    have "(py_lower (py_strip v), m) \<in> set module_aliases" using Some by (rule map_of_SomeD)
    with canonical_products_unreachable have "m = ''Products'' \<or> canonical_module_name m = m"
      unfolding list.pred_set by blast
    with m assms show ?thesis by simp
  qed
qed (simp add: canonical_module_name_def)

lemma str_or_PStr [simp]: "str_or (PStr s) = s"
  by (cases s) (simp_all add: str_or_def)

lemma sync_event_read:
  assumes "md \<noteq> []" "rid \<noteq> []" "py_strip rid = rid" "canonical_module_name md = md"
  shows "\<exists>e. created_event (PDict (sync_event b md rid)) = Some e \<and> e \<noteq> [] \<and> pget e ''module'' = PStr md
    \<and> pget e ''record_id'' = PStr rid \<and> map_of e ''module'' = Some (PStr md)"
proof -
  have p: "pget (sync_event b md rid) ''type'' = PStr ''record_created''" "pget (sync_event b md rid) ''module'' = PStr md"
    "pget (sync_event b md rid) ''record_id'' = PStr rid"
    by (simp_all add: sync_event_def pget_Cons)
  have k: "py_lower (text_of (PStr ''record_created'')) = ''record_created''" by code_simp
  have r: "text_of (PStr rid) = rid" using assms(3) by (simp add: text_of_def)
  show ?thesis
    using assms k by (simp add: created_event_def p r Let_def pget_Cons)
qed

lemma sync_agent_result:
  "pget (sync_metadata event message pending) ''agent_result'' = PDict [(''status'', PStr ''crm_sync_record_created''),
     (''message_to_user'', PStr message), (''output'', PStr message), (''crm_sync_event'', PDict event)]"
  by (simp add: sync_metadata_def pget_Cons)

lemma sync_pending:
  assumes "\<forall>m \<in> set (assistant_rows db ow). cm_created m < now"
  shows "load_latest_pending_action (append_message db ow i ''assistant'' message (sync_metadata event message pending) now) ow = None"
  unfolding latest_pending_newest [OF assms sync_agent_result]
  by (simp add: extract_pending_action_def pget_Cons steps_backwards_def dicts_of_def)

lemma sync_latest:
  assumes "\<forall>m \<in> set (assistant_rows db ow). cm_created m < now"
    and "created_event (PDict event) = Some e"
  shows "load_latest_created (append_message db ow i ''assistant'' message (sync_metadata event message pending) now) ow = Some e"
proof -
  have "pget (sync_metadata event message pending) ''crm_sync_event'' = PDict event" by (simp add: sync_metadata_def pget_Cons)
  then have "extract_crm_record_created_event (sync_metadata event message pending) = Some e"
    using assms(2) by (simp add: extract_crm_record_created_event_def)
  then show ?thesis by (simp add: load_latest_created_def assistant_rows_newest [OF assms(1)])
qed

lemma find_touch: "find (\<lambda>c. ch_id c = cid) (map (\<lambda>c. if ch_id c = cid then c\<lparr>ch_updated := now\<rparr> else c) xs)
    = map_option (\<lambda>c. c\<lparr>ch_updated := now\<rparr>) (find (\<lambda>c. ch_id c = cid) xs)"
  by (induction xs) auto

lemma find_chat_append:
  assumes "find_chat db who cid = Inr c"
  shows "find_chat (append_message db (owner_of who cid) i role content meta now) who cid = Inr (c\<lparr>ch_updated := now\<rparr>)"
proof -
  from assms have "find (\<lambda>c. ch_id c = cid) (fst (view who db)) = Some c" by (simp add: find_chat_view split: option.splits)
  then show ?thesis unfolding find_chat_view view_append by (simp add: find_touch owner_of_def)
qed

section \<open>Properties\<close>

text \<open>
  C8: Chats are isolated, a turn included: whatever a caller requests (creating, listing, changing,
  replacing or deleting a chat, an event of the CRM, a whole turn of the agent), the reply, the
  requests sent to the CRM and the caller's own rows after it depend on the database only through
  the rows of that tenant and user, and no row of anyone else is changed.
\<close>

theorem chat_api_isolated:
  assumes "chats_wf db" and "fresh_chat (pe_chat_id (ae_turn env)) db"
    and "view who db = view who db'"
    and "chat_api env who rq db w = (r, d, w1)"
  shows "(\<forall>other. other = who \<or> view other d = view other db) \<and>
    (\<exists>d'. chat_api env who rq db' w = (r, d', w1) \<and> view who d' = view who d)"
proof -
  have "own_change who db d" using chat_api_own [OF assms(1,2,4)] .
  moreover have "alike who (rest (r, d, w1)) (rest (chat_api env who rq db' w))"
    using chat_api_alike [OF assms(3), of env rq w] by (simp add: assms(4))
  ultimately show ?thesis
    by (cases "chat_api env who rq db' w") (auto simp: own_change_def alike_def rest_def)
qed

definition api_row :: "string \<Rightarrow> string \<Rightarrow> chat_row" where
  "api_row cid user = \<lparr>ch_id = cid, ch_tenant = ''t1'', ch_user = user, ch_name = None, ch_tool = None, ch_pinned = False, ch_updated = 1\<rparr>"

definition api_message :: "string \<Rightarrow> string \<Rightarrow> string \<Rightarrow> pydict \<Rightarrow> chat_message" where
  "api_message cid user content meta = \<lparr>cm_id = ''m'' @ cid, cm_chat = cid, cm_tenant = ''t1'', cm_user = user,
     cm_role = ''assistant'', cm_content = content, cm_meta = meta, cm_created = 1\<rparr>"

definition api_chats :: chat_db where
  "api_chats = \<lparr>db_chats = [api_row ''c1'' ''u1'', api_row ''c2'' ''u2''],
     db_messages = [api_message ''c1'' ''u1'' ''Ahoj'' [], api_message ''c2'' ''u2'' ''Tajne'' []]\<rparr>"

definition own_chats :: chat_db where
  "own_chats = \<lparr>db_chats = [api_row ''c1'' ''u1''], db_messages = [api_message ''c1'' ''u1'' ''Ahoj'' []]\<rparr>"

definition demo_api :: api_env where
  "demo_api = \<lparr>ae_turn = demo_pipeline PNone 5, ae_llm = (\<lambda>m t. Inr ''Nazev''), ae_models = (''a'', ''b''),
     ae_ids = (\<lambda>k. ''n'' @ nat_digits k)\<rparr>"

lemma demo_api_now [simp]: "ae_now demo_api = 5" "pe_chat_id (ae_turn demo_api) = ''c9''" "ae_ids demo_api k = ''n'' @ nat_digits k"
  by (simp_all add: demo_api_def demo_pipeline_def)

theorem chat_api_isolated_witness:
  "\<exists>r d w1 d'. chat_api demo_api (''t1'', ''u1'') (ProcessInput (Some ''c1'') ''Ahoj'' []) api_chats demo_world = (r, d, w1)
     \<and> chat_api demo_api (''t1'', ''u1'') (ProcessInput (Some ''c1'') ''Ahoj'' []) own_chats demo_world = (r, d', w1)
     \<and> view (''t1'', ''u2'') d = ([api_row ''c2'' ''u2''], [api_message ''c2'' ''u2'' ''Tajne'' []])"
proof -
  have wf: "chats_wf api_chats" by (simp add: chats_wf_def api_chats_def message_homed_def api_row_def api_message_def)
  have fresh: "fresh_chat (pe_chat_id (ae_turn demo_api)) api_chats" by (simp add: fresh_chat_def api_chats_def api_row_def)
  have same: "view (''t1'', ''u1'') api_chats = view (''t1'', ''u1'') own_chats"
    by (simp add: view_def owned_chat_def owned_msg_def api_chats_def own_chats_def api_row_def api_message_def)
  obtain r d w1 where e: "chat_api demo_api (''t1'', ''u1'') (ProcessInput (Some ''c1'') ''Ahoj'' []) api_chats demo_world = (r, d, w1)"
    by (rule prod_cases3)
  have "view (''t1'', ''u2'') api_chats = ([api_row ''c2'' ''u2''], [api_message ''c2'' ''u2'' ''Tajne'' []])"
    by (simp add: view_def owned_chat_def owned_msg_def api_chats_def api_row_def api_message_def)
  with spec [OF conjunct1 [OF chat_api_isolated [OF wf fresh same e]], of "(''t1'', ''u2'')"]
  have o: "view (''t1'', ''u2'') d = ([api_row ''c2'' ''u2''], [api_message ''c2'' ''u2'' ''Tajne'' []])" by simp
  from chat_api_isolated [OF wf fresh same e] obtain d' where
    "chat_api demo_api (''t1'', ''u1'') (ProcessInput (Some ''c1'') ''Ahoj'' []) own_chats demo_world = (r, d', w1)" by blast
  with e o show ?thesis by blast
qed

text \<open>
  C19: Whatever requests of whatever callers ran before, every chat has one row and every message
  belongs to the tenant and user of an existing chat.
\<close>

theorem chat_tables_invariant:
  assumes "chats_reachable db"
  shows "distinct (map ch_id (db_chats db)) \<and>
    (\<forall>m \<in> set (db_messages db). \<exists>c \<in> set (db_chats db). ch_id c = cm_chat m \<and> ch_tenant c = cm_tenant m \<and> ch_user c = cm_user m)"
proof -
  from assms have "chats_wf db"
  proof induction
    case chats_start
    show ?case by (simp add: chats_wf_def)
  next
    case (chats_step db env who rq w r db' w')
    then show ?case using chat_api_own own_change_wf by blast
  qed
  then show ?thesis by (simp add: chats_wf_def message_homed_def)
qed

theorem chat_tables_invariant_witness:
  "distinct (map ch_id (db_chats \<lparr>db_chats = [api_row ''c9'' ''u1''\<lparr>ch_updated := 5\<rparr>], db_messages = []\<rparr>))"
proof -
  have "chat_api demo_api (''t1'', ''u1'') (CreateChat None) \<lparr>db_chats = [], db_messages = []\<rparr> demo_world =
      (Inr (Created ''c9''), \<lparr>db_chats = [api_row ''c9'' ''u1''\<lparr>ch_updated := 5\<rparr>], db_messages = []\<rparr>, demo_world)"
    by (simp add: chat_api_simps create_chat_handler_def create_chat_def trimmed_def api_row_def Let_def)
  from chats_step [OF chats_start _ this] have "chats_reachable \<lparr>db_chats = [api_row ''c9'' ''u1''\<lparr>ch_updated := 5\<rparr>], db_messages = []\<rparr>"
    by (simp add: fresh_chat_def)
  from chat_tables_invariant [OF this] show ?thesis by blast
qed



definition demo_event :: record_created where
  "demo_event = \<lparr>rc_chat = ''c1'', rc_module = ''meeting'', rc_record = '' r7 '', rc_name = None, rc_message = None, rc_source = None\<rparr>"


text \<open>
  The event also ends a proposal it has nothing to do with: the answer that stores it has no pending
  action, so a proposed update, or the creation of a record of another module, is lost while the
  reply says that no pending action was cleared.
\<close>

lemma other_proposal_lost:
  assumes "record_created_handler env who b db = (Inr (Synced reply), db')"
    and "pget reply ''deduplicated'' = PBool False"
    and "\<forall>m \<in> set (assistant_rows db (owner_of who (rc_chat b))). cm_created m < ae_now env"
    and "load_latest_pending_action db (owner_of who (rc_chat b)) = Some p"
    and "\<not> pending_create_resolved (Some p) (canonical_module_name (rc_module b))"
  shows "pget reply ''pending_action_cleared'' = PBool False \<and> load_latest_pending_action db' (owner_of who (rc_chat b)) = None"
proof -
  from assms(1) obtain c where c: "find_chat db who (rc_chat b) = Inr c"
    by (auto simp: record_created_handler_def Let_def split: sum.splits if_splits)
  then have id: "ch_id c = rc_chat b" using find_chat_own by blast
  from assms(1,2,4,5) c id sync_pending [OF assms(3)] show ?thesis
    by (auto simp: record_created_handler_def Let_def pget_Cons split: if_splits)
qed

text \<open>
  The messages of a replaced history are written in one transaction, so they have the same time
  stamp, and the history is read ordered by time, role and identifier: the turns come back with
  the messages of the user before all answers.
\<close>

definition two_turns :: chat_replace where
  "two_turns = \<lparr>rp_chat = ''c1'', rp_history = map (\<lambda>(r, t). \<lparr>mi_role = r, mi_content = t, mi_meta = []\<rparr>)
     [(''user'', ''a''), (''assistant'', ''b''), (''user'', ''c''), (''assistant'', ''d'')], rp_name = None, rp_tool = None\<rparr>"

lemma replaced_history_reordered:
  "map mi_content (all_messages (snd (put_chat_handler demo_api (''t1'', ''u1'') ''c1'' two_turns own_chats)) (''t1'', ''u1'') ''c1'')
     = [''a'', ''c'', ''b'', ''d'']"
proof -
  have f: "find_chat own_chats (''t1'', ''u1'') ''c1'' = Inr (api_row ''c1'' ''u1'')" by code_simp
  have d: "nat_digits 0 = ''0''" "nat_digits (Suc 0) = ''1''" "nat_digits (Suc (Suc 0)) = ''2''" "nat_digits (Suc (Suc (Suc 0))) = ''3''"
    by code_simp+
  have "snd (put_chat_handler demo_api (''t1'', ''u1'') ''c1'' two_turns own_chats) = update_chat ''c1'' (replaced_row two_turns 5)
      (append_all demo_api (owner_of (''t1'', ''u1'') ''c1'') 0 (rp_history two_turns)
        (delete_messages (owned (owner_of (''t1'', ''u1'') ''c1'')) own_chats))"
    by (simp add: put_chat_handler_def f Let_def) (simp add: two_turns_def api_row_def)
  moreover have "db_messages (delete_messages (owned (owner_of (''t1'', ''u1'') ''c1'')) own_chats) = []"
    by (simp add: own_chats_def delete_messages_def owned_def owner_of_def api_message_def)
  ultimately show ?thesis
    by (simp add: two_turns_def d update_chat_def all_messages_def load_messages_def owner_of_def owned_def
        message_key_def role_order_def chat_message_to_model_def)
qed

text \<open>
  A new chat keeps 32 characters of its list of capabilities, a changed one 128, the length the
  column was widened to: the list of a new chat ends within a name.
\<close>

lemma created_tool_cut:
  "ch_tool (fst (create_chat db i t u None (Some ''briefing,form,products,reports,web'') now)) = Some ''briefing,form,products,reports,w'' \<and>
   ch_tool (patched_row \<lparr>bu_name = None, bu_tool = Some ''briefing,form,products,reports,web'', bu_pinned = None\<rparr> now c)
     = Some ''briefing,form,products,reports,web''"
proof -
  have "py_strip ''briefing,form,products,reports,web'' = ''briefing,form,products,reports,web''" by code_simp
  then show ?thesis by (cases c) (simp add: create_chat_def trimmed_def patched_row_def Let_def)
qed

end
