(* ===== verification/Audio_Upload.thy ===== *)
theory Audio_Upload
  imports Chat_Api
begin

text \<open>
  Spoken input (\<open>app/core/audio_upload.py\<close> and \<open>process_audio\<close> of \<open>app/api/endpoints.py\<close>):
  the format and the size of an upload, its copy in a temporary file, the context that comes as
  form text, the transcription and the turn; and the limit on request bodies before all that.
  Speech recognition is an argument; the file system is a dictionary of paths.
\<close>

section \<open>The format of an upload\<close>

definition content_type_suffixes :: "(string \<times> string) list" where
  "content_type_suffixes = [(''audio/webm'', ''.webm''), (''video/webm'', ''.webm''), (''audio/wav'', ''.wav''),
     (''audio/x-wav'', ''.wav''), (''audio/wave'', ''.wav''), (''audio/mpeg'', ''.mp3''), (''audio/mp3'', ''.mp3''),
     (''audio/mp4'', ''.m4a''), (''audio/x-m4a'', ''.m4a''), (''audio/m4a'', ''.m4a''), (''audio/aac'', ''.aac''),
     (''audio/ogg'', ''.ogg''), (''audio/opus'', ''.ogg''), (''audio/flac'', ''.flac''), (''audio/x-flac'', ''.flac'')]"

definition allowed_suffixes :: "string list" where
  "allowed_suffixes = remdups (map snd content_type_suffixes)"

text \<open>\<open>Path(name).suffix\<close>: from the last dot of the last part, when something stands on both sides of it.\<close>

definition path_name :: "string \<Rightarrow> string" where
  "path_name s = (case filter (\<lambda>p. p \<noteq> [] \<and> p \<noteq> ''.'') (split_all (CHR ''/'') s) of [] \<Rightarrow> [] | ps \<Rightarrow> List.last ps)"

definition path_suffix :: "string \<Rightarrow> string" where
  "path_suffix s = (let name = path_name s;
       ext = rev (takeWhile (\<lambda>c. c \<noteq> CHR ''.'') (rev name))
     in if length ext + 1 < length name \<and> ext \<noteq> [] then CHR ''.'' # ext else [])"

definition resolve_audio_suffix :: "string option \<Rightarrow> string option \<Rightarrow> string result" where
  "resolve_audio_suffix content_type filename =
     (let mime = py_lower (py_strip (fst (split_first (CHR '';'') (case content_type of None \<Rightarrow> [] | Some c \<Rightarrow> c))));
          cand = py_lower (path_suffix (case filename of None \<Rightarrow> [] | Some f \<Rightarrow> f))
      in case map_of content_type_suffixes mime of
           Some s \<Rightarrow> Inr s
         | None \<Rightarrow> if cand \<in> set allowed_suffixes then Inr cand else Inl (HTTPException 415 ''Unsupported audio format''))"

section \<open>The temporary file\<close>

type_synonym files = "(string \<times> string) list"

record audio_upload =
  au_type :: "string option"
  au_name :: "string option"
  au_chunks :: "string result list"

text \<open>The reads of the upload one after another; an empty chunk, or none, is its end.\<close>

fun copy_chunks :: "nat \<Rightarrow> string \<Rightarrow> string result list \<Rightarrow> string result" where
  "copy_chunks limit acc [] = Inr acc"
| "copy_chunks limit acc (Inl e # cs) = Inl e"
| "copy_chunks limit acc (Inr c # cs) =
     (if c = [] then Inr acc
      else if length acc + length c > limit then Inl (HTTPException 413 ''Audio file is too large'')
      else copy_chunks limit (acc @ c) cs)"

text \<open>\<open>stem\<close> is the fresh name \<open>NamedTemporaryFile\<close> puts before the suffix.\<close>

definition save_upload_to_tempfile :: "nat \<Rightarrow> string \<Rightarrow> audio_upload \<Rightarrow> files \<Rightarrow> string result \<times> files" where
  "save_upload_to_tempfile limit stem up fs =
     (case resolve_audio_suffix (au_type up) (au_name up) of
        Inl e \<Rightarrow> (Inl e, fs)
      | Inr suffix \<Rightarrow>
          (let path = stem @ suffix; fs1 = dput path [] fs in
           case copy_chunks limit [] (au_chunks up) of
             Inl e \<Rightarrow> (Inl e, ddel path fs1)
           | Inr d \<Rightarrow> if d = [] then (Inl (HTTPException 400 ''Empty audio file''), ddel path fs1)
               else (Inr path, dput path d fs1)))"

section \<open>The request\<close>

definition context_placeholders :: "string list" where
  "context_placeholders = [''null'', ''undefined'', ''[object object]'']"

text \<open>The parser's own words in the detail are left out.\<close>

definition audio_context :: "string option \<Rightarrow> pydict option result" where
  "audio_context form = (case form of None \<Rightarrow> Inr None | Some t \<Rightarrow>
     (let c = py_strip t in
      if t = [] \<or> py_lower c \<in> set context_placeholders then Inr None
      else (case json_loads c of
          Inr (PDict d) \<Rightarrow> Inr (Some d)
        | Inr PNone \<Rightarrow> Inr None
        | _ \<Rightarrow> Inl (HTTPException 400 ''Invalid context JSON: expected a JSON object string''))))"

record audio_request =
  ar_upload :: audio_upload
  ar_chat :: "string option"
  ar_header_chat :: "string option"
  ar_context :: "string option"

definition audio_chat :: "audio_request \<Rightarrow> string option" where
  "audio_chat rq = (case ar_header_chat rq of Some h \<Rightarrow> if h = [] then ar_chat rq else Some h | None \<Rightarrow> ar_chat rq)"

record audio_env =
  an_api :: api_env
  an_limit :: nat
  an_stem :: string
  an_transcribe :: "string \<Rightarrow> string \<Rightarrow> string result"

text \<open>The temporary file is removed by \<open>finally\<close>, whatever the transcription and the turn did.\<close>

definition process_audio_handler ::
  "audio_env \<Rightarrow> caller \<Rightarrow> audio_request \<Rightarrow> files \<Rightarrow> chat_db \<Rightarrow> turn_world
     \<Rightarrow> (chat_reply \<times> string) result \<times> files \<times> chat_db \<times> turn_world" where
  "process_audio_handler env who rq fs db w = (case audio_context (ar_context rq) of
     Inl e \<Rightarrow> (Inl e, fs, db, w)
   | Inr ctx \<Rightarrow>
       (case save_upload_to_tempfile (an_limit env) (an_stem env) (ar_upload rq) fs of
          (Inl e, fs1) \<Rightarrow> (Inl e, fs1, db, w)
        | (Inr path, fs1) \<Rightarrow>
            (case an_transcribe env path (dget_default fs1 path []) of
               Inl e \<Rightarrow> (Inl e, ddel path fs1, db, w)
             | Inr t \<Rightarrow>
                 (case process_input_handler (an_api env) who (audio_chat rq) t (case ctx of None \<Rightarrow> [] | Some c \<Rightarrow> c) db w of
                    (r, db', w') \<Rightarrow> (res_bind r (\<lambda>reply. Inr (reply, t)), ddel path fs1, db', w')))))"

section \<open>The limit on request bodies\<close>

text \<open>
  \<open>BodySizeLimitMiddleware\<close> around an application: the application receives messages, sends
  messages and ends, or raises; a received body is the number of its bytes.
\<close>

datatype app =
    AppDone
  | AppRaise py_exc
  | Receive "nat result \<Rightarrow> app"
  | Send string app

record limit_state =
  ls_received :: nat
  ls_started :: bool
  ls_sent :: "string list"

definition response_start :: string where "response_start = ''http.response.start''"

definition body_too_large :: py_exc where "body_too_large = OtherError ''_BodyTooLarge''"

definition rejection :: "string list" where
  "rejection = [response_start, ''413'']"

text \<open>The messages the server has for the application; when there is none left it gets an empty body.\<close>

primrec run_app :: "app \<Rightarrow> nat \<Rightarrow> nat list \<Rightarrow> limit_state \<Rightarrow> unit result \<times> limit_state" where
  "run_app AppDone limit ms st = (Inr (), st)"
| "run_app (AppRaise e) limit ms st = (Inl e, st)"
| "run_app (Receive k) limit ms st =
     (let n = (case ms of [] \<Rightarrow> 0 | m # _ \<Rightarrow> m); total = ls_received st + n in
      if total > limit then run_app (k (Inl body_too_large)) limit (tl ms) (st\<lparr>ls_received := total\<rparr>)
      else run_app (k (Inr n)) limit (tl ms) (st\<lparr>ls_received := total\<rparr>))"
| "run_app (Send m a) limit ms st =
     run_app a limit ms (st\<lparr>ls_started := ls_started st \<or> m = response_start, ls_sent := ls_sent st @ [m]\<rparr>)"

definition limit_body :: "nat \<Rightarrow> (string \<times> string) list \<Rightarrow> nat list \<Rightarrow> app \<Rightarrow> unit result \<times> string list" where
  "limit_body limit headers ms a =
     (if list_ex (\<lambda>(n, v). n = ''content-length'' \<and> (case int_of_text v of Some i \<Rightarrow> i > int limit | None \<Rightarrow> False)) headers
      then (Inr (), rejection)
      else (case run_app a limit ms \<lparr>ls_received = 0, ls_started = False, ls_sent = []\<rparr> of
          (r, st) \<Rightarrow> if r = Inl body_too_large
            then (Inr (), ls_sent st @ (if ls_started st then [] else rejection))
            else (r, ls_sent st)))"

section \<open>Lemmas\<close>

lemma suffix_allowed:
  assumes "resolve_audio_suffix ct name = Inr s"
  shows "s \<in> set allowed_suffixes"
proof -
  from assms have "(\<exists>m. map_of content_type_suffixes m = Some s) \<or> s \<in> set allowed_suffixes"
    by (auto simp: resolve_audio_suffix_def Let_def split: option.splits if_splits)
  then show ?thesis by (force simp: allowed_suffixes_def dest!: map_of_SomeD)
qed

lemma copied_bounded: "copy_chunks limit acc cs = Inr d \<Longrightarrow> length acc \<le> limit \<Longrightarrow> length d \<le> limit"
  by (induction limit acc cs rule: copy_chunks.induct) (auto split: if_splits)

lemma saved_upload:
  assumes "save_upload_to_tempfile limit stem up fs = (Inr path, fs')"
  shows "\<exists>d s. path = stem @ s \<and> s \<in> set allowed_suffixes \<and> map_of fs' path = Some d \<and> d \<noteq> [] \<and> length d \<le> limit"
  using assms copied_bounded [of limit "[]"] suffix_allowed
  by (auto simp: save_upload_to_tempfile_def Let_def split: sum.splits if_splits)

definition fresh_stem :: "string \<Rightarrow> files \<Rightarrow> bool" where
  "fresh_stem stem fs = (\<forall>s. map_of fs (stem @ s) = None)"

lemma save_files:
  assumes "save_upload_to_tempfile limit stem up fs = (r, fs')" and "fresh_stem stem fs"
  shows "(case r of Inl e \<Rightarrow> map_of fs' = map_of fs | Inr path \<Rightarrow> map_of (ddel path fs') = map_of fs)"
  using assms by (auto simp: save_upload_to_tempfile_def Let_def fresh_stem_def fun_eq_iff split: sum.splits if_splits)


lemma failed_input_keeps:
  assumes "process_input_handler env who cid t ctx db w = (Inl e, db', w')"
  shows "db' = db"
proof -
  obtain a d x where p: "process_input (ae_turn env) (turn_of who cid t ctx) db w = (a, d, x)" by (rule prod_cases3)
  with assms have "a = Inl e" "d = db'" by (auto simp: process_input_handler_def split: sum.splits prod.splits)
  with p show ?thesis by (auto simp: process_input_def Let_def split: sum.splits prod.splits)
qed

text \<open>The limit is not noticed by a request that stays within it.\<close>

lemma run_app_within:
  "ls_received st + sum_list ms \<le> limit \<Longrightarrow> limit \<le> limit2 \<Longrightarrow> run_app a limit ms st = run_app a limit2 ms st"
proof (induction a arbitrary: ms st)
  case (Receive k)
  then show ?case by (cases ms) (auto simp: Let_def)
qed simp_all

lemma limit_transparent:
  assumes "sum_list ms \<le> limit" "limit \<le> limit2" and "\<forall>(n, v) \<in> set headers. n \<noteq> ''content-length''"
  shows "limit_body limit headers ms a = limit_body limit2 headers ms a"
proof -
  have "\<not> list_ex (\<lambda>(n, v). n = ''content-length'' \<and> (case int_of_text v of Some i \<Rightarrow> i > int l | None \<Rightarrow> False)) headers" for l
    using assms(3) by (auto simp: list_ex_iff)
  moreover have "run_app a limit ms \<lparr>ls_received = 0, ls_started = False, ls_sent = []\<rparr>
      = run_app a limit2 ms \<lparr>ls_received = 0, ls_started = False, ls_sent = []\<rparr>"
    using assms(1,2) by (intro run_app_within) simp_all
  ultimately show ?thesis by (simp add: limit_body_def)
qed

section \<open>Properties\<close>


definition demo_audio :: audio_env where
  "demo_audio = \<lparr>an_api = demo_api, an_limit = 4, an_stem = ''/tmp/x'', an_transcribe = (\<lambda>p d. Inl (OtherError ''decode''))\<rparr>"

definition demo_spoken :: "string \<Rightarrow> audio_request" where
  "demo_spoken sound = \<lparr>ar_upload = \<lparr>au_type = None, au_name = Some ''a.OGG'', au_chunks = [Inr sound, Inr []]\<rparr>,
     ar_chat = None, ar_header_chat = Some ''c1'', ar_context = Some '' [object Object] ''\<rparr>"


end
