(* ===== verification/Recommend.thy ===== *)
theory Recommend
  imports Agent_Turn
begin

text \<open>
  Follow-up actions after a meeting or a call (\<open>app/engine/recommendations.py\<close>): a run of the
  agent over the tools that read, and the list of actions read from its answer. The language
  model and \<open>json_repair\<close> are those of the turn's libraries.
\<close>

section \<open>The answer\<close>

text \<open>\<open>text.rfind(c)\<close> and \<open>text.find(c)\<close> of one character.\<close>

definition last_index :: "char \<Rightarrow> string \<Rightarrow> nat option" where
  "last_index c s = (if c \<in> set s then Some (length s - 1 - length (takeWhile (\<lambda>x. x \<noteq> c) (rev s))) else None)"

definition first_index :: "char \<Rightarrow> string \<Rightarrow> nat option" where
  "first_index c s = (if c \<in> set s then Some (length (takeWhile (\<lambda>x. x \<noteq> c) s)) else None)"

definition between :: "char \<Rightarrow> char \<Rightarrow> string \<Rightarrow> string option" where
  "between a b s = (case (first_index a s, last_index b s) of
     (Some i, Some j) \<Rightarrow> if i < j then Some (take (j + 1 - i) (drop i s)) else None
   | _ \<Rightarrow> None)"

definition repaired_array :: "(string \<Rightarrow> py result) \<Rightarrow> string \<Rightarrow> pydict list" where
  "repaired_array repair t = (case between (CHR ''['') (CHR '']'') t of None \<Rightarrow> []
   | Some c \<Rightarrow> (case repair c of Inr (PList xs) \<Rightarrow> dicts_of xs | _ \<Rightarrow> []))"

definition extract_json_array :: "(string \<Rightarrow> py result) \<Rightarrow> string \<Rightarrow> pydict list" where
  "extract_json_array repair raw = (let t = py_strip raw in
     if t = [] then []
     else (case json_loads t of
         Inr (PList xs) \<Rightarrow> dicts_of xs
       | Inr (PDict d) \<Rightarrow> (case pget d ''actions'' of PList xs \<Rightarrow> dicts_of xs | _ \<Rightarrow> repaired_array repair t)
       | _ \<Rightarrow> repaired_array repair t))"

section \<open>An action\<close>

definition action_type :: "pydict \<Rightarrow> string" where
  "action_type item = (let t = py_lower (py_strip (py_str (por (pget item ''type'') (PStr ''task'')))) in
     if t = ''task'' \<or> t = ''call'' then t else ''task'')"

text \<open>\<open>int(due_in_days)\<close>; only \<open>TypeError\<close> and \<open>ValueError\<close> are caught.\<close>

definition due_days :: "pydict \<Rightarrow> py result" where
  "due_days item = (case py_int (pget item ''due_in_days'') of
     Inr i \<Rightarrow> Inr (PInt i)
   | Inl (TypeError m) \<Rightarrow> Inr PNone
   | Inl (ValueError m) \<Rightarrow> Inr PNone
   | Inl e \<Rightarrow> Inl e)"

definition normalize_action :: "pydict \<Rightarrow> pydict option result" where
  "normalize_action item = (let title = text_of (pget item ''title'') in
     if title = [] then Inr None
     else res_bind (due_days item) (\<lambda>due. Inr (Some
       [(''type'', PStr (action_type item)), (''title'', PStr title), (''description'', PStr (text_of (pget item ''description''))),
        (''due_in_days'', due), (''reasoning'', PStr (text_of (pget item ''reasoning'')))])))"

definition suggested_actions :: "(string \<Rightarrow> py result) \<Rightarrow> string \<Rightarrow> pydict list result" where
  "suggested_actions repair raw = res_bind (res_map normalize_action (extract_json_array repair raw))
     (\<lambda>xs. Inr (take 4 (List.map_filter id xs)))"

section \<open>The run\<close>

definition recommend_text :: "string \<Rightarrow> string \<Rightarrow> string \<Rightarrow> string" where
  "recommend_text md rid t = ''Zdrojovy zaznam: '' @ md @ '' ('' @ rid @ '').'' @ nl @
     ''Prepis / poznamka ze schuzky nebo hovoru:'' @ nl @ py_strip t"

text \<open>The toolset is built for the capabilities \<open>crm\<close> and \<open>web\<close>; of its tools those that read are offered.\<close>

definition recommend_capabilities :: "string set" where
  "recommend_capabilities = {''crm'', ''web''}"

definition offered_to_read :: "toolset \<Rightarrow> string \<Rightarrow> bool" where
  "offered_to_read ts n = (is_read_only ts n \<or> n = contact_tool_name \<and> contact_ready ts \<and> map_of (st_crm ts) n = None)"

definition recommend_env ::
  "turn_libs \<Rightarrow> (nat \<Rightarrow> call_env) \<Rightarrow> pydict \<Rightarrow> string \<Rightarrow> toolset \<Rightarrow> nat \<Rightarrow> turn_world agent_env" where
  "recommend_env libs envs ctx input ts limit = (let env = turn_env libs envs ctx input ts False limit in
     env\<lparr>ag_tools := filter (\<lambda>t. offered_to_read ts (fst t)) (ag_tools env)\<rparr>)"

record recommend_input =
  rq_tenant_id :: string
  rq_user_id :: string
  rq_module :: string
  rq_record_id :: string
  rq_text :: string
  rq_context :: pydict

record recommend_libs =
  rl_libs :: turn_libs
  rl_calls :: "nat \<Rightarrow> call_env"
  rl_schema :: "string \<Rightarrow> string option \<Rightarrow> py result"
  rl_natives :: "string set \<Rightarrow> (string \<times> native_tool) list"
  rl_manifest :: "manifest option"
  rl_prompt :: string
  rl_limit :: nat

definition recommend_toolset :: "recommend_libs \<Rightarrow> recommend_input \<Rightarrow> toolset" where
  "recommend_toolset L q = build_toolset (rq_tenant_id q) (rq_context q) (rl_schema L) (rl_natives L)
     (Some recommend_capabilities) (rl_manifest L)"

definition recommend_actions :: "recommend_libs \<Rightarrow> recommend_input \<Rightarrow> turn_world \<Rightarrow> pydict list result \<times> turn_world" where
  "recommend_actions L q w =
     (let input = recommend_text (rq_module q) (rq_record_id q) (rq_text q) in
      case run_agent (recommend_env (rl_libs L) (rl_calls L) (rq_context q) input (recommend_toolset L q) (rl_limit L))
             (initial_messages (rl_prompt L) [] input (rq_context q) (rq_user_id q)) w of
        (r, st) \<Rightarrow> (res_bind r (suggested_actions (tl_repair (rl_libs L))), st_world st))"

section \<open>Lemmas\<close>

lemma recommend_env_keeps: "keeps_world (recommend_env libs envs ctx input ts limit) (harmless_world ts)"
  using turn_env_keeps [of libs envs ctx input ts False limit]
  by (auto simp: keeps_world_def recommend_env_def Let_def)

definition proper_action :: "pydict \<Rightarrow> bool" where
  "proper_action a = ((pget a ''type'' = PStr ''task'' \<or> pget a ''type'' = PStr ''call'') \<and>
     (\<exists>t. pget a ''title'' = PStr t \<and> t \<noteq> [] \<and> py_strip t = t) \<and>
     (pget a ''due_in_days'' = PNone \<or> (\<exists>i. pget a ''due_in_days'' = PInt i)))"

lemma due_days_shape: "due_days item = Inr d \<Longrightarrow> d = PNone \<or> (\<exists>i. d = PInt i)"
  by (auto simp: due_days_def split: sum.splits py_exc.splits)

lemma normalize_action_proper:
  assumes "normalize_action item = Inr (Some a)"
  shows "proper_action a"
proof -
  from assms obtain d where d: "due_days item = Inr d" "text_of (pget item ''title'') \<noteq> []"
    "a = [(''type'', PStr (action_type item)), (''title'', PStr (text_of (pget item ''title''))),
      (''description'', PStr (text_of (pget item ''description''))), (''due_in_days'', d), (''reasoning'', PStr (text_of (pget item ''reasoning'')))]"
    by (auto simp: normalize_action_def Let_def res_bind_Inr split: if_splits)
  have "action_type item = ''task'' \<or> action_type item = ''call''" by (simp add: action_type_def Let_def)
  moreover have "py_strip (text_of v) = text_of v" for v by (simp add: text_of_def)
  ultimately show ?thesis using d due_days_shape [OF d(1)] by (auto simp: proper_action_def pget_Cons)
qed

lemma suggested_proper:
  assumes "suggested_actions repair raw = Inr as"
  shows "length as \<le> 4 \<and> (\<forall>a \<in> set as. proper_action a)"
proof -
  from assms obtain xs where xs: "res_map normalize_action (extract_json_array repair raw) = Inr xs"
    "as = take 4 (List.map_filter id xs)" by (auto simp: suggested_actions_def res_bind_Inr)
  have "proper_action a" if "a \<in> set as" for a
  proof -
    from that xs(2) have "a \<in> set (List.map_filter id xs)" by (auto dest: in_set_takeD)
    then have "Some a \<in> set xs" by (auto simp: List.map_filter_def)
    from res_map_set [OF xs(1) this] normalize_action_proper show ?thesis by blast
  qed
  with xs(2) show ?thesis by simp
qed

section \<open>Properties\<close>


definition demo_recommend_libs :: recommend_libs where
  "demo_recommend_libs = \<lparr>rl_libs = demo_turn_libs\<lparr>tl_model := (\<lambda>ms n.
       ([quoted ''<answer>[{|title|: | Volat|, |type|: |CALL|}]</answer>''], False))\<rparr>,
     rl_calls = (\<lambda>_. demo_env), rl_schema = (\<lambda>m r. Inl (OtherError ''x'')), rl_natives = (\<lambda>_. []),
     rl_manifest = None, rl_prompt = [], rl_limit = 1\<rparr>"

definition demo_recommend :: recommend_input where
  "demo_recommend = \<lparr>rq_tenant_id = ''t1'', rq_user_id = ''u1'', rq_module = ''Meetings'', rq_record_id = ''m1'',
     rq_text = ''x'', rq_context = []\<rparr>"


text \<open>
  A number of days that is infinite, which JSON readers accept, raises an exception that is not
  caught, and all suggestions of the answer are lost with it.
\<close>

lemma infinite_days_raise:
  "suggested_actions repair ''[{\"title\": \"a\"}, {\"title\": \"b\", \"due_in_days\": Infinity}]''
     = Inl (OverflowError ''cannot convert float infinity to integer'')"
  by code_simp

end
