(* ===== verification/Form_Extract.thy ===== *)
theory Form_Extract
  imports Recommend
begin

text \<open>
  The tools that fill the open form (\<open>extract_fields\<close> of \<open>app/engine/extraction.py\<close>,
  \<open>app/engine/company_research.py\<close>, \<open>build_form_tools\<close> of \<open>app/engine/form_tools.py\<close>): a run of
  the agent with a few named tools, the answer read as an object, its fields and rows checked
  against the schema of the module, the products of the rows linked, and the form patch. The
  prompts and the fetch of the schema are arguments.
\<close>

section \<open>The answer\<close>

definition repaired_object :: "(string \<Rightarrow> py result) \<Rightarrow> string \<Rightarrow> pydict" where
  "repaired_object repair t = (case between (CHR ''{'') (CHR ''}'') t of None \<Rightarrow> []
   | Some c \<Rightarrow> (case repair c of Inr (PDict d) \<Rightarrow> d | _ \<Rightarrow> []))"

definition extract_json_object :: "(string \<Rightarrow> py result) \<Rightarrow> string \<Rightarrow> pydict" where
  "extract_json_object repair raw = (let t = py_strip raw in
     if t = [] then [] else (case json_loads t of Inr (PDict d) \<Rightarrow> d | _ \<Rightarrow> repaired_object repair t))"

text \<open>\<open>field_schema.get\<close> on a reply of the CRM that may be anything.\<close>

definition schema_dict :: "py \<Rightarrow> pydict result" where
  "schema_dict v = (case v of PDict d \<Rightarrow> Inr d | _ \<Rightarrow> Inl (AttributeError ''get''))"

definition checked_fields :: "pydict \<Rightarrow> py \<Rightarrow> pydict result" where
  "checked_fields parsed schema = (case pget parsed ''fields'' of
     PDict d \<Rightarrow> res_bind (schema_dict schema) (validate_fields (PDict d))
   | _ \<Rightarrow> Inr [])"

section \<open>A run with named tools\<close>

definition named_env :: "recommend_libs \<Rightarrow> string \<Rightarrow> toolset \<Rightarrow> string list \<Rightarrow> turn_world agent_env" where
  "named_env L input ts names = (let env = turn_env (rl_libs L) (rl_calls L) [] input ts False (rl_limit L) in
     env\<lparr>ag_tools := filter (\<lambda>t. fst t \<in> set names) (ag_tools env)\<rparr>)"

definition reading_run ::
  "recommend_libs \<Rightarrow> string \<Rightarrow> string \<Rightarrow> py list \<Rightarrow> string list \<Rightarrow> toolset \<Rightarrow> turn_world \<Rightarrow> string result \<times> turn_world" where
  "reading_run L user input history names ts w =
     (case run_agent (named_env L input ts names) (initial_messages (rl_prompt L) history input [] user) w of
        (r, st) \<Rightarrow> (r, st_world st))"

section \<open>Fields from a text\<close>

record form_request =
  fr_tenant :: string
  fr_user :: string
  fr_module :: string
  fr_record :: "string option"

definition record_or_new :: "string option \<Rightarrow> string" where
  "record_or_new r = sor (case r of None \<Rightarrow> [] | Some s \<Rightarrow> s) ''(novy zaznam)''"

definition schema_text :: "py \<Rightarrow> pydict \<Rightarrow> string" where
  "schema_text schema vs = ''Schema poli (JSON): '' @ json_text json_readable schema @ nl @
     ''Aktualni hodnoty poli (JSON): '' @ json_text json_readable (PDict vs)"

definition extract_text :: "form_request \<Rightarrow> py \<Rightarrow> pydict \<Rightarrow> string" where
  "extract_text rq schema vs = ''Modul: '' @ fr_module rq @ ''. ID zaznamu: '' @ record_or_new (fr_record rq) @ ''.'' @ nl @
     schema_text schema vs"

definition history_items :: "py list \<Rightarrow> py list" where
  "history_items ms = map (\<lambda>d. PDict [(''role'', PStr (py_str (por (pget d ''role'') (PStr ''user'')))),
       (''content'', PStr (str_or (pget d ''content'')))]) (filter (\<lambda>d. truthy (pget d ''content'')) (dicts_of ms))"

definition extract_allowed_tools :: "string list" where
  "extract_allowed_tools = [''rag_search_tool'', ''crm_query_tool'', ''get_company_overview'', ''product_lookup_tool'']"

definition extract_toolset :: "recommend_libs \<Rightarrow> form_request \<Rightarrow> toolset" where
  "extract_toolset L rq = build_toolset (fr_tenant rq) [] (rl_schema L) (rl_natives L) (Some {''crm'', ''products''}) (rl_manifest L)"

text \<open>\<open>toolset.invoke\<close> of the catalog lookup, outside the loop of the agent.\<close>

definition catalog_lookup :: "recommend_libs \<Rightarrow> toolset \<Rightarrow> string \<Rightarrow> turn_world \<Rightarrow> py result option \<times> turn_world" where
  "catalog_lookup L ts q w =
     (case turn_invoke (rl_calls L) ts ''product_lookup_tool'' [(''query'', PStr q), (''limit'', PInt 5)] w of
        (Answered t, w1) \<Rightarrow> (Some (json_loads t), w1)
      | (Failed e, w1) \<Rightarrow> (Some (Inl e), w1)
      | (Abandoned, w1) \<Rightarrow> (None, w1))"

definition links_products :: "pydict option \<Rightarrow> bool result" where
  "links_products lf = (case lf of None \<Rightarrow> Inr False
   | Some f \<Rightarrow> res_bind (iter_dicts (pget f ''line_fields''))
       (\<lambda>fs. Inr (list_ex (\<lambda>x. pget x ''name'' = PStr ''product_template_id'') fs)))"

definition extract_message :: "pydict \<Rightarrow> string list \<Rightarrow> pydict list \<Rightarrow> string" where
  "extract_message parsed unresolved dropped =
     sor (text_of (pget parsed ''message'')) ''Aktualizoval(a) jsem pole podle vlozeneho textu.'' @
     (if unresolved = [] then []
      else '' (produkt se nepodarilo jednoznacne priradit z katalogu: '' @ py_join ''; '' (take 3 unresolved) @ '')'') @
     (if dropped = [] then []
      else '' ('' @ py_str (PInt (int (length dropped))) @ '' radku vynechano: ''
        @ py_join ''; '' (map (\<lambda>d. py_str (pget d ''reason'')) (take 3 dropped)) @ '')'')"

text \<open>The checks of the parsed answer: the fields, the rows kept and dropped, and whether rows are linked.\<close>

definition checked_answer :: "pydict \<Rightarrow> py \<Rightarrow> (pydict \<times> pydict list \<times> pydict list \<times> bool) result" where
  "checked_answer parsed schema =
     res_bind (checked_fields parsed schema) (\<lambda>flds.
     res_bind (schema_dict schema) (\<lambda>s.
     res_bind (line_field_from_schema s) (\<lambda>lf.
     res_bind (validate_line_rows (pget parsed ''lines'') lf) (\<lambda>(rows, dropped).
     res_bind (links_products lf) (\<lambda>links. Inr (flds, rows, dropped, links))))))"

definition extracted :: "recommend_libs \<Rightarrow> toolset \<Rightarrow> py \<Rightarrow> string \<Rightarrow> turn_world \<Rightarrow> pydict result \<times> turn_world" where
  "extracted L ts schema raw w =
     (let parsed = extract_json_object (tl_repair (rl_libs L)) raw in
      case checked_answer parsed schema of
        Inl e \<Rightarrow> (Inl e, w)
      | Inr (flds, rows, dropped, links) \<Rightarrow>
          (case (if links then resolve_product_rows (catalog_lookup L ts) rows w else (Inr (rows, []), w)) of
             (r, w') \<Rightarrow> (res_bind r (\<lambda>(rows', unresolved). Inr
                [(''message'', PStr (extract_message parsed unresolved dropped)), (''fields'', PDict flds),
                 (''lines'', PDict [(''rows'', PList (map PDict rows')), (''dropped'', PList (map PDict dropped))])]), w')))"

definition extract_fields ::
  "recommend_libs \<Rightarrow> form_request \<Rightarrow> py \<Rightarrow> pydict \<Rightarrow> py list \<Rightarrow> turn_world \<Rightarrow> pydict result \<times> turn_world" where
  "extract_fields L rq schema vs messages w =
     (let ts = extract_toolset L rq; input = extract_text rq schema vs in
      case reading_run L (fr_user rq) input (history_items messages) extract_allowed_tools ts w of
        (Inl e, w1) \<Rightarrow> (Inl e, w1)
      | (Inr raw, w1) \<Rightarrow> extracted L (guarded_toolset input ts) schema raw w1)"

section \<open>Fields from the web\<close>

definition research_allowed_tools :: "string list" where
  "research_allowed_tools = [''web_search_tool'', ''web_fetch_tool'', ''crm_query_tool'', ''get_company_overview'']"

definition research_toolset :: "recommend_libs \<Rightarrow> form_request \<Rightarrow> toolset" where
  "research_toolset L rq = build_toolset (fr_tenant rq) [(''web_search'', PBool True)] (rl_schema L) (rl_natives L)
     (Some {''crm'', ''web''}) (rl_manifest L)"

definition research_text :: "form_request \<Rightarrow> string \<Rightarrow> string \<Rightarrow> string option \<Rightarrow> py \<Rightarrow> pydict \<Rightarrow> string" where
  "research_text rq label subject hint schema vs =
     label @ '': '' @ py_strip subject @ ''.'' @ nl @ ''ID zaznamu: '' @ record_or_new (fr_record rq) @ ''.'' @ nl @
     (case hint of None \<Rightarrow> [] | Some h \<Rightarrow> if h = [] then [] else ''Doplnujici info od uzivatele: '' @ h @ nl) @
     schema_text schema vs"

definition is_plain :: "py \<Rightarrow> bool" where
  "is_plain v = (case v of PStr _ \<Rightarrow> True | PInt _ \<Rightarrow> True | PBool _ \<Rightarrow> True | PFloat _ \<Rightarrow> True | _ \<Rightarrow> False)"

definition source_list :: "pydict \<Rightarrow> string list result" where
  "source_list parsed = res_bind (iter_or_empty (pget parsed ''sources'')) (\<lambda>xs. Inr (take 10 (map py_str (filter is_plain xs))))"

definition researched :: "(string \<Rightarrow> py result) \<Rightarrow> py \<Rightarrow> string \<Rightarrow> pydict result" where
  "researched repair schema raw = (let parsed = extract_json_object repair raw in
     res_bind (checked_fields parsed schema) (\<lambda>flds.
     res_bind (source_list parsed) (\<lambda>sources. Inr
       [(''message'', PStr (sor (text_of (pget parsed ''message'')) ''Nenasel(a) jsem k teto firme zadne pouzitelne verejne informace.'')),
        (''fields'', PDict flds), (''sources'', PList (map PStr sources))])))"

definition research_company ::
  "recommend_libs \<Rightarrow> form_request \<Rightarrow> string \<Rightarrow> string \<Rightarrow> string option \<Rightarrow> py \<Rightarrow> pydict \<Rightarrow> turn_world \<Rightarrow> pydict result \<times> turn_world" where
  "research_company L rq label subject hint schema vs w =
     (let input = research_text rq label subject hint schema vs in
      case reading_run L (fr_user rq) input [] research_allowed_tools (research_toolset L rq) w of
        (r, w1) \<Rightarrow> (res_bind r (researched (tl_repair (rl_libs L)) schema), w1))"

section \<open>The tools of the form\<close>

definition current_values :: "pydict \<Rightarrow> pydict" where
  "current_values ctx = (case pget ctx ''form'' of PDict form \<Rightarrow> dict_or_empty (pget form ''values'') | _ \<Rightarrow> [])"

definition subject_labels :: "(string \<times> string) list" where
  "subject_labels = [(''accounts'', ''Firma''), (''leads'', ''Firma''), (''producttemplates'', ''Produkt''), (''products'', ''Produkt'')]"

definition subject_label :: "string \<Rightarrow> string" where
  "subject_label md = (case map_of subject_labels (py_lower md) of None \<Rightarrow> ''Subjekt'' | Some l \<Rightarrow> l)"

definition patch_reply :: "pydict \<Rightarrow> py" where
  "patch_reply patch = PDict [(''status'', PStr ''ok''), (''form_patch'', PDict patch), (''message_to_user'', pget patch ''message'')]"

definition misrouted :: "string \<Rightarrow> string \<Rightarrow> string \<Rightarrow> bool" where
  "misrouted md t user_input = (py_lower md = ''accounts'' \<and> contact_form_misroute t user_input)"

text \<open>\<open>ctx\<close> and \<open>user_input\<close> are those of the chat turn the tool is called in.\<close>

definition propose_form_fields ::
  "recommend_libs \<Rightarrow> pydict \<Rightarrow> string \<Rightarrow> form_request \<Rightarrow> string \<Rightarrow> turn_world \<Rightarrow> py result \<times> turn_world" where
  "propose_form_fields L ctx user_input rq instructions w =
     (if misrouted (fr_module rq) instructions user_input then (Inr (PDict related_contacts_response), w)
      else (case rl_schema L (fr_module rq) (fr_record rq) of
        Inl e \<Rightarrow> (Inr (form_unavailable (fr_module rq)), w)
      | Inr schema \<Rightarrow>
          (case extract_fields L rq schema (current_values ctx) [PDict [(''role'', PStr ''user''), (''content'', PStr instructions)]] w of
             (r, w') \<Rightarrow> (res_bind r (\<lambda>d. res_bind (line_module schema) (\<lambda>lm.
                res_bind (build_form_patch (fr_module rq) (fr_record rq) (dict_or_empty (pget d ''fields'')) schema []
                  (str_or (pget d ''message'')) (dict_or_empty (pget d ''lines'')) lm) (\<lambda>patch. Inr (patch_reply patch)))), w'))))"

definition research_record ::
  "recommend_libs \<Rightarrow> pydict \<Rightarrow> string \<Rightarrow> form_request \<Rightarrow> string \<Rightarrow> string option \<Rightarrow> turn_world \<Rightarrow> py result \<times> turn_world" where
  "research_record L ctx user_input rq subject hint w =
     (if misrouted (fr_module rq) (case hint of None \<Rightarrow> [] | Some h \<Rightarrow> h) user_input then (Inr (PDict related_contacts_response), w)
      else (case rl_schema L (fr_module rq) (fr_record rq) of
        Inl e \<Rightarrow> (Inr (form_unavailable (fr_module rq)), w)
      | Inr schema \<Rightarrow>
          (case research_company L rq (subject_label (fr_module rq)) subject hint schema (current_values ctx) w of
             (r, w') \<Rightarrow> (res_bind r (\<lambda>d.
                res_bind (build_form_patch (fr_module rq) (fr_record rq) (dict_or_empty (pget d ''fields'')) schema
                  (case pget d ''sources'' of PList xs \<Rightarrow> xs | _ \<Rightarrow> []) (str_or (pget d ''message'')) [] PNone)
                  (\<lambda>patch. Inr (patch_reply patch))), w'))))"

section \<open>Lemmas\<close>

lemma built_spec:
  assumes "map_of (st_crm (build_toolset tenant ctx sch natives caps m)) n = Some spec"
  shows "\<exists>mf. m = Some mf \<and> spec \<in> set (mf_tools mf)"
proof -
  let ?ts = "build_toolset tenant ctx sch natives caps m"
  from build_toolset_specs(1) [OF refl, of tenant ctx sch natives caps m] obtain d0
    where "collect_specs (map fst (st_native ?ts)) (st_enabled ?ts) (case m of None \<Rightarrow> [] | Some mf \<Rightarrow> mf_tools mf) ([], [])
      = (st_crm ?ts, d0)" by blast
  from collect_specs_sound [OF this assms] show ?thesis by (auto split: option.splits)
qed

text \<open>What the requests of a run may be, whatever its toolset was.\<close>

definition manifest_reads :: "manifest option \<Rightarrow> turn_world \<Rightarrow> bool" where
  "manifest_reads m w = (\<forall>rq \<in> set (tw_requests w). rq_token rq = None \<and>
     (\<exists>mf spec. m = Some mf \<and> spec \<in> set (mf_tools mf) \<and> rq_tool rq = ts_name spec \<and>
       (rq_mode rq = Execute \<longrightarrow> read_only (ts_annotations spec))))"

lemma manifest_reads_harmless:
  "harmless_world (build_toolset tenant ctx sch natives caps m) w \<Longrightarrow> manifest_reads m w"
  using built_spec by (fastforce simp: harmless_world_def harmless_def manifest_reads_def)

lemma no_requests_harmless: "tw_requests w = [] \<Longrightarrow> harmless_world ts w"
  by (simp add: harmless_world_def)

lemma no_requests_reads: "tw_requests w = [] \<Longrightarrow> manifest_reads m w"
  by (simp add: manifest_reads_def)

lemma named_env_keeps: "keeps_world (named_env L input ts names) (harmless_world ts)"
  using turn_env_keeps [of "rl_libs L" "rl_calls L" "[]" input ts False "rl_limit L"]
  by (auto simp: keeps_world_def named_env_def Let_def)

lemma reading_run_keeps:
  assumes "harmless_world ts w"
  shows "harmless_world ts (snd (reading_run L user input history names ts w))"
  using run_agent_world [OF named_env_keeps assms] by (simp add: reading_run_def split: prod.splits) (metis snd_conv)

lemma catalog_lookup_keeps:
  assumes "harmless_world ts w"
  shows "harmless_world ts (snd (catalog_lookup L ts q w))"
  using turn_invoke_keeps [of ts "rl_calls L" "''product_lookup_tool''"] assms
  by (auto simp: catalog_lookup_def tool_keeps_def split: prod.splits tool_end.splits) (metis snd_conv)+

lemma extracted_keeps:
  assumes "harmless_world ts w"
  shows "harmless_world ts (snd (extracted L ts schema raw w))"
  using assms resolve_rows_keep [where I = "harmless_world ts" and lookup = "catalog_lookup L ts", OF catalog_lookup_keeps]
  by (auto simp: extracted_def Let_def split: sum.splits prod.splits) (metis snd_conv)+

lemma extract_fields_reads:
  assumes "tw_requests w = []" and "extract_fields L rq schema vs ms w = (r, w')"
  shows "manifest_reads (rl_manifest L) w'"
proof -
  let ?ts = "extract_toolset L rq" and ?input = "extract_text rq schema vs"
  obtain a w1 where a: "reading_run L (fr_user rq) ?input (history_items ms) extract_allowed_tools ?ts w = (a, w1)" by fastforce
  from reading_run_keeps [OF no_requests_harmless [OF assms(1)]] a have h: "harmless_world ?ts w1" by (metis snd_conv)
  have "harmless_world ?ts w'"
  proof (cases a)
    case (Inr raw)
    with assms(2) a have "extracted L (guarded_toolset ?input ?ts) schema raw w1 = (r, w')"
      by (simp add: extract_fields_def Let_def)
    with extracted_keeps [of "guarded_toolset ?input ?ts" w1 L schema raw] h show ?thesis by simp
  qed (use assms(2) a h in \<open>simp add: extract_fields_def Let_def\<close>)
  then show ?thesis by (simp add: extract_toolset_def manifest_reads_harmless)
qed

lemma research_company_reads:
  assumes "tw_requests w = []" and "research_company L rq label subject hint schema vs w = (r, w')"
  shows "manifest_reads (rl_manifest L) w'"
proof -
  let ?ts = "research_toolset L rq" and ?input = "research_text rq label subject hint schema vs"
  obtain a w1 where a: "reading_run L (fr_user rq) ?input [] research_allowed_tools ?ts w = (a, w1)" by fastforce
  from reading_run_keeps [OF no_requests_harmless [OF assms(1)]] a have "harmless_world ?ts w1" by (metis snd_conv)
  with assms(2) a show ?thesis by (simp add: research_company_def Let_def research_toolset_def manifest_reads_harmless)
qed

text \<open>Only fields of the schema leave the checks.\<close>

definition schema_keys :: "py \<Rightarrow> pydict \<Rightarrow> bool" where
  "schema_keys schema flds = (\<forall>(k, v) \<in> set flds. \<exists>s types ft. schema = PDict s \<and> field_type_map s = Inr types \<and>
     map_of types k = Some ft \<and> v \<noteq> PNone \<and> (is_relate ft = is_dict v) \<and> \<not> is_list v)"

lemma checked_fields_keys: "checked_fields parsed schema = Inr flds \<Longrightarrow> schema_keys schema flds"
proof -
  assume a: "checked_fields parsed schema = Inr flds"
  have "\<exists>s types ft. schema = PDict s \<and> field_type_map s = Inr types \<and> map_of types k = Some ft \<and> v \<noteq> PNone \<and>
      (is_relate ft = is_dict v) \<and> \<not> is_list v" if "(k, v) \<in> set flds" for k v
  proof -
    from a that obtain d s where s: "schema = PDict s" "validate_fields (PDict d) s = Inr flds"
      by (auto simp: checked_fields_def schema_dict_def res_bind_Inr split: py.splits)
    from form_values_checked [OF s(2) that] obtain types ft v0 where f: "field_type_map s = Inr types" "map_of types k = Some ft" "v \<noteq> PNone"
      "if is_relate ft then \<exists>d0 r. v0 = PDict d0 \<and> v = PDict r \<and> pget r ''name'' = PStr (py_str (pget d0 ''name''))
         \<and> (has_key ''id'' r \<longleftrightarrow> truthy (pget d0 ''id'')) else v = v0 \<and> \<not> is_dict v \<and> \<not> is_list v" by blast
    with s(1) show ?thesis by (cases "is_relate ft") auto
  qed
  then show ?thesis by (auto simp: schema_keys_def)
qed

lemma extract_fields_keys:
  assumes "extract_fields L rq schema vs ms w = (Inr d, w')"
  shows "schema_keys schema (dict_or_empty (pget d ''fields''))"
proof -
  from assms obtain raw w1 where "extracted L (guarded_toolset (extract_text rq schema vs) (extract_toolset L rq)) schema raw w1 = (Inr d, w')"
    by (auto simp: extract_fields_def Let_def split: sum.splits prod.splits)
  then obtain parsed flds rest where "checked_answer parsed schema = Inr (flds, rest)" "pget d ''fields'' = PDict flds"
    by (auto simp: extracted_def Let_def res_bind_Inr pget_Cons split: sum.splits prod.splits)
  then show ?thesis by (auto simp: checked_answer_def res_bind_Inr intro: checked_fields_keys)
qed

lemma research_company_keys:
  assumes "research_company L rq label subject hint schema vs w = (Inr d, w')"
  shows "schema_keys schema (dict_or_empty (pget d ''fields''))"
  using assms by (auto simp: research_company_def researched_def Let_def res_bind_Inr pget_Cons split: prod.splits intro: checked_fields_keys)

lemma patch_fields_of: "build_form_patch md rid flds schema srcs msg lines lm = Inr patch \<Longrightarrow> pget patch ''fields'' = PDict flds"
  by (auto simp: build_form_patch_def res_bind_Inr pget_Cons)

lemma patch_reply_patch: "pget d ''form_patch'' = PDict p \<Longrightarrow> patch_reply patch = PDict d \<Longrightarrow> patch = p"
  by (auto simp: patch_reply_def pget_Cons)

lemma proposed_keys:
  assumes "propose_form_fields L ctx user_input rq instructions w = (Inr (PDict d), w')" and "pget d ''form_patch'' = PDict patch"
  shows "\<exists>schema. rl_schema L (fr_module rq) (fr_record rq) = Inr schema \<and> schema_keys schema (dict_or_empty (pget patch ''fields''))"
proof -
  from assms obtain schema e pa where s: "rl_schema L (fr_module rq) (fr_record rq) = Inr schema"
    "extract_fields L rq schema (current_values ctx) [PDict [(''role'', PStr ''user''), (''content'', PStr instructions)]] w = (Inr e, w')"
    "pget pa ''fields'' = PDict (dict_or_empty (pget e ''fields''))" "patch_reply pa = PDict d"
    by (auto simp: propose_form_fields_def related_contacts_response_def form_unavailable_def pget_Cons res_bind_Inr
        dest: patch_fields_of split: if_splits sum.splits prod.splits)
  with extract_fields_keys [OF s(2)] patch_reply_patch [OF assms(2) s(4)] show ?thesis by auto
qed

lemma researched_keys:
  assumes "research_record L ctx user_input rq subject hint w = (Inr (PDict d), w')" and "pget d ''form_patch'' = PDict patch"
  shows "\<exists>schema. rl_schema L (fr_module rq) (fr_record rq) = Inr schema \<and> schema_keys schema (dict_or_empty (pget patch ''fields''))"
proof -
  from assms obtain schema e pa where s: "rl_schema L (fr_module rq) (fr_record rq) = Inr schema"
    "research_company L rq (subject_label (fr_module rq)) subject hint schema (current_values ctx) w = (Inr e, w')"
    "pget pa ''fields'' = PDict (dict_or_empty (pget e ''fields''))" "patch_reply pa = PDict d"
    by (auto simp: research_record_def related_contacts_response_def form_unavailable_def pget_Cons res_bind_Inr
        dest: patch_fields_of split: if_splits sum.splits prod.splits)
  with research_company_keys [OF s(2)] patch_reply_patch [OF assms(2) s(4)] show ?thesis by auto
qed

lemma form_tools_read:
  assumes "tw_requests w = []"
  shows "propose_form_fields L ctx user_input rq instructions w = (r, w') \<Longrightarrow> manifest_reads (rl_manifest L) w'"
    and "research_record L ctx user_input rq subject hint w = (r, w') \<Longrightarrow> manifest_reads (rl_manifest L) w'"
  using no_requests_reads [OF assms] extract_fields_reads [OF assms] research_company_reads [OF assms]
  by (auto simp: propose_form_fields_def research_record_def split: if_splits sum.splits prod.splits)

section \<open>Properties\<close>


definition demo_form_request :: form_request where
  "demo_form_request = \<lparr>fr_tenant = ''t1'', fr_user = ''u1'', fr_module = ''Contacts'', fr_record = None\<rparr>"

definition demo_form_libs :: recommend_libs where
  "demo_form_libs = demo_recommend_libs\<lparr>rl_schema := (\<lambda>m r. Inr (PDict demo_schema)), rl_manifest := Some demo_parsed\<rparr>"


text \<open>An id the model made up stays in the value: nothing looks the record up.\<close>

lemma invented_id_kept:
  "checked_fields [(''fields'', PDict [(''account'', PDict [(''name'', PStr ''Acme''), (''id'', PStr ''made up'')])])] (PDict demo_schema)
     = Inr [(''account'', PDict [(''name'', PStr ''Acme''), (''id'', PStr ''made up'')])]"
  by code_simp

text \<open>One source given as a text instead of a list is cut into its characters.\<close>

lemma single_source_split: "source_list [(''sources'', PStr ''a.cz'')] = Inr [''a'', ''.'', ''c'', ''z'']"
  by code_simp

end
