(* ===== verification/Product_Lookup.thy ===== *)
theory Product_Lookup
  imports Filter_Builder Fuzzy Cards "HOL-Library.Multiset"
begin

text \<open>
  The product catalog lookup of the \<open>products\<close> capability (\<open>app/engine/product_tools.py\<close>): an
  exact query to the CRM, a query by the words of the name or a part of the code, hits of the
  vector index, the ranking and the table shown. The CRM's list action and the index are
  arguments that may raise; prices are exact numbers, printed by an argument. Identifiers are
  compared as values of the model.
\<close>

section \<open>Results\<close>

definition product_module :: string where "product_module = ''ProductTemplates''"

definition note_catalog :: string where
  "note_catalog = ''Ceny jsou katalogove; cena pro nabidku se dopocita podle ceniku pri vlozeni radku.''"

text \<open>
  \<open>_num\<close>. The test \<open>value in (None, "", False)\<close> is one of equality, and zero equals \<open>False\<close>.
\<close>

definition equals_false :: "py \<Rightarrow> bool" where
  "equals_false v = (case v of PNone \<Rightarrow> True | PStr s \<Rightarrow> s = [] | PBool b \<Rightarrow> \<not> b | PInt i \<Rightarrow> i = 0
     | PFloat r \<Rightarrow> parse_num r = Some (Fin 0) | _ \<Rightarrow> False)"

definition price :: "py \<Rightarrow> num option" where
  "price v = (if equals_false v then None else parse_num (replace_char (CHR '','') ''.'' (py_str v)))"

record product =
  pr_id :: string
  pr_name :: string
  pr_code :: string
  pr_maker :: string
  pr_category :: string
  pr_list_price :: "num option"
  pr_cost_price :: "num option"
  pr_currency :: string

definition to_product :: "pydict \<Rightarrow> product" where
  "to_product r = \<lparr>pr_id = str_or (pget r ''id''), pr_name = str_or (pget r ''name''), pr_code = str_or (pget r ''mft_part_num''),
     pr_maker = str_or (pget r ''manufacturer_name''), pr_category = str_or (pget r ''category_name''),
     pr_list_price = price (pget r ''list_price''), pr_cost_price = price (pget r ''cost_price''),
     pr_currency = py_str (por (pget r ''currency_id'') (PStr ''-99''))\<rparr>"

definition product_dict :: "(num option \<Rightarrow> py) \<Rightarrow> product \<Rightarrow> pydict" where
  "product_dict show_num p = [(''id'', PStr (pr_id p)), (''name'', PStr (pr_name p)), (''mft_part_num'', PStr (pr_code p)),
     (''manufacturer'', PStr (pr_maker p)), (''category'', PStr (pr_category p)),
     (''list_price'', show_num (pr_list_price p)), (''cost_price'', show_num (pr_cost_price p)),
     (''currency_id'', PStr (pr_currency p)), (''price_source'', PStr ''catalog'')]"

definition product_row :: "(num option \<Rightarrow> py) \<Rightarrow> product \<Rightarrow> pydict" where
  "product_row show_num p = [(''id'', PStr (pr_id p)), (''module'', PStr product_module), (''cells'', PDict
     (map (\<lambda>k. (k, pget (product_dict show_num p) k)) [''name'', ''mft_part_num'', ''list_price'', ''manufacturer'']))]"

definition product_cards :: "(num option \<Rightarrow> py) \<Rightarrow> product list \<Rightarrow> pydict list" where
  "product_cards show_num ps = (if ps = [] then []
     else [table_card ''Produkty'' product_module
       [(''name'', ''Nazev''), (''mft_part_num'', ''Kod''), (''list_price'', ''Cena''), (''manufacturer'', ''Vyrobce'')]
       (map (product_row show_num) ps)])"

section \<open>Ranking\<close>

definition product_name :: "pydict \<Rightarrow> string" where "product_name r = normalize_text (str_or (pget r ''name''))"
definition product_code :: "pydict \<Rightarrow> string" where "product_code r = normalize_text (str_or (pget r ''mft_part_num''))"

definition product_score :: "string \<Rightarrow> pydict \<Rightarrow> rat" where
  "product_score q r = (let part = product_code r; name = product_name r in
     if part \<noteq> [] \<and> part = q then 10
     else if name \<noteq> [] \<and> name = q then 9
     else max (score_lexical_fuzzy q name) (if part \<noteq> [] then score_lexical_fuzzy q part else 0))"

definition rank_products :: "string \<Rightarrow> pydict list \<Rightarrow> pydict list" where
  "rank_products query rs = sort_key (\<lambda>r. - product_score (normalize_text query) r) rs"

section \<open>The lookup\<close>

definition is_exact :: "string \<Rightarrow> pydict \<Rightarrow> bool" where
  "is_exact query r = (normalize_text query = product_name r \<or> normalize_text query = product_code r)"

text \<open>\<open>[^\W_]+\<close>\<close>

fun word_runs :: "string \<Rightarrow> string \<Rightarrow> string list" where
  "word_runs acc [] = (if acc = [] then [] else [rev acc])"
| "word_runs acc (c # s) =
     (if is_word_char c \<and> c \<noteq> CHR ''_'' then word_runs (c # acc) s
      else if acc = [] then word_runs [] s else rev acc # word_runs [] s)"

definition condition :: "string \<Rightarrow> filter_op \<Rightarrow> string \<Rightarrow> filter_spec" where
  "condition field op v = \<lparr>fs_field = field, fs_op = op, fs_value = OneValue v\<rparr>"

definition product_filter :: "filter_spec list \<Rightarrow> pydict result" where
  "product_filter specs = build_filter product_module None specs None None None"

definition either_of :: "pydict \<Rightarrow> pydict \<Rightarrow> pydict" where
  "either_of a b = [(''operator'', PStr ''or''), (''operands'', PList [PDict a, PDict b])]"

definition exact_filter :: "string \<Rightarrow> pydict result" where
  "exact_filter query = res_bind (product_filter [condition ''name'' OpEq query]) (\<lambda>a.
     res_bind (product_filter [condition ''mft_part_num'' OpEq query]) (\<lambda>b. Inr (either_of a b)))"

definition partial_filter :: "string \<Rightarrow> pydict result" where
  "partial_filter query = (let tokens = word_runs [] query in
     res_bind (product_filter (map (condition ''name'' OpCont) tokens)) (\<lambda>a.
     res_bind (product_filter [condition ''mft_part_num'' OpCont query]) (\<lambda>b.
       Inr (if tokens = [] then b else either_of a b))))"

definition list_request :: "nat \<Rightarrow> pydict \<Rightarrow> pydict" where
  "list_request fetch flt = [(''filter'', PDict flt), (''limit'', PInt (int fetch)), (''offset'', PInt 0)]"

definition listed_records :: "py result \<Rightarrow> pydict list result" where
  "listed_records reply = res_bind reply (\<lambda>p. case p of
     PDict d \<Rightarrow> res_bind (py_iter (por (pget d ''records'') (PList []))) (\<lambda>xs. Inr (dicts_of xs))
   | _ \<Rightarrow> Inl (AttributeError ''get''))"

text \<open>
  The two queries: the records so far stay when the second one fails, and the status is then
  \<open>degraded\<close>.
\<close>

definition catalog_records :: "(pydict \<Rightarrow> py result) \<Rightarrow> string \<Rightarrow> nat \<Rightarrow> pydict list \<times> bool" where
  "catalog_records ask query fetch =
     (case res_bind (exact_filter query) (\<lambda>f. listed_records (ask (list_request fetch f))) of
        Inl e \<Rightarrow> ([], False)
      | Inr rs \<Rightarrow>
          (let exact = filter (is_exact query) rs in
           if exact \<noteq> [] then (exact, True)
           else (case res_bind (partial_filter query) (\<lambda>f. listed_records (ask (list_request fetch f))) of
               Inl e \<Rightarrow> (rs, False)
             | Inr rs2 \<Rightarrow> (rs2, True))))"

definition records_from_hits :: "py list \<Rightarrow> pydict list" where
  "records_from_hits hits = concat (map (\<lambda>h. case h of
     PDict d \<Rightarrow> (case pget d ''payload'' of
         PDict p \<Rightarrow> (let r = (case pget p ''record'' of PDict r \<Rightarrow> r | _ \<Rightarrow> p) in if r = [] then [] else [r])
       | _ \<Rightarrow> [])
   | _ \<Rightarrow> []) hits)"

definition hashable :: "py \<Rightarrow> bool" where
  "hashable v = (case v of PList _ \<Rightarrow> False | PDict _ \<Rightarrow> False | _ \<Rightarrow> True)"

text \<open>Adding the hits whose identifier is new; an identifier that cannot be hashed raises.\<close>

fun add_hits :: "py set \<Rightarrow> pydict list \<Rightarrow> pydict list \<Rightarrow> pydict list \<times> bool" where
  "add_hits seen rs [] = (rs, True)"
| "add_hits seen rs (h # hs) =
     (if \<not> hashable (pget h ''id'') then (rs, False)
      else if pget h ''id'' \<in> seen then add_hits seen rs hs
      else add_hits (insert (pget h ''id'') seen) (rs @ [h]) hs)"

definition with_hits :: "py list result \<Rightarrow> pydict list \<Rightarrow> pydict list \<times> bool" where
  "with_hits found rs = (case found of
     Inl e \<Rightarrow> (rs, False)
   | Inr hits \<Rightarrow> if \<not> list_all (\<lambda>r. hashable (pget r ''id'')) rs then (rs, False)
       else add_hits ((\<lambda>r. pget r ''id'') ` set rs) rs (records_from_hits hits))"

record lookup_env =
  lk_list :: "pydict \<Rightarrow> py result"
  lk_search :: "(string \<Rightarrow> nat \<Rightarrow> py list result) option"

definition lookup_records :: "lookup_env \<Rightarrow> string \<Rightarrow> nat \<Rightarrow> pydict list \<times> bool" where
  "lookup_records env query fetch = (case catalog_records (lk_list env) query fetch of (rs, ok) \<Rightarrow>
     (case lk_search env of
        None \<Rightarrow> (rs, ok)
      | Some search \<Rightarrow> if list_ex (is_exact query) rs then (rs, ok)
          else (case with_hits (search query fetch) rs of (rs', ok') \<Rightarrow> (rs', ok \<and> ok'))))"

definition product_lookup :: "lookup_env \<Rightarrow> string \<Rightarrow> nat \<Rightarrow> bool \<times> product list" where
  "product_lookup env text_query limit = (let query = py_strip text_query in
     if query = [] then (True, [])
     else (case lookup_records env query (max (limit * 4) 20) of (rs, ok) \<Rightarrow>
       (ok, map to_product (filter (\<lambda>r. truthy (pget r ''id'')) (take limit (rank_products query rs))))))"

definition product_lookup_tool :: "(num option \<Rightarrow> py) \<Rightarrow> lookup_env \<Rightarrow> string \<Rightarrow> nat \<Rightarrow> pydict" where
  "product_lookup_tool show_num env query limit = (case product_lookup env query limit of (ok, ps) \<Rightarrow>
     [(''status'', PStr (if ok then ''ok'' else ''degraded'')), (''results'', PList (map (PDict \<circ> product_dict show_num) ps)),
      (''cards'', PList (map PDict (product_cards show_num ps))), (''note'', PStr note_catalog)])"

section \<open>Lemmas\<close>

lemma rank_products_perm: "mset (rank_products q rs) = mset rs"
  by (simp add: rank_products_def)

lemma rank_products_sorted: "sorted (map (\<lambda>r. - product_score (normalize_text q) r) (rank_products q rs))"
  by (simp add: rank_products_def)

lemma add_hits_from: "add_hits seen rs hs = (rs', ok) \<Longrightarrow> set rs' \<subseteq> set rs \<union> set hs \<and> set rs \<subseteq> set rs'"
  by (induction seen rs hs rule: add_hits.induct) (auto split: if_splits)

lemma with_hits_from:
  "with_hits found rs = (rs', ok) \<Longrightarrow> set rs' \<subseteq> set rs \<union> (case found of Inl e \<Rightarrow> {} | Inr hits \<Rightarrow> set (records_from_hits hits))
     \<and> set rs \<subseteq> set rs'"
  using add_hits_from by (fastforce simp: with_hits_def split: sum.splits if_splits)


text \<open>Everything shown comes from a record of the CRM or of a hit.\<close>

definition replied :: "(pydict \<Rightarrow> py result) \<Rightarrow> pydict \<Rightarrow> bool" where
  "replied ask r = (\<exists>q rs. listed_records (ask q) = Inr rs \<and> r \<in> set rs)"

definition hit_of :: "lookup_env \<Rightarrow> string \<Rightarrow> nat \<Rightarrow> pydict \<Rightarrow> bool" where
  "hit_of env query fetch r = (case lk_search env of None \<Rightarrow> False
   | Some search \<Rightarrow> (case search query fetch of Inl e \<Rightarrow> False | Inr hits \<Rightarrow> r \<in> set (records_from_hits hits)))"

lemma catalog_from:
  assumes "catalog_records ask query fetch = (rs, ok)" "r \<in> set rs"
  shows "replied ask r"
  using assms by (auto simp: catalog_records_def replied_def res_bind_Inr Let_def split: sum.splits if_splits) blast+

lemma lookup_from:
  assumes "lookup_records env query fetch = (rs, ok)" "r \<in> set rs"
  shows "replied (lk_list env) r \<or> hit_of env query fetch r"
proof -
  obtain rs0 ok0 where c: "catalog_records (lk_list env) query fetch = (rs0, ok0)" by fastforce
  show ?thesis
  proof (cases "lk_search env")
    case None
    with assms c catalog_from [OF c] show ?thesis by (simp add: lookup_records_def)
  next
    case (Some search)
    obtain rs1 ok1 where h: "with_hits (search query fetch) rs0 = (rs1, ok1)" by fastforce
    from assms c Some h have "r \<in> set rs0 \<or> r \<in> set rs1" by (auto simp: lookup_records_def split: if_splits)
    with with_hits_from [OF h] catalog_from [OF c] Some show ?thesis
      by (auto simp: hit_of_def split: sum.splits)
  qed
qed

section \<open>Properties\<close>

text \<open>
  Results are real: a lookup shows at most as many products as asked for, best score first, each
  with an identifier and from a record of the CRM or a hit of the index.
\<close>

theorem products_are_real:
  assumes "product_lookup env t limit = (ok, ps)"
  shows "length ps \<le> limit \<and> (\<forall>p \<in> set ps. \<exists>r. p = to_product r \<and> truthy (pget r ''id'') \<and>
    (replied (lk_list env) r \<or> hit_of env (py_strip t) (max (limit * 4) 20) r))"
proof (cases "py_strip t = []")
  case True
  with assms show ?thesis by (simp add: product_lookup_def)
next
  case False
  obtain rs ok1 where l: "lookup_records env (py_strip t) (max (limit * 4) 20) = (rs, ok1)" by fastforce
  let ?top = "take limit (rank_products (py_strip t) rs)"
  have ps: "ps = map to_product (filter (\<lambda>r. truthy (pget r ''id'')) ?top)"
    using assms False l by (simp add: product_lookup_def)
  have "set (rank_products (py_strip t) rs) = set rs" using mset_eq_setD [OF rank_products_perm] .
  then have "replied (lk_list env) r \<or> hit_of env (py_strip t) (max (limit * 4) 20) r" if "r \<in> set ?top" for r
    using lookup_from [OF l, of r] in_set_takeD [OF that] by simp
  moreover have "length ps \<le> limit"
    unfolding ps by (simp add: le_trans [OF length_filter_le])
  ultimately show ?thesis unfolding ps by auto
qed

text \<open>
  Exact matches win: when the first query returns a record whose code or name is the text asked
  for, only such records are shown, and neither the second query nor the index is asked.
\<close>

theorem exact_products_win:
  assumes "py_strip t \<noteq> []"
    and "res_bind (exact_filter (py_strip t)) (\<lambda>f. listed_records (lk_list env (list_request (max (limit * 4) 20) f))) = Inr rs"
    and "list_ex (is_exact (py_strip t)) rs"
  shows "product_lookup env t limit = (True, map to_product (filter (\<lambda>r. truthy (pget r ''id''))
    (take limit (rank_products (py_strip t) (filter (is_exact (py_strip t)) rs)))))"
proof -
  let ?rs = "filter (is_exact (py_strip t)) rs"
  have "?rs \<noteq> []" using assms(3) by (auto simp: list_ex_iff filter_empty_conv)
  then have c: "catalog_records (lk_list env) (py_strip t) (max (limit * 4) 20) = (?rs, True)"
    using assms(2) by (simp add: catalog_records_def Let_def)
  have "list_ex (is_exact (py_strip t)) ?rs" using assms(3) by (auto simp: list_ex_iff)
  then have "lookup_records env (py_strip t) (max (limit * 4) 20) = (?rs, True)"
    by (simp add: lookup_records_def c split: option.splits)
  with assms(1) show ?thesis by (simp add: product_lookup_def Let_def)
qed

text \<open>A price of zero is taken for a missing one when it comes as a number, and not when it comes as text.\<close>

lemma free_product_without_price: "price (PInt 0) = None \<and> price (PStr ''0'') = Some (Fin 0)"
  by code_simp

end
