(* ===== verification/Spec2Isabelle.thy ===== *)
theory Spec2Isabelle
  imports Agent_Turn Request_Auth Tenant_Auth Tenant_Config Filter_Builder Pipeline Web_Tools Crm_Aggregate Rag_Search Index_Api Skills Crm_Actions Briefing Turn_Stream Audio_Upload Form_Extract Product_Lookup
begin

text \<open>
  A verification development for talk2crm, the multi-tenant gateway between a CRM form or voice
  client, a language model and the CRM of each tenant. A client sends a text; the gateway
  authenticates it, completes the context of the turn from the chat, lets the model call the
  tools of the tenant's CRM, and shows an answer. The model may read; every write is previewed
  by the CRM, shown to the user, and executed only when the user confirms.

  \<^bold>\<open>Parts of the program and their theories\<close>

  \<^item> Requests: \<open>Request_Auth\<close> is \<open>app/core/security.py\<close> and \<open>stream_token.py\<close> (signatures, clock
    skew, stream tokens), \<open>Nonce_Store\<close> is \<open>nonce_store.py\<close>, \<open>Tenant_Auth\<close> is
    \<open>services/tenant_manager.py\<close> and \<open>api/dependencies.py\<close>, \<open>Tenant_Config\<close> is
    \<open>services/tenant_llm.py\<close> and \<open>module_catalog.py\<close>, \<open>Ttl_Cache\<close> the caches they share.
  \<^item> Tools of the CRM: \<open>Tool_Contracts\<close> (\<open>tools/contracts.py\<close>), \<open>Manifest_Cache\<close>
    (\<open>manifest_cache.py\<close>, \<open>snapshots.py\<close>), \<open>Resilience\<close> (\<open>resilience.py\<close>), \<open>Crm_Provider\<close>
    (\<open>crm_provider.py\<close>), \<open>Tool_Args\<close> (\<open>validation.py\<close>), \<open>Observation\<close> (\<open>observation.py\<close>),
    \<open>Toolset\<close> (\<open>toolset.py\<close>): the tools a turn offers and the only path to the CRM.
  \<^item> The agent: \<open>Capabilities\<close> (\<open>engine/capabilities.py\<close>, \<open>tools/prompt.py\<close>), \<open>Agent_Loop\<close>
    (\<open>engine/agent.py\<close>), \<open>Answer_Stream\<close> (\<open>answer_stream.py\<close>), \<open>Contact_Proposals\<close>
    (\<open>contact_tools.py\<close>), \<open>Agent_Turn\<close> (\<open>build_turn_toolset\<close> with the loop), \<open>Form_Fields\<close>
    (\<open>extraction.py\<close>, \<open>form_tools.py\<close>, \<open>domain/form_patch.py\<close>: the checks) with \<open>Form_Extract\<close>
    (the same files and \<open>company_research.py\<close>: the runs and the tools), \<open>Filter_Builder\<close>
    (\<open>filter_builder.py\<close>), \<open>Web_Tools\<close> (\<open>engine/web_fetch.py\<close>, \<open>web_search.py\<close>: the address
    filter, redirects, the text of a page, the search), \<open>Skills\<close> (\<open>services/skill_service.py\<close>,
    \<open>skill_capture_service.py\<close>, \<open>domain/skill_contracts.py\<close>: the overlays of a tenant and of a
    user, their approval and the handlers of \<open>api/endpoints.py\<close> for them).
  \<^item> The client of the CRM: \<open>Crm_Session\<close> (\<open>services/crm_client.py\<close>: the pooled client, the signed
    headers, the cache of session ids, the login and the one retry of \<open>crm_request\<close>, the tools
    endpoints), \<open>Crm_Actions\<close> (the record operations of the same file, one definition each), and
    the two of them under the readers: \<open>serves_query\<close> is what a reader relies on, and
    \<open>Crm_Actions\<close> discharges it for the real requests.
  \<^item> Records of the CRM: \<open>Record_Extract\<close> (\<open>engine/record_extract.py\<close>: rows out of replies of any
    shape, identities, matching and merging), \<open>Crm_Read\<close> (\<open>services/crm_read_service.py\<close>: the pages
    of a module, the scope check), \<open>Decimals\<close> and \<open>Crm_Aggregate\<close>
    (\<open>services/crm_aggregate_service.py\<close>: amounts as \<open>Decimal\<close>, sums and counts over all pages),
    \<open>Rag_Index\<close> and \<open>Rag_Search\<close> (\<open>engine/rag.py\<close>: the ingest with its batches, the entity search
    with its deduplication and the search tool of \<open>engine/tools.py\<close>), \<open>Index_Api\<close> (the handlers of
    \<open>api/endpoints.py\<close> for the ingest, the status and the search), \<open>Fuzzy\<close> (\<open>utils/fuzzy.py\<close>:
    lexical similarity), \<open>Briefing\<close> (\<open>services/briefing_service.py\<close>, \<open>engine/briefing_tools.py\<close>: the
    daily overview, its cache and its summary).
  \<^item> Proposals and their presentation: \<open>Pending_Action\<close> (\<open>domain/contracts.py\<close>),
    \<open>Pending_Patch\<close> (\<open>engine/pending_patch.py\<close>), \<open>Agent_Result\<close> and \<open>Cards\<close>
    (\<open>presentation/agent_result.py\<close>, \<open>cards.py\<close>).
  \<^item> The chat: \<open>Chat_Store\<close> (\<open>services/chat_service.py\<close> over \<open>database/models.py\<close>),
    \<open>Turn_Context\<close> and \<open>Pipeline\<close> (\<open>engine/pipeline.py\<close>): \<open>process_input\<close> is
    \<open>process_input_core\<close>, the composition of everything above; \<open>Chat_Titles\<close>
    (\<open>services/chat_titles.py\<close>, the plain text of \<open>agent_result.py\<close>).
  \<^item> The service: \<open>Chat_Api\<close> (the handlers of \<open>api/endpoints.py\<close> for chats, turns and the event of
    a created record, as one function over the chat tables), \<open>Turn_Stream\<close> (the handlers that
    stream a turn: the task, its queue and the generator as a step relation), \<open>Audio_Upload\<close>
    (\<open>core/audio_upload.py\<close> and the handler of spoken input), \<open>Recommend\<close>
    (\<open>engine/recommendations.py\<close>: the read-only run of the agent after a meeting) and
    \<open>Product_Lookup\<close> (\<open>engine/product_tools.py\<close>: the catalog lookup).
  \<^item> Language: \<open>Prelude\<close> (exceptions as values, association lists), \<open>Py_Text\<close> (strings),
    \<open>Py_Value\<close> (dynamic values), \<open>Py_Datetime\<close> (\<open>strptime\<close> and the calendar), \<open>Json\<close>
    (\<open>json.dumps\<close>, \<open>json.loads\<close>), \<open>Text_Utils\<close> (\<open>app/utils\<close>).

  \<^bold>\<open>How the code is modelled\<close>

  A class with state is a record and its methods return the new record; a dict is an
  association list in insertion order; a value of unknown type is a \<open>py\<close>; an exception is the
  left side of a result; a function that awaits is one step whose outcome on the other side is
  an argument (a transport, a clock, a model, a table). The requests that leave the gateway are
  collected in the world of a turn (\<open>turn_world\<close>), so a property can speak of all of them.
  Regular expressions are recognisers of the same language. Text is Latin-1: the Czech messages
  stand without their diacritics, and characters beyond one byte are outside the model.
  Libraries (JSON Schema, JSON repair, Fernet, base64, the keyed hash, \<open>urlparse\<close>, the language
  model) are arguments; a property that needs something of them says so in a hypothesis.

  \<^bold>\<open>What the lemmas show\<close>

  \<^item> Writes. \<open>Toolset\<close> shows it of one call, \<open>Agent_Turn\<close> of a whole run of the agent, \<open>Pipeline\<close>
    of a whole request: without a confirmation nothing is executed that the manifest does not
    declare read-only; with one, exactly the previewed call runs. \<open>Observation\<close>,
    \<open>Pending_Action\<close>, \<open>Agent_Result\<close>, \<open>Pending_Patch\<close> and \<open>Chat_Store\<close> carry the previewed
    call from the CRM's answer to the next turn.
  \<^item> Isolation. A key acts for its own tenant, a nonce once, a breaker and a chat row for its
    own tenant and user; the system's model key never leaves for a tenant's endpoint.
  \<^item> Availability. The manifest cache never raises and bounds staleness, the breaker refuses and
    recovers, a turn ends within its bounds with an answer that is not empty.
  \<^item> The client of the CRM. Every request carries the session of its own user and a signature that
    no header of the caller replaces; a session the CRM has dropped costs one more login and one
    more attempt, and no request is sent more than twice (\<open>Crm_Session\<close>). A list read in pages is
    the table's rows, each once and in order, through the client's own HTTP requests
    (\<open>Crm_Actions\<close> with \<open>Crm_Read\<close>).
  \<^item> Search and overview. An ingest leaves exactly the current points of the records it read and
    is idempotent (\<open>Rag_Index\<close>), and a failing module does not stop those after it
    (\<open>Index_Api\<close>); the search answers every hit's record once with its best score,
    in the order of the scores (\<open>Rag_Search\<close>); an amount that is summed is the sum over the whole
    table (\<open>Crm_Aggregate\<close>); a briefing shows records of its user only, a cached one is a complete
    one of that user and day, and its summary falls back to the records (\<open>Briefing\<close>).
  \<^item> Learned rules. A rule that is not approved reaches no prompt and replaces none that is; the
    tables keep one row per name (\<open>Skills\<close>).
  \<^item> The service. Whatever a client requests, it reads and changes rows of its own tenant and user
    only, and the chat tables keep one row per chat and one owner per message (\<open>Chat_Api\<close>); a
    stream delivers the events of the turn in order up to its result or error, and ends
    (\<open>Turn_Stream\<close>); a spoken request leaves no file (\<open>Audio_Upload\<close>); recommending and filling a
    form send reads only (\<open>Recommend\<close>, \<open>Form_Extract\<close>); an exact product is never mixed with others (\<open>Product_Lookup\<close>).
  \<^item> Content. What the web returns cannot open a control tag; tool calls of the model never
    reach the user's stream; form values and filters are well-formed; cards show every record.

  \<^bold>\<open>Bounds and fuel\<close>

  The agent loop recurses on the iterations left, \<open>range(agent_max_iterations)\<close>, so it needs no
  fuel. The JSON reader takes as fuel the length of its text; every value it can read needs
  fewer steps than characters (\<open>json_need\<close>). Loops over text and lists are structural or carry a
  measure. The pages of a listing and of an ingest recurse on a fuel: \<open>length rows div page + 1\<close>
  requests read a table of these rows, since every full page advances the offset by its length and
  the first short one ends the loop. A fetch follows at most the redirects of its hop counter (a
  structural argument, six requests in all). A stream ends after at most \<open>stream_work\<close> steps: two
  for every event still to come, one for every queued one. The deadline of a turn is an argument: it may strike after any number of rounds or in
  a tool call.

  \<^bold>\<open>Not modelled\<close>

  Routing, request models and start-up of the HTTP service, the transport below the HTTP client,
  speech recognition and synthesis, settings, migrations and scripts are I/O or libraries; the
  components of the manifest list each with its reason. Embedders, the vector database's own
  ranking, the keyed hash, JSON Schema and the language model are arguments. The wording of the
  system prompt, of the extraction prompts and of the base rules is an argument too. Of the
  records the debug views (\<open>run_search\<close>, \<open>run_data\<close>, with \<open>account_resolution.py\<close> and
  \<open>date_filters.py\<close> that only they use), of the learned rules the model call that drafts one, of
  a turn the trace log are left out.
\<close>

end
